(* ===== verification/Prelude.thy ===== *)
theory Prelude
  imports "HOL-Library.Word"
begin

unbundle bit_operations_syntax

text \<open>
  Shared vocabulary of the development: the machine integers of the Rust sources, the
  outcome of a Rust computation (\<open>Ok\<close>, \<open>Err\<close> or a panic), slices as lists with the
  panicking index and range operations of the language, and the big-endian and little-endian
  byte conversions of the standard library.  \<open>usize\<close> values are \<open>nat\<close>: every one of them in
  the modelled code is a length, an index or a sum of a few 16-bit values, far from the
  64-bit bound; the places where the code itself guards against overflow keep the guard.
\<close>

section \<open>Machine integers\<close>

type_synonym u8 = "8 word"
type_synonym u16 = "16 word"
type_synonym u32 = "32 word"
type_synonym bytes = "u8 list"

named_theorems res_simps \<open>evaluation of outcomes, indexing and slicing\<close>
named_theorems wire_simps \<open>byte images and the functions that build them\<close>

section \<open>Outcomes\<close>

text \<open>
  A function of type \<open>Result<T, E>\<close> returns \<open>Ok\<close> or \<open>Err\<close>; an index or a range out of
  bounds, a failed \<open>expect\<close> and an arithmetic overflow panic.
\<close>

datatype ('e, 'a) res = Ok 'a | Err 'e | Panic

fun and_then :: "('e, 'a) res \<Rightarrow> ('a \<Rightarrow> ('e, 'b) res) \<Rightarrow> ('e, 'b) res" where
  "and_then (Ok x) f = f x"
| "and_then (Err e) f = Err e"
| "and_then Panic f = Panic"

definition res_map :: "('a \<Rightarrow> 'b) \<Rightarrow> ('e, 'a) res \<Rightarrow> ('e, 'b) res" where
  "res_map f r = and_then r (\<lambda>x. Ok (f x))"

definition ok_or :: "'a option \<Rightarrow> 'e \<Rightarrow> ('e, 'a) res" where
  "ok_or v e = (case v of Some x \<Rightarrow> Ok x | None \<Rightarrow> Err e)"

definition expect :: "'a option \<Rightarrow> ('e, 'a) res" where
  "expect v = (case v of Some x \<Rightarrow> Ok x | None \<Rightarrow> Panic)"

fun is_ok :: "('e, 'a) res \<Rightarrow> bool" where
  "is_ok (Ok _) = True"
| "is_ok _ = False"

lemma and_then_eq_Ok [res_simps]:
  "and_then m f = Ok y \<longleftrightarrow> (\<exists>x. m = Ok x \<and> f x = Ok y)"
  by (cases m) auto

lemma and_then_eq_Err:
  "and_then m f = Err e \<longleftrightarrow> m = Err e \<or> (\<exists>x. m = Ok x \<and> f x = Err e)"
  by (cases m) auto

lemma and_then_eq_Panic [res_simps]:
  "and_then m f = Panic \<longleftrightarrow> m = Panic \<or> (\<exists>x. m = Ok x \<and> f x = Panic)"
  by (cases m) auto

lemma and_then_assoc: "and_then (and_then m f) g = and_then m (\<lambda>x. and_then (f x) g)"
  by (cases m) auto

lemma res_map_simps [simp]:
  "res_map f (Ok x) = Ok (f x)" "res_map f (Err e) = Err e" "res_map f Panic = Panic"
  by (simp_all add: res_map_def)

lemma res_map_eq_Ok [res_simps]: "res_map f r = Ok y \<longleftrightarrow> (\<exists>x. r = Ok x \<and> y = f x)"
  by (cases r) auto

lemma res_map_eq_Panic [res_simps]: "res_map f r = Panic \<longleftrightarrow> r = Panic"
  by (cases r) auto

lemma ok_or_simps [simp]: "ok_or (Some x) e = Ok x" "ok_or None e = Err e"
  by (simp_all add: ok_or_def)

lemma ok_or_eq_Ok [res_simps]: "ok_or v e = Ok x \<longleftrightarrow> v = Some x"
  by (cases v) auto

lemma ok_or_not_Panic [simp]: "ok_or v e \<noteq> Panic"
  by (cases v) auto

lemma expect_simps [simp]: "expect (Some x) = Ok x" "expect None = Panic"
  by (simp_all add: expect_def)

section \<open>Slices\<close>

definition at :: "'a list \<Rightarrow> nat \<Rightarrow> ('e, 'a) res" where
  "at xs i = (if i < length xs then Ok (xs ! i) else Panic)"

definition slice :: "'a list \<Rightarrow> nat \<Rightarrow> nat \<Rightarrow> ('e, 'a list) res" where
  "slice xs a b = (if a \<le> b \<and> b \<le> length xs then Ok (take (b - a) (drop a xs)) else Panic)"

definition slice_from :: "'a list \<Rightarrow> nat \<Rightarrow> ('e, 'a list) res" where
  "slice_from xs a = (if a \<le> length xs then Ok (drop a xs) else Panic)"

definition put_at :: "'a list \<Rightarrow> nat \<Rightarrow> 'a \<Rightarrow> ('e, 'a list) res" where
  "put_at xs i v = (if i < length xs then Ok (xs[i := v]) else Panic)"

text \<open>\<open>buf[a..b].copy_from_slice(src)\<close>: panics on a bad range and on unequal lengths.\<close>

definition copy_at :: "'a list \<Rightarrow> nat \<Rightarrow> nat \<Rightarrow> 'a list \<Rightarrow> ('e, 'a list) res" where
  "copy_at xs a b src =
     (if a \<le> b \<and> b \<le> length xs \<and> length src = b - a
      then Ok (take a xs @ src @ drop b xs) else Panic)"

lemma at_Ok [simp]: "i < length xs \<Longrightarrow> at xs i = Ok (xs ! i)"
  by (simp add: at_def)

lemma at_eq_Ok [res_simps]: "at xs i = Ok v \<longleftrightarrow> i < length xs \<and> v = xs ! i"
  by (auto simp: at_def)

lemma at_eq_Panic [res_simps]: "at xs i = Panic \<longleftrightarrow> length xs \<le> i"
  by (auto simp: at_def)

lemma at_not_Err [simp]: "at xs i \<noteq> Err e"
  by (simp add: at_def)

lemma slice_Ok [simp]: "a \<le> b \<Longrightarrow> b \<le> length xs \<Longrightarrow> slice xs a b = Ok (take (b - a) (drop a xs))"
  by (simp add: slice_def)

lemma slice_from_Ok [simp]: "a \<le> length xs \<Longrightarrow> slice_from xs a = Ok (drop a xs)"
  by (simp add: slice_from_def)

lemma put_at_Ok [simp]: "i < length xs \<Longrightarrow> put_at xs i v = Ok (xs[i := v])"
  by (simp add: put_at_def)

lemma copy_at_Ok [simp]:
  "a \<le> b \<Longrightarrow> b \<le> length xs \<Longrightarrow> length src = b - a \<Longrightarrow>
   copy_at xs a b src = Ok (take a xs @ src @ drop b xs)"
  by (simp add: copy_at_def)

text \<open>The total variants \<open>xs.get(i)\<close> and \<open>xs.get(a..b)\<close>.\<close>

definition get :: "'a list \<Rightarrow> nat \<Rightarrow> 'a option" where
  "get xs i = (if i < length xs then Some (xs ! i) else None)"

definition get_range :: "'a list \<Rightarrow> nat \<Rightarrow> nat \<Rightarrow> 'a list option" where
  "get_range xs a b = (if a \<le> b \<and> b \<le> length xs then Some (take (b - a) (drop a xs)) else None)"

lemma get_append: "i < length xs \<Longrightarrow> get (xs @ ys) i = get xs i"
  by (simp add: get_def nth_append)

lemma get_range_append: "b \<le> length xs \<Longrightarrow> get_range (xs @ ys) a b = get_range xs a b"
  by (simp add: get_range_def)

text \<open>A slice known to have at least \<open>n\<close> elements, as explicit cells and a rest.\<close>

lemma length_Suc_le_conv: "Suc n \<le> length xs \<longleftrightarrow> (\<exists>y ys. xs = y # ys \<and> n \<le> length ys)"
  by (cases xs) auto

lemma length_eq_1: "length xs = 1 \<longleftrightarrow> (\<exists>a. xs = [a])"
  and length_eq_2: "length xs = 2 \<longleftrightarrow> (\<exists>a b. xs = [a, b])"
  and length_eq_3: "length xs = 3 \<longleftrightarrow> (\<exists>a b c. xs = [a, b, c])"
  and length_eq_4: "length xs = 4 \<longleftrightarrow> (\<exists>a b c d. xs = [a, b, c, d])"
  and length_eq_6: "length xs = 6 \<longleftrightarrow> (\<exists>a b c d e f. xs = [a, b, c, d, e, f])"
  and length_eq_7: "length xs = 7 \<longleftrightarrow> (\<exists>a b c d e f g. xs = [a, b, c, d, e, f, g])"
  by (auto simp: numeral_eq_Suc length_Suc_conv)

lemma length_ge_1: "1 \<le> length xs \<longleftrightarrow> (\<exists>a ys. xs = a # ys)"
  and length_ge_2: "2 \<le> length xs \<longleftrightarrow> (\<exists>a b ys. xs = a # b # ys)"
  and length_ge_3: "3 \<le> length xs \<longleftrightarrow> (\<exists>a b c ys. xs = a # b # c # ys)"
  and length_ge_4: "4 \<le> length xs \<longleftrightarrow> (\<exists>a b c d ys. xs = a # b # c # d # ys)"
  and length_ge_5: "5 \<le> length xs \<longleftrightarrow> (\<exists>a b c d e ys. xs = a # b # c # d # e # ys)"
  and length_ge_6: "6 \<le> length xs \<longleftrightarrow> (\<exists>a b c d e f ys. xs = a # b # c # d # e # f # ys)"
  and length_ge_7: "7 \<le> length xs \<longleftrightarrow> (\<exists>a b c d e f g ys. xs = a # b # c # d # e # f # g # ys)"
  and length_ge_8: "8 \<le> length xs \<longleftrightarrow>
         (\<exists>a b c d e f g h ys. xs = a # b # c # d # e # f # g # h # ys)"
  and length_ge_9: "9 \<le> length xs \<longleftrightarrow>
         (\<exists>a b c d e f g h i ys. xs = a # b # c # d # e # f # g # h # i # ys)"
  and length_ge_10: "10 \<le> length xs \<longleftrightarrow>
         (\<exists>a b c d e f g h i j ys. xs = a # b # c # d # e # f # g # h # i # j # ys)"
  by (auto simp: numeral_eq_Suc length_Suc_le_conv)

lemma length_add_2: "2 + n \<le> length xs \<longleftrightarrow>
         (\<exists>a b ys. xs = a # b # ys \<and> n \<le> length ys)"
  and length_add_3: "3 + n \<le> length xs \<longleftrightarrow>
         (\<exists>a b c ys. xs = a # b # c # ys \<and> n \<le> length ys)"
  and length_add_4: "4 + n \<le> length xs \<longleftrightarrow>
         (\<exists>a b c d ys. xs = a # b # c # d # ys \<and> n \<le> length ys)"
  and length_add_5: "5 + n \<le> length xs \<longleftrightarrow>
         (\<exists>a b c d e ys. xs = a # b # c # d # e # ys \<and> n \<le> length ys)"
  and length_add_6: "6 + n \<le> length xs \<longleftrightarrow>
         (\<exists>a b c d e f ys. xs = a # b # c # d # e # f # ys \<and> n \<le> length ys)"
  and length_add_7: "7 + n \<le> length xs \<longleftrightarrow>
         (\<exists>a b c d e f g ys. xs = a # b # c # d # e # f # g # ys \<and> n \<le> length ys)"
  and length_add_8: "8 + n \<le> length xs \<longleftrightarrow>
         (\<exists>a b c d e f g h ys. xs = a # b # c # d # e # f # g # h # ys \<and> n \<le> length ys)"
  and length_add_10: "10 + n \<le> length xs \<longleftrightarrow>
         (\<exists>a b c d e f g h i j ys. xs = a # b # c # d # e # f # g # h # i # j # ys \<and> n \<le> length ys)"
  by (auto simp: numeral_eq_Suc length_Suc_le_conv)

lemma drop_numeral_add_Cons [simp]:
  "drop (numeral k + n) (x # xs) = drop (pred_numeral k + n) xs"
  by (simp add: numeral_eq_Suc)

section \<open>Iteration\<close>

text \<open>\<open>xs.chunks_exact(n)\<close> for \<open>n > 0\<close>, and a \<open>for\<close> loop whose body ends in \<open>?\<close>.\<close>

function chunks_exact :: "nat \<Rightarrow> 'a list \<Rightarrow> 'a list list" where
  "chunks_exact n xs =
     (if n = 0 \<or> length xs < n then [] else take n xs # chunks_exact n (drop n xs))"
  by pat_completeness auto
termination by (relation "measure (length \<circ> snd)") auto

declare chunks_exact.simps [simp del]

fun for_each :: "('a \<Rightarrow> ('e, unit) res) \<Rightarrow> 'a list \<Rightarrow> ('e, unit) res" where
  "for_each f [] = Ok ()"
| "for_each f (x # xs) = and_then (f x) (\<lambda>_. for_each f xs)"

lemma for_each_Ok_iff: "for_each f xs = Ok u \<longleftrightarrow> (\<forall>x\<in>set xs. f x = Ok ())"
  by (induction xs) (auto simp: res_simps)

lemma for_each_not_Panic: "(\<And>x. x \<in> set xs \<Longrightarrow> f x \<noteq> Panic) \<Longrightarrow> for_each f xs \<noteq> Panic"
  by (induction xs) (auto simp: res_simps)

lemma chunks_exact_length: "c \<in> set (chunks_exact n xs) \<Longrightarrow> length c = n"
  by (induction n xs rule: chunks_exact.induct) (subst (asm) chunks_exact.simps, auto split: if_splits)

text \<open>A \<open>for\<close> loop over mutable state whose body may fail.\<close>

fun for_fold :: "('a \<Rightarrow> 's \<Rightarrow> ('e, 's) res) \<Rightarrow> 'a list \<Rightarrow> 's \<Rightarrow> ('e, 's) res" where
  "for_fold f [] s = Ok s"
| "for_fold f (x # xs) s = and_then (f x s) (for_fold f xs)"

lemma for_fold_append: "for_fold f (xs @ ys) s = and_then (for_fold f xs s) (for_fold f ys)"
proof (induction xs arbitrary: s)
  case (Cons x xs)
  then show ?case by (cases "f x s") auto
qed simp

text \<open>The loop rule: an invariant indexed by the number of iterations done.\<close>

lemma for_fold_invariant:
  assumes "P 0 s"
    and "\<And>i s. i < length xs \<Longrightarrow> P i s \<Longrightarrow> \<exists>s'. f (xs ! i) s = Ok s' \<and> P (Suc i) s'"
  shows "\<exists>s'. for_fold f xs s = Ok s' \<and> P (length xs) s'"
proof -
  have "\<exists>s'. for_fold f (take n xs) s = Ok s' \<and> P n s'" if "n \<le> length xs" for n
    using that
  proof (induction n)
    case (Suc n)
    then obtain s' where "for_fold f (take n xs) s = Ok s'" "P n s'" by auto
    with assms(2) [of n s'] Suc.prems show ?case
      by (auto simp: take_Suc_conv_app_nth for_fold_append)
  qed (use assms(1) in simp)
  from this [of "length xs"] show ?thesis by simp
qed

text \<open>\<open>xs.chunks(n)\<close> for \<open>n > 0\<close>: the last chunk may be shorter.\<close>

function chunks :: "nat \<Rightarrow> 'a list \<Rightarrow> 'a list list" where
  "chunks n xs = (if n = 0 \<or> xs = [] then [] else take n xs # chunks n (drop n xs))"
  by pat_completeness auto
termination by (relation "measure (length \<circ> snd)") auto

declare chunks.simps [simp del]

text \<open>A list with the elements from index \<open>a\<close> on replaced by \<open>ys\<close>.\<close>

definition overwrite :: "'a list \<Rightarrow> nat \<Rightarrow> 'a list \<Rightarrow> 'a list" where
  "overwrite xs a ys = take a xs @ ys @ drop (a + length ys) xs"

lemma overwrite_length [simp]: "a + length ys \<le> length xs \<Longrightarrow> length (overwrite xs a ys) = length xs"
  by (simp add: overwrite_def)

lemma overwrite_nth:
  "a + length ys \<le> length xs \<Longrightarrow> i < length xs \<Longrightarrow>
     overwrite xs a ys ! i = (if a \<le> i \<and> i < a + length ys then ys ! (i - a) else xs ! i)"
  by (auto simp: overwrite_def nth_append min_def)

lemma overwrite_read: "a + length ys \<le> length xs \<Longrightarrow> take (length ys) (drop a (overwrite xs a ys)) = ys"
  by (simp add: overwrite_def)

section \<open>Byte order\<close>

definition u16_from_be_bytes :: "u8 \<Rightarrow> u8 \<Rightarrow> u16" where
  "u16_from_be_bytes h l = push_bit 8 (ucast h) OR ucast l"

definition u16_from_le_bytes :: "u8 \<Rightarrow> u8 \<Rightarrow> u16" where
  "u16_from_le_bytes l h = u16_from_be_bytes h l"

definition u16_hi :: "u16 \<Rightarrow> u8" where
  "u16_hi w = ucast (drop_bit 8 w)"

definition u16_lo :: "u16 \<Rightarrow> u8" where
  "u16_lo w = ucast w"

definition u16_to_be_bytes :: "u16 \<Rightarrow> bytes" where
  "u16_to_be_bytes w = [u16_hi w, u16_lo w]"

definition u16_to_le_bytes :: "u16 \<Rightarrow> bytes" where
  "u16_to_le_bytes w = [u16_lo w, u16_hi w]"

text \<open>\<open>u16::from_be_bytes([xs[i], xs[i + 1]])\<close> and its little-endian variant.\<close>

definition be16_at :: "bytes \<Rightarrow> nat \<Rightarrow> ('e, u16) res" where
  "be16_at xs i = and_then (at xs i) (\<lambda>h. and_then (at xs (i + 1)) (\<lambda>l.
     Ok (u16_from_be_bytes h l)))"

definition le16_at :: "bytes \<Rightarrow> nat \<Rightarrow> ('e, u16) res" where
  "le16_at xs i = and_then (at xs i) (\<lambda>l. and_then (at xs (i + 1)) (\<lambda>h.
     Ok (u16_from_le_bytes l h)))"

lemma u16_from_hi_lo [simp]: "u16_from_be_bytes (u16_hi w) (u16_lo w) = w"
  by (rule bit_word_eqI) (auto simp: u16_from_be_bytes_def u16_hi_def u16_lo_def bit_simps)

lemma u16_from_lo_hi [simp]: "u16_from_le_bytes (u16_lo w) (u16_hi w) = w"
  by (simp add: u16_from_le_bytes_def)

lemma u16_hi_from [simp]: "u16_hi (u16_from_be_bytes h l) = h"
  by (rule bit_word_eqI)
    (auto simp: u16_from_be_bytes_def u16_hi_def bit_simps dest: bit_imp_le_length)

lemma u16_lo_from [simp]: "u16_lo (u16_from_be_bytes h l) = l"
  by (rule bit_word_eqI)
    (auto simp: u16_from_be_bytes_def u16_lo_def bit_simps dest: bit_imp_le_length)

lemma u16_from_be_inject [simp]:
  "u16_from_be_bytes h l = u16_from_be_bytes h' l' \<longleftrightarrow> h = h' \<and> l = l'"
  by (metis u16_hi_from u16_lo_from)

lemma u16_from_be_eq_iff: "u16_from_be_bytes h l = w \<longleftrightarrow> h = u16_hi w \<and> l = u16_lo w"
  by auto

lemma u16_to_be_from [simp]: "u16_to_be_bytes (u16_from_be_bytes h l) = [h, l]"
  by (simp add: u16_to_be_bytes_def)

lemma length_u16_to_be_bytes [simp]: "length (u16_to_be_bytes w) = 2"
  by (simp add: u16_to_be_bytes_def)

lemma length_u16_to_le_bytes [simp]: "length (u16_to_le_bytes w) = 2"
  by (simp add: u16_to_le_bytes_def)

lemma be16_at_Ok [simp]:
  "i + 1 < length xs \<Longrightarrow> be16_at xs i = Ok (u16_from_be_bytes (xs ! i) (xs ! (i + 1)))"
  by (simp add: be16_at_def)

lemma le16_at_Ok [simp]:
  "i + 1 < length xs \<Longrightarrow> le16_at xs i = Ok (u16_from_le_bytes (xs ! i) (xs ! (i + 1)))"
  by (simp add: le16_at_def)

section \<open>Arithmetic of the source\<close>

definition usize_checked_add :: "nat \<Rightarrow> nat \<Rightarrow> nat option" where
  "usize_checked_add a b = (if a + b < 2 ^ 64 then Some (a + b) else None)"

text \<open>\<open>a - b\<close> on \<open>usize\<close>: an underflow panics.\<close>

definition usize_sub :: "nat \<Rightarrow> nat \<Rightarrow> ('e, nat) res" where
  "usize_sub a b = (if b \<le> a then Ok (a - b) else Panic)"

lemma usize_sub_Ok [simp]: "b \<le> a \<Longrightarrow> usize_sub a b = Ok (a - b)"
  by (simp add: usize_sub_def)

text \<open>\<open>a * b\<close> on \<open>u16\<close>: an overflow panics (and wraps in a build without overflow checks).\<close>

definition u16_mul :: "u16 \<Rightarrow> u16 \<Rightarrow> ('e, u16) res" where
  "u16_mul a b = (if unat a * unat b < 2 ^ 16 then Ok (a * b) else Panic)"

definition u16_div_ceil :: "u16 \<Rightarrow> u16 \<Rightarrow> u16" where
  "u16_div_ceil a b = a div b + (if a mod b = 0 then 0 else 1)"

definition div_ceil :: "nat \<Rightarrow> nat \<Rightarrow> nat" where
  "div_ceil a b = a div b + (if a mod b = 0 then 0 else 1)"

abbreviation u8_of_nat :: "nat \<Rightarrow> u8" where
  "u8_of_nat n \<equiv> word_of_nat n"

lemma unat_u8_lt [simp]: "unat (b :: u8) < 256"
  using unsigned_less [of b] by simp

lemma unat_u16_lt [simp]: "unat (w :: u16) < 65536"
  using unsigned_less [of w] by simp

lemma unat_u8_le [simp]: "unat (b :: u8) \<le> 255"
  using unat_u8_lt [of b] by linarith

lemma unat_u16_le [simp]: "unat (w :: u16) \<le> 65535"
  using unat_u16_lt [of w] by linarith

lemma usize_checked_add_u16 [simp]:
  "usize_checked_add (unat (a :: u16)) (unat (b :: u16)) = Some (unat a + unat b)"
  proof -
  have "unat a + unat b < 65536 + 65536"
    by (intro add_strict_mono) simp_all
  then show ?thesis by (simp add: usize_checked_add_def)
qed

lemma u16_mul_2 [simp]: "unat q \<le> 32767 \<Longrightarrow> u16_mul q 2 = Ok (q * 2)"
  by (simp add: u16_mul_def)

lemma unat_mul_2 [simp]: "unat (q :: u16) \<le> 32767 \<Longrightarrow> unat (q * 2) = 2 * unat q"
  by (simp add: unat_word_ariths)

lemma unat_ucast_u8_u16 [simp]: "unat (ucast (b :: u8) :: u16) = unat b"
  proof -
  have "unat b < 2 ^ 16"
    using unat_u8_lt [of b] by (rule order.strict_trans) simp
  then show ?thesis
    by (simp add: unsigned_ucast_eq take_bit_nat_eq_self)
qed

lemma ucast_u8_u16_eq_iff: "(ucast (b :: u8) :: u16) = w \<longleftrightarrow> unat b = unat w"
  by (simp add: word_unat_eq_iff)

lemma unat_u16_div_ceil_8 [simp]: "unat (u16_div_ceil q 8) = div_ceil (unat q) 8"
proof -
  have q: "unat q div 8 + 1 < 65536"
    using unat_u16_lt [of q] by linarith
  have "q mod 8 = 0 \<longleftrightarrow> unat q mod 8 = 0"
    by (simp add: unat_eq_zero [symmetric] unat_mod)
  then show ?thesis
    using q by (auto simp: u16_div_ceil_def div_ceil_def unat_div unat_word_ariths)
qed

lemma div_ceil_8_le: "div_ceil n 8 * 8 < n + 8"
  unfolding div_ceil_def by (simp split: if_split) presburger

lemma div_ceil_8_ge: "n \<le> div_ceil n 8 * 8"
  unfolding div_ceil_def by (simp split: if_split) presburger

lemma div_ceil_8_bound: "n \<le> 8 * k \<Longrightarrow> div_ceil n 8 \<le> k"
  using div_ceil_8_le [of n] by linarith

lemma unat_from_be: "unat (u16_from_be_bytes h l) = unat h * 256 + unat l"
proof -
  have "u16_from_be_bytes h l = push_bit 8 (ucast h) + ucast l"
    unfolding u16_from_be_bytes_def
    by (rule disjunctive_add [symmetric]) (auto simp: bit_simps dest: bit_imp_le_length)
  moreover have "unat h * 256 + unat l < 65536"
    using unat_u8_lt [of h] unat_u8_lt [of l] by linarith
  ultimately show ?thesis
    by (simp add: unat_word_ariths push_bit_eq_mult)
qed

end
