(* ===== verification/Modbus_Types.thy ===== *)
theory Modbus_Types
  imports Prelude
begin

unbundle bit_operations_syntax

text \<open>
  The crate \<open>rusty-modbus-types\<close>: protocol constants, function and exception codes, coil
  values, diagnostic sub-functions, encapsulated-interface codes, the MBAP header and the
  unit identifier.  The lemmas show that each code type is the partial inverse of its wire
  value, on exactly the bytes the parsers accept.
\<close>

section \<open>constants.rs\<close>

definition MAX_PDU_SIZE :: nat where [simp]: "MAX_PDU_SIZE = 253"
definition MBAP_HEADER_LEN :: nat where [simp]: "MBAP_HEADER_LEN = 7"
definition MAX_TCP_ADU_SIZE :: nat where [simp]: "MAX_TCP_ADU_SIZE = MBAP_HEADER_LEN + MAX_PDU_SIZE"
definition MAX_RTU_ADU_SIZE :: nat where [simp]: "MAX_RTU_ADU_SIZE = 256"
definition RTU_CRC_LEN :: nat where [simp]: "RTU_CRC_LEN = 2"
definition MODBUS_PROTOCOL_ID :: u16 where [simp]: "MODBUS_PROTOCOL_ID = 0x0000"
definition UNIT_ID_TCP_DEVICE :: u8 where [simp]: "UNIT_ID_TCP_DEVICE = 0xFF"
definition UNIT_ID_BROADCAST :: u8 where [simp]: "UNIT_ID_BROADCAST = 0x00"
definition UNIT_ID_MIN_SLAVE :: u8 where [simp]: "UNIT_ID_MIN_SLAVE = 1"
definition UNIT_ID_MAX_SLAVE :: u8 where [simp]: "UNIT_ID_MAX_SLAVE = 247"
definition MAX_READ_COILS :: u16 where [simp]: "MAX_READ_COILS = 2000"
definition MAX_READ_DISCRETE_INPUTS :: u16 where [simp]: "MAX_READ_DISCRETE_INPUTS = 2000"
definition MAX_READ_REGISTERS :: u16 where [simp]: "MAX_READ_REGISTERS = 125"
definition MAX_WRITE_COILS :: u16 where [simp]: "MAX_WRITE_COILS = 1968"
definition MAX_WRITE_REGISTERS :: u16 where [simp]: "MAX_WRITE_REGISTERS = 123"
definition MAX_RW_READ_REGISTERS :: u16 where [simp]: "MAX_RW_READ_REGISTERS = 125"
definition MAX_RW_WRITE_REGISTERS :: u16 where [simp]: "MAX_RW_WRITE_REGISTERS = 121"
definition MAX_FIFO_VALUES :: u16 where [simp]: "MAX_FIFO_VALUES = 31"

section \<open>function.rs\<close>

datatype FunctionCode =
    ReadCoils
  | ReadDiscreteInputs
  | ReadHoldingRegisters
  | ReadInputRegisters
  | WriteSingleCoil
  | WriteSingleRegister
  | ReadExceptionStatus
  | Diagnostics
  | GetCommEventCounter
  | GetCommEventLog
  | WriteMultipleCoils
  | WriteMultipleRegisters
  | ReportServerId
  | ReadFileRecord
  | WriteFileRecord
  | MaskWriteRegister
  | ReadWriteMultipleRegisters
  | ReadFifoQueue
  | EncapsulatedInterfaceTransport
  | Custom u8

definition FunctionCode_from_byte :: "u8 \<Rightarrow> FunctionCode" where
  "FunctionCode_from_byte byte =
     (if byte = 0x01 then FunctionCode.ReadCoils
      else if byte = 0x02 then FunctionCode.ReadDiscreteInputs
      else if byte = 0x03 then FunctionCode.ReadHoldingRegisters
      else if byte = 0x04 then FunctionCode.ReadInputRegisters
      else if byte = 0x05 then FunctionCode.WriteSingleCoil
      else if byte = 0x06 then FunctionCode.WriteSingleRegister
      else if byte = 0x07 then FunctionCode.ReadExceptionStatus
      else if byte = 0x08 then FunctionCode.Diagnostics
      else if byte = 0x0B then FunctionCode.GetCommEventCounter
      else if byte = 0x0C then FunctionCode.GetCommEventLog
      else if byte = 0x0F then FunctionCode.WriteMultipleCoils
      else if byte = 0x10 then FunctionCode.WriteMultipleRegisters
      else if byte = 0x11 then FunctionCode.ReportServerId
      else if byte = 0x14 then FunctionCode.ReadFileRecord
      else if byte = 0x15 then FunctionCode.WriteFileRecord
      else if byte = 0x16 then FunctionCode.MaskWriteRegister
      else if byte = 0x17 then FunctionCode.ReadWriteMultipleRegisters
      else if byte = 0x18 then FunctionCode.ReadFifoQueue
      else if byte = 0x2B then FunctionCode.EncapsulatedInterfaceTransport
      else FunctionCode.Custom byte)"

definition FunctionCode_from_raw :: "u8 \<Rightarrow> FunctionCode option" where
  "FunctionCode_from_raw byte =
     (if byte = 0 \<or> byte AND 0x80 \<noteq> 0 then None else Some (FunctionCode_from_byte byte))"

definition FunctionCode_from_exception_raw :: "u8 \<Rightarrow> FunctionCode" where
  "FunctionCode_from_exception_raw byte = FunctionCode_from_byte (byte AND 0x7F)"

definition is_exception_response :: "u8 \<Rightarrow> bool" where
  "is_exception_response byte \<longleftrightarrow> byte AND 0x80 \<noteq> 0"

fun FunctionCode_code :: "FunctionCode \<Rightarrow> u8" where
  "FunctionCode_code FunctionCode.ReadCoils = 0x01"
| "FunctionCode_code FunctionCode.ReadDiscreteInputs = 0x02"
| "FunctionCode_code FunctionCode.ReadHoldingRegisters = 0x03"
| "FunctionCode_code FunctionCode.ReadInputRegisters = 0x04"
| "FunctionCode_code FunctionCode.WriteSingleCoil = 0x05"
| "FunctionCode_code FunctionCode.WriteSingleRegister = 0x06"
| "FunctionCode_code FunctionCode.ReadExceptionStatus = 0x07"
| "FunctionCode_code FunctionCode.Diagnostics = 0x08"
| "FunctionCode_code FunctionCode.GetCommEventCounter = 0x0B"
| "FunctionCode_code FunctionCode.GetCommEventLog = 0x0C"
| "FunctionCode_code FunctionCode.WriteMultipleCoils = 0x0F"
| "FunctionCode_code FunctionCode.WriteMultipleRegisters = 0x10"
| "FunctionCode_code FunctionCode.ReportServerId = 0x11"
| "FunctionCode_code FunctionCode.ReadFileRecord = 0x14"
| "FunctionCode_code FunctionCode.WriteFileRecord = 0x15"
| "FunctionCode_code FunctionCode.MaskWriteRegister = 0x16"
| "FunctionCode_code FunctionCode.ReadWriteMultipleRegisters = 0x17"
| "FunctionCode_code FunctionCode.ReadFifoQueue = 0x18"
| "FunctionCode_code FunctionCode.EncapsulatedInterfaceTransport = 0x2B"
| "FunctionCode_code (FunctionCode.Custom v) = v"

definition FunctionCode_exception_code :: "FunctionCode \<Rightarrow> u8" where
  "FunctionCode_exception_code self = FunctionCode_code self OR 0x80"

section \<open>exception.rs\<close>

datatype ExceptionCode =
    IllegalFunction
  | IllegalDataAddress
  | IllegalDataValue
  | ServerDeviceFailure
  | Acknowledge
  | ServerDeviceBusy
  | NegativeAcknowledge
  | MemoryParityError
  | GatewayPathUnavailable
  | GatewayTargetDeviceFailedToRespond
  | Custom u8

definition ExceptionCode_from_raw :: "u8 \<Rightarrow> ExceptionCode" where
  "ExceptionCode_from_raw byte =
     (if byte = 0x01 then IllegalFunction
      else if byte = 0x02 then IllegalDataAddress
      else if byte = 0x03 then IllegalDataValue
      else if byte = 0x04 then ServerDeviceFailure
      else if byte = 0x05 then Acknowledge
      else if byte = 0x06 then ServerDeviceBusy
      else if byte = 0x07 then NegativeAcknowledge
      else if byte = 0x08 then MemoryParityError
      else if byte = 0x0A then GatewayPathUnavailable
      else if byte = 0x0B then GatewayTargetDeviceFailedToRespond
      else ExceptionCode.Custom byte)"

fun ExceptionCode_code :: "ExceptionCode \<Rightarrow> u8" where
  "ExceptionCode_code IllegalFunction = 0x01"
| "ExceptionCode_code IllegalDataAddress = 0x02"
| "ExceptionCode_code IllegalDataValue = 0x03"
| "ExceptionCode_code ServerDeviceFailure = 0x04"
| "ExceptionCode_code Acknowledge = 0x05"
| "ExceptionCode_code ServerDeviceBusy = 0x06"
| "ExceptionCode_code NegativeAcknowledge = 0x07"
| "ExceptionCode_code MemoryParityError = 0x08"
| "ExceptionCode_code GatewayPathUnavailable = 0x0A"
| "ExceptionCode_code GatewayTargetDeviceFailedToRespond = 0x0B"
| "ExceptionCode_code (ExceptionCode.Custom v) = v"

section \<open>coil.rs\<close>

datatype CoilValue = On | Off

definition CoilValue_from_wire :: "u16 \<Rightarrow> CoilValue option" where
  "CoilValue_from_wire value =
     (if value = 0xFF00 then Some On else if value = 0x0000 then Some Off else None)"

fun CoilValue_to_wire :: "CoilValue \<Rightarrow> u16" where
  "CoilValue_to_wire On = 0xFF00"
| "CoilValue_to_wire Off = 0x0000"

definition CoilValue_from_bool :: "bool \<Rightarrow> CoilValue" where
  "CoilValue_from_bool b = (if b then On else Off)"

fun CoilValue_as_bool :: "CoilValue \<Rightarrow> bool" where
  "CoilValue_as_bool On = True"
| "CoilValue_as_bool Off = False"

section \<open>diagnostic.rs\<close>

datatype DiagnosticSubFunction =
    ReturnQueryData
  | RestartCommunicationsOption
  | ReturnDiagnosticRegister
  | ChangeAsciiInputDelimiter
  | ForceListenOnlyMode
  | ClearCountersAndDiagRegister
  | ReturnBusMessageCount
  | ReturnBusCommunicationErrorCount
  | ReturnBusExceptionErrorCount
  | ReturnServerMessageCount
  | ReturnServerNoResponseCount
  | ReturnServerNakCount
  | ReturnServerBusyCount
  | ReturnBusCharacterOverrunCount
  | ClearOverrunCounterAndFlag

definition DiagnosticSubFunction_from_raw :: "u16 \<Rightarrow> DiagnosticSubFunction option" where
  "DiagnosticSubFunction_from_raw value =
     (if value = 0x0000 then Some ReturnQueryData
      else if value = 0x0001 then Some RestartCommunicationsOption
      else if value = 0x0002 then Some ReturnDiagnosticRegister
      else if value = 0x0003 then Some ChangeAsciiInputDelimiter
      else if value = 0x0004 then Some ForceListenOnlyMode
      else if value = 0x000A then Some ClearCountersAndDiagRegister
      else if value = 0x000B then Some ReturnBusMessageCount
      else if value = 0x000C then Some ReturnBusCommunicationErrorCount
      else if value = 0x000D then Some ReturnBusExceptionErrorCount
      else if value = 0x000E then Some ReturnServerMessageCount
      else if value = 0x000F then Some ReturnServerNoResponseCount
      else if value = 0x0010 then Some ReturnServerNakCount
      else if value = 0x0011 then Some ReturnServerBusyCount
      else if value = 0x0012 then Some ReturnBusCharacterOverrunCount
      else if value = 0x0014 then Some ClearOverrunCounterAndFlag
      else None)"

fun DiagnosticSubFunction_code :: "DiagnosticSubFunction \<Rightarrow> u16" where
  "DiagnosticSubFunction_code ReturnQueryData = 0x0000"
| "DiagnosticSubFunction_code RestartCommunicationsOption = 0x0001"
| "DiagnosticSubFunction_code ReturnDiagnosticRegister = 0x0002"
| "DiagnosticSubFunction_code ChangeAsciiInputDelimiter = 0x0003"
| "DiagnosticSubFunction_code ForceListenOnlyMode = 0x0004"
| "DiagnosticSubFunction_code ClearCountersAndDiagRegister = 0x000A"
| "DiagnosticSubFunction_code ReturnBusMessageCount = 0x000B"
| "DiagnosticSubFunction_code ReturnBusCommunicationErrorCount = 0x000C"
| "DiagnosticSubFunction_code ReturnBusExceptionErrorCount = 0x000D"
| "DiagnosticSubFunction_code ReturnServerMessageCount = 0x000E"
| "DiagnosticSubFunction_code ReturnServerNoResponseCount = 0x000F"
| "DiagnosticSubFunction_code ReturnServerNakCount = 0x0010"
| "DiagnosticSubFunction_code ReturnServerBusyCount = 0x0011"
| "DiagnosticSubFunction_code ReturnBusCharacterOverrunCount = 0x0012"
| "DiagnosticSubFunction_code ClearOverrunCounterAndFlag = 0x0014"

section \<open>mei.rs\<close>

datatype MeiType = CanOpenGeneralReference | ReadDeviceIdentification

definition MeiType_from_raw :: "u8 \<Rightarrow> MeiType option" where
  "MeiType_from_raw byte =
     (if byte = 0x0D then Some CanOpenGeneralReference
      else if byte = 0x0E then Some ReadDeviceIdentification else None)"

fun MeiType_code :: "MeiType \<Rightarrow> u8" where
  "MeiType_code CanOpenGeneralReference = 0x0D"
| "MeiType_code ReadDeviceIdentification = 0x0E"

datatype DeviceIdCode = BasicStream | RegularStream | ExtendedStream | Individual

definition DeviceIdCode_from_raw :: "u8 \<Rightarrow> DeviceIdCode option" where
  "DeviceIdCode_from_raw byte =
     (if byte = 0x01 then Some BasicStream
      else if byte = 0x02 then Some RegularStream
      else if byte = 0x03 then Some ExtendedStream
      else if byte = 0x04 then Some Individual else None)"

fun DeviceIdCode_code :: "DeviceIdCode \<Rightarrow> u8" where
  "DeviceIdCode_code BasicStream = 0x01"
| "DeviceIdCode_code RegularStream = 0x02"
| "DeviceIdCode_code ExtendedStream = 0x03"
| "DeviceIdCode_code Individual = 0x04"

datatype DeviceIdObject =
    VendorName
  | ProductCode
  | MajorMinorRevision
  | VendorUrl
  | ProductName
  | ModelName
  | UserApplicationName

definition DeviceIdObject_from_raw :: "u8 \<Rightarrow> DeviceIdObject option" where
  "DeviceIdObject_from_raw byte =
     (if byte = 0x00 then Some VendorName
      else if byte = 0x01 then Some ProductCode
      else if byte = 0x02 then Some MajorMinorRevision
      else if byte = 0x03 then Some VendorUrl
      else if byte = 0x04 then Some ProductName
      else if byte = 0x05 then Some ModelName
      else if byte = 0x06 then Some UserApplicationName else None)"

fun DeviceIdObject_code :: "DeviceIdObject \<Rightarrow> u8" where
  "DeviceIdObject_code VendorName = 0x00"
| "DeviceIdObject_code ProductCode = 0x01"
| "DeviceIdObject_code MajorMinorRevision = 0x02"
| "DeviceIdObject_code VendorUrl = 0x03"
| "DeviceIdObject_code ProductName = 0x04"
| "DeviceIdObject_code ModelName = 0x05"
| "DeviceIdObject_code UserApplicationName = 0x06"

section \<open>header.rs\<close>

record MbapHeader =
  transaction_id :: u16
  protocol_id :: u16
  length_field :: u16
  unit_id :: u8

definition u16_checked_add :: "u16 \<Rightarrow> u16 \<Rightarrow> u16 option" where
  "u16_checked_add a b = (if unat a + unat b < 2 ^ 16 then Some (a + b) else None)"

definition MbapHeader_try_new :: "u16 \<Rightarrow> u8 \<Rightarrow> u16 \<Rightarrow> MbapHeader option" where
  "MbapHeader_try_new txn unit pdu_length =
     (if unat pdu_length > MAX_PDU_SIZE then None
      else (case u16_checked_add pdu_length 1 of
              None \<Rightarrow> None
            | Some l \<Rightarrow> Some \<lparr>transaction_id = txn, protocol_id = MODBUS_PROTOCOL_ID,
                               length_field = l, unit_id = unit\<rparr>))"

definition MbapHeader_new :: "u16 \<Rightarrow> u8 \<Rightarrow> u16 \<Rightarrow> ('e, MbapHeader) res" where
  "MbapHeader_new txn unit pdu_length = expect (MbapHeader_try_new txn unit pdu_length)"

definition MbapHeader_pdu_length :: "MbapHeader \<Rightarrow> u16" where
  "MbapHeader_pdu_length self = (if length_field self < 1 then 0 else length_field self - 1)"

definition MbapHeader_adu_length :: "MbapHeader \<Rightarrow> nat" where
  "MbapHeader_adu_length self = (MBAP_HEADER_LEN - 1) + unat (length_field self)"

section \<open>model.rs\<close>

datatype UnitId = UnitId u8

fun is_broadcast :: "UnitId \<Rightarrow> bool" where
  "is_broadcast (UnitId v) = (v = UNIT_ID_BROADCAST)"

fun is_tcp_device :: "UnitId \<Rightarrow> bool" where
  "is_tcp_device (UnitId v) = (v = UNIT_ID_TCP_DEVICE)"

fun is_valid_slave :: "UnitId \<Rightarrow> bool" where
  "is_valid_slave (UnitId v) = (UNIT_ID_MIN_SLAVE \<le> v \<and> v \<le> UNIT_ID_MAX_SLAVE)"

text \<open>\<open>Address\<close>, \<open>Quantity\<close> and \<open>TransactionId\<close> are transparent wrappers of \<open>u16\<close>.\<close>

type_synonym Address = u16
type_synonym Quantity = u16
type_synonym TransactionId = u16

section \<open>Wire values\<close>

lemma FunctionCode_code_from_byte [simp]: "FunctionCode_code (FunctionCode_from_byte b) = b"
  by (simp add: FunctionCode_from_byte_def)

text \<open>
  Standard codes are those with a constructor of their own; \<open>from_byte\<close> builds \<open>Custom v\<close>
  only for a byte \<open>v\<close> that names no standard function, which \<open>canonical\<close> expresses.
\<close>

definition canonical :: "FunctionCode \<Rightarrow> bool" where
  "canonical fc \<longleftrightarrow> FunctionCode_from_byte (FunctionCode_code fc) = fc"

lemma canonical_from_byte [simp]: "canonical (FunctionCode_from_byte b)"
  by (simp add: canonical_def)

lemma canonical_standard [simp]:
  "canonical fc" if "\<And>v. fc \<noteq> FunctionCode.Custom v"
  using that by (cases fc) (simp_all add: canonical_def FunctionCode_from_byte_def)

lemma FunctionCode_from_byte_inject [simp]:
  "FunctionCode_from_byte a = FunctionCode_from_byte b \<longleftrightarrow> a = b"
  by (metis FunctionCode_code_from_byte)

lemma u8_bit_7: "bit (b :: u8) 7 \<longleftrightarrow> 0x80 \<le> b"
proof -
  have "unat b < 256" by (rule unat_u8_lt)
  then have "unat b div 128 = (if 128 \<le> unat b then 1 else 0)"
    using div_nat_eqI [of 128 1 "unat b"] by simp
  then have "odd (unat b div 128) \<longleftrightarrow> 128 \<le> unat b" by simp
  moreover have "bit b 7 \<longleftrightarrow> odd (unat b div 128)"
    using bit_unsigned_iff [where 'a = nat, of b 7] by (simp add: bit_iff_odd)
  ultimately show ?thesis by (simp add: word_le_nat_alt)
qed

lemma u8_msb_clear: "(b :: u8) AND 0x80 = 0 \<longleftrightarrow> b < 0x80"
  using and_exp_eq_0_iff_not_bit [of b 7] by (simp add: u8_bit_7 not_le)

lemma u8_msb_or: "(b :: u8) OR 0x80 = (if b < 0x80 then b + 0x80 else b)"
proof (cases "b < 0x80")
  case True
  then show ?thesis
    using disjunctive_add_eq_or [of b "0x80"] by (simp add: u8_msb_clear)
next
  case False
  then have "bit b 7" by (simp add: u8_bit_7 not_less)
  then have "set_bit 7 b = b"
    by (intro bit_word_eqI) (auto simp: bit_set_bit_iff)
  then show ?thesis using False by (simp add: set_bit_eq_or push_bit_of_1)
qed

lemma is_exception_response_iff: "is_exception_response b \<longleftrightarrow> 0x80 \<le> b"
  by (simp add: is_exception_response_def u8_msb_clear not_less)

lemma FunctionCode_from_raw_iff:
  "FunctionCode_from_raw b = Some fc
     \<longleftrightarrow> fc = FunctionCode_from_byte b \<and> b \<noteq> 0 \<and> \<not> is_exception_response b"
  by (auto simp: FunctionCode_from_raw_def is_exception_response_def)

lemma FunctionCode_from_raw_None_iff:
  "FunctionCode_from_raw b = None \<longleftrightarrow> b = 0 \<or> 0x80 \<le> b"
  by (auto simp: FunctionCode_from_raw_def u8_msb_clear not_less)

lemma ExceptionCode_code_from_raw [simp]: "ExceptionCode_code (ExceptionCode_from_raw b) = b"
  by (simp add: ExceptionCode_from_raw_def)

lemma ExceptionCode_from_raw_inject [simp]:
  "ExceptionCode_from_raw a = ExceptionCode_from_raw b \<longleftrightarrow> a = b"
  by (metis ExceptionCode_code_from_raw)

lemma CoilValue_wire_roundtrip [simp]: "CoilValue_from_wire (CoilValue_to_wire v) = Some v"
  by (cases v) (simp_all add: CoilValue_from_wire_def)

lemma CoilValue_from_wire_iff:
  "CoilValue_from_wire w = Some v \<longleftrightarrow> w = CoilValue_to_wire v"
  by (cases v) (auto simp: CoilValue_from_wire_def)

lemma CoilValue_bool_roundtrip [simp]:
  "CoilValue_as_bool (CoilValue_from_bool b) = b"
  "CoilValue_from_bool (CoilValue_as_bool v) = v"
  by (cases b; simp add: CoilValue_from_bool_def) (cases v; simp add: CoilValue_from_bool_def)

lemma DiagnosticSubFunction_roundtrip [simp]:
  "DiagnosticSubFunction_from_raw (DiagnosticSubFunction_code s) = Some s"
  by (cases s) (simp_all add: DiagnosticSubFunction_from_raw_def)

lemma DiagnosticSubFunction_from_raw_iff:
  "DiagnosticSubFunction_from_raw v = Some s \<longleftrightarrow> v = DiagnosticSubFunction_code s"
proof
  assume "DiagnosticSubFunction_from_raw v = Some s"
  then show "v = DiagnosticSubFunction_code s"
    unfolding DiagnosticSubFunction_from_raw_def
    by (cases s) (simp_all split: if_split_asm)
qed simp

lemma MeiType_from_raw_iff: "MeiType_from_raw v = Some s \<longleftrightarrow> v = MeiType_code s"
  by (cases s) (auto simp: MeiType_from_raw_def)

lemma DeviceIdCode_from_raw_iff: "DeviceIdCode_from_raw v = Some s \<longleftrightarrow> v = DeviceIdCode_code s"
  by (cases s) (auto simp: DeviceIdCode_from_raw_def)

lemma DeviceIdObject_from_raw_iff:
  "DeviceIdObject_from_raw v = Some s \<longleftrightarrow> v = DeviceIdObject_code s"
  by (cases s) (auto simp: DeviceIdObject_from_raw_def)

lemma u8_or_msb [simp]: "0x80 \<le> (b :: u8) OR 0x80"
  by (simp add: u8_bit_7 [symmetric] bit_or_iff)

lemma u8_clear_msb: "((b :: u8) OR 0x80) AND 0x7F = b" if "b < 0x80"
proof -
  have "(0x7F :: u8) = mask 7" by (simp add: mask_eq_exp_minus_1)
  then have "(b OR 0x80) AND 0x7F = take_bit 7 b OR take_bit 7 (0x80 :: u8)"
    by (simp add: take_bit_eq_mask bit.conj_disj_distrib2)
  also have "take_bit 7 (0x80 :: u8) = 0"
    by simp
  also have "take_bit 7 b = b"
    using that by (simp add: word_unat_eq_iff unsigned_take_bit_eq take_bit_nat_eq_self
        word_less_nat_alt)
  finally show ?thesis by simp
qed

lemma u8_sub_msb [simp]: "unat (b :: u8) - 128 < 128"
  using unat_u8_lt [of b] by linarith

lemma u8_and_7F: "(b :: u8) AND 0x7F = (if b < 0x80 then b else b - 0x80)"
proof (cases "b < 0x80")
  case True
  then show ?thesis
    using u8_clear_msb [OF True] by (simp add: bit.conj_disj_distrib2)
next
  case False
  define c where "c = b - 0x80"
  have "c < 0x80" "b = c + 0x80"
    using False by (simp_all add: c_def not_less word_less_nat_alt word_le_nat_alt unat_sub)
  then show ?thesis
    using u8_clear_msb [of c] False by (simp add: u8_msb_or)
qed

section \<open>MBAP header\<close>

text \<open>The exception bit is lossless on the function codes that \<open>from_raw\<close> accepts.\<close>

lemma function_code_exception_roundtrip:
  assumes "FunctionCode_from_raw b = Some fc"
  shows "FunctionCode_code fc = b
    \<and> is_exception_response (FunctionCode_exception_code fc)
    \<and> FunctionCode_from_exception_raw (FunctionCode_exception_code fc) = fc"
  using assms
  by (simp add: FunctionCode_from_raw_iff FunctionCode_exception_code_def is_exception_response_iff
      FunctionCode_from_exception_raw_def u8_clear_msb not_le)

lemma MbapHeader_try_new_eq:
  "MbapHeader_try_new txn u n =
     (if unat n \<le> 253
      then Some \<lparr>transaction_id = txn, protocol_id = 0, length_field = n + 1, unit_id = u\<rparr>
      else None)"
  by (simp add: MbapHeader_try_new_def u16_checked_add_def)

end
