(* ===== verification/Codec_Error.thy ===== *)
theory Codec_Error
  imports Modbus_Types
begin

text \<open>
  The error types of the crate \<open>rusty-modbus-codec\<close> (\<open>error.rs\<close>) with their checking helpers,
  and the two contracts every message struct of the codec is proved to satisfy: the
  \<open>Encode\<close> trait of \<open>request/mod.rs\<close> (locale \<open>encodable\<close>) and the agreement of an encoder with
  the \<open>decode\<close> constructor of the same struct (locale \<open>pdu_codec\<close>).
\<close>

section \<open>Errors\<close>

datatype DecodeError =
    Truncated nat nat
  | LengthMismatch nat nat
  | PduTooLarge nat nat
  | UnknownFunctionCode u8
  | ByteCountMismatch nat nat
  | ByteCountOutOfRange nat nat nat
  | QuantityOutOfRange u16
  | InvalidCoilValue u16
  | InvalidReferenceType u8
  | InvalidFileRecordLength nat
  | FileRecordOutOfRange u16 u16 u16
  | UnknownMeiType u8
  | UnknownExceptionCode u8
  | UnknownDiagnosticSubFunction u16
  | InvalidDiagnosticDataLength nat
  | InvalidRegisterDataLength nat
  | InvalidDeviceIdCode u8
  | InvalidDeviceIdConformityLevel u8
  | InvalidDeviceIdMoreFollows u8
  | InvalidDeviceIdNextObjectId u8
  | InvalidDeviceIdObjectCount u8

definition DecodeError_check_exact_len :: "bytes \<Rightarrow> nat \<Rightarrow> (DecodeError, unit) res" where
  "DecodeError_check_exact_len data expected =
     (if length data < expected then Err (DecodeError.Truncated expected (length data))
      else if length data = expected then Ok ()
      else Err (DecodeError.LengthMismatch expected (length data)))"

definition DecodeError_check_register_data_len :: "nat \<Rightarrow> (DecodeError, unit) res" where
  "DecodeError_check_register_data_len len =
     (if len mod 2 = 0 then Ok () else Err (DecodeError.InvalidRegisterDataLength len))"

datatype EncodeError =
    BufferTooSmall nat nat
  | PduTooLarge nat nat
  | QuantityOutOfRange u16
  | ByteCountMismatch nat nat
  | ByteCountOutOfRange nat nat nat
  | InvalidReferenceType u8
  | InvalidFileRecordLength nat
  | FileRecordOutOfRange u16 u16 u16
  | InvalidDiagnosticDataLength nat
  | InvalidRegisterDataLength nat

definition check_pdu_len :: "nat \<Rightarrow> (EncodeError, unit) res" where
  "check_pdu_len len =
     (if len > MAX_PDU_SIZE then Err (EncodeError.PduTooLarge len MAX_PDU_SIZE) else Ok ())"

definition check_quantity :: "u16 \<Rightarrow> u16 \<Rightarrow> (EncodeError, unit) res" where
  "check_quantity quantity maximum =
     (if quantity = 0 \<or> quantity > maximum then Err (EncodeError.QuantityOutOfRange quantity)
      else Ok ())"

definition check_byte_count :: "nat \<Rightarrow> nat \<Rightarrow> (EncodeError, unit) res" where
  "check_byte_count declared actual =
     (if declared = actual then Ok () else Err (EncodeError.ByteCountMismatch declared actual))"

definition check_byte_count_range :: "nat \<Rightarrow> nat \<Rightarrow> nat \<Rightarrow> (EncodeError, unit) res" where
  "check_byte_count_range count minimum maximum =
     (if minimum \<le> count \<and> count \<le> maximum then Ok ()
      else Err (EncodeError.ByteCountOutOfRange count minimum maximum))"

definition EncodeError_check_register_data_len :: "nat \<Rightarrow> (EncodeError, unit) res" where
  "EncodeError_check_register_data_len len =
     (if len mod 2 = 0 then Ok () else Err (EncodeError.InvalidRegisterDataLength len))"

section \<open>Laws of the checks\<close>

text \<open>
  \<open>checks\<close> collects the definitions of the guards.  A guard rewritten with it is a
  conditional between \<open>Ok ()\<close> and one error, which the simplifier splits.
\<close>

named_theorems checks \<open>definitions of the length, quantity and byte-count guards\<close>

lemmas check_defs [checks] =
  DecodeError_check_exact_len_def DecodeError_check_register_data_len_def
  check_pdu_len_def check_quantity_def check_byte_count_def check_byte_count_range_def
  EncodeError_check_register_data_len_def

lemma check_exact_len_Ok [simp]:
  "DecodeError_check_exact_len d n = Ok u \<longleftrightarrow> length d = n"
  by (simp add: DecodeError_check_exact_len_def)

lemma check_exact_len_not_Panic [simp]: "DecodeError_check_exact_len d n \<noteq> Panic"
  by (simp add: DecodeError_check_exact_len_def)

section \<open>The \<open>Encode\<close> contract\<close>

text \<open>
  \<open>wf\<close> is the conjunction of the checks an encoder makes and \<open>wire\<close> the byte image it is
  meant to produce.  The encoder fills the front of the caller's buffer with the image and
  leaves the rest alone, reports a short buffer before anything else, and refuses a
  message that is not well formed.
\<close>

locale encodable =
  fixes encode_into :: "'r \<Rightarrow> bytes \<Rightarrow> (EncodeError, nat \<times> bytes) res"
    and encoded_len :: "'r \<Rightarrow> nat"
    and wf :: "'r \<Rightarrow> bool"
    and wire :: "'r \<Rightarrow> bytes"
  assumes encode_ok:
      "\<lbrakk>wf r; encoded_len r \<le> length buf\<rbrakk>
        \<Longrightarrow> encode_into r buf = Ok (encoded_len r, wire r @ drop (encoded_len r) buf)"
    and encode_small:
      "length buf < encoded_len r
        \<Longrightarrow> encode_into r buf = Err (EncodeError.BufferTooSmall (encoded_len r) (length buf))"
    and encode_invalid:
      "\<lbrakk>\<not> wf r; encoded_len r \<le> length buf\<rbrakk> \<Longrightarrow> \<exists>e. encode_into r buf = Err e"
    and wire_length: "wf r \<Longrightarrow> length (wire r) = encoded_len r"
    and encoded_len_max: "wf r \<Longrightarrow> encoded_len r \<le> MAX_PDU_SIZE"
begin

lemma encode_Ok_iff:
  "encode_into r buf = Ok (n, out) \<longleftrightarrow>
     wf r \<and> encoded_len r \<le> length buf \<and> n = encoded_len r \<and> out = wire r @ drop n buf"
proof (cases "encoded_len r \<le> length buf")
  case True
  then show ?thesis using encode_ok [of r buf] encode_invalid [of r buf] by (cases "wf r") auto
next
  case False
  then show ?thesis using encode_small [of buf r] by simp
qed

lemma encode_not_Panic: "encode_into r buf \<noteq> Panic"
  using encode_ok [of r buf] encode_invalid [of r buf] encode_small [of buf r]
  by (cases "encoded_len r \<le> length buf"; cases "wf r") auto

lemma encode_keeps_length: "encode_into r buf = Ok (n, out) \<Longrightarrow> length out = length buf"
  using wire_length [of r] by (simp add: encode_Ok_iff)

lemma encode_bound: "encode_into r buf = Ok (n, out) \<Longrightarrow> n \<le> MAX_PDU_SIZE"
  using encoded_len_max [of r] by (simp add: encode_Ok_iff)

lemma encode_prefix: "encode_into r buf = Ok (n, out) \<Longrightarrow> take n out = wire r"
  using wire_length [of r] by (simp add: encode_Ok_iff)

lemma encode_suffix: "encode_into r buf = Ok (n, out) \<Longrightarrow> drop n out = drop n buf"
  using wire_length [of r] by (simp add: encode_Ok_iff)

end

section \<open>Encoders and decoders of one struct\<close>

text \<open>
  A struct whose image is one function-code byte followed by a payload, and whose
  \<open>decode\<close> reads the payload.  \<open>valid\<close> describes the values \<open>decode\<close> can return.  Payloads of
  more than \<open>MAX_PDU_SIZE - 1\<close> bytes never reach \<open>decode\<close> (the dispatcher refuses the PDU
  first), so soundness is asked below that bound.
\<close>

locale pdu_codec =
  encodable encode_into encoded_len wf "\<lambda>r. fc # payload r"
  for encode_into :: "'r \<Rightarrow> bytes \<Rightarrow> (EncodeError, nat \<times> bytes) res"
    and encoded_len :: "'r \<Rightarrow> nat"
    and wf :: "'r \<Rightarrow> bool"
    and fc :: u8
    and payload :: "'r \<Rightarrow> bytes" +
  fixes valid :: "'r \<Rightarrow> bool"
    and decode :: "bytes \<Rightarrow> (DecodeError, 'r) res"
  assumes decode_payload: "valid r \<Longrightarrow> decode (payload r) = Ok r"
    and decode_sound: "\<lbrakk>decode d = Ok r; length d < MAX_PDU_SIZE\<rbrakk> \<Longrightarrow> valid r \<and> payload r = d"
    and decode_not_Panic: "decode d \<noteq> Panic"
begin

lemma payload_length: "wf r \<Longrightarrow> Suc (length (payload r)) = encoded_len r"
  using wire_length [of r] by simp

lemma payload_bound: "wf r \<Longrightarrow> length (payload r) < 253"
  using payload_length [of r] encoded_len_max [of r] by simp

lemma decode_Ok_iff: "length d < MAX_PDU_SIZE \<Longrightarrow> decode d = Ok r \<longleftrightarrow> valid r \<and> payload r = d"
  using decode_payload [of r] decode_sound [of d r] by auto

lemma payload_inject: "\<lbrakk>valid r; valid s; payload r = payload s\<rbrakk> \<Longrightarrow> r = s"
  by (metis decode_payload res.inject(1))

lemma encode_decode:
  assumes "encode_into r buf = Ok (n, out)" "valid r"
  shows "\<exists>d. take n out = fc # d \<and> decode d = Ok r"
  using encode_prefix [OF assms(1)] decode_payload [OF assms(2)] by simp

lemma decode_encode:
  assumes "decode d = Ok r" "wf r" "length d < MAX_PDU_SIZE" "length d < length buf"
  shows "encode_into r buf = Ok (Suc (length d), fc # d @ drop (Suc (length d)) buf)"
proof -
  have "payload r = d" using decode_sound [OF assms(1,3)] by auto
  moreover from this have "encoded_len r = Suc (length d)"
    using payload_length [OF assms(2)] by simp
  ultimately show ?thesis using encode_ok [of r buf] assms(2,4) by simp
qed

end

text \<open>
  For most structs the encoder accepts exactly the values the decoder can return.  The
  exceptions are kept apart as instances of \<open>pdu_codec\<close> only.
\<close>

locale exact_codec =
  pdu_codec encode_into encoded_len wf fc payload wf decode
  for encode_into :: "'r \<Rightarrow> bytes \<Rightarrow> (EncodeError, nat \<times> bytes) res"
    and encoded_len :: "'r \<Rightarrow> nat"
    and wf :: "'r \<Rightarrow> bool"
    and fc :: u8
    and payload :: "'r \<Rightarrow> bytes"
    and decode :: "bytes \<Rightarrow> (DecodeError, 'r) res"
begin

lemma exact_encode_decode:
  assumes "encode_into r buf = Ok (n, out)"
  shows "\<exists>d. take n out = fc # d \<and> decode d = Ok r"
  using encode_decode [OF assms] assms by (simp add: encode_Ok_iff)

lemma exact_decode_encode:
  assumes "decode d = Ok r" "length d < MAX_PDU_SIZE" "length d < length buf"
  shows "encode_into r buf = Ok (Suc (length d), fc # d @ drop (Suc (length d)) buf)"
  using decode_encode decode_sound assms by blast

end

end
