(* ===== verification/Request_Bits.thy ===== *)
theory Request_Bits
  imports Codec_Error
begin

text \<open>
  Bit-access requests of the codec (\<open>request/bit_read.rs\<close> and \<open>request/bit_write.rs\<close>): function
  codes 01, 02, 05 and 0F.  Each struct is a record, \<open>decode\<close> and \<open>encode_into\<close> are
  transcribed statement by statement, and the struct is an instance of \<open>pdu_codec\<close>.
\<close>

section \<open>ReadCoilsRequest\<close>

record ReadCoilsRequest =
  address :: Address
  quantity :: Quantity

definition ReadCoilsRequest_MAX_QUANTITY :: u16 where [simp]: "ReadCoilsRequest_MAX_QUANTITY = 2000"

definition ReadCoilsRequest_decode :: "bytes \<Rightarrow> (DecodeError, ReadCoilsRequest) res" where
  "ReadCoilsRequest_decode data =
     and_then (DecodeError_check_exact_len data 4) (\<lambda>_.
     and_then (be16_at data 0) (\<lambda>address.
     and_then (be16_at data 2) (\<lambda>quantity.
     if quantity = 0 \<or> quantity > ReadCoilsRequest_MAX_QUANTITY
     then Err (DecodeError.QuantityOutOfRange quantity)
     else Ok \<lparr>ReadCoilsRequest.address = address, ReadCoilsRequest.quantity = quantity\<rparr>)))"

definition ReadCoilsRequest_encoded_len :: "ReadCoilsRequest \<Rightarrow> nat" where
  "ReadCoilsRequest_encoded_len self = 5"

definition ReadCoilsRequest_encode_into
  :: "ReadCoilsRequest \<Rightarrow> bytes \<Rightarrow> (EncodeError, nat \<times> bytes) res" where
  "ReadCoilsRequest_encode_into self buf =
     (let len = ReadCoilsRequest_encoded_len self in
      if length buf < len then Err (EncodeError.BufferTooSmall len (length buf))
      else and_then (check_quantity (ReadCoilsRequest.quantity self) ReadCoilsRequest_MAX_QUANTITY) (\<lambda>_.
           and_then (check_pdu_len len) (\<lambda>_.
           and_then (put_at buf 0 (FunctionCode_code FunctionCode.ReadCoils)) (\<lambda>buf.
           and_then (copy_at buf 1 3 (u16_to_be_bytes (ReadCoilsRequest.address self))) (\<lambda>buf.
           and_then (copy_at buf 3 5 (u16_to_be_bytes (ReadCoilsRequest.quantity self))) (\<lambda>buf.
           Ok (len, buf)))))))"

definition ReadCoilsRequest_wf :: "ReadCoilsRequest \<Rightarrow> bool" where
  "ReadCoilsRequest_wf r \<longleftrightarrow> ReadCoilsRequest.quantity r \<noteq> 0 \<and> ReadCoilsRequest.quantity r \<le> 2000"

definition ReadCoilsRequest_payload :: "ReadCoilsRequest \<Rightarrow> bytes" where
  "ReadCoilsRequest_payload r = u16_to_be_bytes (ReadCoilsRequest.address r) @ u16_to_be_bytes (ReadCoilsRequest.quantity r)"

lemmas ReadCoilsRequest_defs = ReadCoilsRequest_decode_def ReadCoilsRequest_encoded_len_def ReadCoilsRequest_encode_into_def
  ReadCoilsRequest_wf_def ReadCoilsRequest_payload_def

interpretation read_coils_rq: exact_codec ReadCoilsRequest_encode_into ReadCoilsRequest_encoded_len
  ReadCoilsRequest_wf "0x01" ReadCoilsRequest_payload ReadCoilsRequest_decode
  by unfold_locales (auto simp: ReadCoilsRequest_defs checks res_simps length_ge_5 length_eq_4
      u16_to_be_bytes_def not_less split: if_splits)

section \<open>ReadDiscreteInputsRequest\<close>

record ReadDiscreteInputsRequest =
  address :: Address
  quantity :: Quantity

definition ReadDiscreteInputsRequest_MAX_QUANTITY :: u16 where [simp]: "ReadDiscreteInputsRequest_MAX_QUANTITY = 2000"

definition ReadDiscreteInputsRequest_decode :: "bytes \<Rightarrow> (DecodeError, ReadDiscreteInputsRequest) res" where
  "ReadDiscreteInputsRequest_decode data =
     and_then (DecodeError_check_exact_len data 4) (\<lambda>_.
     and_then (be16_at data 0) (\<lambda>address.
     and_then (be16_at data 2) (\<lambda>quantity.
     if quantity = 0 \<or> quantity > ReadDiscreteInputsRequest_MAX_QUANTITY
     then Err (DecodeError.QuantityOutOfRange quantity)
     else Ok \<lparr>ReadDiscreteInputsRequest.address = address, ReadDiscreteInputsRequest.quantity = quantity\<rparr>)))"

definition ReadDiscreteInputsRequest_encoded_len :: "ReadDiscreteInputsRequest \<Rightarrow> nat" where
  "ReadDiscreteInputsRequest_encoded_len self = 5"

definition ReadDiscreteInputsRequest_encode_into
  :: "ReadDiscreteInputsRequest \<Rightarrow> bytes \<Rightarrow> (EncodeError, nat \<times> bytes) res" where
  "ReadDiscreteInputsRequest_encode_into self buf =
     (let len = ReadDiscreteInputsRequest_encoded_len self in
      if length buf < len then Err (EncodeError.BufferTooSmall len (length buf))
      else and_then (check_quantity (ReadDiscreteInputsRequest.quantity self) ReadDiscreteInputsRequest_MAX_QUANTITY) (\<lambda>_.
           and_then (check_pdu_len len) (\<lambda>_.
           and_then (put_at buf 0 (FunctionCode_code FunctionCode.ReadDiscreteInputs)) (\<lambda>buf.
           and_then (copy_at buf 1 3 (u16_to_be_bytes (ReadDiscreteInputsRequest.address self))) (\<lambda>buf.
           and_then (copy_at buf 3 5 (u16_to_be_bytes (ReadDiscreteInputsRequest.quantity self))) (\<lambda>buf.
           Ok (len, buf)))))))"

definition ReadDiscreteInputsRequest_wf :: "ReadDiscreteInputsRequest \<Rightarrow> bool" where
  "ReadDiscreteInputsRequest_wf r \<longleftrightarrow> ReadDiscreteInputsRequest.quantity r \<noteq> 0 \<and> ReadDiscreteInputsRequest.quantity r \<le> 2000"

definition ReadDiscreteInputsRequest_payload :: "ReadDiscreteInputsRequest \<Rightarrow> bytes" where
  "ReadDiscreteInputsRequest_payload r = u16_to_be_bytes (ReadDiscreteInputsRequest.address r) @ u16_to_be_bytes (ReadDiscreteInputsRequest.quantity r)"

lemmas ReadDiscreteInputsRequest_defs = ReadDiscreteInputsRequest_decode_def ReadDiscreteInputsRequest_encoded_len_def ReadDiscreteInputsRequest_encode_into_def
  ReadDiscreteInputsRequest_wf_def ReadDiscreteInputsRequest_payload_def

interpretation read_discrete_inputs_rq: exact_codec ReadDiscreteInputsRequest_encode_into ReadDiscreteInputsRequest_encoded_len
  ReadDiscreteInputsRequest_wf "0x02" ReadDiscreteInputsRequest_payload ReadDiscreteInputsRequest_decode
  by unfold_locales (auto simp: ReadDiscreteInputsRequest_defs checks res_simps length_ge_5 length_eq_4
      u16_to_be_bytes_def not_less split: if_splits)

section \<open>WriteSingleCoilRequest\<close>

record WriteSingleCoilRequest =
  address :: Address
  "value" :: CoilValue

definition WriteSingleCoilRequest_decode :: "bytes \<Rightarrow> (DecodeError, WriteSingleCoilRequest) res" where
  "WriteSingleCoilRequest_decode data =
     and_then (DecodeError_check_exact_len data 4) (\<lambda>_.
     and_then (be16_at data 0) (\<lambda>address.
     and_then (be16_at data 2) (\<lambda>raw_value.
     and_then (ok_or (CoilValue_from_wire raw_value) (DecodeError.InvalidCoilValue raw_value)) (\<lambda>value.
     Ok \<lparr>WriteSingleCoilRequest.address = address, WriteSingleCoilRequest.value = value\<rparr>))))"

definition WriteSingleCoilRequest_encoded_len :: "WriteSingleCoilRequest \<Rightarrow> nat" where
  "WriteSingleCoilRequest_encoded_len self = 5"

definition WriteSingleCoilRequest_encode_into
  :: "WriteSingleCoilRequest \<Rightarrow> bytes \<Rightarrow> (EncodeError, nat \<times> bytes) res" where
  "WriteSingleCoilRequest_encode_into self buf =
     (let len = WriteSingleCoilRequest_encoded_len self in
      if length buf < len then Err (EncodeError.BufferTooSmall len (length buf))
      else and_then (check_pdu_len len) (\<lambda>_.
           and_then (put_at buf 0 (FunctionCode_code FunctionCode.WriteSingleCoil)) (\<lambda>buf.
           and_then (copy_at buf 1 3 (u16_to_be_bytes (WriteSingleCoilRequest.address self))) (\<lambda>buf.
           and_then (copy_at buf 3 5 (u16_to_be_bytes (CoilValue_to_wire (WriteSingleCoilRequest.value self)))) (\<lambda>buf.
           Ok (len, buf))))))"

definition WriteSingleCoilRequest_wf :: "WriteSingleCoilRequest \<Rightarrow> bool" where
  "WriteSingleCoilRequest_wf r \<longleftrightarrow> True"

definition WriteSingleCoilRequest_payload :: "WriteSingleCoilRequest \<Rightarrow> bytes" where
  "WriteSingleCoilRequest_payload r =
     u16_to_be_bytes (WriteSingleCoilRequest.address r) @ u16_to_be_bytes (CoilValue_to_wire (WriteSingleCoilRequest.value r))"

lemmas WriteSingleCoilRequest_defs = WriteSingleCoilRequest_decode_def WriteSingleCoilRequest_encoded_len_def WriteSingleCoilRequest_encode_into_def
  WriteSingleCoilRequest_wf_def WriteSingleCoilRequest_payload_def

interpretation write_single_coil_rq: exact_codec WriteSingleCoilRequest_encode_into WriteSingleCoilRequest_encoded_len
  WriteSingleCoilRequest_wf "0x05" WriteSingleCoilRequest_payload WriteSingleCoilRequest_decode
  by unfold_locales (auto simp: WriteSingleCoilRequest_defs checks res_simps length_ge_5 length_eq_4
      u16_to_be_bytes_def not_less ok_or_eq_Ok CoilValue_from_wire_iff u16_from_be_eq_iff split: if_splits)

section \<open>WriteMultipleCoilsRequest\<close>

record WriteMultipleCoilsRequest =
  address :: Address
  quantity :: Quantity
  byte_count :: u8
  coil_values :: bytes

definition WriteMultipleCoilsRequest_MAX_QUANTITY :: u16 where [simp]: "WriteMultipleCoilsRequest_MAX_QUANTITY = 1968"

definition WriteMultipleCoilsRequest_decode :: "bytes \<Rightarrow> (DecodeError, WriteMultipleCoilsRequest) res" where
  "WriteMultipleCoilsRequest_decode data =
     (if length data < 5 then Err (DecodeError.Truncated 5 (length data))
      else and_then (be16_at data 0) (\<lambda>address.
           and_then (be16_at data 2) (\<lambda>quantity.
           if quantity = 0 \<or> quantity > WriteMultipleCoilsRequest_MAX_QUANTITY
           then Err (DecodeError.QuantityOutOfRange quantity)
           else and_then (at data 4) (\<lambda>byte_count.
           let expected_bytes = u16_div_ceil quantity 8 in
           if ucast byte_count \<noteq> expected_bytes
           then Err (DecodeError.ByteCountMismatch (unat byte_count) (unat expected_bytes))
           else let remaining = length data - 5 in
           if unat byte_count \<noteq> remaining
           then Err (DecodeError.ByteCountMismatch (unat byte_count) remaining)
           else and_then (slice_from data 5) (\<lambda>coil_values.
           Ok \<lparr>WriteMultipleCoilsRequest.address = address, WriteMultipleCoilsRequest.quantity = quantity,
               WriteMultipleCoilsRequest.byte_count = byte_count,
               WriteMultipleCoilsRequest.coil_values = coil_values\<rparr>)))))"

definition WriteMultipleCoilsRequest_encoded_len :: "WriteMultipleCoilsRequest \<Rightarrow> nat" where
  "WriteMultipleCoilsRequest_encoded_len self = 6 + length (WriteMultipleCoilsRequest.coil_values self)"

definition WriteMultipleCoilsRequest_encode_into
  :: "WriteMultipleCoilsRequest \<Rightarrow> bytes \<Rightarrow> (EncodeError, nat \<times> bytes) res" where
  "WriteMultipleCoilsRequest_encode_into self buf =
     (let len = WriteMultipleCoilsRequest_encoded_len self in
      if length buf < len then Err (EncodeError.BufferTooSmall len (length buf))
      else and_then (check_quantity (WriteMultipleCoilsRequest.quantity self)
                  WriteMultipleCoilsRequest_MAX_QUANTITY) (\<lambda>_.
           let expected_bytes = unat (u16_div_ceil (WriteMultipleCoilsRequest.quantity self) 8);
               coil_values = WriteMultipleCoilsRequest.coil_values self in
           and_then (check_byte_count (unat (WriteMultipleCoilsRequest.byte_count self)) expected_bytes) (\<lambda>_.
           and_then (check_byte_count expected_bytes (length coil_values)) (\<lambda>_.
           and_then (check_pdu_len len) (\<lambda>_.
           and_then (put_at buf 0 (FunctionCode_code FunctionCode.WriteMultipleCoils)) (\<lambda>buf.
           and_then (copy_at buf 1 3 (u16_to_be_bytes (WriteMultipleCoilsRequest.address self))) (\<lambda>buf.
           and_then (copy_at buf 3 5 (u16_to_be_bytes (WriteMultipleCoilsRequest.quantity self))) (\<lambda>buf.
           and_then (put_at buf 5 (WriteMultipleCoilsRequest.byte_count self)) (\<lambda>buf.
           and_then (copy_at buf 6 (6 + length coil_values) coil_values) (\<lambda>buf.
           Ok (len, buf)))))))))))"

definition WriteMultipleCoilsRequest_wf :: "WriteMultipleCoilsRequest \<Rightarrow> bool" where
  "WriteMultipleCoilsRequest_wf r \<longleftrightarrow>
     WriteMultipleCoilsRequest.quantity r \<noteq> 0 \<and> WriteMultipleCoilsRequest.quantity r \<le> 1968
     \<and> unat (WriteMultipleCoilsRequest.byte_count r) = length (WriteMultipleCoilsRequest.coil_values r)
     \<and> length (WriteMultipleCoilsRequest.coil_values r) = div_ceil (unat (WriteMultipleCoilsRequest.quantity r)) 8"

definition WriteMultipleCoilsRequest_payload :: "WriteMultipleCoilsRequest \<Rightarrow> bytes" where
  "WriteMultipleCoilsRequest_payload r =
     u16_to_be_bytes (WriteMultipleCoilsRequest.address r) @ u16_to_be_bytes (WriteMultipleCoilsRequest.quantity r)
       @ WriteMultipleCoilsRequest.byte_count r # WriteMultipleCoilsRequest.coil_values r"

lemmas WriteMultipleCoilsRequest_defs = WriteMultipleCoilsRequest_decode_def WriteMultipleCoilsRequest_encoded_len_def WriteMultipleCoilsRequest_encode_into_def
  WriteMultipleCoilsRequest_wf_def WriteMultipleCoilsRequest_payload_def

interpretation write_multiple_coils_rq: exact_codec WriteMultipleCoilsRequest_encode_into WriteMultipleCoilsRequest_encoded_len
  WriteMultipleCoilsRequest_wf "0x0F" WriteMultipleCoilsRequest_payload WriteMultipleCoilsRequest_decode
proof (unfold_locales, goal_cases)
  case (1 r buf)
  then have "div_ceil (unat (WriteMultipleCoilsRequest.quantity r)) 8 \<le> 246"
    by (intro div_ceil_8_bound) (simp add: WriteMultipleCoilsRequest_defs word_le_nat_alt)
  then show ?case
    using 1 by (auto simp: WriteMultipleCoilsRequest_defs checks length_add_6 Let_def u16_to_be_bytes_def not_less)
next
  case (5 r)
  then have "div_ceil (unat (WriteMultipleCoilsRequest.quantity r)) 8 \<le> 246"
    by (intro div_ceil_8_bound) (simp add: WriteMultipleCoilsRequest_defs word_le_nat_alt)
  then show ?case
    using 5 by (simp add: WriteMultipleCoilsRequest_defs)
qed (auto simp: WriteMultipleCoilsRequest_defs checks res_simps length_ge_5 Let_def
      u16_to_be_bytes_def not_less ucast_u8_u16_eq_iff split: if_splits)

end
