(* ===== verification/Request_Regs.thy ===== *)
theory Request_Regs
  imports Codec_Error
begin

text \<open>
  Register-access requests of the codec (\<open>request/reg_read.rs\<close> and \<open>request/reg_write.rs\<close>):
  function codes 03, 04, 06, 10, 16 and 17.
\<close>

section \<open>ReadHoldingRegistersRequest\<close>

record ReadHoldingRegistersRequest =
  address :: Address
  quantity :: Quantity

definition ReadHoldingRegistersRequest_MAX_QUANTITY :: u16 where [simp]: "ReadHoldingRegistersRequest_MAX_QUANTITY = 125"

definition ReadHoldingRegistersRequest_decode :: "bytes \<Rightarrow> (DecodeError, ReadHoldingRegistersRequest) res" where
  "ReadHoldingRegistersRequest_decode data =
     and_then (DecodeError_check_exact_len data 4) (\<lambda>_.
     and_then (be16_at data 0) (\<lambda>address.
     and_then (be16_at data 2) (\<lambda>quantity.
     if quantity = 0 \<or> quantity > ReadHoldingRegistersRequest_MAX_QUANTITY
     then Err (DecodeError.QuantityOutOfRange quantity)
     else Ok \<lparr>ReadHoldingRegistersRequest.address = address, ReadHoldingRegistersRequest.quantity = quantity\<rparr>)))"

definition ReadHoldingRegistersRequest_encoded_len :: "ReadHoldingRegistersRequest \<Rightarrow> nat" where
  "ReadHoldingRegistersRequest_encoded_len self = 5"

definition ReadHoldingRegistersRequest_encode_into
  :: "ReadHoldingRegistersRequest \<Rightarrow> bytes \<Rightarrow> (EncodeError, nat \<times> bytes) res" where
  "ReadHoldingRegistersRequest_encode_into self buf =
     (let len = ReadHoldingRegistersRequest_encoded_len self in
      if length buf < len then Err (EncodeError.BufferTooSmall len (length buf))
      else and_then (check_quantity (ReadHoldingRegistersRequest.quantity self) ReadHoldingRegistersRequest_MAX_QUANTITY) (\<lambda>_.
           and_then (check_pdu_len len) (\<lambda>_.
           and_then (put_at buf 0 (FunctionCode_code FunctionCode.ReadHoldingRegisters)) (\<lambda>buf.
           and_then (copy_at buf 1 3 (u16_to_be_bytes (ReadHoldingRegistersRequest.address self))) (\<lambda>buf.
           and_then (copy_at buf 3 5 (u16_to_be_bytes (ReadHoldingRegistersRequest.quantity self))) (\<lambda>buf.
           Ok (len, buf)))))))"

definition ReadHoldingRegistersRequest_wf :: "ReadHoldingRegistersRequest \<Rightarrow> bool" where
  "ReadHoldingRegistersRequest_wf r \<longleftrightarrow> ReadHoldingRegistersRequest.quantity r \<noteq> 0 \<and> ReadHoldingRegistersRequest.quantity r \<le> 125"

definition ReadHoldingRegistersRequest_payload :: "ReadHoldingRegistersRequest \<Rightarrow> bytes" where
  "ReadHoldingRegistersRequest_payload r = u16_to_be_bytes (ReadHoldingRegistersRequest.address r) @ u16_to_be_bytes (ReadHoldingRegistersRequest.quantity r)"

lemmas ReadHoldingRegistersRequest_defs = ReadHoldingRegistersRequest_decode_def ReadHoldingRegistersRequest_encoded_len_def ReadHoldingRegistersRequest_encode_into_def
  ReadHoldingRegistersRequest_wf_def ReadHoldingRegistersRequest_payload_def

interpretation read_holding_registers_rq: exact_codec ReadHoldingRegistersRequest_encode_into ReadHoldingRegistersRequest_encoded_len
  ReadHoldingRegistersRequest_wf "0x03" ReadHoldingRegistersRequest_payload ReadHoldingRegistersRequest_decode
  by unfold_locales (auto simp: ReadHoldingRegistersRequest_defs checks res_simps length_ge_5 length_eq_4
      u16_to_be_bytes_def not_less split: if_splits)

section \<open>ReadInputRegistersRequest\<close>

record ReadInputRegistersRequest =
  address :: Address
  quantity :: Quantity

definition ReadInputRegistersRequest_MAX_QUANTITY :: u16 where [simp]: "ReadInputRegistersRequest_MAX_QUANTITY = 125"

definition ReadInputRegistersRequest_decode :: "bytes \<Rightarrow> (DecodeError, ReadInputRegistersRequest) res" where
  "ReadInputRegistersRequest_decode data =
     and_then (DecodeError_check_exact_len data 4) (\<lambda>_.
     and_then (be16_at data 0) (\<lambda>address.
     and_then (be16_at data 2) (\<lambda>quantity.
     if quantity = 0 \<or> quantity > ReadInputRegistersRequest_MAX_QUANTITY
     then Err (DecodeError.QuantityOutOfRange quantity)
     else Ok \<lparr>ReadInputRegistersRequest.address = address, ReadInputRegistersRequest.quantity = quantity\<rparr>)))"

definition ReadInputRegistersRequest_encoded_len :: "ReadInputRegistersRequest \<Rightarrow> nat" where
  "ReadInputRegistersRequest_encoded_len self = 5"

definition ReadInputRegistersRequest_encode_into
  :: "ReadInputRegistersRequest \<Rightarrow> bytes \<Rightarrow> (EncodeError, nat \<times> bytes) res" where
  "ReadInputRegistersRequest_encode_into self buf =
     (let len = ReadInputRegistersRequest_encoded_len self in
      if length buf < len then Err (EncodeError.BufferTooSmall len (length buf))
      else and_then (check_quantity (ReadInputRegistersRequest.quantity self) ReadInputRegistersRequest_MAX_QUANTITY) (\<lambda>_.
           and_then (check_pdu_len len) (\<lambda>_.
           and_then (put_at buf 0 (FunctionCode_code FunctionCode.ReadInputRegisters)) (\<lambda>buf.
           and_then (copy_at buf 1 3 (u16_to_be_bytes (ReadInputRegistersRequest.address self))) (\<lambda>buf.
           and_then (copy_at buf 3 5 (u16_to_be_bytes (ReadInputRegistersRequest.quantity self))) (\<lambda>buf.
           Ok (len, buf)))))))"

definition ReadInputRegistersRequest_wf :: "ReadInputRegistersRequest \<Rightarrow> bool" where
  "ReadInputRegistersRequest_wf r \<longleftrightarrow> ReadInputRegistersRequest.quantity r \<noteq> 0 \<and> ReadInputRegistersRequest.quantity r \<le> 125"

definition ReadInputRegistersRequest_payload :: "ReadInputRegistersRequest \<Rightarrow> bytes" where
  "ReadInputRegistersRequest_payload r = u16_to_be_bytes (ReadInputRegistersRequest.address r) @ u16_to_be_bytes (ReadInputRegistersRequest.quantity r)"

lemmas ReadInputRegistersRequest_defs = ReadInputRegistersRequest_decode_def ReadInputRegistersRequest_encoded_len_def ReadInputRegistersRequest_encode_into_def
  ReadInputRegistersRequest_wf_def ReadInputRegistersRequest_payload_def

interpretation read_input_registers_rq: exact_codec ReadInputRegistersRequest_encode_into ReadInputRegistersRequest_encoded_len
  ReadInputRegistersRequest_wf "0x04" ReadInputRegistersRequest_payload ReadInputRegistersRequest_decode
  by unfold_locales (auto simp: ReadInputRegistersRequest_defs checks res_simps length_ge_5 length_eq_4
      u16_to_be_bytes_def not_less split: if_splits)

section \<open>WriteSingleRegisterRequest\<close>

record WriteSingleRegisterRequest =
  address :: Address
  "value" :: u16

definition WriteSingleRegisterRequest_decode :: "bytes \<Rightarrow> (DecodeError, WriteSingleRegisterRequest) res" where
  "WriteSingleRegisterRequest_decode data =
     and_then (DecodeError_check_exact_len data 4) (\<lambda>_.
     and_then (be16_at data 0) (\<lambda>address.
     and_then (be16_at data 2) (\<lambda>value.
     Ok \<lparr>WriteSingleRegisterRequest.address = address, WriteSingleRegisterRequest.value = value\<rparr>)))"

definition WriteSingleRegisterRequest_encoded_len :: "WriteSingleRegisterRequest \<Rightarrow> nat" where
  "WriteSingleRegisterRequest_encoded_len self = 5"

definition WriteSingleRegisterRequest_encode_into
  :: "WriteSingleRegisterRequest \<Rightarrow> bytes \<Rightarrow> (EncodeError, nat \<times> bytes) res" where
  "WriteSingleRegisterRequest_encode_into self buf =
     (let len = WriteSingleRegisterRequest_encoded_len self in
      if length buf < len then Err (EncodeError.BufferTooSmall len (length buf))
      else and_then (check_pdu_len len) (\<lambda>_.
           and_then (put_at buf 0 (FunctionCode_code FunctionCode.WriteSingleRegister)) (\<lambda>buf.
           and_then (copy_at buf 1 3 (u16_to_be_bytes (WriteSingleRegisterRequest.address self))) (\<lambda>buf.
           and_then (copy_at buf 3 5 (u16_to_be_bytes (WriteSingleRegisterRequest.value self))) (\<lambda>buf.
           Ok (len, buf))))))"

definition WriteSingleRegisterRequest_wf :: "WriteSingleRegisterRequest \<Rightarrow> bool" where
  "WriteSingleRegisterRequest_wf r \<longleftrightarrow> True"

definition WriteSingleRegisterRequest_payload :: "WriteSingleRegisterRequest \<Rightarrow> bytes" where
  "WriteSingleRegisterRequest_payload r =
     u16_to_be_bytes (WriteSingleRegisterRequest.address r) @ u16_to_be_bytes (WriteSingleRegisterRequest.value r)"

lemmas WriteSingleRegisterRequest_defs = WriteSingleRegisterRequest_decode_def WriteSingleRegisterRequest_encoded_len_def WriteSingleRegisterRequest_encode_into_def
  WriteSingleRegisterRequest_wf_def WriteSingleRegisterRequest_payload_def

interpretation write_single_register_rq: exact_codec WriteSingleRegisterRequest_encode_into WriteSingleRegisterRequest_encoded_len
  WriteSingleRegisterRequest_wf "0x06" WriteSingleRegisterRequest_payload WriteSingleRegisterRequest_decode
  by unfold_locales (auto simp: WriteSingleRegisterRequest_defs checks res_simps length_ge_5 length_eq_4
      u16_to_be_bytes_def not_less split: if_splits)

section \<open>WriteMultipleRegistersRequest\<close>

record WriteMultipleRegistersRequest =
  address :: Address
  quantity :: Quantity
  byte_count :: u8
  register_values :: bytes

definition WriteMultipleRegistersRequest_MAX_QUANTITY :: u16 where
  [simp]: "WriteMultipleRegistersRequest_MAX_QUANTITY = 123"

definition WriteMultipleRegistersRequest_decode
  :: "bytes \<Rightarrow> (DecodeError, WriteMultipleRegistersRequest) res" where
  "WriteMultipleRegistersRequest_decode data =
     (if length data < 5 then Err (DecodeError.Truncated 5 (length data))
      else and_then (be16_at data 0) (\<lambda>address.
           and_then (be16_at data 2) (\<lambda>quantity.
           if quantity = 0 \<or> quantity > WriteMultipleRegistersRequest_MAX_QUANTITY
           then Err (DecodeError.QuantityOutOfRange quantity)
           else and_then (at data 4) (\<lambda>byte_count.
           and_then (u16_mul quantity 2) (\<lambda>expected.
           if ucast byte_count \<noteq> expected
           then Err (DecodeError.ByteCountMismatch (unat byte_count) (unat expected))
           else let remaining = length data - 5 in
           if unat byte_count \<noteq> remaining
           then Err (DecodeError.ByteCountMismatch (unat byte_count) remaining)
           else and_then (slice_from data 5) (\<lambda>register_values.
           Ok \<lparr>WriteMultipleRegistersRequest.address = address,
               WriteMultipleRegistersRequest.quantity = quantity,
               WriteMultipleRegistersRequest.byte_count = byte_count,
               WriteMultipleRegistersRequest.register_values = register_values\<rparr>))))))"

definition WriteMultipleRegistersRequest_encoded_len :: "WriteMultipleRegistersRequest \<Rightarrow> nat" where
  "WriteMultipleRegistersRequest_encoded_len self =
     6 + length (WriteMultipleRegistersRequest.register_values self)"

definition WriteMultipleRegistersRequest_encode_into
  :: "WriteMultipleRegistersRequest \<Rightarrow> bytes \<Rightarrow> (EncodeError, nat \<times> bytes) res" where
  "WriteMultipleRegistersRequest_encode_into self buf =
     (let len = WriteMultipleRegistersRequest_encoded_len self in
      if length buf < len then Err (EncodeError.BufferTooSmall len (length buf))
      else and_then (check_quantity (WriteMultipleRegistersRequest.quantity self)
                  WriteMultipleRegistersRequest_MAX_QUANTITY) (\<lambda>_.
           let expected_bytes = unat (WriteMultipleRegistersRequest.quantity self) * 2;
               register_values = WriteMultipleRegistersRequest.register_values self in
           and_then (check_byte_count (unat (WriteMultipleRegistersRequest.byte_count self)) expected_bytes) (\<lambda>_.
           and_then (check_byte_count expected_bytes (length register_values)) (\<lambda>_.
           and_then (check_pdu_len len) (\<lambda>_.
           and_then (put_at buf 0 (FunctionCode_code FunctionCode.WriteMultipleRegisters)) (\<lambda>buf.
           and_then (copy_at buf 1 3 (u16_to_be_bytes (WriteMultipleRegistersRequest.address self))) (\<lambda>buf.
           and_then (copy_at buf 3 5 (u16_to_be_bytes (WriteMultipleRegistersRequest.quantity self))) (\<lambda>buf.
           and_then (put_at buf 5 (WriteMultipleRegistersRequest.byte_count self)) (\<lambda>buf.
           and_then (copy_at buf 6 (6 + length register_values) register_values) (\<lambda>buf.
           Ok (len, buf)))))))))))"

definition WriteMultipleRegistersRequest_wf :: "WriteMultipleRegistersRequest \<Rightarrow> bool" where
  "WriteMultipleRegistersRequest_wf r \<longleftrightarrow>
     WriteMultipleRegistersRequest.quantity r \<noteq> 0
     \<and> WriteMultipleRegistersRequest.quantity r \<le> 123
     \<and> unat (WriteMultipleRegistersRequest.byte_count r) = 2 * unat (WriteMultipleRegistersRequest.quantity r)
     \<and> length (WriteMultipleRegistersRequest.register_values r)
         = 2 * unat (WriteMultipleRegistersRequest.quantity r)"

definition WriteMultipleRegistersRequest_payload :: "WriteMultipleRegistersRequest \<Rightarrow> bytes" where
  "WriteMultipleRegistersRequest_payload r =
     u16_to_be_bytes (WriteMultipleRegistersRequest.address r)
       @ u16_to_be_bytes (WriteMultipleRegistersRequest.quantity r)
       @ WriteMultipleRegistersRequest.byte_count r # WriteMultipleRegistersRequest.register_values r"

lemmas WriteMultipleRegistersRequest_defs = WriteMultipleRegistersRequest_decode_def WriteMultipleRegistersRequest_encoded_len_def WriteMultipleRegistersRequest_encode_into_def
  WriteMultipleRegistersRequest_wf_def WriteMultipleRegistersRequest_payload_def

interpretation write_multiple_registers_rq: exact_codec WriteMultipleRegistersRequest_encode_into WriteMultipleRegistersRequest_encoded_len
  WriteMultipleRegistersRequest_wf "0x10" WriteMultipleRegistersRequest_payload WriteMultipleRegistersRequest_decode
  by unfold_locales (auto simp: WriteMultipleRegistersRequest_defs checks res_simps length_add_6 length_ge_5
      Let_def u16_to_be_bytes_def not_less ucast_u8_u16_eq_iff word_le_nat_alt split: if_splits)

section \<open>MaskWriteRegisterRequest\<close>

record MaskWriteRegisterRequest =
  address :: Address
  and_mask :: u16
  or_mask :: u16

definition MaskWriteRegisterRequest_decode :: "bytes \<Rightarrow> (DecodeError, MaskWriteRegisterRequest) res" where
  "MaskWriteRegisterRequest_decode data =
     and_then (DecodeError_check_exact_len data 6) (\<lambda>_.
     and_then (be16_at data 0) (\<lambda>address.
     and_then (be16_at data 2) (\<lambda>and_mask.
     and_then (be16_at data 4) (\<lambda>or_mask.
     Ok \<lparr>MaskWriteRegisterRequest.address = address, MaskWriteRegisterRequest.and_mask = and_mask,
         MaskWriteRegisterRequest.or_mask = or_mask\<rparr>))))"

definition MaskWriteRegisterRequest_encoded_len :: "MaskWriteRegisterRequest \<Rightarrow> nat" where
  "MaskWriteRegisterRequest_encoded_len self = 7"

definition MaskWriteRegisterRequest_encode_into
  :: "MaskWriteRegisterRequest \<Rightarrow> bytes \<Rightarrow> (EncodeError, nat \<times> bytes) res" where
  "MaskWriteRegisterRequest_encode_into self buf =
     (let len = MaskWriteRegisterRequest_encoded_len self in
      if length buf < len then Err (EncodeError.BufferTooSmall len (length buf))
      else and_then (check_pdu_len len) (\<lambda>_.
           and_then (put_at buf 0 (FunctionCode_code FunctionCode.MaskWriteRegister)) (\<lambda>buf.
           and_then (copy_at buf 1 3 (u16_to_be_bytes (MaskWriteRegisterRequest.address self))) (\<lambda>buf.
           and_then (copy_at buf 3 5 (u16_to_be_bytes (MaskWriteRegisterRequest.and_mask self))) (\<lambda>buf.
           and_then (copy_at buf 5 7 (u16_to_be_bytes (MaskWriteRegisterRequest.or_mask self))) (\<lambda>buf.
           Ok (len, buf)))))))"

definition MaskWriteRegisterRequest_wf :: "MaskWriteRegisterRequest \<Rightarrow> bool" where
  "MaskWriteRegisterRequest_wf r \<longleftrightarrow> True"

definition MaskWriteRegisterRequest_payload :: "MaskWriteRegisterRequest \<Rightarrow> bytes" where
  "MaskWriteRegisterRequest_payload r =
     u16_to_be_bytes (MaskWriteRegisterRequest.address r)
       @ u16_to_be_bytes (MaskWriteRegisterRequest.and_mask r)
       @ u16_to_be_bytes (MaskWriteRegisterRequest.or_mask r)"

lemmas MaskWriteRegisterRequest_defs = MaskWriteRegisterRequest_decode_def MaskWriteRegisterRequest_encoded_len_def MaskWriteRegisterRequest_encode_into_def
  MaskWriteRegisterRequest_wf_def MaskWriteRegisterRequest_payload_def

interpretation mask_write_register_rq: exact_codec MaskWriteRegisterRequest_encode_into MaskWriteRegisterRequest_encoded_len
  MaskWriteRegisterRequest_wf "0x16" MaskWriteRegisterRequest_payload MaskWriteRegisterRequest_decode
  by unfold_locales (auto simp: MaskWriteRegisterRequest_defs checks res_simps length_ge_7 length_eq_6
      u16_to_be_bytes_def not_less split: if_splits)

section \<open>ReadWriteMultipleRegistersRequest\<close>

record ReadWriteMultipleRegistersRequest =
  read_address :: Address
  read_quantity :: Quantity
  write_address :: Address
  write_quantity :: Quantity
  write_byte_count :: u8
  write_register_values :: bytes

definition ReadWriteMultipleRegistersRequest_MAX_READ_QUANTITY :: u16 where
  [simp]: "ReadWriteMultipleRegistersRequest_MAX_READ_QUANTITY = 125"

definition ReadWriteMultipleRegistersRequest_MAX_WRITE_QUANTITY :: u16 where
  [simp]: "ReadWriteMultipleRegistersRequest_MAX_WRITE_QUANTITY = 121"

definition ReadWriteMultipleRegistersRequest_decode
  :: "bytes \<Rightarrow> (DecodeError, ReadWriteMultipleRegistersRequest) res" where
  "ReadWriteMultipleRegistersRequest_decode data =
     (if length data < 9 then Err (DecodeError.Truncated 9 (length data))
      else and_then (be16_at data 0) (\<lambda>read_address.
           and_then (be16_at data 2) (\<lambda>read_quantity.
           if read_quantity = 0
              \<or> read_quantity > ReadWriteMultipleRegistersRequest_MAX_READ_QUANTITY
           then Err (DecodeError.QuantityOutOfRange read_quantity)
           else and_then (be16_at data 4) (\<lambda>write_address.
           and_then (be16_at data 6) (\<lambda>write_quantity.
           if write_quantity = 0
              \<or> write_quantity > ReadWriteMultipleRegistersRequest_MAX_WRITE_QUANTITY
           then Err (DecodeError.QuantityOutOfRange write_quantity)
           else and_then (at data 8) (\<lambda>write_byte_count.
           and_then (u16_mul write_quantity 2) (\<lambda>expected.
           if ucast write_byte_count \<noteq> expected
           then Err (DecodeError.ByteCountMismatch (unat write_byte_count) (unat expected))
           else let remaining = length data - 9 in
           if unat write_byte_count \<noteq> remaining
           then Err (DecodeError.ByteCountMismatch (unat write_byte_count) remaining)
           else and_then (slice_from data 9) (\<lambda>write_register_values.
           Ok \<lparr>ReadWriteMultipleRegistersRequest.read_address = read_address,
               ReadWriteMultipleRegistersRequest.read_quantity = read_quantity,
               ReadWriteMultipleRegistersRequest.write_address = write_address,
               ReadWriteMultipleRegistersRequest.write_quantity = write_quantity,
               ReadWriteMultipleRegistersRequest.write_byte_count = write_byte_count,
               ReadWriteMultipleRegistersRequest.write_register_values = write_register_values\<rparr>))))))))"

definition ReadWriteMultipleRegistersRequest_encoded_len
  :: "ReadWriteMultipleRegistersRequest \<Rightarrow> nat" where
  "ReadWriteMultipleRegistersRequest_encoded_len self =
     10 + length (ReadWriteMultipleRegistersRequest.write_register_values self)"

definition ReadWriteMultipleRegistersRequest_encode_into
  :: "ReadWriteMultipleRegistersRequest \<Rightarrow> bytes \<Rightarrow> (EncodeError, nat \<times> bytes) res" where
  "ReadWriteMultipleRegistersRequest_encode_into self buf =
     (let len = ReadWriteMultipleRegistersRequest_encoded_len self in
      if length buf < len then Err (EncodeError.BufferTooSmall len (length buf))
      else and_then (check_quantity (ReadWriteMultipleRegistersRequest.read_quantity self)
                  ReadWriteMultipleRegistersRequest_MAX_READ_QUANTITY) (\<lambda>_.
           and_then (check_quantity (ReadWriteMultipleRegistersRequest.write_quantity self)
                  ReadWriteMultipleRegistersRequest_MAX_WRITE_QUANTITY) (\<lambda>_.
           let expected_bytes = unat (ReadWriteMultipleRegistersRequest.write_quantity self) * 2;
               register_values = ReadWriteMultipleRegistersRequest.write_register_values self in
           and_then (check_byte_count (unat (ReadWriteMultipleRegistersRequest.write_byte_count self))
                  expected_bytes) (\<lambda>_.
           and_then (check_byte_count expected_bytes (length register_values)) (\<lambda>_.
           and_then (check_pdu_len len) (\<lambda>_.
           and_then (put_at buf 0 (FunctionCode_code FunctionCode.ReadWriteMultipleRegisters)) (\<lambda>buf.
           and_then (copy_at buf 1 3
                  (u16_to_be_bytes (ReadWriteMultipleRegistersRequest.read_address self))) (\<lambda>buf.
           and_then (copy_at buf 3 5
                  (u16_to_be_bytes (ReadWriteMultipleRegistersRequest.read_quantity self))) (\<lambda>buf.
           and_then (copy_at buf 5 7
                  (u16_to_be_bytes (ReadWriteMultipleRegistersRequest.write_address self))) (\<lambda>buf.
           and_then (copy_at buf 7 9
                  (u16_to_be_bytes (ReadWriteMultipleRegistersRequest.write_quantity self))) (\<lambda>buf.
           and_then (put_at buf 9 (ReadWriteMultipleRegistersRequest.write_byte_count self)) (\<lambda>buf.
           and_then (copy_at buf 10 (10 + length register_values) register_values) (\<lambda>buf.
           Ok (len, buf))))))))))))))"

definition ReadWriteMultipleRegistersRequest_wf :: "ReadWriteMultipleRegistersRequest \<Rightarrow> bool" where
  "ReadWriteMultipleRegistersRequest_wf r \<longleftrightarrow>
     ReadWriteMultipleRegistersRequest.read_quantity r \<noteq> 0
     \<and> ReadWriteMultipleRegistersRequest.read_quantity r \<le> 125
     \<and> ReadWriteMultipleRegistersRequest.write_quantity r \<noteq> 0
     \<and> ReadWriteMultipleRegistersRequest.write_quantity r \<le> 121
     \<and> unat (ReadWriteMultipleRegistersRequest.write_byte_count r)
         = 2 * unat (ReadWriteMultipleRegistersRequest.write_quantity r)
     \<and> length (ReadWriteMultipleRegistersRequest.write_register_values r)
         = 2 * unat (ReadWriteMultipleRegistersRequest.write_quantity r)"

definition ReadWriteMultipleRegistersRequest_payload :: "ReadWriteMultipleRegistersRequest \<Rightarrow> bytes" where
  "ReadWriteMultipleRegistersRequest_payload r =
     u16_to_be_bytes (ReadWriteMultipleRegistersRequest.read_address r)
       @ u16_to_be_bytes (ReadWriteMultipleRegistersRequest.read_quantity r)
       @ u16_to_be_bytes (ReadWriteMultipleRegistersRequest.write_address r)
       @ u16_to_be_bytes (ReadWriteMultipleRegistersRequest.write_quantity r)
       @ ReadWriteMultipleRegistersRequest.write_byte_count r
       # ReadWriteMultipleRegistersRequest.write_register_values r"

lemmas ReadWriteMultipleRegistersRequest_defs = ReadWriteMultipleRegistersRequest_decode_def ReadWriteMultipleRegistersRequest_encoded_len_def ReadWriteMultipleRegistersRequest_encode_into_def
  ReadWriteMultipleRegistersRequest_wf_def ReadWriteMultipleRegistersRequest_payload_def

interpretation read_write_multiple_registers_rq: exact_codec ReadWriteMultipleRegistersRequest_encode_into ReadWriteMultipleRegistersRequest_encoded_len
  ReadWriteMultipleRegistersRequest_wf "0x17" ReadWriteMultipleRegistersRequest_payload ReadWriteMultipleRegistersRequest_decode
  by unfold_locales (auto simp: ReadWriteMultipleRegistersRequest_defs checks res_simps length_add_10 length_ge_9
      Let_def u16_to_be_bytes_def not_less ucast_u8_u16_eq_iff word_le_nat_alt split: if_splits)

end
