(* ===== verification/Request_Misc.thy ===== *)
theory Request_Misc
  imports Codec_Error
begin

text \<open>
  The remaining requests of the codec: file records (\<open>request/file.rs\<close>, function codes 14
  and 15), diagnostics (\<open>request/diagnostic.rs\<close>, 08), FIFO queue (\<open>request/fifo.rs\<close>, 18) and
  the encapsulated interface (\<open>request/mei.rs\<close> and \<open>request/device_id.rs\<close>, 2B).
\<close>

section \<open>File records\<close>

definition READ_FILE_RECORD_MIN_BYTE_COUNT :: nat where
  [simp]: "READ_FILE_RECORD_MIN_BYTE_COUNT = 0x07"
definition READ_FILE_RECORD_MAX_BYTE_COUNT :: nat where
  [simp]: "READ_FILE_RECORD_MAX_BYTE_COUNT = 0xF5"
definition WRITE_FILE_RECORD_MIN_BYTE_COUNT :: nat where
  [simp]: "WRITE_FILE_RECORD_MIN_BYTE_COUNT = 0x09"
definition WRITE_FILE_RECORD_MAX_BYTE_COUNT :: nat where
  [simp]: "WRITE_FILE_RECORD_MAX_BYTE_COUNT = 0xFB"
definition FILE_RECORD_REFERENCE_TYPE :: u8 where [simp]: "FILE_RECORD_REFERENCE_TYPE = 0x06"
definition MIN_FILE_NUMBER :: u16 where [simp]: "MIN_FILE_NUMBER = 0x0001"
definition MAX_RECORD_NUMBER :: u16 where [simp]: "MAX_RECORD_NUMBER = 0x270F"
definition RECORD_COUNT :: nat where [simp]: "RECORD_COUNT = 0x2710"

definition check_file_record_byte_count :: "u8 \<Rightarrow> nat \<Rightarrow> nat \<Rightarrow> (DecodeError, unit) res" where
  "check_file_record_byte_count byte_count minimum maximum =
     (let count = unat byte_count in
      if minimum \<le> count \<and> count \<le> maximum then Ok ()
      else Err (DecodeError.ByteCountOutOfRange count minimum maximum))"

definition check_file_record_range :: "u16 \<Rightarrow> u16 \<Rightarrow> u16 \<Rightarrow> (DecodeError, unit) res" where
  "check_file_record_range file_number record_number record_length =
     and_then (ok_or (usize_checked_add (unat record_number) (unat record_length))
                (DecodeError.FileRecordOutOfRange file_number record_number record_length)) (\<lambda>last.
     if file_number < MIN_FILE_NUMBER \<or> record_length = 0 \<or> record_number > MAX_RECORD_NUMBER
        \<or> last > RECORD_COUNT
     then Err (DecodeError.FileRecordOutOfRange file_number record_number record_length)
     else Ok ())"

definition check_file_record_range_encode :: "u16 \<Rightarrow> u16 \<Rightarrow> u16 \<Rightarrow> (EncodeError, unit) res" where
  "check_file_record_range_encode file_number record_number record_length =
     and_then (ok_or (usize_checked_add (unat record_number) (unat record_length))
                (EncodeError.FileRecordOutOfRange file_number record_number record_length)) (\<lambda>last.
     if file_number < MIN_FILE_NUMBER \<or> record_length = 0 \<or> record_number > MAX_RECORD_NUMBER
        \<or> last > RECORD_COUNT
     then Err (EncodeError.FileRecordOutOfRange file_number record_number record_length)
     else Ok ())"

record FileSubRequest =
  reference_type :: u8
  file_number :: u16
  record_number :: u16
  record_length :: u16

definition FileSubRequest_decode :: "bytes \<Rightarrow> (DecodeError, FileSubRequest) res" where
  "FileSubRequest_decode data =
     and_then (DecodeError_check_exact_len data 7) (\<lambda>_.
     and_then (at data 0) (\<lambda>reference_type.
     if reference_type \<noteq> FILE_RECORD_REFERENCE_TYPE
     then Err (DecodeError.InvalidReferenceType reference_type)
     else and_then (be16_at data 1) (\<lambda>file_number.
          and_then (be16_at data 3) (\<lambda>record_number.
          and_then (be16_at data 5) (\<lambda>record_length.
          and_then (check_file_record_range file_number record_number record_length) (\<lambda>_.
          Ok \<lparr>FileSubRequest.reference_type = reference_type,
              FileSubRequest.file_number = file_number,
              FileSubRequest.record_number = record_number,
              FileSubRequest.record_length = record_length\<rparr>))))))"

definition validate_file_sub_request_encode :: "bytes \<Rightarrow> (EncodeError, FileSubRequest) res" where
  "validate_file_sub_request_encode data =
     (if length data < 7 then Err (EncodeError.InvalidFileRecordLength (length data))
      else and_then (at data 0) (\<lambda>reference_type.
      if reference_type \<noteq> FILE_RECORD_REFERENCE_TYPE
      then Err (EncodeError.InvalidReferenceType reference_type)
      else and_then (be16_at data 1) (\<lambda>file_number.
           and_then (be16_at data 3) (\<lambda>record_number.
           and_then (be16_at data 5) (\<lambda>record_length.
           and_then (check_file_record_range_encode file_number record_number record_length) (\<lambda>_.
           Ok \<lparr>FileSubRequest.reference_type = reference_type,
               FileSubRequest.file_number = file_number,
               FileSubRequest.record_number = record_number,
               FileSubRequest.record_length = record_length\<rparr>))))))"

definition validate_read_file_sub_requests :: "bytes \<Rightarrow> (DecodeError, unit) res" where
  "validate_read_file_sub_requests sub_requests =
     (if length sub_requests mod 7 \<noteq> 0
      then Err (DecodeError.InvalidFileRecordLength (length sub_requests))
      else for_each (\<lambda>chunk. and_then (FileSubRequest_decode chunk) (\<lambda>_. Ok ()))
             (chunks_exact 7 sub_requests))"

definition validate_read_file_sub_requests_encode :: "bytes \<Rightarrow> (EncodeError, unit) res" where
  "validate_read_file_sub_requests_encode sub_requests =
     (if length sub_requests mod 7 \<noteq> 0
      then Err (EncodeError.InvalidFileRecordLength (length sub_requests))
      else for_each (\<lambda>chunk. and_then (validate_file_sub_request_encode chunk) (\<lambda>_. Ok ()))
             (chunks_exact 7 sub_requests))"

function validate_write_file_sub_requests :: "bytes \<Rightarrow> (DecodeError, unit) res" where
  "validate_write_file_sub_requests remaining =
     (if remaining = [] then Ok ()
      else if length remaining < 7
      then Err (DecodeError.InvalidFileRecordLength (length remaining))
      else and_then (slice remaining 0 7) (\<lambda>head.
           and_then (FileSubRequest_decode head) (\<lambda>sub.
           let value_bytes = unat (FileSubRequest.record_length sub) * 2;
               group_len = 7 + value_bytes in
           if length remaining < group_len
           then Err (DecodeError.ByteCountMismatch group_len (length remaining))
           else validate_write_file_sub_requests (drop group_len remaining))))"
  by pat_completeness auto
termination by (relation "measure length") auto

function validate_write_file_sub_requests_encode :: "bytes \<Rightarrow> (EncodeError, unit) res" where
  "validate_write_file_sub_requests_encode remaining =
     (if remaining = [] then Ok ()
      else if length remaining < 7
      then Err (EncodeError.InvalidFileRecordLength (length remaining))
      else and_then (slice remaining 0 7) (\<lambda>head.
           and_then (validate_file_sub_request_encode head) (\<lambda>sub.
           let value_bytes = unat (FileSubRequest.record_length sub) * 2;
               group_len = 7 + value_bytes in
           if length remaining < group_len
           then Err (EncodeError.ByteCountMismatch group_len (length remaining))
           else validate_write_file_sub_requests_encode (drop group_len remaining))))"
  by pat_completeness auto
termination by (relation "measure length") auto

declare validate_write_file_sub_requests.simps [simp del]
declare validate_write_file_sub_requests_encode.simps [simp del]

record ReadFileRecordRequest =
  byte_count :: u8
  sub_requests :: bytes

definition ReadFileRecordRequest_decode :: "bytes \<Rightarrow> (DecodeError, ReadFileRecordRequest) res" where
  "ReadFileRecordRequest_decode data =
     (if data = [] then Err (DecodeError.Truncated 1 0)
      else and_then (at data 0) (\<lambda>byte_count.
           and_then (check_file_record_byte_count byte_count
                       READ_FILE_RECORD_MIN_BYTE_COUNT READ_FILE_RECORD_MAX_BYTE_COUNT) (\<lambda>_.
           let remaining = length data - 1 in
           if unat byte_count \<noteq> remaining
           then Err (DecodeError.ByteCountMismatch (unat byte_count) remaining)
           else and_then (slice_from data 1) (\<lambda>sub_requests.
           and_then (validate_read_file_sub_requests sub_requests) (\<lambda>_.
           Ok \<lparr>ReadFileRecordRequest.byte_count = byte_count,
               ReadFileRecordRequest.sub_requests = sub_requests\<rparr>)))))"

definition ReadFileRecordRequest_encoded_len :: "ReadFileRecordRequest \<Rightarrow> nat" where
  "ReadFileRecordRequest_encoded_len self = 2 + length (ReadFileRecordRequest.sub_requests self)"

definition ReadFileRecordRequest_encode_into
  :: "ReadFileRecordRequest \<Rightarrow> bytes \<Rightarrow> (EncodeError, nat \<times> bytes) res" where
  "ReadFileRecordRequest_encode_into self buf =
     (let len = ReadFileRecordRequest_encoded_len self in
      if length buf < len then Err (EncodeError.BufferTooSmall len (length buf))
      else and_then (check_byte_count_range (unat (ReadFileRecordRequest.byte_count self))
                       READ_FILE_RECORD_MIN_BYTE_COUNT READ_FILE_RECORD_MAX_BYTE_COUNT) (\<lambda>_.
           and_then (check_byte_count (unat (ReadFileRecordRequest.byte_count self))
                       (length (ReadFileRecordRequest.sub_requests self))) (\<lambda>_.
           and_then (validate_read_file_sub_requests_encode (ReadFileRecordRequest.sub_requests self)) (\<lambda>_.
           and_then (check_pdu_len len) (\<lambda>_.
           and_then (put_at buf 0 (FunctionCode_code FunctionCode.ReadFileRecord)) (\<lambda>buf.
           and_then (put_at buf 1 (ReadFileRecordRequest.byte_count self)) (\<lambda>buf.
           and_then (copy_at buf 2 (2 + length (ReadFileRecordRequest.sub_requests self))
                       (ReadFileRecordRequest.sub_requests self)) (\<lambda>buf.
           Ok (len, buf)))))))))"

definition ReadFileRecordRequest_wf :: "ReadFileRecordRequest \<Rightarrow> bool" where
  "ReadFileRecordRequest_wf r \<longleftrightarrow>
     7 \<le> unat (ReadFileRecordRequest.byte_count r) \<and> unat (ReadFileRecordRequest.byte_count r) \<le> 245
     \<and> length (ReadFileRecordRequest.sub_requests r) = unat (ReadFileRecordRequest.byte_count r)
     \<and> validate_read_file_sub_requests (ReadFileRecordRequest.sub_requests r) = Ok ()"

definition ReadFileRecordRequest_payload :: "ReadFileRecordRequest \<Rightarrow> bytes" where
  "ReadFileRecordRequest_payload r = ReadFileRecordRequest.byte_count r # ReadFileRecordRequest.sub_requests r"

record WriteFileRecordRequest =
  byte_count :: u8
  sub_requests :: bytes

definition WriteFileRecordRequest_decode :: "bytes \<Rightarrow> (DecodeError, WriteFileRecordRequest) res" where
  "WriteFileRecordRequest_decode data =
     (if data = [] then Err (DecodeError.Truncated 1 0)
      else and_then (at data 0) (\<lambda>byte_count.
           and_then (check_file_record_byte_count byte_count
                       WRITE_FILE_RECORD_MIN_BYTE_COUNT WRITE_FILE_RECORD_MAX_BYTE_COUNT) (\<lambda>_.
           let remaining = length data - 1 in
           if unat byte_count \<noteq> remaining
           then Err (DecodeError.ByteCountMismatch (unat byte_count) remaining)
           else and_then (slice_from data 1) (\<lambda>sub_requests.
           and_then (validate_write_file_sub_requests sub_requests) (\<lambda>_.
           Ok \<lparr>WriteFileRecordRequest.byte_count = byte_count,
               WriteFileRecordRequest.sub_requests = sub_requests\<rparr>)))))"

definition WriteFileRecordRequest_encoded_len :: "WriteFileRecordRequest \<Rightarrow> nat" where
  "WriteFileRecordRequest_encoded_len self = 2 + length (WriteFileRecordRequest.sub_requests self)"

definition WriteFileRecordRequest_encode_into
  :: "WriteFileRecordRequest \<Rightarrow> bytes \<Rightarrow> (EncodeError, nat \<times> bytes) res" where
  "WriteFileRecordRequest_encode_into self buf =
     (let len = WriteFileRecordRequest_encoded_len self in
      if length buf < len then Err (EncodeError.BufferTooSmall len (length buf))
      else and_then (check_byte_count_range (unat (WriteFileRecordRequest.byte_count self))
                       WRITE_FILE_RECORD_MIN_BYTE_COUNT WRITE_FILE_RECORD_MAX_BYTE_COUNT) (\<lambda>_.
           and_then (check_byte_count (unat (WriteFileRecordRequest.byte_count self))
                       (length (WriteFileRecordRequest.sub_requests self))) (\<lambda>_.
           and_then (validate_write_file_sub_requests_encode (WriteFileRecordRequest.sub_requests self)) (\<lambda>_.
           and_then (check_pdu_len len) (\<lambda>_.
           and_then (put_at buf 0 (FunctionCode_code FunctionCode.WriteFileRecord)) (\<lambda>buf.
           and_then (put_at buf 1 (WriteFileRecordRequest.byte_count self)) (\<lambda>buf.
           and_then (copy_at buf 2 (2 + length (WriteFileRecordRequest.sub_requests self))
                       (WriteFileRecordRequest.sub_requests self)) (\<lambda>buf.
           Ok (len, buf)))))))))"

definition WriteFileRecordRequest_wf :: "WriteFileRecordRequest \<Rightarrow> bool" where
  "WriteFileRecordRequest_wf r \<longleftrightarrow>
     9 \<le> unat (WriteFileRecordRequest.byte_count r) \<and> unat (WriteFileRecordRequest.byte_count r) \<le> 251
     \<and> length (WriteFileRecordRequest.sub_requests r) = unat (WriteFileRecordRequest.byte_count r)
     \<and> validate_write_file_sub_requests (WriteFileRecordRequest.sub_requests r) = Ok ()"

definition WriteFileRecordRequest_payload :: "WriteFileRecordRequest \<Rightarrow> bytes" where
  "WriteFileRecordRequest_payload r = WriteFileRecordRequest.byte_count r # WriteFileRecordRequest.sub_requests r"

subsection \<open>The two file-record validators agree\<close>

text \<open>The checks on one 7-byte sub-request header, as one predicate.\<close>

definition file_sub_ok :: "u8 \<Rightarrow> u16 \<Rightarrow> u16 \<Rightarrow> u16 \<Rightarrow> bool" where
  "file_sub_ok rt file rec len \<longleftrightarrow>
     rt = 6 \<and> file \<noteq> 0 \<and> len \<noteq> 0 \<and> unat rec \<le> 9999 \<and> unat rec + unat len \<le> 10000"

lemma u16_less_1 [simp]: "(w :: u16) < 1 \<longleftrightarrow> w = 0"
  by (simp add: word_less_nat_alt unat_eq_zero)

lemma check_file_record_range_Ok:
  "check_file_record_range file rec len = Ok u \<longleftrightarrow> file_sub_ok 6 file rec len"
  by (auto simp: check_file_record_range_def file_sub_ok_def word_less_nat_alt unat_eq_zero)

lemma check_file_record_range_encode_Ok:
  "check_file_record_range_encode file rec len = Ok u \<longleftrightarrow> file_sub_ok 6 file rec len"
  by (auto simp: check_file_record_range_encode_def file_sub_ok_def word_less_nat_alt unat_eq_zero)

lemma check_file_record_range_not_Panic [simp]:
  "check_file_record_range file rec len \<noteq> Panic"
  "check_file_record_range_encode file rec len \<noteq> Panic"
  by (simp_all add: check_file_record_range_def check_file_record_range_encode_def)

lemma FileSubRequest_decode_Ok_iff:
  "FileSubRequest_decode d = Ok s \<longleftrightarrow>
     d = FileSubRequest.reference_type s # u16_to_be_bytes (FileSubRequest.file_number s)
           @ u16_to_be_bytes (FileSubRequest.record_number s)
           @ u16_to_be_bytes (FileSubRequest.record_length s)
     \<and> file_sub_ok (FileSubRequest.reference_type s) (FileSubRequest.file_number s)
         (FileSubRequest.record_number s) (FileSubRequest.record_length s)"
  (is "?l \<longleftrightarrow> ?r")
proof
  assume ?l
  then show ?r
    by (auto simp: FileSubRequest_decode_def res_simps length_eq_7 check_file_record_range_Ok
        file_sub_ok_def split: if_splits)
next
  assume ?r
  then show ?l
    by (auto simp: FileSubRequest_decode_def u16_to_be_bytes_def checks res_simps
        check_file_record_range_Ok file_sub_ok_def)
qed

lemma FileSubRequest_decode_not_Panic [simp]: "FileSubRequest_decode d \<noteq> Panic"
  by (auto simp: FileSubRequest_decode_def res_simps length_eq_7)

lemma validate_file_sub_request_encode_not_Panic [simp]:
  "validate_file_sub_request_encode d \<noteq> Panic"
  by (auto simp: validate_file_sub_request_encode_def res_simps length_ge_7 not_less)

lemma validate_file_sub_request_encode_Ok_iff:
  "length d = 7 \<Longrightarrow>
     validate_file_sub_request_encode d = Ok s \<longleftrightarrow> FileSubRequest_decode d = Ok s"
  by (auto simp: validate_file_sub_request_encode_def FileSubRequest_decode_def res_simps
      length_eq_7 check_file_record_range_Ok check_file_record_range_encode_Ok)

lemma validate_read_file_sub_requests_encode_Ok_iff:
  "validate_read_file_sub_requests_encode s = Ok u \<longleftrightarrow> validate_read_file_sub_requests s = Ok u"
proof -
  have "(\<exists>x. validate_file_sub_request_encode c = Ok x) \<longleftrightarrow> (\<exists>x. FileSubRequest_decode c = Ok x)"
    if "c \<in> set (chunks_exact 7 s)" for c
    using chunks_exact_length [OF that] by (simp add: validate_file_sub_request_encode_Ok_iff)
  then show ?thesis
    by (auto simp: validate_read_file_sub_requests_encode_def validate_read_file_sub_requests_def
        for_each_Ok_iff res_simps)
qed

lemma validate_read_file_sub_requests_not_Panic [simp]:
  "validate_read_file_sub_requests s \<noteq> Panic"
  "validate_read_file_sub_requests_encode s \<noteq> Panic"
  by (auto simp: validate_read_file_sub_requests_def validate_read_file_sub_requests_encode_def
      res_simps intro!: for_each_not_Panic)

lemma validate_write_file_sub_requests_encode_Ok_iff:
  "validate_write_file_sub_requests_encode s = Ok u \<longleftrightarrow> validate_write_file_sub_requests s = Ok u"
proof (induction s rule: validate_write_file_sub_requests.induct)
  case (1 s)
  show ?case
  proof (cases "s = [] \<or> length s < 7")
    case True
    then show ?thesis
      by (auto simp: validate_write_file_sub_requests.simps [of s]
          validate_write_file_sub_requests_encode.simps [of s])
  next
    case False
    then have h: "slice s 0 7 = Ok (take 7 s)" "length (take 7 s) = 7"
      by simp_all
    show ?thesis
      using False h "1.IH"
      by (subst validate_write_file_sub_requests.simps,
          subst validate_write_file_sub_requests_encode.simps)
        (auto simp: res_simps validate_file_sub_request_encode_Ok_iff Let_def)
  qed
qed

lemma validate_write_file_sub_requests_not_Panic [simp]:
  "validate_write_file_sub_requests s \<noteq> Panic"
proof (induction s rule: validate_write_file_sub_requests.induct)
  case (1 s)
  then show ?case
    by (subst validate_write_file_sub_requests.simps) (auto simp: res_simps Let_def)
qed

lemma validate_write_file_sub_requests_encode_not_Panic [simp]:
  "validate_write_file_sub_requests_encode s \<noteq> Panic"
proof (induction s rule: validate_write_file_sub_requests_encode.induct)
  case (1 s)
  then show ?case
    by (subst validate_write_file_sub_requests_encode.simps) (auto simp: res_simps Let_def)
qed


lemmas ReadFileRecordRequest_defs = ReadFileRecordRequest_decode_def ReadFileRecordRequest_encoded_len_def ReadFileRecordRequest_encode_into_def
  ReadFileRecordRequest_wf_def ReadFileRecordRequest_payload_def

interpretation read_file_record_rq: exact_codec ReadFileRecordRequest_encode_into ReadFileRecordRequest_encoded_len
  ReadFileRecordRequest_wf "0x14" ReadFileRecordRequest_payload ReadFileRecordRequest_decode
proof (unfold_locales, goal_cases)
  case (3 r buf)
  then show ?case
    using validate_read_file_sub_requests_encode_Ok_iff [of "ReadFileRecordRequest.sub_requests r" "()"] validate_read_file_sub_requests_not_Panic
    by (cases "validate_read_file_sub_requests_encode (ReadFileRecordRequest.sub_requests r)")
      (auto simp: ReadFileRecordRequest_defs checks validate_read_file_sub_requests_encode_Ok_iff)
qed (auto simp: ReadFileRecordRequest_defs checks res_simps check_file_record_byte_count_def Let_def
      length_Suc_le_conv
      validate_read_file_sub_requests_encode_Ok_iff neq_Nil_conv split: if_splits)

lemmas WriteFileRecordRequest_defs = WriteFileRecordRequest_decode_def WriteFileRecordRequest_encoded_len_def WriteFileRecordRequest_encode_into_def
  WriteFileRecordRequest_wf_def WriteFileRecordRequest_payload_def

interpretation write_file_record_rq: exact_codec WriteFileRecordRequest_encode_into WriteFileRecordRequest_encoded_len
  WriteFileRecordRequest_wf "0x15" WriteFileRecordRequest_payload WriteFileRecordRequest_decode
proof (unfold_locales, goal_cases)
  case (3 r buf)
  then show ?case
    using validate_write_file_sub_requests_encode_Ok_iff [of "WriteFileRecordRequest.sub_requests r" "()"] validate_write_file_sub_requests_encode_not_Panic
    by (cases "validate_write_file_sub_requests_encode (WriteFileRecordRequest.sub_requests r)")
      (auto simp: WriteFileRecordRequest_defs checks validate_write_file_sub_requests_encode_Ok_iff)
qed (auto simp: WriteFileRecordRequest_defs checks res_simps check_file_record_byte_count_def Let_def
      length_Suc_le_conv
      validate_write_file_sub_requests_encode_Ok_iff neq_Nil_conv split: if_splits)

section \<open>Diagnostics\<close>

definition check_diagnostic_data_len_decode :: "bytes \<Rightarrow> (DecodeError, unit) res" where
  "check_diagnostic_data_len_decode data =
     (if length data mod 2 = 0 then Ok ()
      else Err (DecodeError.InvalidDiagnosticDataLength (length data)))"

definition check_diagnostic_data_len_encode :: "bytes \<Rightarrow> (EncodeError, unit) res" where
  "check_diagnostic_data_len_encode data =
     (if length data mod 2 = 0 then Ok ()
      else Err (EncodeError.InvalidDiagnosticDataLength (length data)))"

record DiagnosticsRequest =
  sub_function :: DiagnosticSubFunction
  data :: bytes

definition DiagnosticsRequest_decode :: "bytes \<Rightarrow> (DecodeError, DiagnosticsRequest) res" where
  "DiagnosticsRequest_decode pdu_data =
     (if length pdu_data < 2 then Err (DecodeError.Truncated 2 (length pdu_data))
      else and_then (be16_at pdu_data 0) (\<lambda>raw_sub.
           and_then (ok_or (DiagnosticSubFunction_from_raw raw_sub)
                       (DecodeError.UnknownDiagnosticSubFunction raw_sub)) (\<lambda>sub_function.
           and_then (slice_from pdu_data 2) (\<lambda>payload.
           and_then (check_diagnostic_data_len_decode payload) (\<lambda>_.
           Ok \<lparr>DiagnosticsRequest.sub_function = sub_function,
               DiagnosticsRequest.data = payload\<rparr>)))))"

definition DiagnosticsRequest_encoded_len :: "DiagnosticsRequest \<Rightarrow> nat" where
  "DiagnosticsRequest_encoded_len self = 3 + length (DiagnosticsRequest.data self)"

definition DiagnosticsRequest_encode_into
  :: "DiagnosticsRequest \<Rightarrow> bytes \<Rightarrow> (EncodeError, nat \<times> bytes) res" where
  "DiagnosticsRequest_encode_into self buf =
     (let len = DiagnosticsRequest_encoded_len self in
      if length buf < len then Err (EncodeError.BufferTooSmall len (length buf))
      else and_then (check_diagnostic_data_len_encode (DiagnosticsRequest.data self)) (\<lambda>_.
           and_then (check_pdu_len len) (\<lambda>_.
           and_then (put_at buf 0 (FunctionCode_code FunctionCode.Diagnostics)) (\<lambda>buf.
           and_then (copy_at buf 1 3
                  (u16_to_be_bytes (DiagnosticSubFunction_code (DiagnosticsRequest.sub_function self)))) (\<lambda>buf.
           and_then (copy_at buf 3 (3 + length (DiagnosticsRequest.data self)) (DiagnosticsRequest.data self)) (\<lambda>buf.
           Ok (len, buf)))))))"

definition DiagnosticsRequest_wf :: "DiagnosticsRequest \<Rightarrow> bool" where
  "DiagnosticsRequest_wf r \<longleftrightarrow>
     length (DiagnosticsRequest.data r) mod 2 = 0 \<and> length (DiagnosticsRequest.data r) \<le> 250"

definition DiagnosticsRequest_payload :: "DiagnosticsRequest \<Rightarrow> bytes" where
  "DiagnosticsRequest_payload r =
     u16_to_be_bytes (DiagnosticSubFunction_code (DiagnosticsRequest.sub_function r))
       @ DiagnosticsRequest.data r"

lemmas DiagnosticsRequest_defs = DiagnosticsRequest_decode_def DiagnosticsRequest_encoded_len_def DiagnosticsRequest_encode_into_def
  DiagnosticsRequest_wf_def DiagnosticsRequest_payload_def

interpretation diagnostics_rq: exact_codec DiagnosticsRequest_encode_into DiagnosticsRequest_encoded_len
  DiagnosticsRequest_wf "0x08" DiagnosticsRequest_payload DiagnosticsRequest_decode
  by unfold_locales (auto simp: DiagnosticsRequest_defs checks res_simps length_add_3 length_ge_2
      check_diagnostic_data_len_decode_def check_diagnostic_data_len_encode_def
      u16_to_be_bytes_def not_less ok_or_eq_Ok DiagnosticSubFunction_from_raw_iff
      u16_from_be_eq_iff split: if_splits)

section \<open>FIFO queue\<close>

record ReadFifoQueueRequest =
  fifo_pointer_address :: Address

definition ReadFifoQueueRequest_decode :: "bytes \<Rightarrow> (DecodeError, ReadFifoQueueRequest) res" where
  "ReadFifoQueueRequest_decode pdu_data =
     and_then (DecodeError_check_exact_len pdu_data 2) (\<lambda>_.
     and_then (be16_at pdu_data 0) (\<lambda>fifo_pointer_address.
     Ok \<lparr>ReadFifoQueueRequest.fifo_pointer_address = fifo_pointer_address\<rparr>))"

definition ReadFifoQueueRequest_encoded_len :: "ReadFifoQueueRequest \<Rightarrow> nat" where
  "ReadFifoQueueRequest_encoded_len self = 3"

definition ReadFifoQueueRequest_encode_into
  :: "ReadFifoQueueRequest \<Rightarrow> bytes \<Rightarrow> (EncodeError, nat \<times> bytes) res" where
  "ReadFifoQueueRequest_encode_into self buf =
     (let len = ReadFifoQueueRequest_encoded_len self in
      if length buf < len then Err (EncodeError.BufferTooSmall len (length buf))
      else and_then (check_pdu_len len) (\<lambda>_.
           and_then (put_at buf 0 (FunctionCode_code FunctionCode.ReadFifoQueue)) (\<lambda>buf.
           and_then (copy_at buf 1 3 (u16_to_be_bytes (ReadFifoQueueRequest.fifo_pointer_address self))) (\<lambda>buf.
           Ok (len, buf)))))"

definition ReadFifoQueueRequest_wf :: "ReadFifoQueueRequest \<Rightarrow> bool" where
  "ReadFifoQueueRequest_wf r \<longleftrightarrow> True"

definition ReadFifoQueueRequest_payload :: "ReadFifoQueueRequest \<Rightarrow> bytes" where
  "ReadFifoQueueRequest_payload r = u16_to_be_bytes (ReadFifoQueueRequest.fifo_pointer_address r)"

lemmas ReadFifoQueueRequest_defs = ReadFifoQueueRequest_decode_def ReadFifoQueueRequest_encoded_len_def ReadFifoQueueRequest_encode_into_def
  ReadFifoQueueRequest_wf_def ReadFifoQueueRequest_payload_def

interpretation read_fifo_queue_rq: exact_codec ReadFifoQueueRequest_encode_into ReadFifoQueueRequest_encoded_len
  ReadFifoQueueRequest_wf "0x18" ReadFifoQueueRequest_payload ReadFifoQueueRequest_decode
  by unfold_locales (auto simp: ReadFifoQueueRequest_defs checks res_simps length_ge_3 length_eq_2
      u16_to_be_bytes_def not_less split: if_splits)

section \<open>Encapsulated interface\<close>

record EncapsulatedInterfaceRequest =
  mei_type :: MeiType
  data :: bytes

definition EncapsulatedInterfaceRequest_decode :: "bytes \<Rightarrow> (DecodeError, EncapsulatedInterfaceRequest) res" where
  "EncapsulatedInterfaceRequest_decode pdu_data =
     (if pdu_data = [] then Err (DecodeError.Truncated 1 0)
      else and_then (at pdu_data 0) (\<lambda>first.
           and_then (ok_or (MeiType_from_raw first) (DecodeError.UnknownMeiType first)) (\<lambda>mei_type.
           and_then (slice_from pdu_data 1) (\<lambda>payload.
           and_then (if mei_type = ReadDeviceIdentification
                     then and_then (DecodeError_check_exact_len payload 2) (\<lambda>_.
                          and_then (at payload 0) (\<lambda>code.
                          and_then (ok_or (DeviceIdCode_from_raw code)
                                      (DecodeError.InvalidDeviceIdCode code)) (\<lambda>_. Ok ())))
                     else Ok ()) (\<lambda>_.
           Ok \<lparr>EncapsulatedInterfaceRequest.mei_type = mei_type, EncapsulatedInterfaceRequest.data = payload\<rparr>)))))"

definition EncapsulatedInterfaceRequest_encoded_len :: "EncapsulatedInterfaceRequest \<Rightarrow> nat" where
  "EncapsulatedInterfaceRequest_encoded_len self = 2 + length (EncapsulatedInterfaceRequest.data self)"

definition EncapsulatedInterfaceRequest_encode_into
  :: "EncapsulatedInterfaceRequest \<Rightarrow> bytes \<Rightarrow> (EncodeError, nat \<times> bytes) res" where
  "EncapsulatedInterfaceRequest_encode_into self buf =
     (let len = EncapsulatedInterfaceRequest_encoded_len self in
      if length buf < len then Err (EncodeError.BufferTooSmall len (length buf))
      else and_then (check_pdu_len len) (\<lambda>_.
           and_then (put_at buf 0 (FunctionCode_code FunctionCode.EncapsulatedInterfaceTransport)) (\<lambda>buf.
           and_then (put_at buf 1 (MeiType_code (EncapsulatedInterfaceRequest.mei_type self))) (\<lambda>buf.
           and_then (copy_at buf 2 (2 + length (EncapsulatedInterfaceRequest.data self))
                  (EncapsulatedInterfaceRequest.data self)) (\<lambda>buf.
           Ok (len, buf))))))"

text \<open>
  The encoder only bounds the length; the decoder also asks that a device-identification
  payload be a known access code followed by an object id.
\<close>

definition EncapsulatedInterfaceRequest_wf :: "EncapsulatedInterfaceRequest \<Rightarrow> bool" where
  "EncapsulatedInterfaceRequest_wf r \<longleftrightarrow> length (EncapsulatedInterfaceRequest.data r) \<le> 251"

definition EncapsulatedInterfaceRequest_valid :: "EncapsulatedInterfaceRequest \<Rightarrow> bool" where
  "EncapsulatedInterfaceRequest_valid r \<longleftrightarrow>
     EncapsulatedInterfaceRequest_wf r \<and>
     (EncapsulatedInterfaceRequest.mei_type r = ReadDeviceIdentification \<longrightarrow>
        length (EncapsulatedInterfaceRequest.data r) = 2
        \<and> DeviceIdCode_from_raw (EncapsulatedInterfaceRequest.data r ! 0) \<noteq> None)"

definition EncapsulatedInterfaceRequest_payload :: "EncapsulatedInterfaceRequest \<Rightarrow> bytes" where
  "EncapsulatedInterfaceRequest_payload r =
     MeiType_code (EncapsulatedInterfaceRequest.mei_type r) # EncapsulatedInterfaceRequest.data r"

lemmas EncapsulatedInterfaceRequest_defs = EncapsulatedInterfaceRequest_decode_def EncapsulatedInterfaceRequest_encoded_len_def EncapsulatedInterfaceRequest_encode_into_def
  EncapsulatedInterfaceRequest_wf_def EncapsulatedInterfaceRequest_valid_def EncapsulatedInterfaceRequest_payload_def

interpretation encapsulated_interface_rq: pdu_codec EncapsulatedInterfaceRequest_encode_into EncapsulatedInterfaceRequest_encoded_len
  EncapsulatedInterfaceRequest_wf "0x2B" EncapsulatedInterfaceRequest_payload EncapsulatedInterfaceRequest_valid EncapsulatedInterfaceRequest_decode
proof (unfold_locales, goal_cases)
  case (6 r)
  then show ?case
    by (cases "EncapsulatedInterfaceRequest.mei_type r")
      (auto simp: EncapsulatedInterfaceRequest_defs checks ok_or_def MeiType_from_raw_def)
next
  case (7 d r)
  then show ?case
    by (auto simp: EncapsulatedInterfaceRequest_defs res_simps neq_Nil_conv ok_or_eq_Ok
        MeiType_from_raw_iff split: if_splits)
next
  case (8 d)
  then show ?case
    by (auto simp: EncapsulatedInterfaceRequest_defs res_simps neq_Nil_conv length_eq_2)
qed (auto simp: EncapsulatedInterfaceRequest_defs checks length_Suc_le_conv)

record ReadDeviceIdentificationRequest =
  device_id_code :: DeviceIdCode
  object_id :: u8

definition ReadDeviceIdentificationRequest_decode
  :: "bytes \<Rightarrow> (DecodeError, ReadDeviceIdentificationRequest) res" where
  "ReadDeviceIdentificationRequest_decode pdu_data =
     and_then (DecodeError_check_exact_len pdu_data 3) (\<lambda>_.
     and_then (at pdu_data 0) (\<lambda>mei.
     if mei \<noteq> MeiType_code ReadDeviceIdentification then Err (DecodeError.UnknownMeiType mei)
     else and_then (at pdu_data 1) (\<lambda>code.
          and_then (ok_or (DeviceIdCode_from_raw code)
                      (DecodeError.InvalidDeviceIdCode code)) (\<lambda>device_id_code.
          and_then (at pdu_data 2) (\<lambda>object_id.
          Ok \<lparr>ReadDeviceIdentificationRequest.device_id_code = device_id_code,
              ReadDeviceIdentificationRequest.object_id = object_id\<rparr>)))))"

definition ReadDeviceIdentificationRequest_encoded_len
  :: "ReadDeviceIdentificationRequest \<Rightarrow> nat" where
  "ReadDeviceIdentificationRequest_encoded_len self = 4"

definition ReadDeviceIdentificationRequest_encode_into
  :: "ReadDeviceIdentificationRequest \<Rightarrow> bytes \<Rightarrow> (EncodeError, nat \<times> bytes) res" where
  "ReadDeviceIdentificationRequest_encode_into self buf =
     (let len = ReadDeviceIdentificationRequest_encoded_len self in
      if length buf < len then Err (EncodeError.BufferTooSmall len (length buf))
      else and_then (check_pdu_len len) (\<lambda>_.
           and_then (put_at buf 0 (FunctionCode_code FunctionCode.EncapsulatedInterfaceTransport)) (\<lambda>buf.
           and_then (put_at buf 1 (MeiType_code ReadDeviceIdentification)) (\<lambda>buf.
           and_then (put_at buf 2
                  (DeviceIdCode_code (ReadDeviceIdentificationRequest.device_id_code self))) (\<lambda>buf.
           and_then (put_at buf 3 (ReadDeviceIdentificationRequest.object_id self)) (\<lambda>buf.
           Ok (len, buf)))))))"

definition ReadDeviceIdentificationRequest_wf :: "ReadDeviceIdentificationRequest \<Rightarrow> bool" where
  "ReadDeviceIdentificationRequest_wf r \<longleftrightarrow> True"

definition ReadDeviceIdentificationRequest_payload :: "ReadDeviceIdentificationRequest \<Rightarrow> bytes" where
  "ReadDeviceIdentificationRequest_payload r =
     [MeiType_code ReadDeviceIdentification,
      DeviceIdCode_code (ReadDeviceIdentificationRequest.device_id_code r),
      ReadDeviceIdentificationRequest.object_id r]"

lemmas ReadDeviceIdentificationRequest_defs = ReadDeviceIdentificationRequest_decode_def ReadDeviceIdentificationRequest_encoded_len_def ReadDeviceIdentificationRequest_encode_into_def
  ReadDeviceIdentificationRequest_wf_def ReadDeviceIdentificationRequest_payload_def

interpretation read_device_identification_rq: exact_codec ReadDeviceIdentificationRequest_encode_into ReadDeviceIdentificationRequest_encoded_len
  ReadDeviceIdentificationRequest_wf "0x2B" ReadDeviceIdentificationRequest_payload ReadDeviceIdentificationRequest_decode
  by unfold_locales (auto simp: ReadDeviceIdentificationRequest_defs checks res_simps length_ge_4
      length_eq_3 ok_or_eq_Ok DeviceIdCode_from_raw_iff split: if_splits)

end
