(* ===== verification/Response_Data.thy ===== *)
theory Response_Data
  imports Codec_Error
begin

text \<open>
  Responses that carry bit or register data (\<open>response/bit_read.rs\<close>, \<open>response/reg_read.rs\<close>
  and the FC 17 response of \<open>response/reg_write.rs\<close>), with the accessors a client reads
  single coils and registers with.
\<close>

section \<open>ReadCoilsResponse\<close>

record ReadCoilsResponse =
  byte_count :: u8
  coil_status :: bytes

definition ReadCoilsResponse_coil :: "ReadCoilsResponse \<Rightarrow> nat \<Rightarrow> ('e, bool) res" where
  "ReadCoilsResponse_coil self index =
     (let byte_idx = index div 8; bit_idx = index mod 8 in
      and_then (at (ReadCoilsResponse.coil_status self) byte_idx) (\<lambda>b.
      Ok ((drop_bit bit_idx b) AND 1 = 1)))"

definition ReadCoilsResponse_decode :: "bytes \<Rightarrow> (DecodeError, ReadCoilsResponse) res" where
  "ReadCoilsResponse_decode pdu_data =
     (if pdu_data = [] then Err (DecodeError.Truncated 1 0)
      else and_then (at pdu_data 0) (\<lambda>byte_count.
           and_then (slice_from pdu_data 1) (\<lambda>coil_status.
           if length coil_status \<noteq> unat byte_count
           then Err (DecodeError.ByteCountMismatch (unat byte_count) (length coil_status))
           else Ok \<lparr>ReadCoilsResponse.byte_count = byte_count,
                    ReadCoilsResponse.coil_status = coil_status\<rparr>)))"

definition ReadCoilsResponse_encoded_len :: "ReadCoilsResponse \<Rightarrow> nat" where
  "ReadCoilsResponse_encoded_len self = 1 + 1 + unat (ReadCoilsResponse.byte_count self)"

definition ReadCoilsResponse_encode_into
  :: "ReadCoilsResponse \<Rightarrow> bytes \<Rightarrow> (EncodeError, nat \<times> bytes) res" where
  "ReadCoilsResponse_encode_into self buf =
     (let len = ReadCoilsResponse_encoded_len self in
      if length buf < len then Err (EncodeError.BufferTooSmall len (length buf))
      else and_then (check_byte_count (unat (ReadCoilsResponse.byte_count self))
                  (length (ReadCoilsResponse.coil_status self))) (\<lambda>_.
           and_then (check_pdu_len len) (\<lambda>_.
           and_then (put_at buf 0 (FunctionCode_code FunctionCode.ReadCoils)) (\<lambda>buf.
           and_then (put_at buf 1 (ReadCoilsResponse.byte_count self)) (\<lambda>buf.
           and_then (copy_at buf 2 (2 + unat (ReadCoilsResponse.byte_count self))
                  (ReadCoilsResponse.coil_status self)) (\<lambda>buf.
           Ok (len, buf)))))))"

definition ReadCoilsResponse_wf :: "ReadCoilsResponse \<Rightarrow> bool" where
  "ReadCoilsResponse_wf r \<longleftrightarrow>
     length (ReadCoilsResponse.coil_status r) = unat (ReadCoilsResponse.byte_count r)
     \<and> unat (ReadCoilsResponse.byte_count r) \<le> 251"

definition ReadCoilsResponse_payload :: "ReadCoilsResponse \<Rightarrow> bytes" where
  "ReadCoilsResponse_payload r = ReadCoilsResponse.byte_count r # ReadCoilsResponse.coil_status r"

lemmas ReadCoilsResponse_defs = ReadCoilsResponse_decode_def ReadCoilsResponse_encoded_len_def ReadCoilsResponse_encode_into_def
  ReadCoilsResponse_wf_def ReadCoilsResponse_payload_def

interpretation read_coils_rs: exact_codec ReadCoilsResponse_encode_into ReadCoilsResponse_encoded_len
  ReadCoilsResponse_wf "0x01" ReadCoilsResponse_payload ReadCoilsResponse_decode
  by unfold_locales (auto simp: ReadCoilsResponse_defs checks res_simps length_Suc_le_conv
      neq_Nil_conv split: if_splits)

section \<open>ReadDiscreteInputsResponse\<close>

record ReadDiscreteInputsResponse =
  byte_count :: u8
  coil_status :: bytes

definition ReadDiscreteInputsResponse_coil :: "ReadDiscreteInputsResponse \<Rightarrow> nat \<Rightarrow> ('e, bool) res" where
  "ReadDiscreteInputsResponse_coil self index =
     (let byte_idx = index div 8; bit_idx = index mod 8 in
      and_then (at (ReadDiscreteInputsResponse.coil_status self) byte_idx) (\<lambda>b.
      Ok ((drop_bit bit_idx b) AND 1 = 1)))"

definition ReadDiscreteInputsResponse_decode :: "bytes \<Rightarrow> (DecodeError, ReadDiscreteInputsResponse) res" where
  "ReadDiscreteInputsResponse_decode pdu_data =
     (if pdu_data = [] then Err (DecodeError.Truncated 1 0)
      else and_then (at pdu_data 0) (\<lambda>byte_count.
           and_then (slice_from pdu_data 1) (\<lambda>coil_status.
           if length coil_status \<noteq> unat byte_count
           then Err (DecodeError.ByteCountMismatch (unat byte_count) (length coil_status))
           else Ok \<lparr>ReadDiscreteInputsResponse.byte_count = byte_count,
                    ReadDiscreteInputsResponse.coil_status = coil_status\<rparr>)))"

definition ReadDiscreteInputsResponse_encoded_len :: "ReadDiscreteInputsResponse \<Rightarrow> nat" where
  "ReadDiscreteInputsResponse_encoded_len self = 1 + 1 + unat (ReadDiscreteInputsResponse.byte_count self)"

definition ReadDiscreteInputsResponse_encode_into
  :: "ReadDiscreteInputsResponse \<Rightarrow> bytes \<Rightarrow> (EncodeError, nat \<times> bytes) res" where
  "ReadDiscreteInputsResponse_encode_into self buf =
     (let len = ReadDiscreteInputsResponse_encoded_len self in
      if length buf < len then Err (EncodeError.BufferTooSmall len (length buf))
      else and_then (check_byte_count (unat (ReadDiscreteInputsResponse.byte_count self))
                  (length (ReadDiscreteInputsResponse.coil_status self))) (\<lambda>_.
           and_then (check_pdu_len len) (\<lambda>_.
           and_then (put_at buf 0 (FunctionCode_code FunctionCode.ReadDiscreteInputs)) (\<lambda>buf.
           and_then (put_at buf 1 (ReadDiscreteInputsResponse.byte_count self)) (\<lambda>buf.
           and_then (copy_at buf 2 (2 + unat (ReadDiscreteInputsResponse.byte_count self))
                  (ReadDiscreteInputsResponse.coil_status self)) (\<lambda>buf.
           Ok (len, buf)))))))"

definition ReadDiscreteInputsResponse_wf :: "ReadDiscreteInputsResponse \<Rightarrow> bool" where
  "ReadDiscreteInputsResponse_wf r \<longleftrightarrow>
     length (ReadDiscreteInputsResponse.coil_status r) = unat (ReadDiscreteInputsResponse.byte_count r)
     \<and> unat (ReadDiscreteInputsResponse.byte_count r) \<le> 251"

definition ReadDiscreteInputsResponse_payload :: "ReadDiscreteInputsResponse \<Rightarrow> bytes" where
  "ReadDiscreteInputsResponse_payload r = ReadDiscreteInputsResponse.byte_count r # ReadDiscreteInputsResponse.coil_status r"

lemmas ReadDiscreteInputsResponse_defs = ReadDiscreteInputsResponse_decode_def ReadDiscreteInputsResponse_encoded_len_def ReadDiscreteInputsResponse_encode_into_def
  ReadDiscreteInputsResponse_wf_def ReadDiscreteInputsResponse_payload_def

interpretation read_discrete_inputs_rs: exact_codec ReadDiscreteInputsResponse_encode_into ReadDiscreteInputsResponse_encoded_len
  ReadDiscreteInputsResponse_wf "0x02" ReadDiscreteInputsResponse_payload ReadDiscreteInputsResponse_decode
  by unfold_locales (auto simp: ReadDiscreteInputsResponse_defs checks res_simps length_Suc_le_conv
      neq_Nil_conv split: if_splits)

section \<open>ReadHoldingRegistersResponse\<close>

record ReadHoldingRegistersResponse =
  byte_count :: u8
  register_data :: bytes

definition ReadHoldingRegistersResponse_count :: "ReadHoldingRegistersResponse \<Rightarrow> nat" where
  "ReadHoldingRegistersResponse_count self = length (ReadHoldingRegistersResponse.register_data self) div 2"

definition ReadHoldingRegistersResponse_register
  :: "ReadHoldingRegistersResponse \<Rightarrow> nat \<Rightarrow> ('e, u16) res" where
  "ReadHoldingRegistersResponse_register self index =
     (let off = index * 2 in be16_at (ReadHoldingRegistersResponse.register_data self) off)"

definition ReadHoldingRegistersResponse_registers :: "ReadHoldingRegistersResponse \<Rightarrow> u16 list" where
  "ReadHoldingRegistersResponse_registers self =
     map (\<lambda>c. u16_from_be_bytes (c ! 0) (c ! 1))
       (chunks_exact 2 (ReadHoldingRegistersResponse.register_data self))"

definition ReadHoldingRegistersResponse_raw :: "ReadHoldingRegistersResponse \<Rightarrow> bytes" where
  "ReadHoldingRegistersResponse_raw self = ReadHoldingRegistersResponse.register_data self"

definition ReadHoldingRegistersResponse_decode :: "bytes \<Rightarrow> (DecodeError, ReadHoldingRegistersResponse) res" where
  "ReadHoldingRegistersResponse_decode pdu_data =
     (if pdu_data = [] then Err (DecodeError.Truncated 1 0)
      else and_then (at pdu_data 0) (\<lambda>byte_count.
           and_then (slice_from pdu_data 1) (\<lambda>register_data.
           if length register_data \<noteq> unat byte_count
           then Err (DecodeError.ByteCountMismatch (unat byte_count) (length register_data))
           else and_then (DecodeError_check_register_data_len (length register_data)) (\<lambda>_.
                Ok \<lparr>ReadHoldingRegistersResponse.byte_count = byte_count,
                    ReadHoldingRegistersResponse.register_data = register_data\<rparr>))))"

definition ReadHoldingRegistersResponse_encoded_len :: "ReadHoldingRegistersResponse \<Rightarrow> nat" where
  "ReadHoldingRegistersResponse_encoded_len self = 1 + 1 + unat (ReadHoldingRegistersResponse.byte_count self)"

definition ReadHoldingRegistersResponse_encode_into
  :: "ReadHoldingRegistersResponse \<Rightarrow> bytes \<Rightarrow> (EncodeError, nat \<times> bytes) res" where
  "ReadHoldingRegistersResponse_encode_into self buf =
     (let len = ReadHoldingRegistersResponse_encoded_len self in
      if length buf < len then Err (EncodeError.BufferTooSmall len (length buf))
      else and_then (check_byte_count (unat (ReadHoldingRegistersResponse.byte_count self))
                  (length (ReadHoldingRegistersResponse.register_data self))) (\<lambda>_.
           and_then (check_pdu_len len) (\<lambda>_.
           and_then (EncodeError_check_register_data_len (length (ReadHoldingRegistersResponse.register_data self))) (\<lambda>_.
           and_then (put_at buf 0 (FunctionCode_code FunctionCode.ReadHoldingRegisters)) (\<lambda>buf.
           and_then (put_at buf 1 (ReadHoldingRegistersResponse.byte_count self)) (\<lambda>buf.
           and_then (copy_at buf 2 (2 + unat (ReadHoldingRegistersResponse.byte_count self))
                  (ReadHoldingRegistersResponse.register_data self)) (\<lambda>buf.
           Ok (len, buf))))))))"

definition ReadHoldingRegistersResponse_wf :: "ReadHoldingRegistersResponse \<Rightarrow> bool" where
  "ReadHoldingRegistersResponse_wf r \<longleftrightarrow>
     length (ReadHoldingRegistersResponse.register_data r) = unat (ReadHoldingRegistersResponse.byte_count r)
     \<and> unat (ReadHoldingRegistersResponse.byte_count r) \<le> 251
     \<and> unat (ReadHoldingRegistersResponse.byte_count r) mod 2 = 0"

definition ReadHoldingRegistersResponse_payload :: "ReadHoldingRegistersResponse \<Rightarrow> bytes" where
  "ReadHoldingRegistersResponse_payload r = ReadHoldingRegistersResponse.byte_count r # ReadHoldingRegistersResponse.register_data r"

lemmas ReadHoldingRegistersResponse_defs = ReadHoldingRegistersResponse_decode_def ReadHoldingRegistersResponse_encoded_len_def ReadHoldingRegistersResponse_encode_into_def
  ReadHoldingRegistersResponse_wf_def ReadHoldingRegistersResponse_payload_def

interpretation read_holding_registers_rs: exact_codec ReadHoldingRegistersResponse_encode_into ReadHoldingRegistersResponse_encoded_len
  ReadHoldingRegistersResponse_wf "0x03" ReadHoldingRegistersResponse_payload ReadHoldingRegistersResponse_decode
  by unfold_locales (auto simp: ReadHoldingRegistersResponse_defs checks res_simps length_Suc_le_conv
      neq_Nil_conv split: if_splits)

section \<open>ReadInputRegistersResponse\<close>

record ReadInputRegistersResponse =
  byte_count :: u8
  register_data :: bytes

definition ReadInputRegistersResponse_count :: "ReadInputRegistersResponse \<Rightarrow> nat" where
  "ReadInputRegistersResponse_count self = length (ReadInputRegistersResponse.register_data self) div 2"

definition ReadInputRegistersResponse_register
  :: "ReadInputRegistersResponse \<Rightarrow> nat \<Rightarrow> ('e, u16) res" where
  "ReadInputRegistersResponse_register self index =
     (let off = index * 2 in be16_at (ReadInputRegistersResponse.register_data self) off)"

definition ReadInputRegistersResponse_registers :: "ReadInputRegistersResponse \<Rightarrow> u16 list" where
  "ReadInputRegistersResponse_registers self =
     map (\<lambda>c. u16_from_be_bytes (c ! 0) (c ! 1))
       (chunks_exact 2 (ReadInputRegistersResponse.register_data self))"

definition ReadInputRegistersResponse_raw :: "ReadInputRegistersResponse \<Rightarrow> bytes" where
  "ReadInputRegistersResponse_raw self = ReadInputRegistersResponse.register_data self"

definition ReadInputRegistersResponse_decode :: "bytes \<Rightarrow> (DecodeError, ReadInputRegistersResponse) res" where
  "ReadInputRegistersResponse_decode pdu_data =
     (if pdu_data = [] then Err (DecodeError.Truncated 1 0)
      else and_then (at pdu_data 0) (\<lambda>byte_count.
           and_then (slice_from pdu_data 1) (\<lambda>register_data.
           if length register_data \<noteq> unat byte_count
           then Err (DecodeError.ByteCountMismatch (unat byte_count) (length register_data))
           else and_then (DecodeError_check_register_data_len (length register_data)) (\<lambda>_.
                Ok \<lparr>ReadInputRegistersResponse.byte_count = byte_count,
                    ReadInputRegistersResponse.register_data = register_data\<rparr>))))"

definition ReadInputRegistersResponse_encoded_len :: "ReadInputRegistersResponse \<Rightarrow> nat" where
  "ReadInputRegistersResponse_encoded_len self = 1 + 1 + unat (ReadInputRegistersResponse.byte_count self)"

definition ReadInputRegistersResponse_encode_into
  :: "ReadInputRegistersResponse \<Rightarrow> bytes \<Rightarrow> (EncodeError, nat \<times> bytes) res" where
  "ReadInputRegistersResponse_encode_into self buf =
     (let len = ReadInputRegistersResponse_encoded_len self in
      if length buf < len then Err (EncodeError.BufferTooSmall len (length buf))
      else and_then (check_byte_count (unat (ReadInputRegistersResponse.byte_count self))
                  (length (ReadInputRegistersResponse.register_data self))) (\<lambda>_.
           and_then (check_pdu_len len) (\<lambda>_.
           and_then (EncodeError_check_register_data_len (length (ReadInputRegistersResponse.register_data self))) (\<lambda>_.
           and_then (put_at buf 0 (FunctionCode_code FunctionCode.ReadInputRegisters)) (\<lambda>buf.
           and_then (put_at buf 1 (ReadInputRegistersResponse.byte_count self)) (\<lambda>buf.
           and_then (copy_at buf 2 (2 + unat (ReadInputRegistersResponse.byte_count self))
                  (ReadInputRegistersResponse.register_data self)) (\<lambda>buf.
           Ok (len, buf))))))))"

definition ReadInputRegistersResponse_wf :: "ReadInputRegistersResponse \<Rightarrow> bool" where
  "ReadInputRegistersResponse_wf r \<longleftrightarrow>
     length (ReadInputRegistersResponse.register_data r) = unat (ReadInputRegistersResponse.byte_count r)
     \<and> unat (ReadInputRegistersResponse.byte_count r) \<le> 251
     \<and> unat (ReadInputRegistersResponse.byte_count r) mod 2 = 0"

definition ReadInputRegistersResponse_payload :: "ReadInputRegistersResponse \<Rightarrow> bytes" where
  "ReadInputRegistersResponse_payload r = ReadInputRegistersResponse.byte_count r # ReadInputRegistersResponse.register_data r"

lemmas ReadInputRegistersResponse_defs = ReadInputRegistersResponse_decode_def ReadInputRegistersResponse_encoded_len_def ReadInputRegistersResponse_encode_into_def
  ReadInputRegistersResponse_wf_def ReadInputRegistersResponse_payload_def

interpretation read_input_registers_rs: exact_codec ReadInputRegistersResponse_encode_into ReadInputRegistersResponse_encoded_len
  ReadInputRegistersResponse_wf "0x04" ReadInputRegistersResponse_payload ReadInputRegistersResponse_decode
  by unfold_locales (auto simp: ReadInputRegistersResponse_defs checks res_simps length_Suc_le_conv
      neq_Nil_conv split: if_splits)

section \<open>ReadWriteMultipleRegistersResponse\<close>

record ReadWriteMultipleRegistersResponse =
  byte_count :: u8
  register_data :: bytes

definition ReadWriteMultipleRegistersResponse_count :: "ReadWriteMultipleRegistersResponse \<Rightarrow> nat" where
  "ReadWriteMultipleRegistersResponse_count self = length (ReadWriteMultipleRegistersResponse.register_data self) div 2"

definition ReadWriteMultipleRegistersResponse_register
  :: "ReadWriteMultipleRegistersResponse \<Rightarrow> nat \<Rightarrow> ('e, u16) res" where
  "ReadWriteMultipleRegistersResponse_register self index =
     (let off = index * 2 in be16_at (ReadWriteMultipleRegistersResponse.register_data self) off)"

definition ReadWriteMultipleRegistersResponse_registers :: "ReadWriteMultipleRegistersResponse \<Rightarrow> u16 list" where
  "ReadWriteMultipleRegistersResponse_registers self =
     map (\<lambda>c. u16_from_be_bytes (c ! 0) (c ! 1))
       (chunks_exact 2 (ReadWriteMultipleRegistersResponse.register_data self))"

definition ReadWriteMultipleRegistersResponse_raw :: "ReadWriteMultipleRegistersResponse \<Rightarrow> bytes" where
  "ReadWriteMultipleRegistersResponse_raw self = ReadWriteMultipleRegistersResponse.register_data self"

definition ReadWriteMultipleRegistersResponse_decode :: "bytes \<Rightarrow> (DecodeError, ReadWriteMultipleRegistersResponse) res" where
  "ReadWriteMultipleRegistersResponse_decode pdu_data =
     (if pdu_data = [] then Err (DecodeError.Truncated 1 0)
      else and_then (at pdu_data 0) (\<lambda>byte_count.
           and_then (slice_from pdu_data 1) (\<lambda>register_data.
           if length register_data \<noteq> unat byte_count
           then Err (DecodeError.ByteCountMismatch (unat byte_count) (length register_data))
           else and_then (DecodeError_check_register_data_len (length register_data)) (\<lambda>_.
                Ok \<lparr>ReadWriteMultipleRegistersResponse.byte_count = byte_count,
                    ReadWriteMultipleRegistersResponse.register_data = register_data\<rparr>))))"

definition ReadWriteMultipleRegistersResponse_encoded_len :: "ReadWriteMultipleRegistersResponse \<Rightarrow> nat" where
  "ReadWriteMultipleRegistersResponse_encoded_len self = 1 + 1 + unat (ReadWriteMultipleRegistersResponse.byte_count self)"

definition ReadWriteMultipleRegistersResponse_encode_into
  :: "ReadWriteMultipleRegistersResponse \<Rightarrow> bytes \<Rightarrow> (EncodeError, nat \<times> bytes) res" where
  "ReadWriteMultipleRegistersResponse_encode_into self buf =
     (let len = ReadWriteMultipleRegistersResponse_encoded_len self in
      if length buf < len then Err (EncodeError.BufferTooSmall len (length buf))
      else and_then (check_byte_count (unat (ReadWriteMultipleRegistersResponse.byte_count self))
                  (length (ReadWriteMultipleRegistersResponse.register_data self))) (\<lambda>_.
           and_then (check_pdu_len len) (\<lambda>_.
           and_then (EncodeError_check_register_data_len (length (ReadWriteMultipleRegistersResponse.register_data self))) (\<lambda>_.
           and_then (put_at buf 0 (FunctionCode_code FunctionCode.ReadWriteMultipleRegisters)) (\<lambda>buf.
           and_then (put_at buf 1 (ReadWriteMultipleRegistersResponse.byte_count self)) (\<lambda>buf.
           and_then (copy_at buf 2 (2 + unat (ReadWriteMultipleRegistersResponse.byte_count self))
                  (ReadWriteMultipleRegistersResponse.register_data self)) (\<lambda>buf.
           Ok (len, buf))))))))"

definition ReadWriteMultipleRegistersResponse_wf :: "ReadWriteMultipleRegistersResponse \<Rightarrow> bool" where
  "ReadWriteMultipleRegistersResponse_wf r \<longleftrightarrow>
     length (ReadWriteMultipleRegistersResponse.register_data r) = unat (ReadWriteMultipleRegistersResponse.byte_count r)
     \<and> unat (ReadWriteMultipleRegistersResponse.byte_count r) \<le> 251
     \<and> unat (ReadWriteMultipleRegistersResponse.byte_count r) mod 2 = 0"

definition ReadWriteMultipleRegistersResponse_payload :: "ReadWriteMultipleRegistersResponse \<Rightarrow> bytes" where
  "ReadWriteMultipleRegistersResponse_payload r = ReadWriteMultipleRegistersResponse.byte_count r # ReadWriteMultipleRegistersResponse.register_data r"

lemmas ReadWriteMultipleRegistersResponse_defs = ReadWriteMultipleRegistersResponse_decode_def ReadWriteMultipleRegistersResponse_encoded_len_def ReadWriteMultipleRegistersResponse_encode_into_def
  ReadWriteMultipleRegistersResponse_wf_def ReadWriteMultipleRegistersResponse_payload_def

interpretation read_write_multiple_registers_rs: exact_codec ReadWriteMultipleRegistersResponse_encode_into ReadWriteMultipleRegistersResponse_encoded_len
  ReadWriteMultipleRegistersResponse_wf "0x17" ReadWriteMultipleRegistersResponse_payload ReadWriteMultipleRegistersResponse_decode
  by unfold_locales (auto simp: ReadWriteMultipleRegistersResponse_defs checks res_simps length_Suc_le_conv
      neq_Nil_conv split: if_splits)

end
