(* ===== verification/Response_Echo.thy ===== *)
theory Response_Echo
  imports Codec_Error
begin

text \<open>
  Responses that echo a write (\<open>response/bit_write.rs\<close> and \<open>response/reg_write.rs\<close>): function
  codes 05, 0F, 06, 10 and 16.
\<close>

section \<open>WriteSingleCoilResponse\<close>

record WriteSingleCoilResponse =
  address :: Address
  "value" :: CoilValue

definition WriteSingleCoilResponse_decode :: "bytes \<Rightarrow> (DecodeError, WriteSingleCoilResponse) res" where
  "WriteSingleCoilResponse_decode pdu_data =
     and_then (DecodeError_check_exact_len pdu_data 4) (\<lambda>_.
     and_then (be16_at pdu_data 0) (\<lambda>address.
     and_then (be16_at pdu_data 2) (\<lambda>raw_value.
     and_then (ok_or (CoilValue_from_wire raw_value) (DecodeError.InvalidCoilValue raw_value)) (\<lambda>value.
     Ok \<lparr>WriteSingleCoilResponse.address = address, WriteSingleCoilResponse.value = value\<rparr>))))"

definition WriteSingleCoilResponse_encoded_len :: "WriteSingleCoilResponse \<Rightarrow> nat" where
  "WriteSingleCoilResponse_encoded_len self = 1 + 4"

definition WriteSingleCoilResponse_encode_into
  :: "WriteSingleCoilResponse \<Rightarrow> bytes \<Rightarrow> (EncodeError, nat \<times> bytes) res" where
  "WriteSingleCoilResponse_encode_into self buf =
     (let len = WriteSingleCoilResponse_encoded_len self in
      if length buf < len then Err (EncodeError.BufferTooSmall len (length buf))
      else and_then (check_pdu_len len) (\<lambda>_.
           and_then (put_at buf 0 (FunctionCode_code FunctionCode.WriteSingleCoil)) (\<lambda>buf.
           and_then (put_at buf 1 (u16_to_be_bytes (WriteSingleCoilResponse.address self) ! 0)) (\<lambda>buf.
           and_then (put_at buf 2 (u16_to_be_bytes (WriteSingleCoilResponse.address self) ! 1)) (\<lambda>buf.
           and_then (put_at buf 3 (u16_to_be_bytes (CoilValue_to_wire (WriteSingleCoilResponse.value self)) ! 0)) (\<lambda>buf.
           and_then (put_at buf 4 (u16_to_be_bytes (CoilValue_to_wire (WriteSingleCoilResponse.value self)) ! 1)) (\<lambda>buf.
           Ok (len, buf))))))))"

definition WriteSingleCoilResponse_wf :: "WriteSingleCoilResponse \<Rightarrow> bool" where
  "WriteSingleCoilResponse_wf r \<longleftrightarrow> True"

definition WriteSingleCoilResponse_payload :: "WriteSingleCoilResponse \<Rightarrow> bytes" where
  "WriteSingleCoilResponse_payload r = u16_to_be_bytes (WriteSingleCoilResponse.address r)
     @ u16_to_be_bytes (CoilValue_to_wire (WriteSingleCoilResponse.value r))"

lemmas WriteSingleCoilResponse_defs = WriteSingleCoilResponse_decode_def WriteSingleCoilResponse_encoded_len_def WriteSingleCoilResponse_encode_into_def
  WriteSingleCoilResponse_wf_def WriteSingleCoilResponse_payload_def

interpretation write_single_coil_rs: exact_codec WriteSingleCoilResponse_encode_into WriteSingleCoilResponse_encoded_len
  WriteSingleCoilResponse_wf "0x05" WriteSingleCoilResponse_payload WriteSingleCoilResponse_decode
  by unfold_locales (auto simp: WriteSingleCoilResponse_defs checks res_simps length_ge_5 length_eq_4
      u16_to_be_bytes_def not_less ok_or_eq_Ok CoilValue_from_wire_iff u16_from_be_eq_iff split: if_splits)

section \<open>WriteMultipleCoilsResponse\<close>

record WriteMultipleCoilsResponse =
  address :: Address
  quantity :: Quantity

definition WriteMultipleCoilsResponse_decode :: "bytes \<Rightarrow> (DecodeError, WriteMultipleCoilsResponse) res" where
  "WriteMultipleCoilsResponse_decode pdu_data =
     and_then (DecodeError_check_exact_len pdu_data 4) (\<lambda>_.
     and_then (be16_at pdu_data 0) (\<lambda>address.
     and_then (be16_at pdu_data 2) (\<lambda>quantity.
     Ok \<lparr>WriteMultipleCoilsResponse.address = address, WriteMultipleCoilsResponse.quantity = quantity\<rparr>)))"

definition WriteMultipleCoilsResponse_encoded_len :: "WriteMultipleCoilsResponse \<Rightarrow> nat" where
  "WriteMultipleCoilsResponse_encoded_len self = 1 + 4"

definition WriteMultipleCoilsResponse_encode_into
  :: "WriteMultipleCoilsResponse \<Rightarrow> bytes \<Rightarrow> (EncodeError, nat \<times> bytes) res" where
  "WriteMultipleCoilsResponse_encode_into self buf =
     (let len = WriteMultipleCoilsResponse_encoded_len self in
      if length buf < len then Err (EncodeError.BufferTooSmall len (length buf))
      else and_then (check_quantity (WriteMultipleCoilsResponse.quantity self) MAX_WRITE_COILS) (\<lambda>_.
           and_then (check_pdu_len len) (\<lambda>_.
           and_then (put_at buf 0 (FunctionCode_code FunctionCode.WriteMultipleCoils)) (\<lambda>buf.
           and_then (put_at buf 1 (u16_to_be_bytes (WriteMultipleCoilsResponse.address self) ! 0)) (\<lambda>buf.
           and_then (put_at buf 2 (u16_to_be_bytes (WriteMultipleCoilsResponse.address self) ! 1)) (\<lambda>buf.
           and_then (put_at buf 3 (u16_to_be_bytes (WriteMultipleCoilsResponse.quantity self) ! 0)) (\<lambda>buf.
           and_then (put_at buf 4 (u16_to_be_bytes (WriteMultipleCoilsResponse.quantity self) ! 1)) (\<lambda>buf.
           Ok (len, buf)))))))))"

definition WriteMultipleCoilsResponse_wf :: "WriteMultipleCoilsResponse \<Rightarrow> bool" where
  "WriteMultipleCoilsResponse_wf r \<longleftrightarrow> WriteMultipleCoilsResponse.quantity r \<noteq> 0 \<and> WriteMultipleCoilsResponse.quantity r \<le> MAX_WRITE_COILS"

definition WriteMultipleCoilsResponse_valid :: "WriteMultipleCoilsResponse \<Rightarrow> bool" where
  "WriteMultipleCoilsResponse_valid r \<longleftrightarrow> True"

definition WriteMultipleCoilsResponse_payload :: "WriteMultipleCoilsResponse \<Rightarrow> bytes" where
  "WriteMultipleCoilsResponse_payload r = u16_to_be_bytes (WriteMultipleCoilsResponse.address r)
     @ u16_to_be_bytes (WriteMultipleCoilsResponse.quantity r)"

lemmas WriteMultipleCoilsResponse_defs = WriteMultipleCoilsResponse_decode_def WriteMultipleCoilsResponse_encoded_len_def WriteMultipleCoilsResponse_encode_into_def
  WriteMultipleCoilsResponse_wf_def WriteMultipleCoilsResponse_valid_def WriteMultipleCoilsResponse_payload_def

interpretation write_multiple_coils_rs: pdu_codec WriteMultipleCoilsResponse_encode_into WriteMultipleCoilsResponse_encoded_len
  WriteMultipleCoilsResponse_wf "0x0F" WriteMultipleCoilsResponse_payload WriteMultipleCoilsResponse_valid WriteMultipleCoilsResponse_decode
  by unfold_locales (auto simp: WriteMultipleCoilsResponse_defs checks res_simps length_ge_5 length_eq_4
      u16_to_be_bytes_def not_less split: if_splits)

section \<open>WriteSingleRegisterResponse\<close>

record WriteSingleRegisterResponse =
  address :: Address
  "value" :: u16

definition WriteSingleRegisterResponse_decode :: "bytes \<Rightarrow> (DecodeError, WriteSingleRegisterResponse) res" where
  "WriteSingleRegisterResponse_decode pdu_data =
     and_then (DecodeError_check_exact_len pdu_data 4) (\<lambda>_.
     and_then (be16_at pdu_data 0) (\<lambda>address.
     and_then (be16_at pdu_data 2) (\<lambda>value.
     Ok \<lparr>WriteSingleRegisterResponse.address = address, WriteSingleRegisterResponse.value = value\<rparr>)))"

definition WriteSingleRegisterResponse_encoded_len :: "WriteSingleRegisterResponse \<Rightarrow> nat" where
  "WriteSingleRegisterResponse_encoded_len self = 1 + 4"

definition WriteSingleRegisterResponse_encode_into
  :: "WriteSingleRegisterResponse \<Rightarrow> bytes \<Rightarrow> (EncodeError, nat \<times> bytes) res" where
  "WriteSingleRegisterResponse_encode_into self buf =
     (let len = WriteSingleRegisterResponse_encoded_len self in
      if length buf < len then Err (EncodeError.BufferTooSmall len (length buf))
      else and_then (check_pdu_len len) (\<lambda>_.
           and_then (put_at buf 0 (FunctionCode_code FunctionCode.WriteSingleRegister)) (\<lambda>buf.
           and_then (put_at buf 1 (u16_to_be_bytes (WriteSingleRegisterResponse.address self) ! 0)) (\<lambda>buf.
           and_then (put_at buf 2 (u16_to_be_bytes (WriteSingleRegisterResponse.address self) ! 1)) (\<lambda>buf.
           and_then (put_at buf 3 (u16_to_be_bytes (WriteSingleRegisterResponse.value self) ! 0)) (\<lambda>buf.
           and_then (put_at buf 4 (u16_to_be_bytes (WriteSingleRegisterResponse.value self) ! 1)) (\<lambda>buf.
           Ok (len, buf))))))))"

definition WriteSingleRegisterResponse_wf :: "WriteSingleRegisterResponse \<Rightarrow> bool" where
  "WriteSingleRegisterResponse_wf r \<longleftrightarrow> True"

definition WriteSingleRegisterResponse_payload :: "WriteSingleRegisterResponse \<Rightarrow> bytes" where
  "WriteSingleRegisterResponse_payload r = u16_to_be_bytes (WriteSingleRegisterResponse.address r)
     @ u16_to_be_bytes (WriteSingleRegisterResponse.value r)"

lemmas WriteSingleRegisterResponse_defs = WriteSingleRegisterResponse_decode_def WriteSingleRegisterResponse_encoded_len_def WriteSingleRegisterResponse_encode_into_def
  WriteSingleRegisterResponse_wf_def WriteSingleRegisterResponse_payload_def

interpretation write_single_register_rs: exact_codec WriteSingleRegisterResponse_encode_into WriteSingleRegisterResponse_encoded_len
  WriteSingleRegisterResponse_wf "0x06" WriteSingleRegisterResponse_payload WriteSingleRegisterResponse_decode
  by unfold_locales (auto simp: WriteSingleRegisterResponse_defs checks res_simps length_ge_5 length_eq_4
      u16_to_be_bytes_def not_less split: if_splits)

section \<open>WriteMultipleRegistersResponse\<close>

record WriteMultipleRegistersResponse =
  address :: Address
  quantity :: Quantity

definition WriteMultipleRegistersResponse_decode :: "bytes \<Rightarrow> (DecodeError, WriteMultipleRegistersResponse) res" where
  "WriteMultipleRegistersResponse_decode pdu_data =
     and_then (DecodeError_check_exact_len pdu_data 4) (\<lambda>_.
     and_then (be16_at pdu_data 0) (\<lambda>address.
     and_then (be16_at pdu_data 2) (\<lambda>quantity.
     Ok \<lparr>WriteMultipleRegistersResponse.address = address, WriteMultipleRegistersResponse.quantity = quantity\<rparr>)))"

definition WriteMultipleRegistersResponse_encoded_len :: "WriteMultipleRegistersResponse \<Rightarrow> nat" where
  "WriteMultipleRegistersResponse_encoded_len self = 1 + 4"

definition WriteMultipleRegistersResponse_encode_into
  :: "WriteMultipleRegistersResponse \<Rightarrow> bytes \<Rightarrow> (EncodeError, nat \<times> bytes) res" where
  "WriteMultipleRegistersResponse_encode_into self buf =
     (let len = WriteMultipleRegistersResponse_encoded_len self in
      if length buf < len then Err (EncodeError.BufferTooSmall len (length buf))
      else and_then (check_quantity (WriteMultipleRegistersResponse.quantity self) MAX_WRITE_REGISTERS) (\<lambda>_.
           and_then (check_pdu_len len) (\<lambda>_.
           and_then (put_at buf 0 (FunctionCode_code FunctionCode.WriteMultipleRegisters)) (\<lambda>buf.
           and_then (put_at buf 1 (u16_to_be_bytes (WriteMultipleRegistersResponse.address self) ! 0)) (\<lambda>buf.
           and_then (put_at buf 2 (u16_to_be_bytes (WriteMultipleRegistersResponse.address self) ! 1)) (\<lambda>buf.
           and_then (put_at buf 3 (u16_to_be_bytes (WriteMultipleRegistersResponse.quantity self) ! 0)) (\<lambda>buf.
           and_then (put_at buf 4 (u16_to_be_bytes (WriteMultipleRegistersResponse.quantity self) ! 1)) (\<lambda>buf.
           Ok (len, buf)))))))))"

definition WriteMultipleRegistersResponse_wf :: "WriteMultipleRegistersResponse \<Rightarrow> bool" where
  "WriteMultipleRegistersResponse_wf r \<longleftrightarrow> WriteMultipleRegistersResponse.quantity r \<noteq> 0 \<and> WriteMultipleRegistersResponse.quantity r \<le> MAX_WRITE_REGISTERS"

definition WriteMultipleRegistersResponse_valid :: "WriteMultipleRegistersResponse \<Rightarrow> bool" where
  "WriteMultipleRegistersResponse_valid r \<longleftrightarrow> True"

definition WriteMultipleRegistersResponse_payload :: "WriteMultipleRegistersResponse \<Rightarrow> bytes" where
  "WriteMultipleRegistersResponse_payload r = u16_to_be_bytes (WriteMultipleRegistersResponse.address r)
     @ u16_to_be_bytes (WriteMultipleRegistersResponse.quantity r)"

lemmas WriteMultipleRegistersResponse_defs = WriteMultipleRegistersResponse_decode_def WriteMultipleRegistersResponse_encoded_len_def WriteMultipleRegistersResponse_encode_into_def
  WriteMultipleRegistersResponse_wf_def WriteMultipleRegistersResponse_valid_def WriteMultipleRegistersResponse_payload_def

interpretation write_multiple_registers_rs: pdu_codec WriteMultipleRegistersResponse_encode_into WriteMultipleRegistersResponse_encoded_len
  WriteMultipleRegistersResponse_wf "0x10" WriteMultipleRegistersResponse_payload WriteMultipleRegistersResponse_valid WriteMultipleRegistersResponse_decode
  by unfold_locales (auto simp: WriteMultipleRegistersResponse_defs checks res_simps length_ge_5 length_eq_4
      u16_to_be_bytes_def not_less split: if_splits)

section \<open>MaskWriteRegisterResponse\<close>

record MaskWriteRegisterResponse =
  address :: Address
  and_mask :: u16
  or_mask :: u16

definition MaskWriteRegisterResponse_decode :: "bytes \<Rightarrow> (DecodeError, MaskWriteRegisterResponse) res" where
  "MaskWriteRegisterResponse_decode pdu_data =
     and_then (DecodeError_check_exact_len pdu_data 6) (\<lambda>_.
     and_then (be16_at pdu_data 0) (\<lambda>address.
     and_then (be16_at pdu_data 2) (\<lambda>and_mask.
     and_then (be16_at pdu_data 4) (\<lambda>or_mask.
     Ok \<lparr>MaskWriteRegisterResponse.address = address, MaskWriteRegisterResponse.and_mask = and_mask,
         MaskWriteRegisterResponse.or_mask = or_mask\<rparr>))))"

definition MaskWriteRegisterResponse_encoded_len :: "MaskWriteRegisterResponse \<Rightarrow> nat" where
  "MaskWriteRegisterResponse_encoded_len self = 1 + 6"

definition MaskWriteRegisterResponse_encode_into
  :: "MaskWriteRegisterResponse \<Rightarrow> bytes \<Rightarrow> (EncodeError, nat \<times> bytes) res" where
  "MaskWriteRegisterResponse_encode_into self buf =
     (let len = MaskWriteRegisterResponse_encoded_len self in
      if length buf < len then Err (EncodeError.BufferTooSmall len (length buf))
      else and_then (check_pdu_len len) (\<lambda>_.
           and_then (put_at buf 0 (FunctionCode_code FunctionCode.MaskWriteRegister)) (\<lambda>buf.
           and_then (put_at buf 1 (u16_to_be_bytes (MaskWriteRegisterResponse.address self) ! 0)) (\<lambda>buf.
           and_then (put_at buf 2 (u16_to_be_bytes (MaskWriteRegisterResponse.address self) ! 1)) (\<lambda>buf.
           and_then (put_at buf 3 (u16_to_be_bytes (MaskWriteRegisterResponse.and_mask self) ! 0)) (\<lambda>buf.
           and_then (put_at buf 4 (u16_to_be_bytes (MaskWriteRegisterResponse.and_mask self) ! 1)) (\<lambda>buf.
           and_then (put_at buf 5 (u16_to_be_bytes (MaskWriteRegisterResponse.or_mask self) ! 0)) (\<lambda>buf.
           and_then (put_at buf 6 (u16_to_be_bytes (MaskWriteRegisterResponse.or_mask self) ! 1)) (\<lambda>buf.
           Ok (len, buf))))))))))"

definition MaskWriteRegisterResponse_wf :: "MaskWriteRegisterResponse \<Rightarrow> bool" where
  "MaskWriteRegisterResponse_wf r \<longleftrightarrow> True"

definition MaskWriteRegisterResponse_payload :: "MaskWriteRegisterResponse \<Rightarrow> bytes" where
  "MaskWriteRegisterResponse_payload r =
     u16_to_be_bytes (MaskWriteRegisterResponse.address r)
       @ u16_to_be_bytes (MaskWriteRegisterResponse.and_mask r)
       @ u16_to_be_bytes (MaskWriteRegisterResponse.or_mask r)"

lemmas MaskWriteRegisterResponse_defs = MaskWriteRegisterResponse_decode_def MaskWriteRegisterResponse_encoded_len_def MaskWriteRegisterResponse_encode_into_def
  MaskWriteRegisterResponse_wf_def MaskWriteRegisterResponse_payload_def

interpretation mask_write_register_rs: exact_codec MaskWriteRegisterResponse_encode_into MaskWriteRegisterResponse_encoded_len
  MaskWriteRegisterResponse_wf "0x16" MaskWriteRegisterResponse_payload MaskWriteRegisterResponse_decode
  by unfold_locales (auto simp: MaskWriteRegisterResponse_defs checks res_simps length_ge_7 length_eq_6
      u16_to_be_bytes_def not_less split: if_splits)

end
