(* ===== verification/Response_Misc.thy ===== *)
theory Response_Misc
  imports Codec_Error
begin

text \<open>
  Diagnostic responses (\<open>response/diagnostic.rs\<close>, function codes 07, 08, 0B, 0C and 11), the
  FIFO queue response (\<open>response/fifo.rs\<close>, 18) and the exception response
  (\<open>response/exception.rs\<close>).
\<close>

section \<open>Diagnostics\<close>

definition rsp_check_diagnostic_data_len_decode :: "bytes \<Rightarrow> (DecodeError, unit) res" where
  "rsp_check_diagnostic_data_len_decode data =
     (if length data mod 2 = 0 then Ok ()
      else Err (DecodeError.InvalidDiagnosticDataLength (length data)))"

definition rsp_check_diagnostic_data_len_encode :: "bytes \<Rightarrow> (EncodeError, unit) res" where
  "rsp_check_diagnostic_data_len_encode data =
     (if length data mod 2 = 0 then Ok ()
      else Err (EncodeError.InvalidDiagnosticDataLength (length data)))"

record ReadExceptionStatusResponse =
  status :: u8

definition ReadExceptionStatusResponse_decode :: "bytes \<Rightarrow> (DecodeError, ReadExceptionStatusResponse) res" where
  "ReadExceptionStatusResponse_decode pdu_data =
     and_then (DecodeError_check_exact_len pdu_data 1) (\<lambda>_.
     and_then (at pdu_data 0) (\<lambda>status. Ok \<lparr>ReadExceptionStatusResponse.status = status\<rparr>))"

definition ReadExceptionStatusResponse_encoded_len :: "ReadExceptionStatusResponse \<Rightarrow> nat" where
  "ReadExceptionStatusResponse_encoded_len self = 1 + 1"

definition ReadExceptionStatusResponse_encode_into
  :: "ReadExceptionStatusResponse \<Rightarrow> bytes \<Rightarrow> (EncodeError, nat \<times> bytes) res" where
  "ReadExceptionStatusResponse_encode_into self buf =
     (let len = ReadExceptionStatusResponse_encoded_len self in
      if length buf < len then Err (EncodeError.BufferTooSmall len (length buf))
      else and_then (check_pdu_len len) (\<lambda>_.
           and_then (put_at buf 0 (FunctionCode_code FunctionCode.ReadExceptionStatus)) (\<lambda>buf.
           and_then (put_at buf 1 (ReadExceptionStatusResponse.status self)) (\<lambda>buf.
           Ok (len, buf)))))"

definition ReadExceptionStatusResponse_wf :: "ReadExceptionStatusResponse \<Rightarrow> bool" where
  "ReadExceptionStatusResponse_wf r \<longleftrightarrow> True"

definition ReadExceptionStatusResponse_payload :: "ReadExceptionStatusResponse \<Rightarrow> bytes" where
  "ReadExceptionStatusResponse_payload r = [ReadExceptionStatusResponse.status r]"

lemmas ReadExceptionStatusResponse_defs = ReadExceptionStatusResponse_decode_def ReadExceptionStatusResponse_encoded_len_def ReadExceptionStatusResponse_encode_into_def
  ReadExceptionStatusResponse_wf_def ReadExceptionStatusResponse_payload_def

interpretation read_exception_status_rs: exact_codec ReadExceptionStatusResponse_encode_into ReadExceptionStatusResponse_encoded_len
  ReadExceptionStatusResponse_wf "0x07" ReadExceptionStatusResponse_payload ReadExceptionStatusResponse_decode
  by unfold_locales (auto simp: ReadExceptionStatusResponse_defs checks res_simps length_Suc_le_conv
      length_Suc_conv split: if_splits)

record DiagnosticsResponse =
  sub_function :: DiagnosticSubFunction
  data :: bytes

definition DiagnosticsResponse_decode :: "bytes \<Rightarrow> (DecodeError, DiagnosticsResponse) res" where
  "DiagnosticsResponse_decode pdu_data =
     (if length pdu_data < 2 then Err (DecodeError.Truncated 2 (length pdu_data))
      else and_then (be16_at pdu_data 0) (\<lambda>raw_sub.
           and_then (ok_or (DiagnosticSubFunction_from_raw raw_sub)
                       (DecodeError.UnknownDiagnosticSubFunction raw_sub)) (\<lambda>sub_function.
           and_then (slice_from pdu_data 2) (\<lambda>payload.
           and_then (rsp_check_diagnostic_data_len_decode payload) (\<lambda>_.
           Ok \<lparr>DiagnosticsResponse.sub_function = sub_function,
               DiagnosticsResponse.data = payload\<rparr>)))))"

definition DiagnosticsResponse_encoded_len :: "DiagnosticsResponse \<Rightarrow> nat" where
  "DiagnosticsResponse_encoded_len self = 1 + 2 + length (DiagnosticsResponse.data self)"

definition DiagnosticsResponse_encode_into
  :: "DiagnosticsResponse \<Rightarrow> bytes \<Rightarrow> (EncodeError, nat \<times> bytes) res" where
  "DiagnosticsResponse_encode_into self buf =
     (let len = DiagnosticsResponse_encoded_len self in
      if length buf < len then Err (EncodeError.BufferTooSmall len (length buf))
      else and_then (rsp_check_diagnostic_data_len_encode (DiagnosticsResponse.data self)) (\<lambda>_.
           and_then (check_pdu_len len) (\<lambda>_.
           and_then (put_at buf 0 (FunctionCode_code FunctionCode.Diagnostics)) (\<lambda>buf.
           and_then (put_at buf 1 (u16_to_be_bytes (DiagnosticSubFunction_code (DiagnosticsResponse.sub_function self)) ! 0)) (\<lambda>buf.
           and_then (put_at buf 2 (u16_to_be_bytes (DiagnosticSubFunction_code (DiagnosticsResponse.sub_function self)) ! 1)) (\<lambda>buf.
           and_then (copy_at buf 3 (3 + length (DiagnosticsResponse.data self)) (DiagnosticsResponse.data self)) (\<lambda>buf.
           Ok (len, buf))))))))"

definition DiagnosticsResponse_wf :: "DiagnosticsResponse \<Rightarrow> bool" where
  "DiagnosticsResponse_wf r \<longleftrightarrow>
     length (DiagnosticsResponse.data r) mod 2 = 0 \<and> length (DiagnosticsResponse.data r) \<le> 250"

definition DiagnosticsResponse_payload :: "DiagnosticsResponse \<Rightarrow> bytes" where
  "DiagnosticsResponse_payload r =
     u16_to_be_bytes (DiagnosticSubFunction_code (DiagnosticsResponse.sub_function r))
       @ DiagnosticsResponse.data r"

lemmas DiagnosticsResponse_defs = DiagnosticsResponse_decode_def DiagnosticsResponse_encoded_len_def DiagnosticsResponse_encode_into_def
  DiagnosticsResponse_wf_def DiagnosticsResponse_payload_def

interpretation diagnostics_rs: exact_codec DiagnosticsResponse_encode_into DiagnosticsResponse_encoded_len
  DiagnosticsResponse_wf "0x08" DiagnosticsResponse_payload DiagnosticsResponse_decode
  by unfold_locales (auto simp: DiagnosticsResponse_defs checks res_simps length_Suc_le_conv length_ge_2
      rsp_check_diagnostic_data_len_decode_def rsp_check_diagnostic_data_len_encode_def
      u16_to_be_bytes_def not_less ok_or_eq_Ok DiagnosticSubFunction_from_raw_iff
      u16_from_be_eq_iff split: if_splits)

record GetCommEventCounterResponse =
  status :: u16
  event_count :: u16

definition GetCommEventCounterResponse_decode
  :: "bytes \<Rightarrow> (DecodeError, GetCommEventCounterResponse) res" where
  "GetCommEventCounterResponse_decode pdu_data =
     and_then (DecodeError_check_exact_len pdu_data 4) (\<lambda>_.
     and_then (be16_at pdu_data 0) (\<lambda>status.
     and_then (be16_at pdu_data 2) (\<lambda>event_count.
     Ok \<lparr>GetCommEventCounterResponse.status = status,
         GetCommEventCounterResponse.event_count = event_count\<rparr>)))"

definition GetCommEventCounterResponse_encoded_len :: "GetCommEventCounterResponse \<Rightarrow> nat" where
  "GetCommEventCounterResponse_encoded_len self = 1 + 4"

definition GetCommEventCounterResponse_encode_into
  :: "GetCommEventCounterResponse \<Rightarrow> bytes \<Rightarrow> (EncodeError, nat \<times> bytes) res" where
  "GetCommEventCounterResponse_encode_into self buf =
     (let len = GetCommEventCounterResponse_encoded_len self in
      if length buf < len then Err (EncodeError.BufferTooSmall len (length buf))
      else and_then (check_pdu_len len) (\<lambda>_.
           and_then (put_at buf 0 (FunctionCode_code FunctionCode.GetCommEventCounter)) (\<lambda>buf.
           and_then (put_at buf 1 (u16_to_be_bytes (GetCommEventCounterResponse.status self) ! 0)) (\<lambda>buf.
           and_then (put_at buf 2 (u16_to_be_bytes (GetCommEventCounterResponse.status self) ! 1)) (\<lambda>buf.
           and_then (put_at buf 3 (u16_to_be_bytes (GetCommEventCounterResponse.event_count self) ! 0)) (\<lambda>buf.
           and_then (put_at buf 4 (u16_to_be_bytes (GetCommEventCounterResponse.event_count self) ! 1)) (\<lambda>buf.
           Ok (len, buf))))))))"

definition GetCommEventCounterResponse_wf :: "GetCommEventCounterResponse \<Rightarrow> bool" where
  "GetCommEventCounterResponse_wf r \<longleftrightarrow> True"

definition GetCommEventCounterResponse_payload :: "GetCommEventCounterResponse \<Rightarrow> bytes" where
  "GetCommEventCounterResponse_payload r =
     u16_to_be_bytes (GetCommEventCounterResponse.status r)
       @ u16_to_be_bytes (GetCommEventCounterResponse.event_count r)"

lemmas GetCommEventCounterResponse_defs = GetCommEventCounterResponse_decode_def GetCommEventCounterResponse_encoded_len_def GetCommEventCounterResponse_encode_into_def
  GetCommEventCounterResponse_wf_def GetCommEventCounterResponse_payload_def

interpretation get_comm_event_counter_rs: exact_codec GetCommEventCounterResponse_encode_into GetCommEventCounterResponse_encoded_len
  GetCommEventCounterResponse_wf "0x0B" GetCommEventCounterResponse_payload GetCommEventCounterResponse_decode
  by unfold_locales (auto simp: GetCommEventCounterResponse_defs checks res_simps length_ge_5 length_eq_4
      u16_to_be_bytes_def not_less split: if_splits)

record GetCommEventLogResponse =
  byte_count :: u8
  status :: u16
  event_count :: u16
  message_count :: u16
  events :: bytes

definition GetCommEventLogResponse_decode :: "bytes \<Rightarrow> (DecodeError, GetCommEventLogResponse) res" where
  "GetCommEventLogResponse_decode pdu_data =
     (if length pdu_data < 7 then Err (DecodeError.Truncated 7 (length pdu_data))
      else and_then (at pdu_data 0) (\<lambda>byte_count.
           and_then (be16_at pdu_data 1) (\<lambda>status.
           and_then (be16_at pdu_data 3) (\<lambda>event_count.
           and_then (be16_at pdu_data 5) (\<lambda>message_count.
           and_then (slice_from pdu_data 7) (\<lambda>events.
           if byte_count < 6
           then Err (DecodeError.ByteCountMismatch (unat byte_count) (6 + length events))
           else let declared_events_len = unat byte_count - 6 in
           if length events \<noteq> declared_events_len
           then Err (DecodeError.ByteCountMismatch (unat byte_count) (6 + length events))
           else Ok \<lparr>GetCommEventLogResponse.byte_count = byte_count,
                    GetCommEventLogResponse.status = status,
                    GetCommEventLogResponse.event_count = event_count,
                    GetCommEventLogResponse.message_count = message_count,
                    GetCommEventLogResponse.events = events\<rparr>))))))"

definition GetCommEventLogResponse_encoded_len :: "GetCommEventLogResponse \<Rightarrow> nat" where
  "GetCommEventLogResponse_encoded_len self =
     1 + 1 + 6 + length (GetCommEventLogResponse.events self)"

definition GetCommEventLogResponse_encode_into
  :: "GetCommEventLogResponse \<Rightarrow> bytes \<Rightarrow> (EncodeError, nat \<times> bytes) res" where
  "GetCommEventLogResponse_encode_into self buf =
     (let len = GetCommEventLogResponse_encoded_len self in
      if length buf < len then Err (EncodeError.BufferTooSmall len (length buf))
      else and_then (check_byte_count (unat (GetCommEventLogResponse.byte_count self))
                  (6 + length (GetCommEventLogResponse.events self))) (\<lambda>_.
           and_then (check_pdu_len len) (\<lambda>_.
           and_then (put_at buf 0 (FunctionCode_code FunctionCode.GetCommEventLog)) (\<lambda>buf.
           and_then (put_at buf 1 (GetCommEventLogResponse.byte_count self)) (\<lambda>buf.
           and_then (put_at buf 2 (u16_to_be_bytes (GetCommEventLogResponse.status self) ! 0)) (\<lambda>buf.
           and_then (put_at buf 3 (u16_to_be_bytes (GetCommEventLogResponse.status self) ! 1)) (\<lambda>buf.
           and_then (put_at buf 4 (u16_to_be_bytes (GetCommEventLogResponse.event_count self) ! 0)) (\<lambda>buf.
           and_then (put_at buf 5 (u16_to_be_bytes (GetCommEventLogResponse.event_count self) ! 1)) (\<lambda>buf.
           and_then (put_at buf 6 (u16_to_be_bytes (GetCommEventLogResponse.message_count self) ! 0)) (\<lambda>buf.
           and_then (put_at buf 7 (u16_to_be_bytes (GetCommEventLogResponse.message_count self) ! 1)) (\<lambda>buf.
           and_then (copy_at buf 8 (8 + length (GetCommEventLogResponse.events self))
                  (GetCommEventLogResponse.events self)) (\<lambda>buf.
           Ok (len, buf)))))))))))))"

definition GetCommEventLogResponse_wf :: "GetCommEventLogResponse \<Rightarrow> bool" where
  "GetCommEventLogResponse_wf r \<longleftrightarrow>
     unat (GetCommEventLogResponse.byte_count r) = 6 + length (GetCommEventLogResponse.events r)
     \<and> length (GetCommEventLogResponse.events r) \<le> 245"

definition GetCommEventLogResponse_payload :: "GetCommEventLogResponse \<Rightarrow> bytes" where
  "GetCommEventLogResponse_payload r =
     GetCommEventLogResponse.byte_count r # u16_to_be_bytes (GetCommEventLogResponse.status r)
       @ u16_to_be_bytes (GetCommEventLogResponse.event_count r)
       @ u16_to_be_bytes (GetCommEventLogResponse.message_count r)
       @ GetCommEventLogResponse.events r"

lemmas GetCommEventLogResponse_defs = GetCommEventLogResponse_decode_def GetCommEventLogResponse_encoded_len_def GetCommEventLogResponse_encode_into_def
  GetCommEventLogResponse_wf_def GetCommEventLogResponse_payload_def

interpretation get_comm_event_log_rs: exact_codec GetCommEventLogResponse_encode_into GetCommEventLogResponse_encoded_len
  GetCommEventLogResponse_wf "0x0C" GetCommEventLogResponse_payload GetCommEventLogResponse_decode
  by unfold_locales (auto simp: GetCommEventLogResponse_defs checks res_simps length_add_8 length_ge_7
      u16_to_be_bytes_def not_less word_less_nat_alt word_le_nat_alt Let_def split: if_splits)

record ReportServerIdResponse =
  byte_count :: u8
  data :: bytes

definition ReportServerIdResponse_decode :: "bytes \<Rightarrow> (DecodeError, ReportServerIdResponse) res" where
  "ReportServerIdResponse_decode pdu_data =
     (if pdu_data = [] then Err (DecodeError.Truncated 1 0)
      else and_then (at pdu_data 0) (\<lambda>byte_count.
           and_then (slice_from pdu_data 1) (\<lambda>payload.
           if length payload \<noteq> unat byte_count
           then Err (DecodeError.ByteCountMismatch (unat byte_count) (length payload))
           else Ok \<lparr>ReportServerIdResponse.byte_count = byte_count,
                    ReportServerIdResponse.data = payload\<rparr>)))"

definition ReportServerIdResponse_encoded_len :: "ReportServerIdResponse \<Rightarrow> nat" where
  "ReportServerIdResponse_encoded_len self = 1 + 1 + unat (ReportServerIdResponse.byte_count self)"

definition ReportServerIdResponse_encode_into
  :: "ReportServerIdResponse \<Rightarrow> bytes \<Rightarrow> (EncodeError, nat \<times> bytes) res" where
  "ReportServerIdResponse_encode_into self buf =
     (let len = ReportServerIdResponse_encoded_len self in
      if length buf < len then Err (EncodeError.BufferTooSmall len (length buf))
      else and_then (check_byte_count (unat (ReportServerIdResponse.byte_count self))
                  (length (ReportServerIdResponse.data self))) (\<lambda>_.
           and_then (check_pdu_len len) (\<lambda>_.
           and_then (put_at buf 0 (FunctionCode_code FunctionCode.ReportServerId)) (\<lambda>buf.
           and_then (put_at buf 1 (ReportServerIdResponse.byte_count self)) (\<lambda>buf.
           and_then (copy_at buf 2 (2 + unat (ReportServerIdResponse.byte_count self))
                  (ReportServerIdResponse.data self)) (\<lambda>buf.
           Ok (len, buf)))))))"

definition ReportServerIdResponse_wf :: "ReportServerIdResponse \<Rightarrow> bool" where
  "ReportServerIdResponse_wf r \<longleftrightarrow>
     length (ReportServerIdResponse.data r) = unat (ReportServerIdResponse.byte_count r)
     \<and> unat (ReportServerIdResponse.byte_count r) \<le> 251"

definition ReportServerIdResponse_payload :: "ReportServerIdResponse \<Rightarrow> bytes" where
  "ReportServerIdResponse_payload r = ReportServerIdResponse.byte_count r # ReportServerIdResponse.data r"

lemmas ReportServerIdResponse_defs = ReportServerIdResponse_decode_def ReportServerIdResponse_encoded_len_def ReportServerIdResponse_encode_into_def
  ReportServerIdResponse_wf_def ReportServerIdResponse_payload_def

interpretation report_server_id_rs: exact_codec ReportServerIdResponse_encode_into ReportServerIdResponse_encoded_len
  ReportServerIdResponse_wf "0x11" ReportServerIdResponse_payload ReportServerIdResponse_decode
  by unfold_locales (auto simp: ReportServerIdResponse_defs checks res_simps length_Suc_le_conv
      neq_Nil_conv split: if_splits)

section \<open>FIFO queue\<close>

record ReadFifoQueueResponse =
  byte_count :: u16
  fifo_count :: u16
  fifo_values :: bytes

definition ReadFifoQueueResponse_decode :: "bytes \<Rightarrow> (DecodeError, ReadFifoQueueResponse) res" where
  "ReadFifoQueueResponse_decode pdu_data =
     (if length pdu_data < 4 then Err (DecodeError.Truncated 4 (length pdu_data))
      else and_then (be16_at pdu_data 0) (\<lambda>byte_count.
           and_then (be16_at pdu_data 2) (\<lambda>fifo_count.
           and_then (slice_from pdu_data 4) (\<lambda>fifo_values.
           if byte_count < 2
           then Err (DecodeError.ByteCountMismatch (unat byte_count) (2 + length fifo_values))
           else let expected_remaining = unat byte_count - 2 in
           if length fifo_values \<noteq> expected_remaining
           then Err (DecodeError.ByteCountMismatch expected_remaining (length fifo_values))
           else if fifo_count > 31 then Err (DecodeError.QuantityOutOfRange fifo_count)
           else let expected_data_len = unat fifo_count * 2 in
           if length fifo_values \<noteq> expected_data_len
           then Err (DecodeError.ByteCountMismatch expected_data_len (length fifo_values))
           else Ok \<lparr>ReadFifoQueueResponse.byte_count = byte_count,
                    ReadFifoQueueResponse.fifo_count = fifo_count,
                    ReadFifoQueueResponse.fifo_values = fifo_values\<rparr>))))"

definition ReadFifoQueueResponse_encoded_len :: "ReadFifoQueueResponse \<Rightarrow> nat" where
  "ReadFifoQueueResponse_encoded_len self =
     1 + 2 + 2 + length (ReadFifoQueueResponse.fifo_values self)"

definition ReadFifoQueueResponse_encode_into
  :: "ReadFifoQueueResponse \<Rightarrow> bytes \<Rightarrow> (EncodeError, nat \<times> bytes) res" where
  "ReadFifoQueueResponse_encode_into self buf =
     (let len = ReadFifoQueueResponse_encoded_len self in
      if length buf < len then Err (EncodeError.BufferTooSmall len (length buf))
      else and_then (check_byte_count (unat (ReadFifoQueueResponse.byte_count self))
                  (2 + length (ReadFifoQueueResponse.fifo_values self))) (\<lambda>_.
           if ReadFifoQueueResponse.fifo_count self > MAX_FIFO_VALUES
           then Err (EncodeError.QuantityOutOfRange (ReadFifoQueueResponse.fifo_count self))
           else let expected_data_len = unat (ReadFifoQueueResponse.fifo_count self) * 2 in
           and_then (check_byte_count expected_data_len (length (ReadFifoQueueResponse.fifo_values self))) (\<lambda>_.
           and_then (check_pdu_len len) (\<lambda>_.
           and_then (put_at buf 0 (FunctionCode_code FunctionCode.ReadFifoQueue)) (\<lambda>buf.
           and_then (put_at buf 1 (u16_to_be_bytes (ReadFifoQueueResponse.byte_count self) ! 0)) (\<lambda>buf.
           and_then (put_at buf 2 (u16_to_be_bytes (ReadFifoQueueResponse.byte_count self) ! 1)) (\<lambda>buf.
           and_then (put_at buf 3 (u16_to_be_bytes (ReadFifoQueueResponse.fifo_count self) ! 0)) (\<lambda>buf.
           and_then (put_at buf 4 (u16_to_be_bytes (ReadFifoQueueResponse.fifo_count self) ! 1)) (\<lambda>buf.
           and_then (copy_at buf 5 (5 + length (ReadFifoQueueResponse.fifo_values self))
                  (ReadFifoQueueResponse.fifo_values self)) (\<lambda>buf.
           Ok (len, buf)))))))))))"

definition ReadFifoQueueResponse_wf :: "ReadFifoQueueResponse \<Rightarrow> bool" where
  "ReadFifoQueueResponse_wf r \<longleftrightarrow>
     unat (ReadFifoQueueResponse.fifo_count r) \<le> 31
     \<and> length (ReadFifoQueueResponse.fifo_values r) = 2 * unat (ReadFifoQueueResponse.fifo_count r)
     \<and> unat (ReadFifoQueueResponse.byte_count r) = 2 + length (ReadFifoQueueResponse.fifo_values r)"

definition ReadFifoQueueResponse_payload :: "ReadFifoQueueResponse \<Rightarrow> bytes" where
  "ReadFifoQueueResponse_payload r =
     u16_to_be_bytes (ReadFifoQueueResponse.byte_count r)
       @ u16_to_be_bytes (ReadFifoQueueResponse.fifo_count r)
       @ ReadFifoQueueResponse.fifo_values r"

lemmas ReadFifoQueueResponse_defs = ReadFifoQueueResponse_decode_def ReadFifoQueueResponse_encoded_len_def ReadFifoQueueResponse_encode_into_def
  ReadFifoQueueResponse_wf_def ReadFifoQueueResponse_payload_def

interpretation read_fifo_queue_rs: exact_codec ReadFifoQueueResponse_encode_into ReadFifoQueueResponse_encoded_len
  ReadFifoQueueResponse_wf "0x18" ReadFifoQueueResponse_payload ReadFifoQueueResponse_decode
  by unfold_locales (auto simp: ReadFifoQueueResponse_defs checks res_simps length_Suc_le_conv length_ge_4
      u16_to_be_bytes_def not_less word_less_nat_alt word_le_nat_alt Let_def split: if_splits)

section \<open>Exception response\<close>

record ExceptionResponse =
  function_code :: FunctionCode
  exception_code :: ExceptionCode

definition ExceptionResponse_decode :: "u8 \<Rightarrow> bytes \<Rightarrow> (DecodeError, ExceptionResponse) res" where
  "ExceptionResponse_decode fc_byte pdu_data =
     and_then (DecodeError_check_exact_len pdu_data 1) (\<lambda>_.
     let raw_function_code = fc_byte AND 0x7F in
     if raw_function_code = 0 then Err (DecodeError.UnknownFunctionCode raw_function_code)
     else let function_code = FunctionCode_from_exception_raw fc_byte in
     and_then (at pdu_data 0) (\<lambda>code.
     Ok \<lparr>ExceptionResponse.function_code = function_code,
         ExceptionResponse.exception_code = ExceptionCode_from_raw code\<rparr>))"

definition ExceptionResponse_encoded_len :: "ExceptionResponse \<Rightarrow> nat" where
  "ExceptionResponse_encoded_len self = 2"

definition ExceptionResponse_encode_into
  :: "ExceptionResponse \<Rightarrow> bytes \<Rightarrow> (EncodeError, nat \<times> bytes) res" where
  "ExceptionResponse_encode_into self buf =
     (let len = ExceptionResponse_encoded_len self in
      if length buf < len then Err (EncodeError.BufferTooSmall len (length buf))
      else and_then (check_pdu_len len) (\<lambda>_.
           and_then (put_at buf 0 (FunctionCode_exception_code (ExceptionResponse.function_code self))) (\<lambda>buf.
           and_then (put_at buf 1 (ExceptionCode_code (ExceptionResponse.exception_code self))) (\<lambda>buf.
           Ok (len, buf)))))"

definition ExceptionResponse_wf :: "ExceptionResponse \<Rightarrow> bool" where
  "ExceptionResponse_wf r \<longleftrightarrow> True"

definition ExceptionResponse_wire :: "ExceptionResponse \<Rightarrow> bytes" where
  "ExceptionResponse_wire r =
     [FunctionCode_exception_code (ExceptionResponse.function_code r),
      ExceptionCode_code (ExceptionResponse.exception_code r)]"

lemmas ExceptionResponse_defs = ExceptionResponse_encoded_len_def ExceptionResponse_encode_into_def
  ExceptionResponse_wf_def ExceptionResponse_wire_def

interpretation exception_rs: encodable ExceptionResponse_encode_into ExceptionResponse_encoded_len
  ExceptionResponse_wf ExceptionResponse_wire
  by unfold_locales (auto simp: ExceptionResponse_defs checks length_ge_2)

text \<open>
  The values \<open>decode\<close> can return: a function code a request could have carried, and an
  exception code that is not a \<open>Custom\<close> spelling of a standard one.
\<close>

definition ExceptionResponse_valid :: "ExceptionResponse \<Rightarrow> bool" where
  "ExceptionResponse_valid r \<longleftrightarrow>
     FunctionCode_from_raw (FunctionCode_code (ExceptionResponse.function_code r))
       = Some (ExceptionResponse.function_code r)
     \<and> ExceptionCode_from_raw (ExceptionCode_code (ExceptionResponse.exception_code r))
       = ExceptionResponse.exception_code r"

lemma ExceptionResponse_decode_not_Panic [simp]: "ExceptionResponse_decode b d \<noteq> Panic"
  by (auto simp: ExceptionResponse_decode_def res_simps Let_def length_Suc_conv)

lemma ExceptionResponse_decode_Ok_iff:
  assumes "is_exception_response b"
  shows "ExceptionResponse_decode b d = Ok r \<longleftrightarrow>
     ExceptionResponse_valid r \<and> b # d = ExceptionResponse_wire r"
proof -
  have b: "0x80 \<le> b" using assms by (simp add: is_exception_response_iff)
  define c where "c = b AND 0x7F"
  have c: "c < 0x80" "b = c OR 0x80"
    using b by (auto simp: c_def u8_and_7F u8_msb_or word_less_nat_alt word_le_nat_alt unat_sub
        not_less not_le)
  have fc: "FunctionCode_from_exception_raw b = FunctionCode_from_byte c"
    by (simp add: FunctionCode_from_exception_raw_def c_def)
  show ?thesis
  proof
    assume "ExceptionResponse_decode b d = Ok r"
    then show "ExceptionResponse_valid r \<and> b # d = ExceptionResponse_wire r"
      using c fc
      by (auto simp: ExceptionResponse_decode_def ExceptionResponse_valid_def ExceptionResponse_wire_def Let_def res_simps length_Suc_conv
          FunctionCode_from_raw_iff is_exception_response_iff FunctionCode_exception_code_def
          c_def [symmetric] split: if_splits)
  next
    assume r: "ExceptionResponse_valid r \<and> b # d = ExceptionResponse_wire r"
    then have f: "b = FunctionCode_code (ExceptionResponse.function_code r) OR 0x80"
      "FunctionCode_code (ExceptionResponse.function_code r) < 0x80"
      by (auto simp: ExceptionResponse_valid_def ExceptionResponse_wire_def FunctionCode_exception_code_def
          FunctionCode_from_raw_iff is_exception_response_iff not_le)
    then have "c = FunctionCode_code (ExceptionResponse.function_code r)"
      by (simp add: c_def u8_clear_msb)
    then show "ExceptionResponse_decode b d = Ok r"
      using r fc f(2)
      by (auto simp: ExceptionResponse_decode_def ExceptionResponse_valid_def ExceptionResponse_wire_def Let_def checks
          FunctionCode_from_raw_iff FunctionCode_exception_code_def u8_clear_msb)
  qed
qed

end
