(* ===== verification/Response_File.thy ===== *)
theory Response_File
  imports Codec_Error
begin

text \<open>
  File-record responses (\<open>response/file.rs\<close>, function codes 14 and 15).  The helpers that
  \<open>response/file.rs\<close> declares again under the names of \<open>request/file.rs\<close> carry the prefix \<open>rsp_\<close>.
\<close>

section \<open>File records\<close>

definition READ_FILE_RECORD_RESPONSE_MIN_BYTE_COUNT :: nat where
  [simp]: "READ_FILE_RECORD_RESPONSE_MIN_BYTE_COUNT = 0x04"
definition READ_FILE_RECORD_RESPONSE_MAX_BYTE_COUNT :: nat where
  [simp]: "READ_FILE_RECORD_RESPONSE_MAX_BYTE_COUNT = 0xFA"
definition rsp_WRITE_FILE_RECORD_MIN_BYTE_COUNT :: nat where
  [simp]: "rsp_WRITE_FILE_RECORD_MIN_BYTE_COUNT = 0x09"
definition rsp_WRITE_FILE_RECORD_MAX_BYTE_COUNT :: nat where
  [simp]: "rsp_WRITE_FILE_RECORD_MAX_BYTE_COUNT = 0xFB"
definition rsp_FILE_RECORD_REFERENCE_TYPE :: u8 where
  [simp]: "rsp_FILE_RECORD_REFERENCE_TYPE = 0x06"
definition rsp_MIN_FILE_NUMBER :: u16 where [simp]: "rsp_MIN_FILE_NUMBER = 0x0001"
definition rsp_MAX_RECORD_NUMBER :: u16 where [simp]: "rsp_MAX_RECORD_NUMBER = 0x270F"
definition rsp_RECORD_COUNT :: nat where [simp]: "rsp_RECORD_COUNT = 0x2710"

definition rsp_check_file_record_byte_count :: "u8 \<Rightarrow> nat \<Rightarrow> nat \<Rightarrow> (DecodeError, unit) res" where
  "rsp_check_file_record_byte_count byte_count minimum maximum =
     (let count = unat byte_count in
      if minimum \<le> count \<and> count \<le> maximum then Ok ()
      else Err (DecodeError.ByteCountOutOfRange count minimum maximum))"

definition rsp_check_file_record_range :: "u16 \<Rightarrow> u16 \<Rightarrow> u16 \<Rightarrow> (DecodeError, unit) res" where
  "rsp_check_file_record_range file_number record_number record_length =
     and_then (ok_or (usize_checked_add (unat record_number) (unat record_length))
                (DecodeError.FileRecordOutOfRange file_number record_number record_length)) (\<lambda>last.
     if file_number < rsp_MIN_FILE_NUMBER \<or> record_length = 0
        \<or> record_number > rsp_MAX_RECORD_NUMBER \<or> last > rsp_RECORD_COUNT
     then Err (DecodeError.FileRecordOutOfRange file_number record_number record_length)
     else Ok ())"

definition rsp_check_file_record_range_encode
  :: "u16 \<Rightarrow> u16 \<Rightarrow> u16 \<Rightarrow> (EncodeError, unit) res" where
  "rsp_check_file_record_range_encode file_number record_number record_length =
     and_then (ok_or (usize_checked_add (unat record_number) (unat record_length))
                (EncodeError.FileRecordOutOfRange file_number record_number record_length)) (\<lambda>last.
     if file_number < rsp_MIN_FILE_NUMBER \<or> record_length = 0
        \<or> record_number > rsp_MAX_RECORD_NUMBER \<or> last > rsp_RECORD_COUNT
     then Err (EncodeError.FileRecordOutOfRange file_number record_number record_length)
     else Ok ())"

function validate_read_file_response_payload :: "bytes \<Rightarrow> (DecodeError, unit) res" where
  "validate_read_file_response_payload remaining =
     (if remaining = [] then Ok ()
      else and_then (at remaining 0) (\<lambda>first.
      let response_len = unat first in
      if response_len < 3 \<or> response_len mod 2 = 0
      then Err (DecodeError.InvalidFileRecordLength response_len)
      else let group_len = 1 + response_len in
      if length remaining < group_len
      then Err (DecodeError.ByteCountMismatch group_len (length remaining))
      else and_then (at remaining 1) (\<lambda>reference_type.
      if reference_type \<noteq> rsp_FILE_RECORD_REFERENCE_TYPE
      then Err (DecodeError.InvalidReferenceType reference_type)
      else validate_read_file_response_payload (drop group_len remaining))))"
  by pat_completeness auto
termination by (relation "measure length") auto

declare validate_read_file_response_payload.simps [simp del]

function validate_read_file_response_payload_encode :: "bytes \<Rightarrow> (EncodeError, unit) res" where
  "validate_read_file_response_payload_encode remaining =
     (if remaining = [] then Ok ()
      else and_then (at remaining 0) (\<lambda>first.
      let response_len = unat first in
      if response_len < 3 \<or> response_len mod 2 = 0
      then Err (EncodeError.InvalidFileRecordLength response_len)
      else let group_len = 1 + response_len in
      if length remaining < group_len
      then Err (EncodeError.ByteCountMismatch group_len (length remaining))
      else and_then (at remaining 1) (\<lambda>reference_type.
      if reference_type \<noteq> rsp_FILE_RECORD_REFERENCE_TYPE
      then Err (EncodeError.InvalidReferenceType reference_type)
      else validate_read_file_response_payload_encode (drop group_len remaining))))"
  by pat_completeness auto
termination by (relation "measure length") auto

declare validate_read_file_response_payload_encode.simps [simp del]

function validate_write_file_payload :: "bytes \<Rightarrow> (DecodeError, unit) res" where
  "validate_write_file_payload remaining =
     (if remaining = [] then Ok ()
      else if length remaining < 7
      then Err (DecodeError.InvalidFileRecordLength (length remaining))
      else and_then (at remaining 0) (\<lambda>reference_type.
      if reference_type \<noteq> rsp_FILE_RECORD_REFERENCE_TYPE
      then Err (DecodeError.InvalidReferenceType reference_type)
      else and_then (be16_at remaining 1) (\<lambda>file_number.
           and_then (be16_at remaining 3) (\<lambda>record_number.
           and_then (be16_at remaining 5) (\<lambda>record_length.
           and_then (rsp_check_file_record_range file_number record_number record_length) (\<lambda>_.
           let group_len = 7 + unat record_length * 2 in
           if length remaining < group_len
           then Err (DecodeError.ByteCountMismatch group_len (length remaining))
           else validate_write_file_payload (drop group_len remaining)))))))"
  by pat_completeness auto
termination by (relation "measure length") auto

declare validate_write_file_payload.simps [simp del]

function validate_write_file_payload_encode :: "bytes \<Rightarrow> (EncodeError, unit) res" where
  "validate_write_file_payload_encode remaining =
     (if remaining = [] then Ok ()
      else if length remaining < 7
      then Err (EncodeError.InvalidFileRecordLength (length remaining))
      else and_then (at remaining 0) (\<lambda>reference_type.
      if reference_type \<noteq> rsp_FILE_RECORD_REFERENCE_TYPE
      then Err (EncodeError.InvalidReferenceType reference_type)
      else and_then (be16_at remaining 1) (\<lambda>file_number.
           and_then (be16_at remaining 3) (\<lambda>record_number.
           and_then (be16_at remaining 5) (\<lambda>record_length.
           and_then (rsp_check_file_record_range_encode file_number record_number record_length) (\<lambda>_.
           let group_len = 7 + unat record_length * 2 in
           if length remaining < group_len
           then Err (EncodeError.ByteCountMismatch group_len (length remaining))
           else validate_write_file_payload_encode (drop group_len remaining)))))))"
  by pat_completeness auto
termination by (relation "measure length") auto

declare validate_write_file_payload_encode.simps [simp del]

record ReadFileRecordResponse =
  byte_count :: u8
  data :: bytes

definition ReadFileRecordResponse_decode :: "bytes \<Rightarrow> (DecodeError, ReadFileRecordResponse) res" where
  "ReadFileRecordResponse_decode pdu_data =
     (if pdu_data = [] then Err (DecodeError.Truncated 1 0)
      else and_then (at pdu_data 0) (\<lambda>byte_count.
           and_then (rsp_check_file_record_byte_count byte_count
                       READ_FILE_RECORD_RESPONSE_MIN_BYTE_COUNT
                       READ_FILE_RECORD_RESPONSE_MAX_BYTE_COUNT) (\<lambda>_.
           and_then (slice_from pdu_data 1) (\<lambda>payload.
           if length payload \<noteq> unat byte_count
           then Err (DecodeError.ByteCountMismatch (unat byte_count) (length payload))
           else and_then (validate_read_file_response_payload payload) (\<lambda>_.
                Ok \<lparr>ReadFileRecordResponse.byte_count = byte_count,
                    ReadFileRecordResponse.data = payload\<rparr>)))))"

definition ReadFileRecordResponse_encoded_len :: "ReadFileRecordResponse \<Rightarrow> nat" where
  "ReadFileRecordResponse_encoded_len self = 1 + 1 + unat (ReadFileRecordResponse.byte_count self)"

definition ReadFileRecordResponse_encode_into
  :: "ReadFileRecordResponse \<Rightarrow> bytes \<Rightarrow> (EncodeError, nat \<times> bytes) res" where
  "ReadFileRecordResponse_encode_into self buf =
     (let len = ReadFileRecordResponse_encoded_len self in
      if length buf < len then Err (EncodeError.BufferTooSmall len (length buf))
      else and_then (check_byte_count_range (unat (ReadFileRecordResponse.byte_count self))
                  READ_FILE_RECORD_RESPONSE_MIN_BYTE_COUNT
                  READ_FILE_RECORD_RESPONSE_MAX_BYTE_COUNT) (\<lambda>_.
           and_then (check_byte_count (unat (ReadFileRecordResponse.byte_count self))
                  (length (ReadFileRecordResponse.data self))) (\<lambda>_.
           and_then (validate_read_file_response_payload_encode (ReadFileRecordResponse.data self)) (\<lambda>_.
           and_then (check_pdu_len len) (\<lambda>_.
           and_then (put_at buf 0 (FunctionCode_code FunctionCode.ReadFileRecord)) (\<lambda>buf.
           and_then (put_at buf 1 (ReadFileRecordResponse.byte_count self)) (\<lambda>buf.
           and_then (copy_at buf 2 (2 + unat (ReadFileRecordResponse.byte_count self))
                  (ReadFileRecordResponse.data self)) (\<lambda>buf.
           Ok (len, buf)))))))))"

text \<open>
  The sub-responses a response may carry, from the specification and not from the checks: each
  group is its length, an odd number of at least three, the reference type 6 and whole registers.
\<close>

fun read_groups_ok :: "bytes \<Rightarrow> bool" where
  "read_groups_ok [] = True"
| "read_groups_ok [_] = False"
| "read_groups_ok (l # ref # rest) =
     (3 \<le> unat l \<and> odd (unat l) \<and> ref = 6 \<and> unat l - 1 \<le> length rest \<and> read_groups_ok (drop (unat l - 1) rest))"

definition ReadFileRecordResponse_wf :: "ReadFileRecordResponse \<Rightarrow> bool" where
  "ReadFileRecordResponse_wf r \<longleftrightarrow>
     4 \<le> unat (ReadFileRecordResponse.byte_count r) \<and> unat (ReadFileRecordResponse.byte_count r) \<le> 250
     \<and> length (ReadFileRecordResponse.data r) = unat (ReadFileRecordResponse.byte_count r)
     \<and> read_groups_ok (ReadFileRecordResponse.data r)"

definition ReadFileRecordResponse_payload :: "ReadFileRecordResponse \<Rightarrow> bytes" where
  "ReadFileRecordResponse_payload r = ReadFileRecordResponse.byte_count r # ReadFileRecordResponse.data r"

record WriteFileRecordResponse =
  byte_count :: u8
  data :: bytes

definition WriteFileRecordResponse_decode :: "bytes \<Rightarrow> (DecodeError, WriteFileRecordResponse) res" where
  "WriteFileRecordResponse_decode pdu_data =
     (if pdu_data = [] then Err (DecodeError.Truncated 1 0)
      else and_then (at pdu_data 0) (\<lambda>byte_count.
           and_then (rsp_check_file_record_byte_count byte_count
                       rsp_WRITE_FILE_RECORD_MIN_BYTE_COUNT
                       rsp_WRITE_FILE_RECORD_MAX_BYTE_COUNT) (\<lambda>_.
           and_then (slice_from pdu_data 1) (\<lambda>payload.
           if length payload \<noteq> unat byte_count
           then Err (DecodeError.ByteCountMismatch (unat byte_count) (length payload))
           else and_then (validate_write_file_payload payload) (\<lambda>_.
                Ok \<lparr>WriteFileRecordResponse.byte_count = byte_count,
                    WriteFileRecordResponse.data = payload\<rparr>)))))"

definition WriteFileRecordResponse_encoded_len :: "WriteFileRecordResponse \<Rightarrow> nat" where
  "WriteFileRecordResponse_encoded_len self = 1 + 1 + unat (WriteFileRecordResponse.byte_count self)"

definition WriteFileRecordResponse_encode_into
  :: "WriteFileRecordResponse \<Rightarrow> bytes \<Rightarrow> (EncodeError, nat \<times> bytes) res" where
  "WriteFileRecordResponse_encode_into self buf =
     (let len = WriteFileRecordResponse_encoded_len self in
      if length buf < len then Err (EncodeError.BufferTooSmall len (length buf))
      else and_then (check_byte_count_range (unat (WriteFileRecordResponse.byte_count self))
                  rsp_WRITE_FILE_RECORD_MIN_BYTE_COUNT
                  rsp_WRITE_FILE_RECORD_MAX_BYTE_COUNT) (\<lambda>_.
           and_then (check_byte_count (unat (WriteFileRecordResponse.byte_count self))
                  (length (WriteFileRecordResponse.data self))) (\<lambda>_.
           and_then (validate_write_file_payload_encode (WriteFileRecordResponse.data self)) (\<lambda>_.
           and_then (check_pdu_len len) (\<lambda>_.
           and_then (put_at buf 0 (FunctionCode_code FunctionCode.WriteFileRecord)) (\<lambda>buf.
           and_then (put_at buf 1 (WriteFileRecordResponse.byte_count self)) (\<lambda>buf.
           and_then (copy_at buf 2 (2 + unat (WriteFileRecordResponse.byte_count self))
                  (WriteFileRecordResponse.data self)) (\<lambda>buf.
           Ok (len, buf)))))))))"

text \<open>
  The groups of a write: the reference type 6, a file number other than 0, a first record and a
  number of registers other than 0 that stay within records 0 to 9999, and the registers.
\<close>

fun write_groups_ok :: "bytes \<Rightarrow> bool" where
  "write_groups_ok [] = True"
| "write_groups_ok (ref # f1 # f0 # r1 # r0 # n1 # n0 # rest) =
     (let file_number = unat (u16_from_be_bytes f1 f0); first = unat (u16_from_be_bytes r1 r0);
          n = unat (u16_from_be_bytes n1 n0) in
      ref = 6 \<and> 1 \<le> file_number \<and> 1 \<le> n \<and> first \<le> 9999 \<and> first + n \<le> 10000
      \<and> 2 * n \<le> length rest \<and> write_groups_ok (drop (2 * n) rest))"
| "write_groups_ok _ = False"

definition WriteFileRecordResponse_wf :: "WriteFileRecordResponse \<Rightarrow> bool" where
  "WriteFileRecordResponse_wf r \<longleftrightarrow>
     9 \<le> unat (WriteFileRecordResponse.byte_count r) \<and> unat (WriteFileRecordResponse.byte_count r) \<le> 251
     \<and> length (WriteFileRecordResponse.data r) = unat (WriteFileRecordResponse.byte_count r)
     \<and> write_groups_ok (WriteFileRecordResponse.data r)"

definition WriteFileRecordResponse_payload :: "WriteFileRecordResponse \<Rightarrow> bytes" where
  "WriteFileRecordResponse_payload r = WriteFileRecordResponse.byte_count r # WriteFileRecordResponse.data r"

subsection \<open>Decoding and encoding checks agree\<close>

lemma rsp_check_file_record_range_Ok_iff:
  "rsp_check_file_record_range_encode f r l = Ok u \<longleftrightarrow> rsp_check_file_record_range f r l = Ok u"
  by (simp add: rsp_check_file_record_range_encode_def rsp_check_file_record_range_def)

lemma rsp_check_file_record_range_not_Panic [simp]:
  "rsp_check_file_record_range f r l \<noteq> Panic"
  "rsp_check_file_record_range_encode f r l \<noteq> Panic"
  by (simp_all add: rsp_check_file_record_range_def rsp_check_file_record_range_encode_def)

lemma validate_read_file_response_payload_not_Panic [simp]: "validate_read_file_response_payload s \<noteq> Panic"
proof (induction s rule: validate_read_file_response_payload.induct)
  case (1 s)
  then show ?case
    by (subst validate_read_file_response_payload.simps)
      (auto simp: res_simps Let_def neq_Nil_conv not_less at_eq_Panic)
qed

lemma validate_read_file_response_payload_encode_not_Panic [simp]: "validate_read_file_response_payload_encode s \<noteq> Panic"
proof (induction s rule: validate_read_file_response_payload_encode.induct)
  case (1 s)
  then show ?case
    by (subst validate_read_file_response_payload_encode.simps)
      (auto simp: res_simps Let_def neq_Nil_conv not_less at_eq_Panic)
qed

lemma validate_read_file_response_payload_encode_Ok_iff:
  "validate_read_file_response_payload_encode s = Ok u \<longleftrightarrow> validate_read_file_response_payload s = Ok u"
proof (induction s rule: validate_read_file_response_payload.induct)
  case (1 s)
  then show ?case
    by (subst validate_read_file_response_payload.simps, subst validate_read_file_response_payload_encode.simps)
      (auto simp: res_simps Let_def neq_Nil_conv not_less at_eq_Panic)
qed

lemma validate_write_file_payload_not_Panic [simp]: "validate_write_file_payload s \<noteq> Panic"
proof (induction s rule: validate_write_file_payload.induct)
  case (1 s)
  then show ?case
    by (subst validate_write_file_payload.simps)
      (auto simp: res_simps Let_def length_ge_7 not_less rsp_check_file_record_range_Ok_iff)
qed

lemma validate_write_file_payload_encode_not_Panic [simp]: "validate_write_file_payload_encode s \<noteq> Panic"
proof (induction s rule: validate_write_file_payload_encode.induct)
  case (1 s)
  then show ?case
    by (subst validate_write_file_payload_encode.simps)
      (auto simp: res_simps Let_def length_ge_7 not_less rsp_check_file_record_range_Ok_iff)
qed

lemma validate_write_file_payload_encode_Ok_iff:
  "validate_write_file_payload_encode s = Ok u \<longleftrightarrow> validate_write_file_payload s = Ok u"
proof (induction s rule: validate_write_file_payload.induct)
  case (1 s)
  then show ?case
    by (subst validate_write_file_payload.simps, subst validate_write_file_payload_encode.simps)
      (auto simp: res_simps Let_def length_ge_7 not_less rsp_check_file_record_range_Ok_iff)
qed


subsection \<open>The checks accept exactly the groups of the specification\<close>

lemma validate_read_file_response_payload_iff:
  "validate_read_file_response_payload s = Ok () \<longleftrightarrow> read_groups_ok s"
proof (induction s rule: read_groups_ok.induct)
  case (3 l ref rest)
  have "drop (1 + unat l) (l # ref # rest) = drop (unat l - 1) rest" if "3 \<le> unat l"
    using that by (cases "unat l") (auto simp: numeral_eq_Suc)
  then show ?case using 3
    by (subst validate_read_file_response_payload.simps) (auto simp: res_simps Let_def not_less even_iff_mod_2_eq_zero)
next
  case (2 l)
  show ?case by (subst validate_read_file_response_payload.simps) (auto simp: Let_def)
qed (simp add: validate_read_file_response_payload.simps)

lemma validate_write_file_payload_iff:
  "validate_write_file_payload s = Ok () \<longleftrightarrow> write_groups_ok s"
proof (induction s rule: write_groups_ok.induct)
  case (2 ref f1 f0 r1 r0 n1 n0 rest)
  let ?n = "unat (u16_from_be_bytes n1 n0)"
  have bound: "unat a < 65536" for a :: u16 using unsigned_less [of a] by simp
  have "unat a + unat b < 18446744073709551616" for a b :: u16 using bound [of a] bound [of b] by linarith
  then have "usize_checked_add (unat a) (unat b) = Some (unat a + unat b)" for a b :: u16
    by (simp add: usize_checked_add_def)
  then have "rsp_check_file_record_range f r n = Ok () \<longleftrightarrow>
      1 \<le> unat f \<and> 1 \<le> unat n \<and> unat r \<le> 9999 \<and> unat r + unat n \<le> 10000" for f r n
    by (auto simp: rsp_check_file_record_range_def ok_or_def word_less_nat_alt word_le_nat_alt unat_eq_zero not_less
        Suc_le_eq unat_gt_0)
  then show ?case using 2
    by (subst validate_write_file_payload.simps) (auto simp: res_simps Let_def not_less mult.commute)
qed (simp_all add: validate_write_file_payload.simps)

lemma ReadFileRecordResponse_wf_alt:
  "ReadFileRecordResponse_wf r \<longleftrightarrow>
     4 \<le> unat (ReadFileRecordResponse.byte_count r) \<and> unat (ReadFileRecordResponse.byte_count r) \<le> 250
     \<and> length (ReadFileRecordResponse.data r) = unat (ReadFileRecordResponse.byte_count r)
     \<and> validate_read_file_response_payload (ReadFileRecordResponse.data r) = Ok ()"
  by (simp add: ReadFileRecordResponse_wf_def validate_read_file_response_payload_iff)

lemma WriteFileRecordResponse_wf_alt:
  "WriteFileRecordResponse_wf r \<longleftrightarrow>
     9 \<le> unat (WriteFileRecordResponse.byte_count r) \<and> unat (WriteFileRecordResponse.byte_count r) \<le> 251
     \<and> length (WriteFileRecordResponse.data r) = unat (WriteFileRecordResponse.byte_count r)
     \<and> validate_write_file_payload (WriteFileRecordResponse.data r) = Ok ()"
  by (simp add: WriteFileRecordResponse_wf_def validate_write_file_payload_iff)

lemmas ReadFileRecordResponse_defs = ReadFileRecordResponse_decode_def ReadFileRecordResponse_encoded_len_def ReadFileRecordResponse_encode_into_def
  ReadFileRecordResponse_wf_alt ReadFileRecordResponse_payload_def

interpretation read_file_record_rs: exact_codec ReadFileRecordResponse_encode_into ReadFileRecordResponse_encoded_len
  ReadFileRecordResponse_wf "0x14" ReadFileRecordResponse_payload ReadFileRecordResponse_decode
proof (unfold_locales, goal_cases)
  case (3 r buf)
  then show ?case
    using validate_read_file_response_payload_encode_Ok_iff [of "ReadFileRecordResponse.data r" "()"]
      validate_read_file_response_payload_encode_not_Panic [of "ReadFileRecordResponse.data r"]
    by (cases "validate_read_file_response_payload_encode (ReadFileRecordResponse.data r)")
      (auto simp: ReadFileRecordResponse_defs checks)
qed (auto simp: ReadFileRecordResponse_defs checks res_simps rsp_check_file_record_byte_count_def Let_def
      length_Suc_le_conv validate_read_file_response_payload_encode_Ok_iff neq_Nil_conv split: if_splits)

lemmas WriteFileRecordResponse_defs = WriteFileRecordResponse_decode_def WriteFileRecordResponse_encoded_len_def WriteFileRecordResponse_encode_into_def
  WriteFileRecordResponse_wf_alt WriteFileRecordResponse_payload_def

interpretation write_file_record_rs: exact_codec WriteFileRecordResponse_encode_into WriteFileRecordResponse_encoded_len
  WriteFileRecordResponse_wf "0x15" WriteFileRecordResponse_payload WriteFileRecordResponse_decode
proof (unfold_locales, goal_cases)
  case (3 r buf)
  then show ?case
    using validate_write_file_payload_encode_Ok_iff [of "WriteFileRecordResponse.data r" "()"]
      validate_write_file_payload_encode_not_Panic [of "WriteFileRecordResponse.data r"]
    by (cases "validate_write_file_payload_encode (WriteFileRecordResponse.data r)")
      (auto simp: WriteFileRecordResponse_defs checks)
qed (auto simp: WriteFileRecordResponse_defs checks res_simps rsp_check_file_record_byte_count_def Let_def
      length_Suc_le_conv validate_write_file_payload_encode_Ok_iff neq_Nil_conv split: if_splits)

end
