(* ===== verification/Response_Device_Id.thy ===== *)
theory Response_Device_Id
  imports Codec_Error
begin

text \<open>
  Encapsulated interface responses (\<open>response/device_id.rs\<close> and \<open>response/mei.rs\<close>, function
  code 2B): the parser of the device-identification object list, the iterator over the parsed
  objects, and the generic encapsulated response.  The object list accepted by \<open>decode\<close> is
  shown to be exactly the concatenation of its entries, and the iterator to end and return them.
\<close>

section \<open>Read Device Identification\<close>

definition valid_conformity_level :: "u8 \<Rightarrow> bool" where
  "valid_conformity_level level \<longleftrightarrow> level \<in> {0x01, 0x02, 0x03, 0x81, 0x82, 0x83}"

record DeviceIdObjectEntry =
  id :: u8
  "value" :: bytes

record ReadDeviceIdentificationResponse =
  device_id_code :: DeviceIdCode
  conformity_level :: u8
  more_follows :: bool
  next_object_id :: u8
  num_objects :: u8
  object_data :: bytes

text \<open>The loop \<open>for _ in 0..num_objects\<close> of \<open>decode\<close>; it returns the final offset.\<close>

fun check_objects :: "nat \<Rightarrow> bytes \<Rightarrow> nat \<Rightarrow> nat \<Rightarrow> (DecodeError, nat) res" where
  "check_objects 0 objs data_len offset = Ok offset"
| "check_objects (Suc k) objs data_len offset =
     (if offset + 2 > length objs
      then Err (DecodeError.Truncated (6 + offset + 2) data_len)
      else and_then (at objs (offset + 1)) (\<lambda>obj_len.
      let offset = offset + (2 + unat obj_len) in
      if offset > length objs then Err (DecodeError.Truncated (6 + offset) data_len)
      else check_objects k objs data_len offset))"

definition ReadDeviceIdentificationResponse_decode
  :: "bytes \<Rightarrow> (DecodeError, ReadDeviceIdentificationResponse) res" where
  "ReadDeviceIdentificationResponse_decode pdu_data =
     (if length pdu_data < 6 then Err (DecodeError.Truncated 6 (length pdu_data))
      else and_then (at pdu_data 0) (\<lambda>mei.
      if mei \<noteq> MeiType_code ReadDeviceIdentification then Err (DecodeError.UnknownMeiType mei)
      else and_then (at pdu_data 1) (\<lambda>code.
      and_then (ok_or (DeviceIdCode_from_raw code) (DecodeError.InvalidDeviceIdCode code)) (\<lambda>device_id_code.
      and_then (at pdu_data 2) (\<lambda>conformity_level.
      if \<not> valid_conformity_level conformity_level
      then Err (DecodeError.InvalidDeviceIdConformityLevel conformity_level)
      else and_then (at pdu_data 3) (\<lambda>more.
      and_then (if more = 0x00 then Ok False else if more = 0xFF then Ok True
                else Err (DecodeError.InvalidDeviceIdMoreFollows more)) (\<lambda>more_follows.
      and_then (at pdu_data 4) (\<lambda>next_object_id.
      if \<not> more_follows \<and> next_object_id \<noteq> 0
      then Err (DecodeError.InvalidDeviceIdNextObjectId next_object_id)
      else and_then (at pdu_data 5) (\<lambda>num_objects.
      if device_id_code = Individual \<and> num_objects \<noteq> 1
      then Err (DecodeError.InvalidDeviceIdObjectCount num_objects)
      else and_then (slice_from pdu_data 6) (\<lambda>object_data.
      and_then (check_objects (unat num_objects) object_data (length pdu_data) 0) (\<lambda>offset.
      if offset \<noteq> length object_data
      then Err (DecodeError.LengthMismatch (6 + offset) (length pdu_data))
      else Ok \<lparr>ReadDeviceIdentificationResponse.device_id_code = device_id_code,
               ReadDeviceIdentificationResponse.conformity_level = conformity_level,
               ReadDeviceIdentificationResponse.more_follows = more_follows,
               ReadDeviceIdentificationResponse.next_object_id = next_object_id,
               ReadDeviceIdentificationResponse.num_objects = num_objects,
               ReadDeviceIdentificationResponse.object_data = object_data\<rparr>)))))))))))"

record DeviceIdObjectIter =
  data :: bytes
  remaining :: u8

definition ReadDeviceIdentificationResponse_objects
  :: "ReadDeviceIdentificationResponse \<Rightarrow> DeviceIdObjectIter" where
  "ReadDeviceIdentificationResponse_objects self =
     \<lparr>DeviceIdObjectIter.data = ReadDeviceIdentificationResponse.object_data self,
      DeviceIdObjectIter.remaining = ReadDeviceIdentificationResponse.num_objects self\<rparr>"

definition DeviceIdObjectIter_next
  :: "DeviceIdObjectIter \<Rightarrow> ('e, DeviceIdObjectEntry option \<times> DeviceIdObjectIter) res" where
  "DeviceIdObjectIter_next self =
     (if DeviceIdObjectIter.remaining self = 0 \<or> length (DeviceIdObjectIter.data self) < 2
      then Ok (None, self)
      else and_then (at (DeviceIdObjectIter.data self) 0) (\<lambda>id.
      and_then (at (DeviceIdObjectIter.data self) 1) (\<lambda>l.
      let len = unat l in
      if length (DeviceIdObjectIter.data self) < 2 + len
      then Ok (None, \<lparr>DeviceIdObjectIter.data = [], DeviceIdObjectIter.remaining = 0\<rparr>)
      else and_then (slice (DeviceIdObjectIter.data self) 2 (2 + len)) (\<lambda>value.
      and_then (slice_from (DeviceIdObjectIter.data self) (2 + len)) (\<lambda>rest.
      Ok (Some \<lparr>DeviceIdObjectEntry.id = id, DeviceIdObjectEntry.value = value\<rparr>,
          \<lparr>DeviceIdObjectIter.data = rest,
           DeviceIdObjectIter.remaining = DeviceIdObjectIter.remaining self - 1\<rparr>))))))"

text \<open>An item takes its bytes off the data, so the iterator ends.\<close>

lemma DeviceIdObjectIter_next_shorter:
  "DeviceIdObjectIter_next it = Ok (Some e, it') \<Longrightarrow>
     length (DeviceIdObjectIter.data it') < length (DeviceIdObjectIter.data it)"
  by (auto simp: DeviceIdObjectIter_next_def res_simps Let_def slice_from_def split: if_splits)

text \<open>Driving the iterator to its end, as \<open>collect\<close> does.\<close>

function DeviceIdObjectIter_collect
  :: "DeviceIdObjectIter \<Rightarrow> ('e, DeviceIdObjectEntry list) res" where
  "DeviceIdObjectIter_collect it =
     (case DeviceIdObjectIter_next it of
        Ok (None, _) \<Rightarrow> Ok []
      | Ok (Some e, it') \<Rightarrow> and_then (DeviceIdObjectIter_collect it') (\<lambda>es. Ok (e # es))
      | Err e \<Rightarrow> Err e
      | Panic \<Rightarrow> Panic)"
  by pat_completeness auto
termination by (relation "measure (\<lambda>it. length (DeviceIdObjectIter.data it))") (auto dest: DeviceIdObjectIter_next_shorter)

declare DeviceIdObjectIter_collect.simps [simp del]

subsection \<open>The object list\<close>

definition entry_bytes :: "DeviceIdObjectEntry \<Rightarrow> bytes" where
  "entry_bytes e =
     DeviceIdObjectEntry.id e # u8_of_nat (length (DeviceIdObjectEntry.value e))
       # DeviceIdObjectEntry.value e"

definition entry_ok :: "DeviceIdObjectEntry \<Rightarrow> bool" where
  "entry_ok e \<longleftrightarrow> length (DeviceIdObjectEntry.value e) \<le> 255"

abbreviation entries_bytes :: "DeviceIdObjectEntry list \<Rightarrow> bytes" where
  "entries_bytes es \<equiv> concat (map entry_bytes es)"

lemma entry_bytes_length [simp]:
  "length (entry_bytes e) = 2 + length (DeviceIdObjectEntry.value e)"
  by (simp add: entry_bytes_def)

lemma unat_u8_of_nat [simp]: "n \<le> 255 \<Longrightarrow> unat (u8_of_nat n) = n"
  by (simp add: unat_of_nat)

lemma check_objects_not_Panic [simp]: "check_objects k d t off \<noteq> Panic"
  by (induction k d t off rule: check_objects.induct) (auto simp: res_simps Let_def)

lemma check_objects_complete:
  assumes "\<forall>e\<in>set es. entry_ok e" "drop off d = entries_bytes es @ rest" "off \<le> length d"
  shows "check_objects (length es) d t off = Ok (off + length (entries_bytes es))"
  using assms
proof (induction es arbitrary: off)
  case (Cons e es)
  let ?v = "DeviceIdObjectEntry.value e"
  have l: "length d = off + (2 + length ?v + (length (entries_bytes es) + length rest))"
    using arg_cong [OF Cons.prems(2), of length] Cons.prems(3) by simp
  have "d ! (off + 1) = drop off d ! 1" using l by simp
  also have "\<dots> = u8_of_nat (length ?v)" by (simp add: Cons.prems(2) entry_bytes_def [of e])
  finally have n: "d ! (off + 1) = u8_of_nat (length ?v)" .
  have "drop (2 + length ?v) (drop off d) = entries_bytes es @ rest"
    by (simp add: Cons.prems(2) entry_bytes_def [of e])
  then have "drop (off + (2 + length ?v)) d = entries_bytes es @ rest"
    by (simp add: add_ac)
  then show ?case
    using Cons.IH [of "off + (2 + length ?v)"] Cons.prems(1) l n
    by (simp add: Let_def entry_ok_def add_ac)
qed simp

lemma drop_entry:
  fixes d :: bytes
  assumes "off + 2 \<le> length d" "off + (2 + unat (d ! (off + 1))) \<le> length d"
  shows "\<exists>x. entry_ok x \<and> drop off d = entry_bytes x @ drop (off + (2 + unat (d ! (off + 1)))) d"
proof -
  obtain a l r where d: "drop off d = a # l # r"
    using assms(1) length_ge_2 [of "drop off d"] by auto
  have l: "d ! (off + 1) = l"
    using d assms(1) by (metis add_leD1 nth_Cons_0 nth_Cons_Suc nth_drop One_nat_def)
  have "drop (off + (2 + unat l)) d = drop (2 + unat l) (drop off d)"
    by (simp add: add_ac)
  then have r: "drop (off + (2 + unat l)) d = drop (unat l) r" by (simp add: d)
  have "length (drop off d) = 2 + length r" by (simp add: d)
  then have n: "unat l \<le> length r" using assms l by simp
  let ?x = "\<lparr>DeviceIdObjectEntry.id = a, DeviceIdObjectEntry.value = take (unat l) r\<rparr>"
  have "entry_ok ?x" using n by (simp add: entry_ok_def min_def)
  moreover have "drop off d = entry_bytes ?x @ drop (unat l) r"
    using n by (simp add: d entry_bytes_def min_def)
  ultimately show ?thesis using l r by metis
qed

lemma check_objects_sound:
  assumes "check_objects k d t off = Ok e" "off \<le> length d"
  shows "\<exists>es. length es = k \<and> (\<forall>x\<in>set es. entry_ok x) \<and> e \<le> length d
           \<and> drop off d = entries_bytes es @ drop e d"
  using assms
proof (induction k arbitrary: off)
  case (Suc k)
  let ?n = "unat (d ! (off + 1))"
  have off: "off + 2 \<le> length d" "off + (2 + ?n) \<le> length d"
    and rec: "check_objects k d t (off + (2 + ?n)) = Ok e"
    using Suc.prems by (auto simp: res_simps Let_def split: if_splits)
  then obtain es where es: "length es = k" "\<forall>x\<in>set es. entry_ok x" "e \<le> length d"
      "drop (off + (2 + ?n)) d = entries_bytes es @ drop e d"
    using Suc.IH [of "off + (2 + ?n)"] by auto
  obtain x where x: "entry_ok x" "drop off d = entry_bytes x @ drop (off + (2 + ?n)) d"
    using drop_entry [OF off] by blast
  have "length (x # es) = Suc k \<and> (\<forall>y\<in>set (x # es). entry_ok y) \<and> e \<le> length d
      \<and> drop off d = entries_bytes (x # es) @ drop e d"
    using es x by simp
  then show ?case by blast
qed simp

text \<open>The object lists \<open>decode\<close> accepts are exactly the concatenations of \<open>num_objects\<close> entries.\<close>

lemma check_objects_iff:
  "check_objects k d t 0 = Ok (length d) \<longleftrightarrow>
     (\<exists>es. length es = k \<and> (\<forall>x\<in>set es. entry_ok x) \<and> d = entries_bytes es)"
proof
  assume "check_objects k d t 0 = Ok (length d)"
  from check_objects_sound [OF this] show "\<exists>es. length es = k \<and> (\<forall>x\<in>set es. entry_ok x) \<and> d = entries_bytes es"
    by simp
next
  assume "\<exists>es. length es = k \<and> (\<forall>x\<in>set es. entry_ok x) \<and> d = entries_bytes es"
  then show "check_objects k d t 0 = Ok (length d)"
    using check_objects_complete [of _ 0 d "[]" t] by auto
qed

text \<open>The object lists of the specification: identifier, length and value of each object.\<close>

fun objects_ok :: "nat \<Rightarrow> bytes \<Rightarrow> bool" where
  "objects_ok 0 bs = (bs = [])"
| "objects_ok (Suc n) (i # l # bs) = (unat l \<le> length bs \<and> objects_ok n (drop (unat l) bs))"
| "objects_ok (Suc n) _ = False"

lemma objects_ok_entries:
  assumes "\<forall>e \<in> set es. entry_ok e"
  shows "objects_ok (length es) (entries_bytes es)"
  using assms by (induction es) (auto simp: entry_ok_def entry_bytes_def)

lemma objects_ok_iff:
  "objects_ok k d \<longleftrightarrow> (\<exists>es. length es = k \<and> (\<forall>x\<in>set es. entry_ok x) \<and> d = entries_bytes es)"
proof
  show "objects_ok k d \<Longrightarrow> \<exists>es. length es = k \<and> (\<forall>x\<in>set es. entry_ok x) \<and> d = entries_bytes es"
  proof (induction k d rule: objects_ok.induct)
    case (2 n i l bs)
    then obtain es where es: "length es = n" "\<forall>x\<in>set es. entry_ok x" "drop (unat l) bs = entries_bytes es" by auto
    let ?e = "\<lparr>DeviceIdObjectEntry.id = i, DeviceIdObjectEntry.value = take (unat l) bs\<rparr>"
    have "unat l \<le> length bs" using "2.prems" by simp
    then have "entry_bytes ?e = i # l # take (unat l) bs" "entry_ok ?e"
      by (simp_all add: entry_bytes_def entry_ok_def min_def)
    then have "length (?e # es) = Suc n \<and> (\<forall>x\<in>set (?e # es). entry_ok x) \<and> i # l # bs = entries_bytes (?e # es)"
      using es append_take_drop_id [of "unat l" bs] by simp
    then show ?case by blast
  qed auto
qed (auto intro: objects_ok_entries)

lemma check_objects_ok: "check_objects k d t 0 = Ok (length d) \<longleftrightarrow> objects_ok k d"
  by (simp only: check_objects_iff objects_ok_iff)

definition ReadDeviceIdentificationResponse_payload
  :: "ReadDeviceIdentificationResponse \<Rightarrow> bytes" where
  "ReadDeviceIdentificationResponse_payload r =
     [MeiType_code ReadDeviceIdentification,
      DeviceIdCode_code (ReadDeviceIdentificationResponse.device_id_code r),
      ReadDeviceIdentificationResponse.conformity_level r,
      if ReadDeviceIdentificationResponse.more_follows r then 0xFF else 0x00,
      ReadDeviceIdentificationResponse.next_object_id r,
      ReadDeviceIdentificationResponse.num_objects r]
     @ ReadDeviceIdentificationResponse.object_data r"

definition ReadDeviceIdentificationResponse_valid
  :: "ReadDeviceIdentificationResponse \<Rightarrow> bool" where
  "ReadDeviceIdentificationResponse_valid r \<longleftrightarrow>
     valid_conformity_level (ReadDeviceIdentificationResponse.conformity_level r)
     \<and> (ReadDeviceIdentificationResponse.more_follows r
          \<or> ReadDeviceIdentificationResponse.next_object_id r = 0)
     \<and> (ReadDeviceIdentificationResponse.device_id_code r = Individual
          \<longrightarrow> ReadDeviceIdentificationResponse.num_objects r = 1)
     \<and> objects_ok (unat (ReadDeviceIdentificationResponse.num_objects r))
         (ReadDeviceIdentificationResponse.object_data r)"

lemma ReadDeviceIdentificationResponse_decode_not_Panic [simp]:
  "ReadDeviceIdentificationResponse_decode d \<noteq> Panic"
  by (auto simp: ReadDeviceIdentificationResponse_decode_def res_simps length_ge_6 not_less)

lemma ReadDeviceIdentificationResponse_decode_sound:
  assumes "ReadDeviceIdentificationResponse_decode d = Ok r"
  shows "ReadDeviceIdentificationResponse_valid r \<and> d = ReadDeviceIdentificationResponse_payload r"
proof -
  from assms have "6 \<le> length d"
    by (simp add: ReadDeviceIdentificationResponse_decode_def split: if_splits)
  then obtain a b c m n k ys where d: "d = a # b # c # m # n # k # ys"
    by (auto simp: length_ge_6)
  show ?thesis
    using assms check_objects_ok [of "unat k" ys "length d"] unfolding d
    by (auto simp: ReadDeviceIdentificationResponse_decode_def res_simps ok_or_eq_Ok
        DeviceIdCode_from_raw_iff ReadDeviceIdentificationResponse_valid_def
        ReadDeviceIdentificationResponse_payload_def split: if_splits)
qed

lemma ReadDeviceIdentificationResponse_decode_payload:
  assumes "ReadDeviceIdentificationResponse_valid r"
  shows "ReadDeviceIdentificationResponse_decode (ReadDeviceIdentificationResponse_payload r) = Ok r"
proof -
  have c: "DeviceIdCode_from_raw (DeviceIdCode_code k) = Some k" for k
    by (simp add: DeviceIdCode_from_raw_iff)
  show ?thesis
    using assms check_objects_ok [of "unat (ReadDeviceIdentificationResponse.num_objects r)"
        "ReadDeviceIdentificationResponse.object_data r"]
    by (auto simp: ReadDeviceIdentificationResponse_decode_def c
        ReadDeviceIdentificationResponse_valid_def ReadDeviceIdentificationResponse_payload_def)
qed

subsection \<open>The iterator\<close>

lemma DeviceIdObjectIter_next_entry:
  assumes "entry_ok e" "0 < k"
  shows "DeviceIdObjectIter_next \<lparr>DeviceIdObjectIter.data = entry_bytes e @ rest,
             DeviceIdObjectIter.remaining = k\<rparr>
       = Ok (Some e, \<lparr>DeviceIdObjectIter.data = rest, DeviceIdObjectIter.remaining = k - 1\<rparr>)"
proof -
  have "slice (entry_bytes e @ rest) 2 (2 + length (DeviceIdObjectEntry.value e))
      = Ok (DeviceIdObjectEntry.value e)"
    by (simp add: slice_def entry_bytes_def)
  moreover have "slice_from (entry_bytes e @ rest) (2 + length (DeviceIdObjectEntry.value e)) = Ok rest"
    by (simp add: slice_from_def entry_bytes_def)
  ultimately show ?thesis
    using assms
    by (simp add: DeviceIdObjectIter_next_def entry_ok_def Let_def) (simp add: entry_bytes_def)
qed

lemma DeviceIdObjectIter_collect_entries:
  assumes "\<forall>e\<in>set es. entry_ok e" "length es = unat k"
  shows "DeviceIdObjectIter_collect \<lparr>DeviceIdObjectIter.data = entries_bytes es,
           DeviceIdObjectIter.remaining = k\<rparr> = Ok es"
  using assms
proof (induction es arbitrary: k)
  case Nil
  then show ?case by (subst DeviceIdObjectIter_collect.simps) (simp add: DeviceIdObjectIter_next_def)
next
  case (Cons e es)
  have "k \<noteq> 0" using Cons.prems(2) by auto
  then have k: "0 < k" "length es = unat (k - 1)"
    using Cons.prems(2) by (simp_all add: word_less_nat_alt unat_minus_one unat_eq_zero)
  then show ?case
    using Cons.IH [OF _ k(2)] Cons.prems(1)
    by (subst DeviceIdObjectIter_collect.simps) (simp add: DeviceIdObjectIter_next_entry)
qed

section \<open>Encapsulated interface\<close>

record EncapsulatedInterfaceResponse =
  mei_type :: MeiType
  data :: bytes

definition EncapsulatedInterfaceResponse_decode :: "bytes \<Rightarrow> (DecodeError, EncapsulatedInterfaceResponse) res" where
  "EncapsulatedInterfaceResponse_decode pdu_data =
     (if pdu_data = [] then Err (DecodeError.Truncated 1 0)
      else and_then (at pdu_data 0) (\<lambda>first.
           and_then (ok_or (MeiType_from_raw first) (DecodeError.UnknownMeiType first)) (\<lambda>mei_type.
           and_then (if mei_type = ReadDeviceIdentification
                     then and_then (ReadDeviceIdentificationResponse_decode pdu_data) (\<lambda>_. Ok ())
                     else Ok ()) (\<lambda>_.
           and_then (slice_from pdu_data 1) (\<lambda>payload.
           Ok \<lparr>EncapsulatedInterfaceResponse.mei_type = mei_type, EncapsulatedInterfaceResponse.data = payload\<rparr>)))))"

definition EncapsulatedInterfaceResponse_encoded_len :: "EncapsulatedInterfaceResponse \<Rightarrow> nat" where
  "EncapsulatedInterfaceResponse_encoded_len self = 1 + 1 + length (EncapsulatedInterfaceResponse.data self)"

definition EncapsulatedInterfaceResponse_encode_into
  :: "EncapsulatedInterfaceResponse \<Rightarrow> bytes \<Rightarrow> (EncodeError, nat \<times> bytes) res" where
  "EncapsulatedInterfaceResponse_encode_into self buf =
     (let len = EncapsulatedInterfaceResponse_encoded_len self in
      if length buf < len then Err (EncodeError.BufferTooSmall len (length buf))
      else and_then (check_pdu_len len) (\<lambda>_.
           and_then (put_at buf 0 (FunctionCode_code FunctionCode.EncapsulatedInterfaceTransport)) (\<lambda>buf.
           and_then (put_at buf 1 (MeiType_code (EncapsulatedInterfaceResponse.mei_type self))) (\<lambda>buf.
           and_then (copy_at buf 2 (2 + length (EncapsulatedInterfaceResponse.data self))
                  (EncapsulatedInterfaceResponse.data self)) (\<lambda>buf.
           Ok (len, buf))))))"

definition EncapsulatedInterfaceResponse_wf :: "EncapsulatedInterfaceResponse \<Rightarrow> bool" where
  "EncapsulatedInterfaceResponse_wf r \<longleftrightarrow> length (EncapsulatedInterfaceResponse.data r) \<le> 251"

definition EncapsulatedInterfaceResponse_payload :: "EncapsulatedInterfaceResponse \<Rightarrow> bytes" where
  "EncapsulatedInterfaceResponse_payload r =
     MeiType_code (EncapsulatedInterfaceResponse.mei_type r) # EncapsulatedInterfaceResponse.data r"

text \<open>
  The encoder only bounds the length; a valid device-identification response, by the
  specification, has a known code and conformity level, a marker that says whether more follows,
  no next object when none follows, one object for individual access, and as many whole objects
  as it counts.
\<close>

fun device_id_data_ok :: "bytes \<Rightarrow> bool" where
  "device_id_data_ok (code # level # follows # next_id # num # objs) =
     (code \<in> {1, 2, 3, 4} \<and> level \<in> {0x01, 0x02, 0x03, 0x81, 0x82, 0x83} \<and> follows \<in> {0x00, 0xFF}
      \<and> (follows = 0x00 \<longrightarrow> next_id = 0) \<and> (code = 4 \<longrightarrow> num = 1) \<and> objects_ok (unat num) objs)"
| "device_id_data_ok _ = False"

definition EncapsulatedInterfaceResponse_valid :: "EncapsulatedInterfaceResponse \<Rightarrow> bool" where
  "EncapsulatedInterfaceResponse_valid r \<longleftrightarrow>
     EncapsulatedInterfaceResponse_wf r \<and>
     (EncapsulatedInterfaceResponse.mei_type r = ReadDeviceIdentification \<longrightarrow>
        device_id_data_ok (EncapsulatedInterfaceResponse.data r))"

text \<open>\<open>ReadDeviceIdentificationResponse::decode\<close> accepts exactly these.\<close>

lemma ReadDeviceIdentificationResponse_decode_ok:
  "is_ok (ReadDeviceIdentificationResponse_decode (0x0E # bs)) \<longleftrightarrow> device_id_data_ok bs"
proof (cases bs rule: device_id_data_ok.cases)
  case (1 code level follows next_id num objs)
  have code: "(\<exists>c. DeviceIdCode_from_raw code = Some c \<and> (c = Individual \<longleftrightarrow> code = 4)) \<longleftrightarrow> code \<in> {1, 2, 3, 4}"
    "DeviceIdCode_from_raw code = Some Individual \<longleftrightarrow> code = 4"
    by (auto simp: DeviceIdCode_from_raw_def)
  show ?thesis
    using code check_objects_ok [of "unat num" objs "length (0x0E # bs)"] check_objects_not_Panic [of "unat num" objs "length (0x0E # bs)" 0]
    unfolding 1
    by (cases "DeviceIdCode_from_raw code"; cases "check_objects (unat num) objs (length (0x0E # bs)) 0")
      (auto simp: 1 ReadDeviceIdentificationResponse_decode_def ok_or_def valid_conformity_level_def)
qed (simp_all add: ReadDeviceIdentificationResponse_decode_def)

lemma EncapsulatedInterfaceResponse_valid_alt:
  "EncapsulatedInterfaceResponse_valid r \<longleftrightarrow>
     EncapsulatedInterfaceResponse_wf r \<and>
     (EncapsulatedInterfaceResponse.mei_type r = ReadDeviceIdentification \<longrightarrow>
        is_ok (ReadDeviceIdentificationResponse_decode (EncapsulatedInterfaceResponse_payload r)))"
  using ReadDeviceIdentificationResponse_decode_ok [of "EncapsulatedInterfaceResponse.data r"]
  by (auto simp: EncapsulatedInterfaceResponse_valid_def EncapsulatedInterfaceResponse_payload_def)

lemmas EncapsulatedInterfaceResponse_defs = EncapsulatedInterfaceResponse_decode_def EncapsulatedInterfaceResponse_encoded_len_def EncapsulatedInterfaceResponse_encode_into_def
  EncapsulatedInterfaceResponse_wf_def EncapsulatedInterfaceResponse_valid_alt EncapsulatedInterfaceResponse_payload_def

interpretation encapsulated_interface_rs: pdu_codec EncapsulatedInterfaceResponse_encode_into EncapsulatedInterfaceResponse_encoded_len
  EncapsulatedInterfaceResponse_wf "0x2B" EncapsulatedInterfaceResponse_payload EncapsulatedInterfaceResponse_valid EncapsulatedInterfaceResponse_decode
proof (unfold_locales, goal_cases)
  case (6 r)
  then show ?case
    by (cases "EncapsulatedInterfaceResponse.mei_type r";
        cases "ReadDeviceIdentificationResponse_decode (EncapsulatedInterfaceResponse_payload r)")
      (auto simp: EncapsulatedInterfaceResponse_defs ok_or_def MeiType_from_raw_def)
next
  case (7 d r)
  then show ?case
    by (auto simp: EncapsulatedInterfaceResponse_defs res_simps neq_Nil_conv ok_or_eq_Ok
        MeiType_from_raw_iff split: if_splits)
next
  case (8 d)
  then show ?case
    by (auto simp: EncapsulatedInterfaceResponse_defs res_simps neq_Nil_conv)
qed (auto simp: EncapsulatedInterfaceResponse_defs checks length_Suc_le_conv)

end
