(* ===== verification/Codec_Decode.thy ===== *)
theory Codec_Decode
  imports Request_Bits Request_Regs Request_Misc Response_Data Response_Echo Response_Misc
    Response_File Response_Device_Id
begin

text \<open>
  The PDU types and the top-level dispatchers of the codec (\<open>pdu.rs\<close> and \<open>decode.rs\<close>).
  \<open>request_wire\<close> and \<open>response_wire\<close> give the byte image of every variant and \<open>request_valid\<close>
  and \<open>response_valid\<close> the values that can be received; the dispatchers are shown to be exactly the
  inverse of these images and never to panic.
\<close>

section \<open>pdu.rs\<close>

record PduRef =
  function_code :: u8
  data :: bytes

datatype RequestPdu =
    ReadCoils ReadCoilsRequest
  | ReadDiscreteInputs ReadDiscreteInputsRequest
  | ReadHoldingRegisters ReadHoldingRegistersRequest
  | ReadInputRegisters ReadInputRegistersRequest
  | WriteSingleCoil WriteSingleCoilRequest
  | WriteSingleRegister WriteSingleRegisterRequest
  | ReadExceptionStatus
  | Diagnostics DiagnosticsRequest
  | GetCommEventCounter
  | GetCommEventLog
  | WriteMultipleCoils WriteMultipleCoilsRequest
  | WriteMultipleRegisters WriteMultipleRegistersRequest
  | ReportServerId
  | ReadFileRecord ReadFileRecordRequest
  | WriteFileRecord WriteFileRecordRequest
  | MaskWriteRegister MaskWriteRegisterRequest
  | ReadWriteMultipleRegisters ReadWriteMultipleRegistersRequest
  | ReadFifoQueue ReadFifoQueueRequest
  | EncapsulatedInterface EncapsulatedInterfaceRequest
  | Custom u8 bytes

datatype ResponsePdu =
    ReadCoils ReadCoilsResponse
  | ReadDiscreteInputs ReadDiscreteInputsResponse
  | ReadHoldingRegisters ReadHoldingRegistersResponse
  | ReadInputRegisters ReadInputRegistersResponse
  | WriteSingleCoil WriteSingleCoilResponse
  | WriteSingleRegister WriteSingleRegisterResponse
  | ReadExceptionStatus ReadExceptionStatusResponse
  | Diagnostics DiagnosticsResponse
  | GetCommEventCounter GetCommEventCounterResponse
  | GetCommEventLog GetCommEventLogResponse
  | WriteMultipleCoils WriteMultipleCoilsResponse
  | WriteMultipleRegisters WriteMultipleRegistersResponse
  | ReportServerId ReportServerIdResponse
  | ReadFileRecord ReadFileRecordResponse
  | WriteFileRecord WriteFileRecordResponse
  | MaskWriteRegister MaskWriteRegisterResponse
  | ReadWriteMultipleRegisters ReadWriteMultipleRegistersResponse
  | ReadFifoQueue ReadFifoQueueResponse
  | EncapsulatedInterface EncapsulatedInterfaceResponse
  | Custom u8 bytes
  | Exception ExceptionResponse

section \<open>decode.rs\<close>

definition decode_pdu_ref :: "bytes \<Rightarrow> (DecodeError, PduRef) res" where
  "decode_pdu_ref pdu =
     (if length pdu > MAX_PDU_SIZE then Err (DecodeError.PduTooLarge (length pdu) MAX_PDU_SIZE)
      else if pdu = [] then Err (DecodeError.Truncated 1 0)
      else and_then (at pdu 0) (\<lambda>function_code.
           and_then (slice_from pdu 1) (\<lambda>rest.
           Ok \<lparr>PduRef.function_code = function_code, PduRef.data = rest\<rparr>)))"

definition decode_request :: "bytes \<Rightarrow> (DecodeError, RequestPdu) res" where
  "decode_request pdu =
     and_then (decode_pdu_ref pdu) (\<lambda>pdu_ref.
     let fc = PduRef.function_code pdu_ref; data = PduRef.data pdu_ref in
     and_then (ok_or (FunctionCode_from_raw fc) (DecodeError.UnknownFunctionCode fc)) (\<lambda>fc_enum.
     case fc_enum of
       FunctionCode.ReadCoils \<Rightarrow> res_map RequestPdu.ReadCoils (ReadCoilsRequest_decode data)
     | FunctionCode.ReadDiscreteInputs \<Rightarrow> res_map RequestPdu.ReadDiscreteInputs (ReadDiscreteInputsRequest_decode data)
     | FunctionCode.ReadHoldingRegisters \<Rightarrow> res_map RequestPdu.ReadHoldingRegisters (ReadHoldingRegistersRequest_decode data)
     | FunctionCode.ReadInputRegisters \<Rightarrow> res_map RequestPdu.ReadInputRegisters (ReadInputRegistersRequest_decode data)
     | FunctionCode.WriteSingleCoil \<Rightarrow> res_map RequestPdu.WriteSingleCoil (WriteSingleCoilRequest_decode data)
     | FunctionCode.WriteSingleRegister \<Rightarrow> res_map RequestPdu.WriteSingleRegister (WriteSingleRegisterRequest_decode data)
     | FunctionCode.ReadExceptionStatus \<Rightarrow>
         and_then (DecodeError_check_exact_len data 0) (\<lambda>_. Ok RequestPdu.ReadExceptionStatus)
     | FunctionCode.Diagnostics \<Rightarrow> res_map RequestPdu.Diagnostics (DiagnosticsRequest_decode data)
     | FunctionCode.GetCommEventCounter \<Rightarrow>
         and_then (DecodeError_check_exact_len data 0) (\<lambda>_. Ok RequestPdu.GetCommEventCounter)
     | FunctionCode.GetCommEventLog \<Rightarrow>
         and_then (DecodeError_check_exact_len data 0) (\<lambda>_. Ok RequestPdu.GetCommEventLog)
     | FunctionCode.WriteMultipleCoils \<Rightarrow> res_map RequestPdu.WriteMultipleCoils (WriteMultipleCoilsRequest_decode data)
     | FunctionCode.WriteMultipleRegisters \<Rightarrow> res_map RequestPdu.WriteMultipleRegisters (WriteMultipleRegistersRequest_decode data)
     | FunctionCode.ReportServerId \<Rightarrow>
         and_then (DecodeError_check_exact_len data 0) (\<lambda>_. Ok RequestPdu.ReportServerId)
     | FunctionCode.ReadFileRecord \<Rightarrow> res_map RequestPdu.ReadFileRecord (ReadFileRecordRequest_decode data)
     | FunctionCode.WriteFileRecord \<Rightarrow> res_map RequestPdu.WriteFileRecord (WriteFileRecordRequest_decode data)
     | FunctionCode.MaskWriteRegister \<Rightarrow> res_map RequestPdu.MaskWriteRegister (MaskWriteRegisterRequest_decode data)
     | FunctionCode.ReadWriteMultipleRegisters \<Rightarrow> res_map RequestPdu.ReadWriteMultipleRegisters (ReadWriteMultipleRegistersRequest_decode data)
     | FunctionCode.ReadFifoQueue \<Rightarrow> res_map RequestPdu.ReadFifoQueue (ReadFifoQueueRequest_decode data)
     | FunctionCode.EncapsulatedInterfaceTransport \<Rightarrow> res_map RequestPdu.EncapsulatedInterface (EncapsulatedInterfaceRequest_decode data)
     | FunctionCode.Custom fc \<Rightarrow> Ok (RequestPdu.Custom fc data)))"

definition decode_response :: "bytes \<Rightarrow> (DecodeError, ResponsePdu) res" where
  "decode_response pdu =
     and_then (decode_pdu_ref pdu) (\<lambda>pdu_ref.
     let fc = PduRef.function_code pdu_ref; data = PduRef.data pdu_ref in
     if is_exception_response fc
     then res_map ResponsePdu.Exception (ExceptionResponse_decode fc data)
     else and_then (ok_or (FunctionCode_from_raw fc) (DecodeError.UnknownFunctionCode fc)) (\<lambda>fc_enum.
     case fc_enum of
       FunctionCode.ReadCoils \<Rightarrow> res_map ResponsePdu.ReadCoils (ReadCoilsResponse_decode data)
     | FunctionCode.ReadDiscreteInputs \<Rightarrow> res_map ResponsePdu.ReadDiscreteInputs (ReadDiscreteInputsResponse_decode data)
     | FunctionCode.ReadHoldingRegisters \<Rightarrow> res_map ResponsePdu.ReadHoldingRegisters (ReadHoldingRegistersResponse_decode data)
     | FunctionCode.ReadInputRegisters \<Rightarrow> res_map ResponsePdu.ReadInputRegisters (ReadInputRegistersResponse_decode data)
     | FunctionCode.WriteSingleCoil \<Rightarrow> res_map ResponsePdu.WriteSingleCoil (WriteSingleCoilResponse_decode data)
     | FunctionCode.WriteSingleRegister \<Rightarrow> res_map ResponsePdu.WriteSingleRegister (WriteSingleRegisterResponse_decode data)
     | FunctionCode.ReadExceptionStatus \<Rightarrow> res_map ResponsePdu.ReadExceptionStatus (ReadExceptionStatusResponse_decode data)
     | FunctionCode.Diagnostics \<Rightarrow> res_map ResponsePdu.Diagnostics (DiagnosticsResponse_decode data)
     | FunctionCode.GetCommEventCounter \<Rightarrow> res_map ResponsePdu.GetCommEventCounter (GetCommEventCounterResponse_decode data)
     | FunctionCode.GetCommEventLog \<Rightarrow> res_map ResponsePdu.GetCommEventLog (GetCommEventLogResponse_decode data)
     | FunctionCode.WriteMultipleCoils \<Rightarrow> res_map ResponsePdu.WriteMultipleCoils (WriteMultipleCoilsResponse_decode data)
     | FunctionCode.WriteMultipleRegisters \<Rightarrow> res_map ResponsePdu.WriteMultipleRegisters (WriteMultipleRegistersResponse_decode data)
     | FunctionCode.ReportServerId \<Rightarrow> res_map ResponsePdu.ReportServerId (ReportServerIdResponse_decode data)
     | FunctionCode.ReadFileRecord \<Rightarrow> res_map ResponsePdu.ReadFileRecord (ReadFileRecordResponse_decode data)
     | FunctionCode.WriteFileRecord \<Rightarrow> res_map ResponsePdu.WriteFileRecord (WriteFileRecordResponse_decode data)
     | FunctionCode.MaskWriteRegister \<Rightarrow> res_map ResponsePdu.MaskWriteRegister (MaskWriteRegisterResponse_decode data)
     | FunctionCode.ReadWriteMultipleRegisters \<Rightarrow> res_map ResponsePdu.ReadWriteMultipleRegisters (ReadWriteMultipleRegistersResponse_decode data)
     | FunctionCode.ReadFifoQueue \<Rightarrow> res_map ResponsePdu.ReadFifoQueue (ReadFifoQueueResponse_decode data)
     | FunctionCode.EncapsulatedInterfaceTransport \<Rightarrow> res_map ResponsePdu.EncapsulatedInterface (EncapsulatedInterfaceResponse_decode data)
     | FunctionCode.Custom fc \<Rightarrow> Ok (ResponsePdu.Custom fc data)))"

section \<open>Byte images\<close>

fun request_wire :: "RequestPdu \<Rightarrow> bytes" where
  "request_wire (RequestPdu.ReadCoils r) = 0x01 # ReadCoilsRequest_payload r"
| "request_wire (RequestPdu.ReadDiscreteInputs r) = 0x02 # ReadDiscreteInputsRequest_payload r"
| "request_wire (RequestPdu.ReadHoldingRegisters r) = 0x03 # ReadHoldingRegistersRequest_payload r"
| "request_wire (RequestPdu.ReadInputRegisters r) = 0x04 # ReadInputRegistersRequest_payload r"
| "request_wire (RequestPdu.WriteSingleCoil r) = 0x05 # WriteSingleCoilRequest_payload r"
| "request_wire (RequestPdu.WriteSingleRegister r) = 0x06 # WriteSingleRegisterRequest_payload r"
| "request_wire RequestPdu.ReadExceptionStatus = [0x07]"
| "request_wire (RequestPdu.Diagnostics r) = 0x08 # DiagnosticsRequest_payload r"
| "request_wire RequestPdu.GetCommEventCounter = [0x0B]"
| "request_wire RequestPdu.GetCommEventLog = [0x0C]"
| "request_wire (RequestPdu.WriteMultipleCoils r) = 0x0F # WriteMultipleCoilsRequest_payload r"
| "request_wire (RequestPdu.WriteMultipleRegisters r) = 0x10 # WriteMultipleRegistersRequest_payload r"
| "request_wire RequestPdu.ReportServerId = [0x11]"
| "request_wire (RequestPdu.ReadFileRecord r) = 0x14 # ReadFileRecordRequest_payload r"
| "request_wire (RequestPdu.WriteFileRecord r) = 0x15 # WriteFileRecordRequest_payload r"
| "request_wire (RequestPdu.MaskWriteRegister r) = 0x16 # MaskWriteRegisterRequest_payload r"
| "request_wire (RequestPdu.ReadWriteMultipleRegisters r) = 0x17 # ReadWriteMultipleRegistersRequest_payload r"
| "request_wire (RequestPdu.ReadFifoQueue r) = 0x18 # ReadFifoQueueRequest_payload r"
| "request_wire (RequestPdu.EncapsulatedInterface r) = 0x2B # EncapsulatedInterfaceRequest_payload r"
| "request_wire (RequestPdu.Custom fc d) = fc # d"

fun request_valid :: "RequestPdu \<Rightarrow> bool" where
  "request_valid (RequestPdu.ReadCoils r) = ReadCoilsRequest_wf r"
| "request_valid (RequestPdu.ReadDiscreteInputs r) = ReadDiscreteInputsRequest_wf r"
| "request_valid (RequestPdu.ReadHoldingRegisters r) = ReadHoldingRegistersRequest_wf r"
| "request_valid (RequestPdu.ReadInputRegisters r) = ReadInputRegistersRequest_wf r"
| "request_valid (RequestPdu.WriteSingleCoil r) = WriteSingleCoilRequest_wf r"
| "request_valid (RequestPdu.WriteSingleRegister r) = WriteSingleRegisterRequest_wf r"
| "request_valid RequestPdu.ReadExceptionStatus = True"
| "request_valid (RequestPdu.Diagnostics r) = DiagnosticsRequest_wf r"
| "request_valid RequestPdu.GetCommEventCounter = True"
| "request_valid RequestPdu.GetCommEventLog = True"
| "request_valid (RequestPdu.WriteMultipleCoils r) = WriteMultipleCoilsRequest_wf r"
| "request_valid (RequestPdu.WriteMultipleRegisters r) = WriteMultipleRegistersRequest_wf r"
| "request_valid RequestPdu.ReportServerId = True"
| "request_valid (RequestPdu.ReadFileRecord r) = ReadFileRecordRequest_wf r"
| "request_valid (RequestPdu.WriteFileRecord r) = WriteFileRecordRequest_wf r"
| "request_valid (RequestPdu.MaskWriteRegister r) = MaskWriteRegisterRequest_wf r"
| "request_valid (RequestPdu.ReadWriteMultipleRegisters r) = ReadWriteMultipleRegistersRequest_wf r"
| "request_valid (RequestPdu.ReadFifoQueue r) = ReadFifoQueueRequest_wf r"
| "request_valid (RequestPdu.EncapsulatedInterface r) = EncapsulatedInterfaceRequest_valid r"
| "request_valid (RequestPdu.Custom fc d) \<longleftrightarrow>
     FunctionCode_from_raw fc = Some (FunctionCode.Custom fc) \<and> length d \<le> 252"

fun response_wire :: "ResponsePdu \<Rightarrow> bytes" where
  "response_wire (ResponsePdu.ReadCoils r) = 0x01 # ReadCoilsResponse_payload r"
| "response_wire (ResponsePdu.ReadDiscreteInputs r) = 0x02 # ReadDiscreteInputsResponse_payload r"
| "response_wire (ResponsePdu.ReadHoldingRegisters r) = 0x03 # ReadHoldingRegistersResponse_payload r"
| "response_wire (ResponsePdu.ReadInputRegisters r) = 0x04 # ReadInputRegistersResponse_payload r"
| "response_wire (ResponsePdu.WriteSingleCoil r) = 0x05 # WriteSingleCoilResponse_payload r"
| "response_wire (ResponsePdu.WriteSingleRegister r) = 0x06 # WriteSingleRegisterResponse_payload r"
| "response_wire (ResponsePdu.ReadExceptionStatus r) = 0x07 # ReadExceptionStatusResponse_payload r"
| "response_wire (ResponsePdu.Diagnostics r) = 0x08 # DiagnosticsResponse_payload r"
| "response_wire (ResponsePdu.GetCommEventCounter r) = 0x0B # GetCommEventCounterResponse_payload r"
| "response_wire (ResponsePdu.GetCommEventLog r) = 0x0C # GetCommEventLogResponse_payload r"
| "response_wire (ResponsePdu.WriteMultipleCoils r) = 0x0F # WriteMultipleCoilsResponse_payload r"
| "response_wire (ResponsePdu.WriteMultipleRegisters r) = 0x10 # WriteMultipleRegistersResponse_payload r"
| "response_wire (ResponsePdu.ReportServerId r) = 0x11 # ReportServerIdResponse_payload r"
| "response_wire (ResponsePdu.ReadFileRecord r) = 0x14 # ReadFileRecordResponse_payload r"
| "response_wire (ResponsePdu.WriteFileRecord r) = 0x15 # WriteFileRecordResponse_payload r"
| "response_wire (ResponsePdu.MaskWriteRegister r) = 0x16 # MaskWriteRegisterResponse_payload r"
| "response_wire (ResponsePdu.ReadWriteMultipleRegisters r) = 0x17 # ReadWriteMultipleRegistersResponse_payload r"
| "response_wire (ResponsePdu.ReadFifoQueue r) = 0x18 # ReadFifoQueueResponse_payload r"
| "response_wire (ResponsePdu.EncapsulatedInterface r) = 0x2B # EncapsulatedInterfaceResponse_payload r"
| "response_wire (ResponsePdu.Custom fc d) = fc # d"
| "response_wire (ResponsePdu.Exception r) = ExceptionResponse_wire r"

fun response_valid :: "ResponsePdu \<Rightarrow> bool" where
  "response_valid (ResponsePdu.ReadCoils r) = ReadCoilsResponse_wf r"
| "response_valid (ResponsePdu.ReadDiscreteInputs r) = ReadDiscreteInputsResponse_wf r"
| "response_valid (ResponsePdu.ReadHoldingRegisters r) = ReadHoldingRegistersResponse_wf r"
| "response_valid (ResponsePdu.ReadInputRegisters r) = ReadInputRegistersResponse_wf r"
| "response_valid (ResponsePdu.WriteSingleCoil r) = WriteSingleCoilResponse_wf r"
| "response_valid (ResponsePdu.WriteSingleRegister r) = WriteSingleRegisterResponse_wf r"
| "response_valid (ResponsePdu.ReadExceptionStatus r) = ReadExceptionStatusResponse_wf r"
| "response_valid (ResponsePdu.Diagnostics r) = DiagnosticsResponse_wf r"
| "response_valid (ResponsePdu.GetCommEventCounter r) = GetCommEventCounterResponse_wf r"
| "response_valid (ResponsePdu.GetCommEventLog r) = GetCommEventLogResponse_wf r"
| "response_valid (ResponsePdu.WriteMultipleCoils r) = WriteMultipleCoilsResponse_valid r"
| "response_valid (ResponsePdu.WriteMultipleRegisters r) = WriteMultipleRegistersResponse_valid r"
| "response_valid (ResponsePdu.ReportServerId r) = ReportServerIdResponse_wf r"
| "response_valid (ResponsePdu.ReadFileRecord r) = ReadFileRecordResponse_wf r"
| "response_valid (ResponsePdu.WriteFileRecord r) = WriteFileRecordResponse_wf r"
| "response_valid (ResponsePdu.MaskWriteRegister r) = MaskWriteRegisterResponse_wf r"
| "response_valid (ResponsePdu.ReadWriteMultipleRegisters r) = ReadWriteMultipleRegistersResponse_wf r"
| "response_valid (ResponsePdu.ReadFifoQueue r) = ReadFifoQueueResponse_wf r"
| "response_valid (ResponsePdu.EncapsulatedInterface r) = EncapsulatedInterfaceResponse_valid r"
| "response_valid (ResponsePdu.Custom fc d) \<longleftrightarrow>
     FunctionCode_from_raw fc = Some (FunctionCode.Custom fc) \<and> length d \<le> 252"
| "response_valid (ResponsePdu.Exception r) = ExceptionResponse_valid r"

text \<open>The exception codes that the protocol defines, and the responses that carry no other.\<close>

fun recognised :: "ResponsePdu \<Rightarrow> bool" where
  "recognised (ResponsePdu.Exception r) \<longleftrightarrow>
     ExceptionCode_code (ExceptionResponse.exception_code r) \<in> {1, 2, 3, 4, 5, 6, 7, 8, 0x0A, 0x0B}"
| "recognised _ = True"

section \<open>Facts of the struct codecs, per dispatcher\<close>

lemmas request_decode_Ok_iff =
  read_coils_rq.decode_Ok_iff read_discrete_inputs_rq.decode_Ok_iff
  read_holding_registers_rq.decode_Ok_iff read_input_registers_rq.decode_Ok_iff
  write_single_coil_rq.decode_Ok_iff write_single_register_rq.decode_Ok_iff
  diagnostics_rq.decode_Ok_iff write_multiple_coils_rq.decode_Ok_iff
  write_multiple_registers_rq.decode_Ok_iff read_file_record_rq.decode_Ok_iff
  write_file_record_rq.decode_Ok_iff mask_write_register_rq.decode_Ok_iff
  read_write_multiple_registers_rq.decode_Ok_iff read_fifo_queue_rq.decode_Ok_iff
  encapsulated_interface_rq.decode_Ok_iff

lemmas request_decode_payload =
  read_coils_rq.decode_payload read_discrete_inputs_rq.decode_payload
  read_holding_registers_rq.decode_payload read_input_registers_rq.decode_payload
  write_single_coil_rq.decode_payload write_single_register_rq.decode_payload
  diagnostics_rq.decode_payload write_multiple_coils_rq.decode_payload
  write_multiple_registers_rq.decode_payload read_file_record_rq.decode_payload
  write_file_record_rq.decode_payload mask_write_register_rq.decode_payload
  read_write_multiple_registers_rq.decode_payload read_fifo_queue_rq.decode_payload
  encapsulated_interface_rq.decode_payload

lemmas request_decode_not_Panic =
  read_coils_rq.decode_not_Panic read_discrete_inputs_rq.decode_not_Panic
  read_holding_registers_rq.decode_not_Panic read_input_registers_rq.decode_not_Panic
  write_single_coil_rq.decode_not_Panic write_single_register_rq.decode_not_Panic
  diagnostics_rq.decode_not_Panic write_multiple_coils_rq.decode_not_Panic
  write_multiple_registers_rq.decode_not_Panic read_file_record_rq.decode_not_Panic
  write_file_record_rq.decode_not_Panic mask_write_register_rq.decode_not_Panic
  read_write_multiple_registers_rq.decode_not_Panic read_fifo_queue_rq.decode_not_Panic
  encapsulated_interface_rq.decode_not_Panic

lemmas response_decode_Ok_iff =
  read_coils_rs.decode_Ok_iff read_discrete_inputs_rs.decode_Ok_iff
  read_holding_registers_rs.decode_Ok_iff read_input_registers_rs.decode_Ok_iff
  write_single_coil_rs.decode_Ok_iff write_single_register_rs.decode_Ok_iff
  read_exception_status_rs.decode_Ok_iff diagnostics_rs.decode_Ok_iff
  get_comm_event_counter_rs.decode_Ok_iff get_comm_event_log_rs.decode_Ok_iff
  write_multiple_coils_rs.decode_Ok_iff write_multiple_registers_rs.decode_Ok_iff
  report_server_id_rs.decode_Ok_iff read_file_record_rs.decode_Ok_iff
  write_file_record_rs.decode_Ok_iff mask_write_register_rs.decode_Ok_iff
  read_write_multiple_registers_rs.decode_Ok_iff read_fifo_queue_rs.decode_Ok_iff
  encapsulated_interface_rs.decode_Ok_iff

lemmas response_decode_payload =
  read_coils_rs.decode_payload read_discrete_inputs_rs.decode_payload
  read_holding_registers_rs.decode_payload read_input_registers_rs.decode_payload
  write_single_coil_rs.decode_payload write_single_register_rs.decode_payload
  read_exception_status_rs.decode_payload diagnostics_rs.decode_payload
  get_comm_event_counter_rs.decode_payload get_comm_event_log_rs.decode_payload
  write_multiple_coils_rs.decode_payload write_multiple_registers_rs.decode_payload
  report_server_id_rs.decode_payload read_file_record_rs.decode_payload
  write_file_record_rs.decode_payload mask_write_register_rs.decode_payload
  read_write_multiple_registers_rs.decode_payload read_fifo_queue_rs.decode_payload
  encapsulated_interface_rs.decode_payload

lemmas response_decode_not_Panic =
  read_coils_rs.decode_not_Panic read_discrete_inputs_rs.decode_not_Panic
  read_holding_registers_rs.decode_not_Panic read_input_registers_rs.decode_not_Panic
  write_single_coil_rs.decode_not_Panic write_single_register_rs.decode_not_Panic
  read_exception_status_rs.decode_not_Panic diagnostics_rs.decode_not_Panic
  get_comm_event_counter_rs.decode_not_Panic get_comm_event_log_rs.decode_not_Panic
  write_multiple_coils_rs.decode_not_Panic write_multiple_registers_rs.decode_not_Panic
  report_server_id_rs.decode_not_Panic read_file_record_rs.decode_not_Panic
  write_file_record_rs.decode_not_Panic mask_write_register_rs.decode_not_Panic
  read_write_multiple_registers_rs.decode_not_Panic read_fifo_queue_rs.decode_not_Panic
  encapsulated_interface_rs.decode_not_Panic

lemmas request_payload_bound =
  read_coils_rq.payload_bound read_discrete_inputs_rq.payload_bound
  read_holding_registers_rq.payload_bound read_input_registers_rq.payload_bound
  write_single_coil_rq.payload_bound write_single_register_rq.payload_bound
  diagnostics_rq.payload_bound write_multiple_coils_rq.payload_bound
  write_multiple_registers_rq.payload_bound read_file_record_rq.payload_bound
  write_file_record_rq.payload_bound mask_write_register_rq.payload_bound
  read_write_multiple_registers_rq.payload_bound read_fifo_queue_rq.payload_bound
  encapsulated_interface_rq.payload_bound

lemmas response_payload_bound =
  read_coils_rs.payload_bound read_discrete_inputs_rs.payload_bound
  read_holding_registers_rs.payload_bound read_input_registers_rs.payload_bound
  write_single_coil_rs.payload_bound write_single_register_rs.payload_bound
  read_exception_status_rs.payload_bound diagnostics_rs.payload_bound
  get_comm_event_counter_rs.payload_bound get_comm_event_log_rs.payload_bound
  report_server_id_rs.payload_bound read_file_record_rs.payload_bound
  write_file_record_rs.payload_bound mask_write_register_rs.payload_bound
  read_write_multiple_registers_rs.payload_bound read_fifo_queue_rs.payload_bound

lemma FunctionCode_from_raw_code: "FunctionCode_from_raw b = Some f \<Longrightarrow> b = FunctionCode_code f"
  by (auto simp: FunctionCode_from_raw_iff)

lemma decode_pdu_ref_Ok_iff:
  "decode_pdu_ref pdu = Ok p \<longleftrightarrow>
     pdu = PduRef.function_code p # PduRef.data p \<and> length (PduRef.data p) < 253"
  by (cases pdu) (auto simp: decode_pdu_ref_def)

lemma decode_pdu_ref_Cons [simp]:
  "length d < 253 \<Longrightarrow>
     decode_pdu_ref (fc # d) = Ok \<lparr>PduRef.function_code = fc, PduRef.data = d\<rparr>"
  by (simp add: decode_pdu_ref_def)

lemma decode_pdu_ref_not_Panic [simp]: "decode_pdu_ref pdu \<noteq> Panic"
  by (cases pdu) (auto simp: decode_pdu_ref_def)

section \<open>Requests\<close>

lemma EncapsulatedInterfaceRequest_valid_wf:
  "EncapsulatedInterfaceRequest_valid r \<Longrightarrow> EncapsulatedInterfaceRequest_wf r"
  by (simp add: EncapsulatedInterfaceRequest_valid_def)

lemma decode_request_Cons:
  assumes "decode_request pdu = Ok r"
  obtains f d where "pdu = FunctionCode_code f # d" "length d < 253"
    "FunctionCode_from_raw (FunctionCode_code f) = Some f"
  using assms unfolding decode_request_def and_then_eq_Ok decode_pdu_ref_Ok_iff Let_def ok_or_eq_Ok
  by (metis FunctionCode_from_raw_code)

lemma decode_request_sound:
  assumes "decode_request pdu = Ok r"
  shows "request_valid r \<and> pdu = request_wire r"
  using assms
proof (rule decode_request_Cons)
  fix f d
  assume "pdu = FunctionCode_code f # d" "length d < 253"
    and "FunctionCode_from_raw (FunctionCode_code f) = Some f"
  then show ?thesis
    using assms
    by (cases f) (auto simp: decode_request_def res_map_eq_Ok request_decode_Ok_iff res_simps
        FunctionCode_from_raw_def FunctionCode_from_byte_def)
qed

lemma decode_request_complete:
  assumes "request_valid r"
  shows "decode_request (request_wire r) = Ok r"
proof (cases r)
  case (Custom fc d)
  then show ?thesis using assms by (simp add: decode_request_def)
qed (use assms in \<open>auto simp: decode_request_def FunctionCode_from_raw_def FunctionCode_from_byte_def
      request_decode_payload request_payload_bound EncapsulatedInterfaceRequest_valid_wf
      DecodeError_check_exact_len_def\<close>)

lemma decode_request_not_Panic: "decode_request pdu \<noteq> Panic"
  by (auto simp: decode_request_def res_simps Let_def res_map_eq_Panic request_decode_not_Panic
      split: FunctionCode.splits)

section \<open>Responses\<close>

lemma EncapsulatedInterfaceResponse_valid_wf:
  "EncapsulatedInterfaceResponse_valid r \<Longrightarrow> EncapsulatedInterfaceResponse_wf r"
  by (simp add: EncapsulatedInterfaceResponse_valid_def)

text \<open>
  The echo of a multiple write is read back without its quantity being checked, so its
  payload is bounded whatever the quantity.
\<close>

lemma echo_payload_bound:
  "length (WriteMultipleCoilsResponse_payload r) < 253"
  "length (WriteMultipleRegistersResponse_payload s) < 253"
  by (simp_all add: WriteMultipleCoilsResponse_payload_def WriteMultipleRegistersResponse_payload_def)

lemma decode_response_sound:
  assumes "decode_response pdu = Ok r"
  shows "response_valid r \<and> pdu = response_wire r"
proof -
  obtain fc d where p: "pdu = fc # d" "length d < 253"
    using assms by (auto simp: decode_response_def res_simps decode_pdu_ref_Ok_iff)
  show ?thesis
  proof (cases "is_exception_response fc")
    case True
    then show ?thesis
      using assms by (auto simp: p decode_response_def res_map_eq_Ok ExceptionResponse_decode_Ok_iff)
  next
    case False
    then obtain f where f: "FunctionCode_from_raw fc = Some f"
      using assms p by (auto simp: decode_response_def res_simps ok_or_eq_Ok)
    then have fc: "fc = FunctionCode_code f" by (rule FunctionCode_from_raw_code)
    show ?thesis
      using assms p f False unfolding fc
      by (cases f) (auto simp: decode_response_def res_map_eq_Ok response_decode_Ok_iff)
  qed
qed

lemma decode_response_complete:
  assumes "response_valid r"
  shows "decode_response (response_wire r) = Ok r"
proof (cases r)
  case (Custom fc d)
  then have "\<not> is_exception_response fc" using assms by (simp add: FunctionCode_from_raw_iff)
  then show ?thesis using assms Custom by (simp add: decode_response_def)
next
  case (Exception e)
  have "decode_pdu_ref (ExceptionResponse_wire e) =
      Ok \<lparr>PduRef.function_code = FunctionCode_exception_code (ExceptionResponse.function_code e),
          PduRef.data = [ExceptionCode_code (ExceptionResponse.exception_code e)]\<rparr>"
    by (simp add: ExceptionResponse_wire_def)
  moreover have "is_exception_response (FunctionCode_exception_code (ExceptionResponse.function_code e))"
    by (simp add: is_exception_response_iff FunctionCode_exception_code_def)
  ultimately show ?thesis
    using assms Exception
    by (simp add: decode_response_def res_map_eq_Ok ExceptionResponse_decode_Ok_iff)
      (simp add: ExceptionResponse_wire_def)
qed (use assms in \<open>auto simp: decode_response_def FunctionCode_from_raw_def FunctionCode_from_byte_def
      is_exception_response_def response_decode_payload response_payload_bound echo_payload_bound
      encapsulated_interface_rs.payload_bound EncapsulatedInterfaceResponse_valid_wf\<close>)

lemma decode_response_not_Panic: "decode_response pdu \<noteq> Panic"
  by (auto simp: decode_response_def res_simps Let_def res_map_eq_Panic response_decode_not_Panic
      split: FunctionCode.splits)

end
