(* ===== verification/Codec_Roundtrip.thy ===== *)
theory Codec_Roundtrip
  imports Codec_Decode
begin

text \<open>
  The \<open>Encode\<close> impls of all message structs against the dispatchers.  \<open>request_encode_into\<close> and
  \<open>response_encode_into\<close> select the impl of the struct a variant carries; variants that carry
  no struct have no \<open>Encode\<close> impl and give \<open>None\<close>.
\<close>

fun request_encode_into :: "RequestPdu \<Rightarrow> bytes \<Rightarrow> (EncodeError, nat \<times> bytes) res option" where
  "request_encode_into (RequestPdu.ReadCoils r) buf = Some (ReadCoilsRequest_encode_into r buf)"
| "request_encode_into (RequestPdu.ReadDiscreteInputs r) buf = Some (ReadDiscreteInputsRequest_encode_into r buf)"
| "request_encode_into (RequestPdu.ReadHoldingRegisters r) buf = Some (ReadHoldingRegistersRequest_encode_into r buf)"
| "request_encode_into (RequestPdu.ReadInputRegisters r) buf = Some (ReadInputRegistersRequest_encode_into r buf)"
| "request_encode_into (RequestPdu.WriteSingleCoil r) buf = Some (WriteSingleCoilRequest_encode_into r buf)"
| "request_encode_into (RequestPdu.WriteSingleRegister r) buf = Some (WriteSingleRegisterRequest_encode_into r buf)"
| "request_encode_into (RequestPdu.Diagnostics r) buf = Some (DiagnosticsRequest_encode_into r buf)"
| "request_encode_into (RequestPdu.WriteMultipleCoils r) buf = Some (WriteMultipleCoilsRequest_encode_into r buf)"
| "request_encode_into (RequestPdu.WriteMultipleRegisters r) buf = Some (WriteMultipleRegistersRequest_encode_into r buf)"
| "request_encode_into (RequestPdu.ReadFileRecord r) buf = Some (ReadFileRecordRequest_encode_into r buf)"
| "request_encode_into (RequestPdu.WriteFileRecord r) buf = Some (WriteFileRecordRequest_encode_into r buf)"
| "request_encode_into (RequestPdu.MaskWriteRegister r) buf = Some (MaskWriteRegisterRequest_encode_into r buf)"
| "request_encode_into (RequestPdu.ReadWriteMultipleRegisters r) buf = Some (ReadWriteMultipleRegistersRequest_encode_into r buf)"
| "request_encode_into (RequestPdu.ReadFifoQueue r) buf = Some (ReadFifoQueueRequest_encode_into r buf)"
| "request_encode_into (RequestPdu.EncapsulatedInterface r) buf = Some (EncapsulatedInterfaceRequest_encode_into r buf)"
| "request_encode_into _ buf = None"

fun response_encode_into :: "ResponsePdu \<Rightarrow> bytes \<Rightarrow> (EncodeError, nat \<times> bytes) res option" where
  "response_encode_into (ResponsePdu.ReadCoils r) buf = Some (ReadCoilsResponse_encode_into r buf)"
| "response_encode_into (ResponsePdu.ReadDiscreteInputs r) buf = Some (ReadDiscreteInputsResponse_encode_into r buf)"
| "response_encode_into (ResponsePdu.ReadHoldingRegisters r) buf = Some (ReadHoldingRegistersResponse_encode_into r buf)"
| "response_encode_into (ResponsePdu.ReadInputRegisters r) buf = Some (ReadInputRegistersResponse_encode_into r buf)"
| "response_encode_into (ResponsePdu.WriteSingleCoil r) buf = Some (WriteSingleCoilResponse_encode_into r buf)"
| "response_encode_into (ResponsePdu.WriteSingleRegister r) buf = Some (WriteSingleRegisterResponse_encode_into r buf)"
| "response_encode_into (ResponsePdu.ReadExceptionStatus r) buf = Some (ReadExceptionStatusResponse_encode_into r buf)"
| "response_encode_into (ResponsePdu.Diagnostics r) buf = Some (DiagnosticsResponse_encode_into r buf)"
| "response_encode_into (ResponsePdu.GetCommEventCounter r) buf = Some (GetCommEventCounterResponse_encode_into r buf)"
| "response_encode_into (ResponsePdu.GetCommEventLog r) buf = Some (GetCommEventLogResponse_encode_into r buf)"
| "response_encode_into (ResponsePdu.WriteMultipleCoils r) buf = Some (WriteMultipleCoilsResponse_encode_into r buf)"
| "response_encode_into (ResponsePdu.WriteMultipleRegisters r) buf = Some (WriteMultipleRegistersResponse_encode_into r buf)"
| "response_encode_into (ResponsePdu.ReportServerId r) buf = Some (ReportServerIdResponse_encode_into r buf)"
| "response_encode_into (ResponsePdu.ReadFileRecord r) buf = Some (ReadFileRecordResponse_encode_into r buf)"
| "response_encode_into (ResponsePdu.WriteFileRecord r) buf = Some (WriteFileRecordResponse_encode_into r buf)"
| "response_encode_into (ResponsePdu.MaskWriteRegister r) buf = Some (MaskWriteRegisterResponse_encode_into r buf)"
| "response_encode_into (ResponsePdu.ReadWriteMultipleRegisters r) buf = Some (ReadWriteMultipleRegistersResponse_encode_into r buf)"
| "response_encode_into (ResponsePdu.ReadFifoQueue r) buf = Some (ReadFifoQueueResponse_encode_into r buf)"
| "response_encode_into (ResponsePdu.EncapsulatedInterface r) buf = Some (EncapsulatedInterfaceResponse_encode_into r buf)"
| "response_encode_into (ResponsePdu.Exception r) buf = Some (ExceptionResponse_encode_into r buf)"
| "response_encode_into (ResponsePdu.Custom _ _) buf = None"

lemmas request_encode_ok =
  read_coils_rq.encode_ok read_discrete_inputs_rq.encode_ok read_holding_registers_rq.encode_ok
  read_input_registers_rq.encode_ok write_single_coil_rq.encode_ok
  write_single_register_rq.encode_ok diagnostics_rq.encode_ok write_multiple_coils_rq.encode_ok
  write_multiple_registers_rq.encode_ok read_file_record_rq.encode_ok
  write_file_record_rq.encode_ok mask_write_register_rq.encode_ok
  read_write_multiple_registers_rq.encode_ok read_fifo_queue_rq.encode_ok
  encapsulated_interface_rq.encode_ok

lemmas request_encoded_len =
  read_coils_rq.payload_length [symmetric] read_discrete_inputs_rq.payload_length [symmetric]
  read_holding_registers_rq.payload_length [symmetric]
  read_input_registers_rq.payload_length [symmetric]
  write_single_coil_rq.payload_length [symmetric]
  write_single_register_rq.payload_length [symmetric] diagnostics_rq.payload_length [symmetric]
  write_multiple_coils_rq.payload_length [symmetric]
  write_multiple_registers_rq.payload_length [symmetric]
  read_file_record_rq.payload_length [symmetric] write_file_record_rq.payload_length [symmetric]
  mask_write_register_rq.payload_length [symmetric]
  read_write_multiple_registers_rq.payload_length [symmetric]
  read_fifo_queue_rq.payload_length [symmetric]
  encapsulated_interface_rq.payload_length [symmetric]

lemmas request_encode_prefix =
  read_coils_rq.encode_prefix read_discrete_inputs_rq.encode_prefix
  read_holding_registers_rq.encode_prefix read_input_registers_rq.encode_prefix
  write_single_coil_rq.encode_prefix write_single_register_rq.encode_prefix
  diagnostics_rq.encode_prefix write_multiple_coils_rq.encode_prefix
  write_multiple_registers_rq.encode_prefix read_file_record_rq.encode_prefix
  write_file_record_rq.encode_prefix mask_write_register_rq.encode_prefix
  read_write_multiple_registers_rq.encode_prefix read_fifo_queue_rq.encode_prefix
  encapsulated_interface_rq.encode_prefix

lemmas response_encode_prefix =
  read_coils_rs.encode_prefix read_discrete_inputs_rs.encode_prefix
  read_holding_registers_rs.encode_prefix read_input_registers_rs.encode_prefix
  write_single_coil_rs.encode_prefix write_single_register_rs.encode_prefix
  read_exception_status_rs.encode_prefix diagnostics_rs.encode_prefix
  get_comm_event_counter_rs.encode_prefix get_comm_event_log_rs.encode_prefix
  write_multiple_coils_rs.encode_prefix write_multiple_registers_rs.encode_prefix
  report_server_id_rs.encode_prefix read_file_record_rs.encode_prefix
  write_file_record_rs.encode_prefix mask_write_register_rs.encode_prefix
  read_write_multiple_registers_rs.encode_prefix read_fifo_queue_rs.encode_prefix
  encapsulated_interface_rs.encode_prefix
  exception_rs.encode_prefix

lemmas request_encode_suffix =
  read_coils_rq.encode_suffix read_discrete_inputs_rq.encode_suffix
  read_holding_registers_rq.encode_suffix read_input_registers_rq.encode_suffix
  write_single_coil_rq.encode_suffix write_single_register_rq.encode_suffix
  diagnostics_rq.encode_suffix write_multiple_coils_rq.encode_suffix
  write_multiple_registers_rq.encode_suffix read_file_record_rq.encode_suffix
  write_file_record_rq.encode_suffix mask_write_register_rq.encode_suffix
  read_write_multiple_registers_rq.encode_suffix read_fifo_queue_rq.encode_suffix
  encapsulated_interface_rq.encode_suffix

lemmas response_encode_suffix =
  read_coils_rs.encode_suffix read_discrete_inputs_rs.encode_suffix
  read_holding_registers_rs.encode_suffix read_input_registers_rs.encode_suffix
  write_single_coil_rs.encode_suffix write_single_register_rs.encode_suffix
  read_exception_status_rs.encode_suffix diagnostics_rs.encode_suffix
  get_comm_event_counter_rs.encode_suffix get_comm_event_log_rs.encode_suffix
  write_multiple_coils_rs.encode_suffix write_multiple_registers_rs.encode_suffix
  report_server_id_rs.encode_suffix read_file_record_rs.encode_suffix
  write_file_record_rs.encode_suffix mask_write_register_rs.encode_suffix
  read_write_multiple_registers_rs.encode_suffix read_fifo_queue_rs.encode_suffix
  encapsulated_interface_rs.encode_suffix
  exception_rs.encode_suffix

lemmas request_encode_keeps_length =
  read_coils_rq.encode_keeps_length read_discrete_inputs_rq.encode_keeps_length
  read_holding_registers_rq.encode_keeps_length read_input_registers_rq.encode_keeps_length
  write_single_coil_rq.encode_keeps_length write_single_register_rq.encode_keeps_length
  diagnostics_rq.encode_keeps_length write_multiple_coils_rq.encode_keeps_length
  write_multiple_registers_rq.encode_keeps_length read_file_record_rq.encode_keeps_length
  write_file_record_rq.encode_keeps_length mask_write_register_rq.encode_keeps_length
  read_write_multiple_registers_rq.encode_keeps_length read_fifo_queue_rq.encode_keeps_length
  encapsulated_interface_rq.encode_keeps_length

lemmas response_encode_keeps_length =
  read_coils_rs.encode_keeps_length read_discrete_inputs_rs.encode_keeps_length
  read_holding_registers_rs.encode_keeps_length read_input_registers_rs.encode_keeps_length
  write_single_coil_rs.encode_keeps_length write_single_register_rs.encode_keeps_length
  read_exception_status_rs.encode_keeps_length diagnostics_rs.encode_keeps_length
  get_comm_event_counter_rs.encode_keeps_length get_comm_event_log_rs.encode_keeps_length
  write_multiple_coils_rs.encode_keeps_length write_multiple_registers_rs.encode_keeps_length
  report_server_id_rs.encode_keeps_length read_file_record_rs.encode_keeps_length
  write_file_record_rs.encode_keeps_length mask_write_register_rs.encode_keeps_length
  read_write_multiple_registers_rs.encode_keeps_length read_fifo_queue_rs.encode_keeps_length
  encapsulated_interface_rs.encode_keeps_length
  exception_rs.encode_keeps_length

lemmas request_encode_bound =
  read_coils_rq.encode_bound read_discrete_inputs_rq.encode_bound
  read_holding_registers_rq.encode_bound read_input_registers_rq.encode_bound
  write_single_coil_rq.encode_bound write_single_register_rq.encode_bound
  diagnostics_rq.encode_bound write_multiple_coils_rq.encode_bound
  write_multiple_registers_rq.encode_bound read_file_record_rq.encode_bound
  write_file_record_rq.encode_bound mask_write_register_rq.encode_bound
  read_write_multiple_registers_rq.encode_bound read_fifo_queue_rq.encode_bound
  encapsulated_interface_rq.encode_bound

lemmas response_encode_bound =
  read_coils_rs.encode_bound read_discrete_inputs_rs.encode_bound
  read_holding_registers_rs.encode_bound read_input_registers_rs.encode_bound
  write_single_coil_rs.encode_bound write_single_register_rs.encode_bound
  read_exception_status_rs.encode_bound diagnostics_rs.encode_bound
  get_comm_event_counter_rs.encode_bound get_comm_event_log_rs.encode_bound
  write_multiple_coils_rs.encode_bound write_multiple_registers_rs.encode_bound
  report_server_id_rs.encode_bound read_file_record_rs.encode_bound
  write_file_record_rs.encode_bound mask_write_register_rs.encode_bound
  read_write_multiple_registers_rs.encode_bound read_fifo_queue_rs.encode_bound
  encapsulated_interface_rs.encode_bound
  exception_rs.encode_bound

lemmas request_struct_encode_not_Panic =
  read_coils_rq.encode_not_Panic read_discrete_inputs_rq.encode_not_Panic
  read_holding_registers_rq.encode_not_Panic read_input_registers_rq.encode_not_Panic
  write_single_coil_rq.encode_not_Panic write_single_register_rq.encode_not_Panic
  diagnostics_rq.encode_not_Panic write_multiple_coils_rq.encode_not_Panic
  write_multiple_registers_rq.encode_not_Panic read_file_record_rq.encode_not_Panic
  write_file_record_rq.encode_not_Panic mask_write_register_rq.encode_not_Panic
  read_write_multiple_registers_rq.encode_not_Panic read_fifo_queue_rq.encode_not_Panic
  encapsulated_interface_rq.encode_not_Panic

lemmas response_struct_encode_not_Panic =
  read_coils_rs.encode_not_Panic read_discrete_inputs_rs.encode_not_Panic
  read_holding_registers_rs.encode_not_Panic read_input_registers_rs.encode_not_Panic
  write_single_coil_rs.encode_not_Panic write_single_register_rs.encode_not_Panic
  read_exception_status_rs.encode_not_Panic diagnostics_rs.encode_not_Panic
  get_comm_event_counter_rs.encode_not_Panic get_comm_event_log_rs.encode_not_Panic
  write_multiple_coils_rs.encode_not_Panic write_multiple_registers_rs.encode_not_Panic
  report_server_id_rs.encode_not_Panic read_file_record_rs.encode_not_Panic
  write_file_record_rs.encode_not_Panic mask_write_register_rs.encode_not_Panic
  read_write_multiple_registers_rs.encode_not_Panic read_fifo_queue_rs.encode_not_Panic
  encapsulated_interface_rs.encode_not_Panic
  exception_rs.encode_not_Panic

lemma request_encode_prefix_wire:
  "request_encode_into r buf = Some (Ok (n, out)) \<Longrightarrow> take n out = request_wire r"
  by (cases r) (auto dest: request_encode_prefix)

lemma response_encode_prefix_wire:
  "response_encode_into r buf = Some (Ok (n, out)) \<Longrightarrow> take n out = response_wire r"
  by (cases r) (auto dest: response_encode_prefix)

lemma request_encode_frame:
  "request_encode_into r buf = Some (Ok (n, out)) \<Longrightarrow>
     n \<le> MAX_PDU_SIZE \<and> length out = length buf \<and> drop n out = drop n buf"
  by (cases r) (auto dest: request_encode_bound request_encode_keeps_length request_encode_suffix)

lemma response_encode_frame:
  "response_encode_into r buf = Some (Ok (n, out)) \<Longrightarrow>
     n \<le> MAX_PDU_SIZE \<and> length out = length buf \<and> drop n out = drop n buf"
  by (cases r) (auto dest: response_encode_bound response_encode_keeps_length response_encode_suffix)

lemma request_encode_not_Panic: "request_encode_into r buf \<noteq> Some Panic"
  by (cases r) (simp_all add: request_struct_encode_not_Panic)

lemma response_encode_not_Panic: "response_encode_into r buf \<noteq> Some Panic"
  by (cases r) (simp_all add: response_struct_encode_not_Panic)

lemma request_encode_complete:
  assumes "request_valid r" "request_encode_into r buf = Some x"
    and "length (request_wire r) \<le> length buf"
  shows "x = Ok (length (request_wire r), request_wire r @ drop (length (request_wire r)) buf)"
proof (cases r)
  case (EncapsulatedInterface e)
  then have "EncapsulatedInterfaceRequest_wf e"
    using assms(1) by (simp add: EncapsulatedInterfaceRequest_valid_wf)
  then show ?thesis
    using assms EncapsulatedInterface
    by (auto simp: request_encode_ok request_encoded_len)
qed (use assms in \<open>auto simp: request_encode_ok request_encoded_len\<close>)

section \<open>Properties of the codec\<close>

text \<open>
  C2.  \<open>decode_request\<close> accepts exactly the valid requests: it returns a request \<open>r\<close> for a byte string
  if and only if \<open>r\<close> satisfies the range, byte-count and sub-record rules of its function code,
  fits in a 253-byte PDU, and the byte string is the wire image of \<open>r\<close>.  In particular no two byte
  strings decode to the same request, and nothing is accepted with trailing or missing bytes.
\<close>

theorem decode_request_grammar:
  "decode_request pdu = Ok r \<longleftrightarrow> request_valid r \<and> pdu = request_wire r"
  using decode_request_sound decode_request_complete by blast

text \<open>
  C16.  Of the responses, and of the exception responses whose exception code is one the protocol
  defines, \<open>decode_response\<close> returns exactly the valid ones, each from its wire image only: the field
  ranges, byte counts, file groups and device-identification objects of the specification decide which
  bytes are accepted.
\<close>

theorem decode_response_grammar:
  assumes "recognised r"
  shows "decode_response pdu = Ok r \<longleftrightarrow> response_valid r \<and> pdu = response_wire r"
  using decode_response_sound decode_response_complete by blast

theorem decode_response_grammar_witness:
  "decode_response [0x2B, 0x0E, 1, 1, 0, 0, 2, 0, 2, 0x41, 0x42, 1, 1, 0x43]
     = Ok (ResponsePdu.EncapsulatedInterface \<lparr>EncapsulatedInterfaceResponse.mei_type = ReadDeviceIdentification,
         EncapsulatedInterfaceResponse.data = [1, 1, 0, 0, 2, 0, 2, 0x41, 0x42, 1, 1, 0x43]\<rparr>)
   \<and> decode_response [0x2B, 0x0E, 1, 1, 0, 0, 2, 0, 2, 0x41, 0x42, 1, 2, 0x43]
     \<noteq> Ok (ResponsePdu.EncapsulatedInterface \<lparr>EncapsulatedInterfaceResponse.mei_type = ReadDeviceIdentification,
         EncapsulatedInterfaceResponse.data = [1, 1, 0, 0, 2, 0, 2, 0x41, 0x42, 1, 2, 0x43]\<rparr>)"
proof -
  have "device_id_data_ok [1, 1, 0, 0, 2, 0, 2, 0x41, 0x42, 1, 1, 0x43]"
    "\<not> device_id_data_ok [1, 1, 0, 0, 2, 0, 2, 0x41, 0x42, 1, 2, 0x43]" by code_simp+
  then show ?thesis
    by (subst (1 2) decode_response_grammar)
      (simp_all add: EncapsulatedInterfaceResponse_valid_def EncapsulatedInterfaceResponse_wf_def
        EncapsulatedInterfaceResponse_payload_def)
qed

text \<open>
  C17.  The codec never panics: for any input bytes, message value and output buffer, the two
  decoders and every \<open>encode_into\<close> return a value or an error; no index, slice or checked
  arithmetic operation fails.
\<close>

theorem codec_never_panics:
  "decode_request pdu \<noteq> Panic \<and> decode_response pdu \<noteq> Panic
   \<and> request_encode_into q buf \<noteq> Some Panic \<and> response_encode_into s buf \<noteq> Some Panic"
  by (simp add: decode_request_not_Panic decode_response_not_Panic
      request_encode_not_Panic response_encode_not_Panic)

text \<open>
  C18.  Encoding a valid request and decoding the bytes written gives the request back; the encoder
  writes at most 253 bytes and leaves the rest of the buffer unchanged.
\<close>

theorem request_encode_roundtrip:
  assumes "request_encode_into r buf = Some (Ok (n, out))" "request_valid r"
  shows "decode_request (take n out) = Ok r
    \<and> n \<le> MAX_PDU_SIZE \<and> length out = length buf \<and> drop n out = drop n buf"
  using request_encode_prefix_wire [OF assms(1)] request_encode_frame [OF assms(1)]
    decode_request_complete [OF assms(2)] by simp

theorem request_encode_roundtrip_witness:
  "decode_request (take 5 [0x01, 0, 0x13, 0, 0x25, 0xAA])
     = Ok (RequestPdu.ReadCoils \<lparr>ReadCoilsRequest.address = 0x13, ReadCoilsRequest.quantity = 0x25\<rparr>)"
proof -
  let ?r = "\<lparr>ReadCoilsRequest.address = 0x13, ReadCoilsRequest.quantity = 0x25\<rparr>"
  have "request_encode_into (RequestPdu.ReadCoils ?r) [0, 0, 0, 0, 0, 0xAA]
      = Some (Ok (5, [0x01, 0, 0x13, 0, 0x25, 0xAA]))"
    by (simp add: ReadCoilsRequest_defs checks u16_to_be_bytes_def u16_hi_def u16_lo_def put_at_def)
  moreover have "request_valid (RequestPdu.ReadCoils ?r)"
    by (simp add: ReadCoilsRequest_wf_def)
  ultimately show ?thesis
    using request_encode_roundtrip by blast
qed

text \<open>
  C19.  Decoding then encoding is the identity on requests: a buffer that holds the received PDU
  receives exactly its bytes again.
\<close>

theorem request_decode_encode:
  assumes "decode_request pdu = Ok r" "request_encode_into r buf = Some x"
    and "length pdu \<le> length buf"
  shows "x = Ok (length pdu, pdu @ drop (length pdu) buf)"
  using decode_request_sound [OF assms(1)] request_encode_complete [of r buf x] assms(2,3) by simp

theorem request_decode_encode_witness:
  "WriteSingleCoilRequest_encode_into
     \<lparr>WriteSingleCoilRequest.address = 0xAC, WriteSingleCoilRequest.value = On\<rparr> [0, 0, 0, 0, 0]
     = Ok (5, [0x05, 0, 0xAC, 0xFF, 0])"
proof -
  let ?r = "\<lparr>WriteSingleCoilRequest.address = 0xAC, WriteSingleCoilRequest.value = On\<rparr>"
  have "request_wire (RequestPdu.WriteSingleCoil ?r) = [0x05, 0, 0xAC, 0xFF, 0]"
    by (simp add: WriteSingleCoilRequest_payload_def u16_to_be_bytes_def u16_hi_def u16_lo_def)
  then have "decode_request [0x05, 0, 0xAC, 0xFF, 0] = Ok (RequestPdu.WriteSingleCoil ?r)"
    using decode_request_complete [of "RequestPdu.WriteSingleCoil ?r"]
    by (simp add: WriteSingleCoilRequest_wf_def)
  from request_decode_encode [OF this, of "[0, 0, 0, 0, 0]"
      "WriteSingleCoilRequest_encode_into ?r [0, 0, 0, 0, 0]"]
  show ?thesis by simp
qed

text \<open>
  C20.  Encoding a valid response, or an exception response with an exception code that the protocol
  defines, and decoding the bytes written gives the response back; the encoder writes at most 253
  bytes and leaves the rest of the buffer unchanged.
\<close>

theorem response_encode_roundtrip:
  assumes "response_encode_into r buf = Some (Ok (n, out))" "response_valid r" "recognised r"
  shows "decode_response (take n out) = Ok r
    \<and> n \<le> MAX_PDU_SIZE \<and> length out = length buf \<and> drop n out = drop n buf"
  using response_encode_prefix_wire [OF assms(1)] response_encode_frame [OF assms(1)]
    decode_response_complete [OF assms(2)] by simp

theorem response_encode_roundtrip_witness:
  "decode_response (take 4 [0x03, 2, 0x12, 0x34, 0xAA])
     = Ok (ResponsePdu.ReadHoldingRegisters
         \<lparr>ReadHoldingRegistersResponse.byte_count = 2,
          ReadHoldingRegistersResponse.register_data = [0x12, 0x34]\<rparr>)"
proof -
  let ?r = "\<lparr>ReadHoldingRegistersResponse.byte_count = 2,
          ReadHoldingRegistersResponse.register_data = [0x12, 0x34]\<rparr>"
  have "response_encode_into (ResponsePdu.ReadHoldingRegisters ?r) [0, 0, 0, 0, 0xAA]
      = Some (Ok (4, [0x03, 2, 0x12, 0x34, 0xAA]))"
    by (simp add: ReadHoldingRegistersResponse_defs checks put_at_def)
  moreover have "response_valid (ResponsePdu.ReadHoldingRegisters ?r)" "recognised (ResponsePdu.ReadHoldingRegisters ?r)"
    by (simp_all add: ReadHoldingRegistersResponse_wf_def)
  ultimately show ?thesis
    using response_encode_roundtrip by blast
qed

text \<open>
  C21.  The device-identification parser and the object iterator agree: when \<open>decode\<close> accepts a
  response, its object area is the concatenation of \<open>num_objects\<close> length-prefixed entries, the
  iterator that \<open>objects()\<close> returns ends, and collecting it yields exactly these entries, in order and no
  more; in particular it stops after the last one.
\<close>

theorem device_id_objects_complete:
  assumes "ReadDeviceIdentificationResponse_decode d = Ok r"
  shows "\<exists>es. ReadDeviceIdentificationResponse.object_data r = concat (map entry_bytes es)
    \<and> length es = unat (ReadDeviceIdentificationResponse.num_objects r)
    \<and> DeviceIdObjectIter_collect (ReadDeviceIdentificationResponse_objects r)
        = (Ok es :: (DecodeError, DeviceIdObjectEntry list) res)"
proof -
  from ReadDeviceIdentificationResponse_decode_sound [OF assms] obtain es where es:
    "length es = unat (ReadDeviceIdentificationResponse.num_objects r)" "\<forall>x\<in>set es. entry_ok x"
    "ReadDeviceIdentificationResponse.object_data r = entries_bytes es"
    by (auto simp: ReadDeviceIdentificationResponse_valid_def objects_ok_iff)
  have "DeviceIdObjectIter_collect (ReadDeviceIdentificationResponse_objects r)
      = (Ok es :: (DecodeError, DeviceIdObjectEntry list) res)"
    unfolding ReadDeviceIdentificationResponse_objects_def es(3)
    by (rule DeviceIdObjectIter_collect_entries [OF es(2,1)])
  then show ?thesis using es by blast
qed

theorem device_id_objects_complete_witness:
  "\<exists>es. [0, 2, 0x41, 0x42, 1, 1, 0x43] = concat (map entry_bytes es) \<and> length es = 2
     \<and> DeviceIdObjectIter_collect \<lparr>DeviceIdObjectIter.data = [0, 2, 0x41, 0x42, 1, 1, 0x43], remaining = 2\<rparr>
         = (Ok es :: (DecodeError, DeviceIdObjectEntry list) res)"
proof -
  let ?r = "\<lparr>ReadDeviceIdentificationResponse.device_id_code = BasicStream,
    ReadDeviceIdentificationResponse.conformity_level = 1,
    ReadDeviceIdentificationResponse.more_follows = False,
    ReadDeviceIdentificationResponse.next_object_id = 0,
    ReadDeviceIdentificationResponse.num_objects = 2,
    ReadDeviceIdentificationResponse.object_data = [0, 2, 0x41, 0x42, 1, 1, 0x43]\<rparr>"
  have "check_objects (Suc (Suc 0)) [0, 2, 0x41, 0x42, 1, 1, 0x43] t 0 = Ok 7" for t
    by simp
  then have "check_objects 2 [0, 2, 0x41, 0x42, 1, 1, 0x43] t 0 = Ok 7" for t
    by (simp only: numeral_2_eq_2)
  then have "ReadDeviceIdentificationResponse_decode
      [0x0E, 1, 1, 0, 0, 2, 0, 2, 0x41, 0x42, 1, 1, 0x43] = Ok ?r"
    by (simp add: ReadDeviceIdentificationResponse_decode_def valid_conformity_level_def
        DeviceIdCode_from_raw_def)
  from device_id_objects_complete [OF this] show ?thesis by (auto simp: ReadDeviceIdentificationResponse_objects_def)
qed

end
