(* ===== verification/Validate.thy ===== *)
theory Validate
  imports Codec_Decode
begin

text \<open>
  The server-side request validators of the codec (\<open>validate.rs\<close>).  They check values before
  addresses, and on a request that came out of \<open>decode_request\<close> only the address check can fail.
\<close>

section \<open>validate.rs\<close>

definition validate_address_range :: "u16 \<Rightarrow> u16 \<Rightarrow> (ExceptionCode, unit) res" where
  "validate_address_range addr qty =
     (if (ucast addr :: u32) + ucast qty > 0x10000 then Err IllegalDataAddress else Ok ())"

definition validate_read_coils :: "u16 \<Rightarrow> u16 \<Rightarrow> (ExceptionCode, unit) res" where
  "validate_read_coils addr qty =
     (if qty = 0 \<or> qty > MAX_READ_COILS then Err IllegalDataValue
      else and_then (validate_address_range addr qty) (\<lambda>_. Ok ()))"

definition validate_read_discrete_inputs :: "u16 \<Rightarrow> u16 \<Rightarrow> (ExceptionCode, unit) res" where
  "validate_read_discrete_inputs addr qty =
     (if qty = 0 \<or> qty > MAX_READ_DISCRETE_INPUTS then Err IllegalDataValue
      else and_then (validate_address_range addr qty) (\<lambda>_. Ok ()))"

definition validate_read_registers :: "u16 \<Rightarrow> u16 \<Rightarrow> (ExceptionCode, unit) res" where
  "validate_read_registers addr qty =
     (if qty = 0 \<or> qty > MAX_READ_REGISTERS then Err IllegalDataValue
      else and_then (validate_address_range addr qty) (\<lambda>_. Ok ()))"

definition validate_write_single_coil :: "u16 \<Rightarrow> (ExceptionCode, unit) res" where
  "validate_write_single_coil coil_value =
     (if coil_value \<noteq> 0x0000 \<and> coil_value \<noteq> 0xFF00 then Err IllegalDataValue else Ok ())"

definition validate_write_coils :: "u16 \<Rightarrow> u16 \<Rightarrow> u8 \<Rightarrow> (ExceptionCode, unit) res" where
  "validate_write_coils addr qty count =
     (if qty = 0 \<or> qty > MAX_WRITE_COILS then Err IllegalDataValue
      else let expected_bytes = u16_div_ceil qty 8 in
      if ucast count \<noteq> expected_bytes then Err IllegalDataValue
      else and_then (validate_address_range addr qty) (\<lambda>_. Ok ()))"

definition validate_write_registers :: "u16 \<Rightarrow> u16 \<Rightarrow> u8 \<Rightarrow> (ExceptionCode, unit) res" where
  "validate_write_registers addr qty count =
     (if qty = 0 \<or> qty > MAX_WRITE_REGISTERS then Err IllegalDataValue
      else and_then (u16_mul qty 2) (\<lambda>expected.
      if ucast count \<noteq> expected then Err IllegalDataValue
      else and_then (validate_address_range addr qty) (\<lambda>_. Ok ())))"

definition validate_mask_write_address :: "u16 \<Rightarrow> (ExceptionCode, unit) res" where
  "validate_mask_write_address addr = validate_address_range addr 1"

definition validate_read_write_registers
  :: "u16 \<Rightarrow> u16 \<Rightarrow> u16 \<Rightarrow> u16 \<Rightarrow> u8 \<Rightarrow> (ExceptionCode, unit) res" where
  "validate_read_write_registers raddr rqty waddr wqty
       wcount =
     (if rqty = 0 \<or> rqty > MAX_RW_READ_REGISTERS then Err IllegalDataValue
      else if wqty = 0 \<or> wqty > MAX_RW_WRITE_REGISTERS
      then Err IllegalDataValue
      else and_then (u16_mul wqty 2) (\<lambda>expected.
      if ucast wcount \<noteq> expected then Err IllegalDataValue
      else and_then (validate_address_range raddr rqty) (\<lambda>_.
           and_then (validate_address_range waddr wqty) (\<lambda>_. Ok ()))))"

section \<open>Laws\<close>

definition in_address_space :: "u16 \<Rightarrow> u16 \<Rightarrow> bool" where
  "in_address_space addr qty \<longleftrightarrow> unat addr + unat qty \<le> 65536"

lemma unat_ucast_u16_u32 [simp]: "unat (ucast (w :: u16) :: u32) = unat w"
proof -
  have "unat w < 2 ^ 32"
    using unat_u16_lt [of w] by (rule order.strict_trans) simp
  then show ?thesis
    by (simp add: unsigned_ucast_eq take_bit_nat_eq_self)
qed

lemma validate_address_range_eq:
  "validate_address_range a q = (if in_address_space a q then Ok () else Err IllegalDataAddress)"
proof -
  have "unat a + unat q < 65536 + 65536"
    by (intro add_strict_mono) simp_all
  then have "unat ((ucast a :: u32) + ucast q) = unat a + unat q"
    by (simp add: unat_word_ariths)
  then show ?thesis
    by (simp add: validate_address_range_def in_address_space_def word_less_nat_alt)
qed

text \<open>
  The validator of the request's function code, for the statement below; the handler calls them
  in its own arms (all but that of Write Single Coil, which has nothing left to check after decoding).
\<close>

fun validate_request :: "RequestPdu \<Rightarrow> (ExceptionCode, unit) res" where
  "validate_request (RequestPdu.ReadCoils r) =
     validate_read_coils (ReadCoilsRequest.address r) (ReadCoilsRequest.quantity r)"
| "validate_request (RequestPdu.ReadDiscreteInputs r) =
     validate_read_discrete_inputs (ReadDiscreteInputsRequest.address r)
       (ReadDiscreteInputsRequest.quantity r)"
| "validate_request (RequestPdu.ReadHoldingRegisters r) =
     validate_read_registers (ReadHoldingRegistersRequest.address r)
       (ReadHoldingRegistersRequest.quantity r)"
| "validate_request (RequestPdu.ReadInputRegisters r) =
     validate_read_registers (ReadInputRegistersRequest.address r)
       (ReadInputRegistersRequest.quantity r)"
| "validate_request (RequestPdu.WriteSingleCoil r) =
     validate_write_single_coil (CoilValue_to_wire (WriteSingleCoilRequest.value r))"
| "validate_request (RequestPdu.WriteMultipleCoils r) =
     validate_write_coils (WriteMultipleCoilsRequest.address r)
       (WriteMultipleCoilsRequest.quantity r) (WriteMultipleCoilsRequest.byte_count r)"
| "validate_request (RequestPdu.WriteMultipleRegisters r) =
     validate_write_registers (WriteMultipleRegistersRequest.address r)
       (WriteMultipleRegistersRequest.quantity r) (WriteMultipleRegistersRequest.byte_count r)"
| "validate_request (RequestPdu.MaskWriteRegister r) =
     validate_mask_write_address (MaskWriteRegisterRequest.address r)"
| "validate_request (RequestPdu.ReadWriteMultipleRegisters r) =
     validate_read_write_registers (ReadWriteMultipleRegistersRequest.read_address r)
       (ReadWriteMultipleRegistersRequest.read_quantity r)
       (ReadWriteMultipleRegistersRequest.write_address r)
       (ReadWriteMultipleRegistersRequest.write_quantity r)
       (ReadWriteMultipleRegistersRequest.write_byte_count r)"
| "validate_request _ = Ok ()"

text \<open>The address ranges a request touches, as (start, count) pairs.\<close>

fun request_ranges :: "RequestPdu \<Rightarrow> (u16 \<times> u16) list" where
  "request_ranges (RequestPdu.ReadCoils r) =
     [(ReadCoilsRequest.address r, ReadCoilsRequest.quantity r)]"
| "request_ranges (RequestPdu.ReadDiscreteInputs r) =
     [(ReadDiscreteInputsRequest.address r, ReadDiscreteInputsRequest.quantity r)]"
| "request_ranges (RequestPdu.ReadHoldingRegisters r) =
     [(ReadHoldingRegistersRequest.address r, ReadHoldingRegistersRequest.quantity r)]"
| "request_ranges (RequestPdu.ReadInputRegisters r) =
     [(ReadInputRegistersRequest.address r, ReadInputRegistersRequest.quantity r)]"
| "request_ranges (RequestPdu.WriteMultipleCoils r) =
     [(WriteMultipleCoilsRequest.address r, WriteMultipleCoilsRequest.quantity r)]"
| "request_ranges (RequestPdu.WriteMultipleRegisters r) =
     [(WriteMultipleRegistersRequest.address r, WriteMultipleRegistersRequest.quantity r)]"
| "request_ranges (RequestPdu.ReadWriteMultipleRegisters r) =
     [(ReadWriteMultipleRegistersRequest.read_address r,
       ReadWriteMultipleRegistersRequest.read_quantity r),
      (ReadWriteMultipleRegistersRequest.write_address r,
       ReadWriteMultipleRegistersRequest.write_quantity r)]"
| "request_ranges _ = []"

lemmas validate_defs = validate_read_coils_def validate_read_discrete_inputs_def
  validate_read_registers_def validate_write_single_coil_def validate_write_coils_def
  validate_write_registers_def validate_mask_write_address_def validate_read_write_registers_def

lemma u16_plus_1_in_space [simp]: "in_address_space a 1"
  using unat_u16_lt [of a] by (simp add: in_address_space_def)

lemma validate_request_valid:
  assumes "request_valid r"
  shows "validate_request r =
    (if \<forall>(a, q)\<in>set (request_ranges r). in_address_space a q then Ok () else Err IllegalDataAddress)"
proof (cases r)
  case (WriteSingleCoil w)
  then show ?thesis by (cases "WriteSingleCoilRequest.value w") (simp_all add: validate_defs)
qed (use assms in \<open>auto simp: validate_defs validate_address_range_eq Let_def not_less
    ReadCoilsRequest_wf_def ReadDiscreteInputsRequest_wf_def ReadHoldingRegistersRequest_wf_def
    ReadInputRegistersRequest_wf_def WriteMultipleCoilsRequest_wf_def
    WriteMultipleRegistersRequest_wf_def ReadWriteMultipleRegistersRequest_wf_def
    ucast_u8_u16_eq_iff word_le_nat_alt\<close>)

text \<open>
  On a decoded request the validators enforce the address space and nothing else: the quantity and
  byte-count rules already hold.  The code tests the end of a range against 0x10000, so a range that ends
  exactly at address 0xFFFF is accepted; the doc comments of \<open>validate.rs\<close> say that
  it is refused.
\<close>

lemma validators_on_decoded_requests:
  assumes "decode_request pdu = Ok r"
  shows "validate_request r =
    (if \<forall>(a, q)\<in>set (request_ranges r). unat a + unat q \<le> 65536
     then Ok () else Err IllegalDataAddress)"
  using validate_request_valid [of r] decode_request_sound [OF assms]
  by (simp add: in_address_space_def)

end
