(* ===== verification/Crc.thy ===== *)
theory Crc
  imports Modbus_Types
begin

text \<open>
  CRC-16/Modbus (\<open>frame/src/crc.rs\<close>): the table computed at compile time, the table-driven update,
  and frame verification.  The update is shown equal to the bit-serial definition of the
  CRC, and the CRC to detect every corruption of a single byte.
\<close>

section \<open>crc.rs\<close>

text \<open>One iteration of the inner \<open>while j < 8\<close> loop of \<open>CRC_TABLE\<close>, and the loop.\<close>

definition crc_step :: "u16 \<Rightarrow> u16" where
  "crc_step crc = (if crc AND 1 \<noteq> 0 then drop_bit 1 crc XOR 0xA001 else drop_bit 1 crc)"

fun crc_steps :: "nat \<Rightarrow> u16 \<Rightarrow> u16" where
  "crc_steps 0 crc = crc"
| "crc_steps (Suc j) crc = crc_steps j (crc_step crc)"

definition CRC_TABLE :: "u16 list" where
  "CRC_TABLE = map (\<lambda>i. crc_steps 8 (word_of_nat i)) [0..<256]"

definition crc16_update :: "u16 \<Rightarrow> u8 \<Rightarrow> u16" where
  "crc16_update crc byte =
     (let index = (crc XOR ucast byte) AND 0xFF in
      drop_bit 8 crc XOR CRC_TABLE ! unat index)"

definition crc16 :: "bytes \<Rightarrow> u16" where
  "crc16 data = fold (\<lambda>byte crc. crc16_update crc byte) data 0xFFFF"

definition verify_crc :: "bytes \<Rightarrow> bool" where
  "verify_crc frame =
     (if length frame < 3 then False
      else let data_end = length frame - 2;
               expected = crc16 (take data_end frame);
               actual = u16_from_le_bytes (frame ! data_end) (frame ! (data_end + 1))
           in expected = actual)"

section \<open>The table-driven update is the bit-serial one\<close>

text \<open>The textbook update: shift the byte in, then divide bit by bit by the polynomial.\<close>

definition crc_bitwise :: "u16 \<Rightarrow> u8 \<Rightarrow> u16" where
  "crc_bitwise crc byte = crc_steps 8 (crc XOR ucast byte)"

lemma crc_step_alt: "crc_step x = drop_bit 1 x XOR (if bit x 0 then 0xA001 else 0)"
  by (simp add: crc_step_def and_one_eq bit_0 mod_2_eq_odd)

lemma crc_step_xor: "crc_step (x XOR y) = crc_step x XOR crc_step y"
proof -
  have "drop_bit 1 (x XOR y) = drop_bit 1 x XOR drop_bit 1 y"
    by (simp add: drop_bit_xor)
  moreover have "bit (x XOR y) 0 \<longleftrightarrow> (bit x 0 \<noteq> bit y 0)"
    by (simp add: bit_xor_iff)
  ultimately show ?thesis
    by (auto simp: crc_step_alt xor.assoc xor.left_commute)
qed

lemma crc_steps_xor: "crc_steps n (x XOR y) = crc_steps n x XOR crc_steps n y"
  by (induction n arbitrary: x y) (simp_all add: crc_step_xor)

lemma crc_steps_even: "take_bit n x = 0 \<Longrightarrow> crc_steps n x = drop_bit n x"
proof (induction n arbitrary: x)
  case (Suc n)
  have b: "\<not> bit x k" if "k < Suc n" for k
    using Suc.prems that by (metis bit_0_eq bit_take_bit_iff bot_apply bot_bool_def)
  then have "crc_step x = drop_bit 1 x" by (simp add: crc_step_alt)
  moreover have "take_bit n (drop_bit 1 x) = 0"
    by (rule bit_word_eqI) (use b in \<open>auto simp: bit_take_bit_iff bit_drop_bit_eq\<close>)
  ultimately show ?case using Suc.IH [of "drop_bit 1 x"] by simp
qed simp

lemma and_FF_take_bit: "(x :: u16) AND 0xFF = take_bit 8 x"
  by (simp add: take_bit_eq_mask mask_eq_exp_minus_1)

lemma CRC_TABLE_nth: "CRC_TABLE ! unat (take_bit 8 x) = crc_steps 8 (take_bit 8 x)"
proof -
  have "unat (take_bit 8 x) < 2 ^ 8"
    unfolding unsigned_take_bit_eq by (rule take_bit_nat_less_exp)
  then have "CRC_TABLE ! unat (take_bit 8 x) = crc_steps 8 (word_of_nat (unat (take_bit 8 x)))"
    using nth_map_upt [of "unat (take_bit 8 x)" 256 0 "\<lambda>i. crc_steps 8 (word_of_nat i)"]
    by (simp add: CRC_TABLE_def del: upt_rec_numeral)
  then show ?thesis by simp
qed

lemma take_drop_xor: "(x :: u16) = take_bit 8 x XOR (x AND NOT (mask 8))"
  by (rule bit_word_eqI) (auto simp: bit_simps)

lemma crc_steps_8: "crc_steps 8 x = crc_steps 8 (take_bit 8 x) XOR drop_bit 8 x"
proof -
  have "take_bit 8 (x AND NOT (mask 8)) = 0"
    by (rule bit_word_eqI) (auto simp: bit_simps)
  then have "crc_steps 8 (x AND NOT (mask 8)) = drop_bit 8 (x AND NOT (mask 8))"
    by (rule crc_steps_even)
  also have "\<dots> = drop_bit 8 x"
    by (rule bit_word_eqI) (auto simp: bit_simps dest: bit_imp_le_length)
  finally have high: "crc_steps 8 (x AND NOT (mask 8)) = drop_bit 8 x" .
  have "crc_steps 8 x = crc_steps 8 (take_bit 8 x XOR (x AND NOT (mask 8)))"
    by (rule arg_cong [OF take_drop_xor])
  also have "\<dots> = crc_steps 8 (take_bit 8 x) XOR drop_bit 8 x"
    unfolding crc_steps_xor high ..
  finally show ?thesis .
qed

lemma drop_bit_xor_byte: "drop_bit 8 ((crc :: u16) XOR ucast (byte :: u8)) = drop_bit 8 crc"
  by (rule bit_word_eqI) (auto simp: bit_simps dest: bit_imp_le_length)

lemma crc16_update_bitwise: "crc16_update crc byte = crc_bitwise crc byte"
proof -
  have "crc_bitwise crc byte =
      crc_steps 8 (take_bit 8 (crc XOR ucast byte)) XOR drop_bit 8 (crc XOR ucast byte)"
    unfolding crc_bitwise_def by (rule crc_steps_8)
  then show ?thesis
    by (simp only: crc16_update_def Let_def and_FF_take_bit CRC_TABLE_nth drop_bit_xor_byte
        xor.commute)
qed

section \<open>Residue and injectivity\<close>

lemma crc_step_eq_0: "crc_step x = 0 \<Longrightarrow> x = 0"
proof (rule ccontr)
  assume s: "crc_step x = 0" and "x \<noteq> 0"
  have top: "\<not> bit (drop_bit 1 x) 15" by (auto simp: bit_drop_bit_eq dest: bit_imp_le_length)
  have "\<not> bit x 0"
  proof
    assume "bit x 0"
    then have "bit (crc_step x) 15" using top by (simp add: crc_step_alt bit_xor_iff)
    then show False by (simp add: s)
  qed
  then have d: "drop_bit 1 x = 0" using s by (simp add: crc_step_alt)
  have "x = 0"
  proof (rule bit_word_eqI)
    fix n
    show "bit x n = bit 0 n"
      using \<open>\<not> bit x 0\<close> arg_cong [OF d, of "\<lambda>w. bit w (n - 1)"]
      by (cases n) (simp_all add: bit_drop_bit_eq)
  qed
  then show False using \<open>x \<noteq> 0\<close> by simp
qed

lemma crc_steps_eq_0_iff [simp]: "crc_steps n x = 0 \<longleftrightarrow> x = 0"
proof
  show "crc_steps n x = 0 \<Longrightarrow> x = 0"
    by (induction n arbitrary: x) (auto dest: crc_step_eq_0)
  have "crc_steps n 0 = 0" by (induction n) (simp_all add: crc_step_def)
  then show "x = 0 \<Longrightarrow> crc_steps n x = 0" by simp
qed

lemma u16_xor_eq_0: "(x :: u16) XOR y = 0 \<longleftrightarrow> x = y"
proof
  assume "x XOR y = 0"
  then have "(x XOR y) XOR y = y" by simp
  then show "x = y" by (simp add: xor.assoc)
qed simp

lemma u16_xor_right_cancel: "(x :: u16) XOR z = y XOR z \<longleftrightarrow> x = y"
proof
  assume "x XOR z = y XOR z"
  then have "(x XOR z) XOR z = (y XOR z) XOR z" by simp
  then show "x = y" by (simp add: xor.assoc)
qed simp

lemma crc_steps_inject [simp]: "crc_steps n x = crc_steps n y \<longleftrightarrow> x = y"
  using crc_steps_eq_0_iff [of n "x XOR y"] by (simp add: crc_steps_xor u16_xor_eq_0)

text \<open>Two bytes in a row are one 16-bit word, low byte first.\<close>

lemma crc_steps_push: "crc_steps 8 (push_bit 8 (ucast (b :: u8))) = ucast b"
proof -
  have "take_bit 8 (push_bit 8 (ucast b :: u16)) = 0"
    by (rule bit_word_eqI) (auto simp: bit_simps)
  moreover have "drop_bit 8 (push_bit 8 (ucast b :: u16)) = ucast b"
    by (rule bit_word_eqI) (auto simp: bit_simps dest: bit_imp_le_length)
  ultimately show ?thesis by (simp add: crc_steps_even)
qed

lemma crc_steps_add: "crc_steps m (crc_steps n x) = crc_steps (n + m) x"
  by (induction n arbitrary: x) simp_all

lemma u16_from_le_xor: "u16_from_le_bytes a b = ucast a XOR push_bit 8 (ucast b)"
  unfolding u16_from_le_bytes_def u16_from_be_bytes_def
  by (rule bit_word_eqI) (auto simp: bit_simps dest: bit_imp_le_length)

lemma crc_bitwise_two:
  "crc_bitwise (crc_bitwise c a) b = crc_steps 16 (c XOR u16_from_le_bytes a b)"
proof -
  have "crc_bitwise (crc_bitwise c a) b
      = crc_steps 8 (crc_steps 8 (c XOR ucast a) XOR crc_steps 8 (push_bit 8 (ucast b)))"
    unfolding crc_bitwise_def crc_steps_push ..
  also have "\<dots> = crc_steps 8 (crc_steps 8 ((c XOR ucast a) XOR push_bit 8 (ucast b)))"
    unfolding crc_steps_xor ..
  also have "\<dots> = crc_steps 16 (c XOR u16_from_le_bytes a b)"
    by (simp add: crc_steps_add u16_from_le_xor xor.assoc)
  finally show ?thesis .
qed

lemma crc_bitwise_inject [simp]:
  "crc_bitwise c b = crc_bitwise c' b \<longleftrightarrow> c = c'"
  by (simp add: crc_bitwise_def u16_xor_right_cancel)

lemma crc_fold_inject:
  "fold (\<lambda>byte crc. crc16_update crc byte) ys c = fold (\<lambda>byte crc. crc16_update crc byte) ys c'
     \<Longrightarrow> c = c'"
proof (induction ys arbitrary: c c')
  case (Cons y ys)
  from Cons.IH [of "crc16_update c y" "crc16_update c' y"] Cons.prems
  show ?case by (simp add: crc16_update_bitwise)
qed simp

lemma crc16_append: "crc16 (xs @ ys) = fold (\<lambda>byte crc. crc16_update crc byte) ys (crc16 xs)"
  by (simp add: crc16_def)

lemma crc16_two: "crc16 (xs @ [a, b]) = crc_steps 16 (crc16 xs XOR u16_from_le_bytes a b)"
  by (simp add: crc16_append crc16_update_bitwise crc_bitwise_two)

text \<open>A frame verifies exactly when it is long enough and its running CRC ends at zero.\<close>

lemma verify_crc_append:
  "verify_crc (xs @ [a, b]) \<longleftrightarrow> xs \<noteq> [] \<and> crc16 xs = u16_from_le_bytes a b"
  by (cases xs) (auto simp: verify_crc_def Let_def nth_append)

lemma frame_split:
  assumes "3 \<le> length f"
  obtains d a b where "f = d @ [a, b]" "d \<noteq> []"
proof -
  obtain a b where ab: "drop (length f - 2) f = [a, b]"
    using assms length_eq_2 [of "drop (length f - 2) f"] by auto
  have "f = take (length f - 2) f @ [a, b]"
    unfolding ab [symmetric] by simp
  moreover have "take (length f - 2) f \<noteq> []" using assms by auto
  ultimately show ?thesis by (rule that)
qed

lemma verify_crc_residue: "verify_crc f \<longleftrightarrow> 3 \<le> length f \<and> crc16 f = 0"
proof (cases "3 \<le> length f")
  case True
  then obtain d a b where f: "f = d @ [a, b]" "d \<noteq> []" by (rule frame_split)
  then show ?thesis
    using True unfolding f(1) verify_crc_append crc16_two
    by (simp add: u16_xor_eq_0 del: length_append)
qed (simp add: verify_crc_def)

lemma crc_steps_8_unfold:
  "crc_steps 8 x = crc_step (crc_step (crc_step (crc_step (crc_step (crc_step (crc_step (crc_step x)))))))"
  by (simp add: numeral_eq_Suc)

lemmas crc_step_eval = crc_step_def [of "numeral w" for w] crc_step_def [of 1] crc_step_def [of 0]

section \<open>Properties\<close>

text \<open>
  C23.  The table-driven CRC is the bit-serial one: folding a byte into the running CRC through the
  256-entry table gives the same value as shifting its eight bits through the polynomial 0xA001.
\<close>

theorem crc16_table_is_bit_serial:
  "crc16_update crc byte = crc_steps 8 (crc XOR ucast byte)"
  by (simp add: crc16_update_bitwise crc_bitwise_def)

text \<open>
  C22.  \<open>verify_crc\<close> accepts exactly the non-empty byte strings followed by their own CRC, low byte
  first.
\<close>

theorem verify_crc_characterisation:
  "verify_crc frame \<longleftrightarrow> (\<exists>d. d \<noteq> [] \<and> frame = d @ u16_to_le_bytes (crc16 d))"
proof (cases "3 \<le> length frame")
  case True
  then obtain d a b where f: "frame = d @ [a, b]" "d \<noteq> []" by (rule frame_split)
  show ?thesis
    unfolding f(1) verify_crc_append u16_to_le_bytes_def
    using f(2) by (auto simp: u16_from_le_bytes_def)
next
  case False
  have "3 \<le> length (d @ u16_to_le_bytes (crc16 d))" if "d \<noteq> []" for d
    using that by (cases d) simp_all
  then show ?thesis using False by (auto simp: verify_crc_def)
qed

text \<open>
  C11.  The CRC detects every burst confined to two consecutive bytes, wherever it falls in the
  frame (data, CRC field or across both): a frame that verifies no longer verifies once one
  or both of two adjacent bytes are changed.
\<close>

theorem crc_detects_two_byte_bursts:
  assumes "verify_crc (pre @ a # b # post)" "(a', b') \<noteq> (a, b)"
  shows "\<not> verify_crc (pre @ a' # b' # post)"
proof
  assume "verify_crc (pre @ a' # b' # post)"
  then have "crc16 ((pre @ [a, b]) @ post) = crc16 ((pre @ [a', b']) @ post)"
    using assms(1) by (simp add: verify_crc_residue)
  then have "crc16 (pre @ [a, b]) = crc16 (pre @ [a', b'])"
    unfolding crc16_append [of _ post] by (rule crc_fold_inject)
  then have "crc16 pre XOR u16_from_le_bytes a b = crc16 pre XOR u16_from_le_bytes a' b'"
    unfolding crc16_two by simp
  then have "u16_from_le_bytes a b = u16_from_le_bytes a' b'"
    by (metis u16_xor_right_cancel xor.commute)
  then show False
    using assms(2) by (simp add: u16_from_le_bytes_def)
qed

theorem crc_detects_two_byte_bursts_witness:
  "\<not> verify_crc [0x01, 0x30, 0xD8]"
proof -
  have "verify_crc [0x01, 0x7e, 0x80]"
    by (simp add: verify_crc_residue crc16_def crc16_update_bitwise crc_bitwise_def
        crc_steps_8_unfold crc_step_eval)
  then show ?thesis
    using crc_detects_two_byte_bursts [of "[0x01]" "0x7e" "0x80" "[]" "0x30" "0xD8"] by simp
qed

end
