(* ===== verification/Frame.thy ===== *)
theory Frame
  imports Codec_Error Crc
begin

text \<open>
  The frame layer (\<open>frame/src/frame.rs\<close>, \<open>error.rs\<close>, \<open>mbap.rs\<close>, \<open>rtu.rs\<close>): the unified frame
  type and the MBAP and RTU codecs.  A receive or send buffer is represented by the bytes it
  holds; a decoder returns its outcome together with the bytes left in the buffer.  The
  zero-copy overlay of the MBAP header is code of an external crate and is a parameter of the
  codec; the locale \<open>mbap_layout\<close> states the packed, big-endian layout the codec relies on.
\<close>

section \<open>frame.rs and error.rs\<close>

datatype FrameHeader = Mbap MbapHeader | Rtu u8

record Frame =
  header :: FrameHeader
  pdu :: bytes

definition Frame_unit_id :: "Frame \<Rightarrow> u8" where
  "Frame_unit_id self = (case Frame.header self of Mbap h \<Rightarrow> MbapHeader.unit_id h | Rtu u \<Rightarrow> u)"

datatype FrameError =
    InvalidProtocolId u16
  | LengthOverflow u16
  | InvalidLength u16 u16
  | LengthMismatch u16 u16
  | InvalidPduLength nat nat
  | PduLengthOverflow nat nat
  | CrcMismatch u16 u16
  | IndeterminateRtuOverTcpFrameLength u8
  | InvalidRtuOverTcpFrameLength nat nat
  | Truncated
  | Io
  | Decode DecodeError

text \<open>
  \<open>BytesMut::split_to\<close> on the bytes held: the front is returned and removed, and asking for
  more than is held panics.
\<close>

definition split_to :: "bytes \<Rightarrow> nat \<Rightarrow> ('e, bytes \<times> bytes) res" where
  "split_to src n = (if n \<le> length src then Ok (take n src, drop n src) else Panic)"

text \<open>\<open>u16::try_from\<close> on a \<open>usize\<close>.\<close>

definition u16_try_from :: "nat \<Rightarrow> u16 option" where
  "u16_try_from n = (if n < 2 ^ 16 then Some (word_of_nat n) else None)"

section \<open>mbap.rs\<close>

definition MAX_MBAP_LENGTH :: u16 where [simp]: "MAX_MBAP_LENGTH = word_of_nat MAX_PDU_SIZE + 1"
definition MIN_MBAP_LENGTH :: u16 where [simp]: "MIN_MBAP_LENGTH = 2"

definition MbapCodec_decode
  :: "(bytes \<Rightarrow> MbapHeader option) \<Rightarrow> bytes \<Rightarrow> (FrameError, Frame option) res \<times> bytes" where
  "MbapCodec_decode ref_from_bytes src =
     (if length src < MBAP_HEADER_LEN then (Ok None, src)
      else case and_then (slice src 0 MBAP_HEADER_LEN)
                  (\<lambda>bs. ok_or (ref_from_bytes bs) FrameError.Truncated) of
        Err e \<Rightarrow> (Err e, src)
      | Panic \<Rightarrow> (Panic, src)
      | Ok hdr \<Rightarrow>
          let proto = protocol_id hdr in
          if proto \<noteq> MODBUS_PROTOCOL_ID then (Err (FrameError.InvalidProtocolId proto), src)
          else let len = length_field hdr in
          if len < MIN_MBAP_LENGTH then (Err (FrameError.InvalidLength len MIN_MBAP_LENGTH), src)
          else if len > MAX_MBAP_LENGTH then (Err (FrameError.LengthOverflow len), src)
          else let total_len = (MBAP_HEADER_LEN - 1) + unat len in
          if length src < total_len then (Ok None, src)
          else case split_to src total_len of
            Err e \<Rightarrow> (Err e, src)
          | Panic \<Rightarrow> (Panic, src)
          | Ok (adu, rest) \<Rightarrow>
              (and_then (slice_from adu MBAP_HEADER_LEN) (\<lambda>pdu.
                 Ok (Some \<lparr>Frame.header = Mbap hdr, Frame.pdu = pdu\<rparr>)), rest))"

definition validate_outgoing_header :: "MbapHeader \<Rightarrow> nat \<Rightarrow> (FrameError, unit) res" where
  "validate_outgoing_header hdr pdu_len =
     (let proto = protocol_id hdr in
      if proto \<noteq> MODBUS_PROTOCOL_ID then Err (FrameError.InvalidProtocolId proto)
      else if pdu_len > MAX_PDU_SIZE
      then Err (FrameError.LengthOverflow
                  (case u16_try_from pdu_len of Some n \<Rightarrow> n | None \<Rightarrow> 0xFFFF))
      else and_then (expect (u16_try_from (pdu_len + 1))) (\<lambda>actual.
      if actual < MIN_MBAP_LENGTH then Err (FrameError.InvalidLength actual MIN_MBAP_LENGTH)
      else let declared = length_field hdr in
      if declared < MIN_MBAP_LENGTH then Err (FrameError.InvalidLength declared MIN_MBAP_LENGTH)
      else if declared > MAX_MBAP_LENGTH then Err (FrameError.LengthOverflow declared)
      else if declared \<noteq> actual then Err (FrameError.LengthMismatch declared actual)
      else Ok ()))"

definition MbapCodec_encode_pair
  :: "(MbapHeader \<Rightarrow> bytes) \<Rightarrow> MbapHeader \<Rightarrow> bytes \<Rightarrow> bytes \<Rightarrow> (FrameError, unit) res \<times> bytes" where
  "MbapCodec_encode_pair as_bytes hdr payload dst =
     (case validate_outgoing_header hdr (length payload) of
        Err e \<Rightarrow> (Err e, dst)
      | Panic \<Rightarrow> (Panic, dst)
      | Ok _ \<Rightarrow> (Ok (), (dst @ as_bytes hdr) @ payload))"

definition MbapCodec_encode
  :: "(MbapHeader \<Rightarrow> bytes) \<Rightarrow> Frame \<Rightarrow> bytes \<Rightarrow> (FrameError, unit) res \<times> bytes" where
  "MbapCodec_encode as_bytes frame dst =
     (case Frame.header frame of
        Rtu _ \<Rightarrow> (Err (FrameError.InvalidProtocolId 0xFFFF), dst)
      | Mbap hdr \<Rightarrow>
          (case validate_outgoing_header hdr (length (Frame.pdu frame)) of
             Err e \<Rightarrow> (Err e, dst)
           | Panic \<Rightarrow> (Panic, dst)
           | Ok _ \<Rightarrow> (Ok (), (dst @ as_bytes hdr) @ Frame.pdu frame)))"

section \<open>rtu.rs\<close>

definition MIN_RTU_FRAME :: nat where [simp]: "MIN_RTU_FRAME = 4"
definition MIN_PDU_LENGTH :: nat where [simp]: "MIN_PDU_LENGTH = 1"

definition RtuCodec_decode :: "bytes \<Rightarrow> (FrameError, Frame option) res \<times> bytes" where
  "RtuCodec_decode src =
     (if length src < MIN_RTU_FRAME then (Ok None, src)
      else if length src > MAX_RTU_ADU_SIZE
      then (Err (FrameError.PduLengthOverflow (length src - 3) MAX_PDU_SIZE), src)
      else if \<not> verify_crc src
      then (let data_end = length src - 2 in
            (and_then (slice src 0 data_end) (\<lambda>d.
             and_then (le16_at src data_end) (\<lambda>actual.
             Err (FrameError.CrcMismatch (crc16 d) actual))), src))
      else case and_then (at src 0) (\<lambda>u. and_then (split_to src (length src)) (\<lambda>r. Ok (u, r))) of
        Err e \<Rightarrow> (Err e, src)
      | Panic \<Rightarrow> (Panic, src)
      | Ok (unit, adu, rest) \<Rightarrow>
          (and_then (slice adu 1 (length adu - 2)) (\<lambda>pdu.
             Ok (Some \<lparr>Frame.header = Rtu unit, Frame.pdu = pdu\<rparr>)), rest))"

definition validate_outgoing_pdu :: "nat \<Rightarrow> (FrameError, unit) res" where
  "validate_outgoing_pdu pdu_len =
     (if pdu_len < MIN_PDU_LENGTH then Err (FrameError.InvalidPduLength pdu_len MIN_PDU_LENGTH)
      else if pdu_len > MAX_PDU_SIZE then Err (FrameError.PduLengthOverflow pdu_len MAX_PDU_SIZE)
      else Ok ())"

definition RtuCodec_encode :: "Frame \<Rightarrow> bytes \<Rightarrow> (FrameError, unit) res \<times> bytes" where
  "RtuCodec_encode item dst =
     (let unit = (case Frame.header item of Rtu u \<Rightarrow> u | Mbap h \<Rightarrow> MbapHeader.unit_id h) in
      case validate_outgoing_pdu (length (Frame.pdu item)) of
        Err e \<Rightarrow> (Err e, dst)
      | Panic \<Rightarrow> (Panic, dst)
      | Ok _ \<Rightarrow>
          (let dst1 = (dst @ [unit]) @ Frame.pdu item;
               crc_start = length dst1 - 1 - length (Frame.pdu item);
               crc = crc16 (drop crc_start dst1)
           in (Ok (), dst1 @ u16_to_le_bytes crc)))"

section \<open>The MBAP overlay\<close>

lemma unat_u16_of_nat: "n < 65536 \<Longrightarrow> unat (word_of_nat n :: u16) = n"
  by (simp add: unat_of_nat)

text \<open>
  What the codec relies on of the header overlay (\<open>#[repr(C, packed)]\<close> with network-order
  fields, 7 bytes): viewing a header as bytes lists its fields in order, high byte first, and
  any 7 bytes can be viewed as the header with these bytes.
\<close>

locale mbap_layout =
  fixes ref_from_bytes :: "bytes \<Rightarrow> MbapHeader option"
    and as_bytes :: "MbapHeader \<Rightarrow> bytes"
  assumes as_bytes_fields:
      "as_bytes h = u16_to_be_bytes (transaction_id h) @ u16_to_be_bytes (protocol_id h)
         @ u16_to_be_bytes (length_field h) @ [MbapHeader.unit_id h]"
    and ref_from_bytes_view:
      "length bs = MBAP_HEADER_LEN \<Longrightarrow> \<exists>h. ref_from_bytes bs = Some h \<and> as_bytes h = bs"
begin

lemma as_bytes_length [simp]: "length (as_bytes h) = 7"
  by (simp add: as_bytes_fields)

lemma as_bytes_inject: "as_bytes h = as_bytes k \<Longrightarrow> h = k"
  by (simp add: as_bytes_fields u16_to_be_bytes_def) (metis MbapHeader.equality u16_from_hi_lo unit.exhaust)

lemma ref_from_bytes_as_bytes [simp]: "ref_from_bytes (as_bytes h) = Some h"
  using ref_from_bytes_view [of "as_bytes h"] as_bytes_inject by auto

lemma header_view:
  assumes "7 \<le> length src"
  obtains h rest where "src = as_bytes h @ rest"
  using ref_from_bytes_view [of "take 7 src"] assms
  by (metis MBAP_HEADER_LEN_def append_take_drop_id length_take min.absorb2)

lemma decode_header:
  "MbapCodec_decode ref_from_bytes (as_bytes h @ rest) =
     (if protocol_id h \<noteq> 0
      then (Err (FrameError.InvalidProtocolId (protocol_id h)), as_bytes h @ rest)
      else if unat (length_field h) < 2
      then (Err (FrameError.InvalidLength (length_field h) 2), as_bytes h @ rest)
      else if 254 < unat (length_field h)
      then (Err (FrameError.LengthOverflow (length_field h)), as_bytes h @ rest)
      else if length rest < unat (length_field h) - 1 then (Ok None, as_bytes h @ rest)
      else (Ok (Some \<lparr>Frame.header = Mbap h, Frame.pdu = take (unat (length_field h) - 1) rest\<rparr>),
            drop (unat (length_field h) - 1) rest))"
  by (auto simp: MbapCodec_decode_def split_to_def Let_def word_less_nat_alt)

text \<open>Every outcome of the decoder, by the shape of the buffer.\<close>

lemma mbap_decode_short: "length src < 7 \<Longrightarrow> MbapCodec_decode ref_from_bytes src = (Ok None, src)"
  by (simp add: MbapCodec_decode_def)

lemma mbap_decode_frame:
  assumes "MbapCodec_decode ref_from_bytes src = (Ok (Some f), rest)"
  shows "\<exists>h. Frame.header f = Mbap h \<and> protocol_id h = MODBUS_PROTOCOL_ID
    \<and> 1 \<le> length (Frame.pdu f) \<and> length (Frame.pdu f) \<le> MAX_PDU_SIZE
    \<and> unat (length_field h) = length (Frame.pdu f) + 1
    \<and> src = as_bytes h @ Frame.pdu f @ rest"
proof (cases "7 \<le> length src")
  case True
  then obtain h t where "src = as_bytes h @ t" by (rule header_view)
  then show ?thesis using assms by (auto simp: decode_header split: if_splits)
qed (use assms in \<open>simp add: mbap_decode_short\<close>)

lemma mbap_decode_None:
  assumes "MbapCodec_decode ref_from_bytes src = (Ok None, rest)"
  shows "rest = src \<and> length src < MAX_TCP_ADU_SIZE"
proof (cases "7 \<le> length src")
  case True
  then obtain h t where "src = as_bytes h @ t" by (rule header_view)
  then show ?thesis using assms by (auto simp: decode_header split: if_splits)
qed (use assms in \<open>simp add: mbap_decode_short\<close>)

lemma mbap_decode_no_Panic: "fst (MbapCodec_decode ref_from_bytes src) \<noteq> Panic"
proof (cases "7 \<le> length src")
  case True
  then obtain h t where "src = as_bytes h @ t" by (rule header_view)
  then show ?thesis by (simp add: decode_header)
qed (simp add: mbap_decode_short)

lemma mbap_decode_more:
  assumes "MbapCodec_decode ref_from_bytes src = (r, rest)" "r \<noteq> Ok None"
  shows "MbapCodec_decode ref_from_bytes (src @ later) = (r, rest @ later)"
proof (cases "7 \<le> length src")
  case True
  then obtain h t where "src = as_bytes h @ t" by (rule header_view)
  then show ?thesis using assms by (auto simp: decode_header split: if_splits)
qed (use assms in \<open>simp add: mbap_decode_short\<close>)

lemma mbap_encode_Ok:
  "MbapCodec_encode as_bytes f dst = (Ok (), out) \<longleftrightarrow>
     (\<exists>h. Frame.header f = Mbap h \<and> protocol_id h = MODBUS_PROTOCOL_ID
       \<and> 1 \<le> length (Frame.pdu f) \<and> length (Frame.pdu f) \<le> MAX_PDU_SIZE
       \<and> unat (length_field h) = length (Frame.pdu f) + 1
       \<and> out = dst @ as_bytes h @ Frame.pdu f)"
proof (cases "Frame.header f")
  case (Mbap h)
  show ?thesis
  proof (cases "length (Frame.pdu f) \<le> 253")
    case True
    then have u: "unat (1 + word_of_nat (length (Frame.pdu f)) :: u16) = Suc (length (Frame.pdu f))"
      using unat_u16_of_nat [of "Suc (length (Frame.pdu f))"] by simp
    show ?thesis
      using Mbap True u
      by (auto simp: MbapCodec_encode_def validate_outgoing_header_def Let_def u16_try_from_def
          word_less_nat_alt word_unat_eq_iff Suc_le_eq split: res.splits if_splits)
  next
    case False
    then show ?thesis
      using Mbap by (auto simp: MbapCodec_encode_def validate_outgoing_header_def Let_def)
  qed
qed (simp add: MbapCodec_encode_def)

lemma mbap_encode_decode:
  assumes "MbapCodec_encode as_bytes f dst = (Ok (), dst @ w)"
  shows "MbapCodec_decode ref_from_bytes (w @ later) = (Ok (Some f), later)"
  using assms by (auto simp: mbap_encode_Ok decode_header)

end

text \<open>The layout, written out on byte lists.\<close>

definition mbap_as_bytes :: "MbapHeader \<Rightarrow> bytes" where
  "mbap_as_bytes h = u16_to_be_bytes (transaction_id h) @ u16_to_be_bytes (protocol_id h)
     @ u16_to_be_bytes (length_field h) @ [MbapHeader.unit_id h]"

fun mbap_ref_from_bytes :: "bytes \<Rightarrow> MbapHeader option" where
  "mbap_ref_from_bytes [a, b, c, d, e, f, g] =
     Some \<lparr>transaction_id = u16_from_be_bytes a b, protocol_id = u16_from_be_bytes c d,
           length_field = u16_from_be_bytes e f, unit_id = g\<rparr>"
| "mbap_ref_from_bytes _ = None"

interpretation packed: mbap_layout mbap_ref_from_bytes mbap_as_bytes
  by unfold_locales (auto simp: mbap_as_bytes_def length_eq_7)

section \<open>Streams of MBAP frames\<close>

text \<open>Decoding until the buffer holds no complete frame, at most \<open>n\<close> times.\<close>

fun mbap_drain :: "(bytes \<Rightarrow> MbapHeader option) \<Rightarrow> nat \<Rightarrow> bytes \<Rightarrow> Frame list \<times> bytes" where
  "mbap_drain rf 0 src = ([], src)"
| "mbap_drain rf (Suc n) src =
     (case MbapCodec_decode rf src of
        (Ok (Some f), rest) \<Rightarrow> (let (fs, left) = mbap_drain rf n rest in (f # fs, left))
      | _ \<Rightarrow> ([], src))"

text \<open>Encoding a list of frames one after the other into one send buffer.\<close>

fun mbap_send :: "(MbapHeader \<Rightarrow> bytes) \<Rightarrow> Frame list \<Rightarrow> bytes \<Rightarrow> (FrameError, unit) res \<times> bytes" where
  "mbap_send ab [] dst = (Ok (), dst)"
| "mbap_send ab (f # fs) dst =
     (case MbapCodec_encode ab f dst of
        (Ok _, dst') \<Rightarrow> mbap_send ab fs dst'
      | (r, dst') \<Rightarrow> (r, dst'))"

context mbap_layout
begin

lemma mbap_encode_appends:
  "MbapCodec_encode as_bytes f dst = (Ok u, out) \<Longrightarrow> \<exists>w. out = dst @ w
     \<and> (\<forall>later. MbapCodec_decode ref_from_bytes (w @ later) = (Ok (Some f), later))"
  by (auto simp: mbap_encode_Ok decode_header)

lemma mbap_send_drain:
  "mbap_send as_bytes fs dst = (Ok u, out) \<Longrightarrow>
     \<exists>w. out = dst @ w \<and> mbap_drain ref_from_bytes (length fs) (w @ tail) = (fs, tail)"
proof (induction fs arbitrary: dst)
  case (Cons f fs)
  from Cons.prems obtain mid where e: "MbapCodec_encode as_bytes f dst = (Ok (), mid)"
    and s: "mbap_send as_bytes fs mid = (Ok u, out)"
    by (auto split: prod.splits res.splits)
  from mbap_encode_appends [OF e] obtain w where w: "mid = dst @ w"
    "\<And>later. MbapCodec_decode ref_from_bytes (w @ later) = (Ok (Some f), later)" by auto
  from Cons.IH [OF s] obtain v where "out = mid @ v"
    "mbap_drain ref_from_bytes (length fs) (v @ tail) = (fs, tail)" by auto
  then have "out = dst @ (w @ v)
      \<and> mbap_drain ref_from_bytes (length (f # fs)) ((w @ v) @ tail) = (f # fs, tail)"
    using w by simp
  then show ?case by blast
qed simp

end

section \<open>RTU frames\<close>

lemma rtu_encode_Ok:
  "RtuCodec_encode f dst = (Ok (), out) \<longleftrightarrow>
     1 \<le> length (Frame.pdu f) \<and> length (Frame.pdu f) \<le> MAX_PDU_SIZE
     \<and> out = dst @ (Frame_unit_id f # Frame.pdu f)
         @ u16_to_le_bytes (crc16 (Frame_unit_id f # Frame.pdu f))"
  by (auto simp: RtuCodec_encode_def validate_outgoing_pdu_def Let_def Frame_unit_id_def
      Suc_le_eq split: FrameHeader.splits)

lemma rtu_decode_split:
  assumes "src = (u # p) @ [a, b]" "p \<noteq> []" "length p \<le> 253"
  shows "RtuCodec_decode src =
    (if crc16 (u # p) = u16_from_le_bytes a b
     then (Ok (Some \<lparr>Frame.header = Rtu u, Frame.pdu = p\<rparr>), [])
     else (Err (FrameError.CrcMismatch (crc16 (u # p)) (u16_from_le_bytes a b)), src))"
proof -
  have v: "verify_crc src \<longleftrightarrow> crc16 (u # p) = u16_from_le_bytes a b"
    unfolding assms(1) verify_crc_append by simp
  have "slice src 1 (length src - 2) = Ok p" "slice src 0 (length src - 2) = Ok (u # p)"
    "le16_at src (length src - 2) = Ok (u16_from_le_bytes a b)"
    by (simp_all add: assms(1) slice_def le16_at_def nth_append)
  then show ?thesis
    using assms(2,3) v
    by (cases p) (auto simp: RtuCodec_decode_def split_to_def Let_def assms(1))
qed

lemma rtu_split:
  assumes "4 \<le> length src"
  obtains u p a b where "src = (u # p) @ [a, b]" "p \<noteq> []"
proof -
  from assms have "3 \<le> length src" by simp
  then obtain d a b where d: "src = d @ [a, b]" by (rule frame_split)
  with assms obtain u p where "d = u # p" "p \<noteq> []" by (cases d; cases "tl d") auto
  with d that show ?thesis by blast
qed

lemma rtu_decode_outside:
  "length src < 4 \<Longrightarrow> RtuCodec_decode src = (Ok None, src)"
  "256 < length src
     \<Longrightarrow> RtuCodec_decode src = (Err (FrameError.PduLengthOverflow (length src - 3) 253), src)"
  by (simp_all add: RtuCodec_decode_def)

lemma rtu_decode_frame:
  "RtuCodec_decode src = (Ok (Some f), rest) \<longleftrightarrow>
     (\<exists>u. Frame.header f = Rtu u \<and> rest = [] \<and> 1 \<le> length (Frame.pdu f)
       \<and> length (Frame.pdu f) \<le> MAX_PDU_SIZE
       \<and> src = (u # Frame.pdu f) @ u16_to_le_bytes (crc16 (u # Frame.pdu f)))"
  (is "?l \<longleftrightarrow> ?r")
proof
  assume ?l
  then have len: "4 \<le> length src" "length src \<le> 256"
    by (auto simp: RtuCodec_decode_def split: if_splits)
  from len(1) obtain u p a b where s: "src = (u # p) @ [a, b]" "p \<noteq> []" by (rule rtu_split)
  from s len have len': "length p \<le> 253" by simp
  from \<open>?l\<close> have eq: "crc16 (u # p) = u16_from_le_bytes a b"
      "f = \<lparr>Frame.header = Rtu u, Frame.pdu = p\<rparr>" "rest = []"
    unfolding rtu_decode_split [OF s len'] by (auto split: if_splits)
  then have "u16_to_le_bytes (crc16 (u # p)) = [a, b]"
    by (simp add: u16_to_le_bytes_def u16_from_le_bytes_def)
  with eq s len' show ?r by (simp add: Suc_le_eq)
next
  assume ?r
  then obtain u where f: "Frame.header f = Rtu u" "rest = []" "Frame.pdu f \<noteq> []"
      "length (Frame.pdu f) \<le> 253"
      "src = (u # Frame.pdu f) @ [u16_lo (crc16 (u # Frame.pdu f)), u16_hi (crc16 (u # Frame.pdu f))]"
    by (auto simp: u16_to_le_bytes_def Suc_le_eq)
  show ?l
    unfolding rtu_decode_split [OF f(5,3,4)] using f(1,2) by (cases f) simp
qed

lemma rtu_decode_no_Panic: "fst (RtuCodec_decode src) \<noteq> Panic"
proof (cases "4 \<le> length src \<and> length src \<le> 256")
  case True
  then obtain u p a b where "src = (u # p) @ [a, b]" "p \<noteq> []" using rtu_split by blast
  moreover from this True have "length p \<le> 253" by simp
  ultimately show ?thesis by (simp add: rtu_decode_split)
qed (auto simp: rtu_decode_outside not_le)

section \<open>Properties\<close>

text \<open>
  C26.  Frames sent back to back on a TCP stream are recovered in order: if encoding the frames
  \<open>fs\<close> into an empty send buffer succeeds, draining the bytes produced, followed by anything, gives
  back exactly \<open>fs\<close> and leaves what followed untouched.
\<close>

theorem mbap_stream_roundtrip:
  assumes "mbap_layout rf ab" "mbap_send ab fs [] = (Ok (), stream)"
  shows "mbap_drain rf (length fs) (stream @ tail) = (fs, tail)"
  using mbap_layout.mbap_send_drain [OF assms] by auto

theorem mbap_stream_roundtrip_witness:
  "mbap_drain mbap_ref_from_bytes 2
     ([0, 1, 0, 0, 0, 3, 0x11, 0x03, 0x6B] @ [0, 2, 0, 0, 0, 2, 0x11, 0x07] @ [0, 3])
   = ([\<lparr>Frame.header = Mbap \<lparr>transaction_id = 1, protocol_id = 0, length_field = 3, unit_id = 0x11\<rparr>,
        Frame.pdu = [0x03, 0x6B]\<rparr>,
       \<lparr>Frame.header = Mbap \<lparr>transaction_id = 2, protocol_id = 0, length_field = 2, unit_id = 0x11\<rparr>,
        Frame.pdu = [0x07]\<rparr>], [0, 3])"
proof -
  let ?f = "\<lparr>Frame.header = Mbap \<lparr>transaction_id = 1, protocol_id = 0, length_field = 3, unit_id = 0x11\<rparr>,
        Frame.pdu = [0x03, 0x6B]\<rparr>"
  let ?g = "\<lparr>Frame.header = Mbap \<lparr>transaction_id = 2, protocol_id = 0, length_field = 2, unit_id = 0x11\<rparr>,
        Frame.pdu = [0x07]\<rparr>"
  have "mbap_send mbap_as_bytes [?f, ?g] []
      = (Ok (), [0, 1, 0, 0, 0, 3, 0x11, 0x03, 0x6B] @ [0, 2, 0, 0, 0, 2, 0x11, 0x07])"
    by (simp add: MbapCodec_encode_def validate_outgoing_header_def u16_try_from_def mbap_as_bytes_def
        u16_to_be_bytes_def u16_hi_def u16_lo_def)
  from mbap_stream_roundtrip [OF packed.mbap_layout_axioms this, of "[0, 3]"] show ?thesis
    by (simp add: numeral_2_eq_2 del: mbap_drain.simps)
qed

text \<open>
  C27.  The MBAP decoder accepts only well-formed frames and consumes exactly one: whatever is in the
  buffer, a returned frame has protocol identifier 0, a PDU of 1 to 253 bytes that agrees
  with the length field, and the buffer was its header, its PDU and the bytes left.
\<close>

theorem mbap_decode_sound:
  assumes "mbap_layout rf ab" "MbapCodec_decode rf src = (Ok (Some f), rest)"
  shows "\<exists>h. Frame.header f = Mbap h \<and> protocol_id h = MODBUS_PROTOCOL_ID
    \<and> 1 \<le> length (Frame.pdu f) \<and> length (Frame.pdu f) \<le> MAX_PDU_SIZE
    \<and> unat (length_field h) = length (Frame.pdu f) + 1
    \<and> src = ab h @ Frame.pdu f @ rest"
  by (rule mbap_layout.mbap_decode_frame [OF assms])

theorem mbap_decode_sound_witness:
  "\<exists>h. Mbap \<lparr>transaction_id = 2, protocol_id = 0, length_field = 2, unit_id = 0x11\<rparr> = Mbap h
     \<and> [0, 2, 0, 0, 0, 2, 0x11, 0x07, 0xAA] = mbap_as_bytes h @ [0x07] @ [0xAA]"
proof -
  have "MbapCodec_decode mbap_ref_from_bytes [0, 2, 0, 0, 0, 2, 0x11, 0x07, 0xAA] =
    (Ok (Some \<lparr>Frame.header = Mbap \<lparr>transaction_id = 2, protocol_id = 0, length_field = 2, unit_id = 0x11\<rparr>,
               Frame.pdu = [0x07]\<rparr>), [0xAA])"
    by (simp add: MbapCodec_decode_def split_to_def slice_def u16_from_be_bytes_def)
  from mbap_decode_sound [OF packed.mbap_layout_axioms this] show ?thesis by auto
qed

text \<open>
  C28.  Decoding a TCP stream does not depend on how the bytes arrive: while the decoder asks for
  more it leaves the buffer alone, and holds fewer than 260 bytes; once it has answered with
  a frame or an error, bytes that arrive later do not change the answer and stay
  behind what was left.  It never panics.
\<close>

theorem mbap_decode_incremental:
  assumes "mbap_layout rf ab"
  shows "fst (MbapCodec_decode rf src) \<noteq> Panic
    \<and> (fst (MbapCodec_decode rf src) = Ok None
         \<longrightarrow> snd (MbapCodec_decode rf src) = src \<and> length src < MAX_TCP_ADU_SIZE)
    \<and> (fst (MbapCodec_decode rf src) \<noteq> Ok None
         \<longrightarrow> MbapCodec_decode rf (src @ later)
             = (fst (MbapCodec_decode rf src), snd (MbapCodec_decode rf src) @ later))"
  using mbap_layout.mbap_decode_no_Panic [OF assms, of src]
    mbap_layout.mbap_decode_None [OF assms, of src "snd (MbapCodec_decode rf src)"]
    mbap_layout.mbap_decode_more [OF assms, of src "fst (MbapCodec_decode rf src)"
      "snd (MbapCodec_decode rf src)" later]
  by (metis prod.collapse)

theorem mbap_decode_incremental_witness:
  "MbapCodec_decode mbap_ref_from_bytes ([0, 2, 0, 0, 0, 2, 0x11, 0x07] @ [1, 2])
   = (fst (MbapCodec_decode mbap_ref_from_bytes [0, 2, 0, 0, 0, 2, 0x11, 0x07]), [1, 2])"
proof -
  have "MbapCodec_decode mbap_ref_from_bytes [0, 2, 0, 0, 0, 2, 0x11, 0x07] =
    (Ok (Some \<lparr>Frame.header = Mbap \<lparr>transaction_id = 2, protocol_id = 0, length_field = 2, unit_id = 0x11\<rparr>,
               Frame.pdu = [0x07]\<rparr>), [])"
    by (simp add: MbapCodec_decode_def split_to_def slice_def u16_from_be_bytes_def)
  with mbap_decode_incremental [OF packed.mbap_layout_axioms,
      of "[0, 2, 0, 0, 0, 2, 0x11, 0x07]" "[1, 2]"]
  show ?thesis by simp
qed

text \<open>
  C31.  The RTU decoder accepts exactly the well-formed serial frames: it returns a frame if and only if
  the buffer is the unit address, a PDU of 1 to 253 bytes and their CRC, and then the buffer
  is emptied.
\<close>

theorem rtu_decode_exact:
  "RtuCodec_decode src = (Ok (Some f), rest) \<longleftrightarrow>
     (\<exists>u. Frame.header f = Rtu u \<and> rest = []
       \<and> length (Frame.pdu f) \<in> {1..MAX_PDU_SIZE}
       \<and> src = (u # Frame.pdu f) @ u16_to_le_bytes (crc16 (u # Frame.pdu f)))"
  by (auto simp: rtu_decode_frame)

text \<open>
  C14.  Whatever an RTU encoder appends to its buffer decodes to the same unit address and PDU, and a
  decoder never panics.
\<close>

theorem rtu_roundtrip:
  assumes "RtuCodec_encode f [] = (Ok (), out)"
  shows "RtuCodec_decode out =
    (Ok (Some \<lparr>Frame.header = Rtu (Frame_unit_id f), Frame.pdu = Frame.pdu f\<rparr>), [])
    \<and> fst (RtuCodec_decode src) \<noteq> Panic"
  using assms rtu_decode_no_Panic [of src]
  by (simp add: rtu_encode_Ok rtu_decode_frame)

theorem rtu_roundtrip_witness:
  "RtuCodec_decode ([0x11, 0x07] @ u16_to_le_bytes (crc16 [0x11, 0x07]))
   = (Ok (Some \<lparr>Frame.header = Rtu 0x11, Frame.pdu = [0x07]\<rparr>), [])"
proof -
  have "RtuCodec_encode \<lparr>Frame.header = Rtu 0x11, Frame.pdu = [0x07]\<rparr> []
      = (Ok (), [0x11, 0x07] @ u16_to_le_bytes (crc16 [0x11, 0x07]))"
    by (simp add: RtuCodec_encode_def validate_outgoing_pdu_def)
  from rtu_roundtrip [OF this] show ?thesis by (simp add: Frame_unit_id_def)
qed

end
