(* ===== verification/Rtu_Tcp.thy ===== *)
theory Rtu_Tcp
  imports Codec_Decode Frame
begin

text \<open>
  RTU frames carried in a TCP stream (\<open>frame/src/rtu_tcp.rs\<close>): the compatibility decoder, which
  scans for the first prefix with a valid CRC, and the strict decoder, which derives the
  length of a frame from its function code and direction.
\<close>

section \<open>rtu\_tcp.rs\<close>

datatype RtuOverTcpFramingPolicy = CrcScanCompatibility | FunctionAwareStrict

datatype RtuOverTcpDirection = Request | Response

record ConfiguredRtuOverTcpCodec =
  policy :: RtuOverTcpFramingPolicy
  direction :: RtuOverTcpDirection

definition RtuOverTcpCodec_with_policy
  :: "RtuOverTcpFramingPolicy \<Rightarrow> RtuOverTcpDirection \<Rightarrow> ConfiguredRtuOverTcpCodec" where
  "RtuOverTcpCodec_with_policy pol dir =
     \<lparr>ConfiguredRtuOverTcpCodec.policy = pol, ConfiguredRtuOverTcpCodec.direction = dir\<rparr>"

definition validate_strict_pdu_length :: "nat \<Rightarrow> (FrameError, unit) res" where
  "validate_strict_pdu_length len =
     (if len > MAX_PDU_SIZE then Err (FrameError.InvalidRtuOverTcpFrameLength len MAX_PDU_SIZE)
      else Ok ())"

definition indeterminate :: "u8 \<Rightarrow> FrameError" where
  "indeterminate fc = FrameError.IndeterminateRtuOverTcpFrameLength fc"

text \<open>
  \<open>split_frame\<close>: the frame of the first \<open>adu_len\<close> bytes and the buffer without them.
\<close>

definition split_frame :: "bytes \<Rightarrow> nat \<Rightarrow> (FrameError, Frame \<times> bytes) res" where
  "split_frame src adu_len =
     and_then (at src 0) (\<lambda>unit.
     and_then (split_to src adu_len) (\<lambda>(adu, rest).
     and_then (slice adu 1 (length adu - 2)) (\<lambda>payload.
     Ok (\<lparr>Frame.header = Rtu unit, Frame.pdu = payload\<rparr>, rest))))"

text \<open>The outcome of a decoder that ends with \<open>Ok(Some(split_frame(src, n)))\<close>.\<close>

definition emit_frame :: "bytes \<Rightarrow> nat \<Rightarrow> (FrameError, Frame option) res \<times> bytes" where
  "emit_frame src adu_len =
     (case split_frame src adu_len of
        Ok (f, rest) \<Rightarrow> (Ok (Some f), rest)
      | Err e \<Rightarrow> (Err e, src)
      | Panic \<Rightarrow> (Panic, src))"

text \<open>
  The \<open>for candidate_len in MIN_RTU_FRAME..=max_len\<close> loop, from the candidates still to try
  and the running CRC of the bytes before \<open>data_end\<close>; the result is the length found.
\<close>

fun scan_candidates :: "bytes \<Rightarrow> nat \<Rightarrow> nat list \<Rightarrow> u16 \<Rightarrow> (FrameError, nat option) res" where
  "scan_candidates src max_len [] crc = Ok None"
| "scan_candidates src max_len (candidate_len # later) crc =
     (let data_end = candidate_len - 2 in
      and_then (le16_at src data_end) (\<lambda>actual.
      if crc = actual then Ok (Some candidate_len)
      else if candidate_len < max_len
      then and_then (at src data_end) (\<lambda>b. scan_candidates src max_len later (crc16_update crc b))
      else scan_candidates src max_len later crc))"

definition decode_compatibility :: "bytes \<Rightarrow> (FrameError, Frame option) res \<times> bytes" where
  "decode_compatibility src =
     (if length src < MIN_RTU_FRAME then (Ok None, src)
      else let max_len = min (length src) MAX_RTU_ADU_SIZE in
      case and_then (at src 0) (\<lambda>b0. and_then (at src 1) (\<lambda>b1.
             scan_candidates src max_len [MIN_RTU_FRAME..<max_len + 1]
               (crc16_update (crc16_update 0xFFFF b0) b1))) of
        Ok (Some candidate_len) \<Rightarrow> emit_frame src candidate_len
      | Ok None \<Rightarrow>
          if length src \<ge> MAX_RTU_ADU_SIZE then (Err FrameError.Truncated, src) else (Ok None, src)
      | Err e \<Rightarrow> (Err e, src)
      | Panic \<Rightarrow> (Panic, src))"

definition strict_supports_standard_base_function :: "u8 \<Rightarrow> bool" where
  "strict_supports_standard_base_function fc \<longleftrightarrow>
     fc \<in> {0x01..0x08} \<or> fc = 0x0B \<or> fc = 0x0C \<or> fc \<in> {0x0F..0x11} \<or> fc \<in> {0x14..0x18} \<or> fc = 0x2B"

definition pdu_length_from_u8_count :: "bytes \<Rightarrow> nat \<Rightarrow> nat \<Rightarrow> (FrameError, nat option) res" where
  "pdu_length_from_u8_count src base_pdu_len count_adu_index =
     (case get src count_adu_index of
        None \<Rightarrow> Ok None
      | Some count \<Rightarrow>
          let len = base_pdu_len + unat count in
          and_then (validate_strict_pdu_length len) (\<lambda>_. Ok (Some len)))"

definition pdu_length_from_u16_count :: "bytes \<Rightarrow> nat \<Rightarrow> nat \<Rightarrow> (FrameError, nat option) res" where
  "pdu_length_from_u16_count src base_pdu_len count_adu_index =
     (case get_range src count_adu_index (count_adu_index + 2) of
        None \<Rightarrow> Ok None
      | Some bs \<Rightarrow>
          and_then (be16_at bs 0) (\<lambda>count.
          let len = base_pdu_len + unat count in
          and_then (validate_strict_pdu_length len) (\<lambda>_. Ok (Some len))))"

definition diagnostic_pdu_length :: "bytes \<Rightarrow> (FrameError, nat option) res" where
  "diagnostic_pdu_length src =
     (case get_range src 2 4 of
        None \<Rightarrow> Ok None
      | Some bs \<Rightarrow>
          and_then (be16_at bs 0) (\<lambda>sub_function.
          if sub_function \<in> {0x0001..0x0003} \<or> sub_function \<in> {0x000A..0x0012} \<or> sub_function = 0x0014
          then Ok (Some 5) else Err (indeterminate 0x08)))"

definition mei_request_pdu_length :: "bytes \<Rightarrow> (FrameError, nat option) res" where
  "mei_request_pdu_length src =
     (case get src 2 of
        None \<Rightarrow> Ok None
      | Some mei \<Rightarrow> if mei = 0x0E then Ok (Some 4) else Err (indeterminate 0x2B))"

text \<open>The \<open>for _ in 0..n_objects\<close> loop, with the number of objects still to read.\<close>

fun mei_objects :: "bytes \<Rightarrow> nat \<Rightarrow> nat \<Rightarrow> (FrameError, nat option) res" where
  "mei_objects src 0 pdu_len = Ok (Some pdu_len)"
| "mei_objects src (Suc n) pdu_len =
     (let object_adu_index = 1 + pdu_len in
      case get_range src object_adu_index (object_adu_index + 2) of
        None \<Rightarrow> Ok None
      | Some hdr \<Rightarrow>
          and_then (at hdr 1) (\<lambda>len.
          let pdu_len' = pdu_len + (2 + unat len) in
          and_then (validate_strict_pdu_length pdu_len') (\<lambda>_. mei_objects src n pdu_len')))"

definition mei_response_pdu_length :: "bytes \<Rightarrow> (FrameError, nat option) res" where
  "mei_response_pdu_length src =
     (case get src 2 of
        None \<Rightarrow> Ok None
      | Some mei \<Rightarrow>
          if mei \<noteq> 0x0E then Err (indeterminate 0x2B)
          else case get src 7 of
            None \<Rightarrow> Ok None
          | Some n_objects \<Rightarrow>
              let pdu_len = 7; minimum = pdu_len + unat n_objects * 2 in
              and_then (validate_strict_pdu_length minimum) (\<lambda>_.
              mei_objects src (unat n_objects) pdu_len))"

definition strict_pdu_length :: "bytes \<Rightarrow> RtuOverTcpDirection \<Rightarrow> (FrameError, nat option) res" where
  "strict_pdu_length src dir =
     and_then (at src 1) (\<lambda>fc.
     if fc AND 0x80 \<noteq> 0
     then (if dir = Response \<and> strict_supports_standard_base_function (fc AND 0x7F)
           then Ok (Some 2) else Err (indeterminate fc))
     else if fc \<in> {0x01..0x04} \<and> dir = Request \<or> fc \<in> {0x05, 0x06}
          \<or> fc \<in> {0x0B, 0x0F, 0x10} \<and> dir = Response
     then Ok (Some 5)
     else if (fc \<in> {0x01..0x04} \<or> fc \<in> {0x0C, 0x11, 0x17}) \<and> dir = Response \<or> fc \<in> {0x14, 0x15}
     then pdu_length_from_u8_count src 2 2
     else if fc \<in> {0x07, 0x0B, 0x0C, 0x11} \<and> dir = Request then Ok (Some 1)
     else if fc = 0x07 \<and> dir = Response then Ok (Some 2)
     else if fc = 0x08 then diagnostic_pdu_length src
     else if fc \<in> {0x0F, 0x10} \<and> dir = Request then pdu_length_from_u8_count src 6 6
     else if fc = 0x16 then Ok (Some 7)
     else if fc = 0x17 \<and> dir = Request then pdu_length_from_u8_count src 10 10
     else if fc = 0x18 \<and> dir = Request then Ok (Some 3)
     else if fc = 0x18 \<and> dir = Response then pdu_length_from_u16_count src 3 2
     else if fc = 0x2B \<and> dir = Request then mei_request_pdu_length src
     else if fc = 0x2B \<and> dir = Response then mei_response_pdu_length src
     else Err (indeterminate fc))"

definition decode_strict
  :: "bytes \<Rightarrow> RtuOverTcpDirection \<Rightarrow> (FrameError, Frame option) res \<times> bytes" where
  "decode_strict src dir =
     (if length src < 2 then (Ok None, src)
      else case strict_pdu_length src dir of
        Err e \<Rightarrow> (Err e, src)
      | Panic \<Rightarrow> (Panic, src)
      | Ok None \<Rightarrow>
          if length src \<ge> MAX_RTU_ADU_SIZE then (Err FrameError.Truncated, src) else (Ok None, src)
      | Ok (Some pdu_len) \<Rightarrow>
          (case validate_strict_pdu_length pdu_len of
             Err e \<Rightarrow> (Err e, src)
           | Panic \<Rightarrow> (Panic, src)
           | Ok _ \<Rightarrow>
               let adu_len = pdu_len + 3 in
               if length src < adu_len then (Ok None, src)
               else let data_end = adu_len - 2 in
               case and_then (slice src 0 data_end) (\<lambda>d. and_then (le16_at src data_end) (\<lambda>actual.
                      let expected = crc16 d in
                      if expected \<noteq> actual then Err (FrameError.CrcMismatch expected actual)
                      else Ok ())) of
                 Err e \<Rightarrow> (Err e, src)
               | Panic \<Rightarrow> (Panic, src)
               | Ok _ \<Rightarrow> emit_frame src adu_len))"

definition RtuOverTcpCodec_decode :: "bytes \<Rightarrow> (FrameError, Frame option) res \<times> bytes" where
  "RtuOverTcpCodec_decode src = decode_compatibility src"

definition ConfiguredRtuOverTcpCodec_decode
  :: "ConfiguredRtuOverTcpCodec \<Rightarrow> bytes \<Rightarrow> (FrameError, Frame option) res \<times> bytes" where
  "ConfiguredRtuOverTcpCodec_decode self src =
     (case ConfiguredRtuOverTcpCodec.policy self of
        CrcScanCompatibility \<Rightarrow> decode_compatibility src
      | FunctionAwareStrict \<Rightarrow> decode_strict src (ConfiguredRtuOverTcpCodec.direction self))"

definition validate_outgoing_rtu_tcp_pdu :: "nat \<Rightarrow> (FrameError, unit) res" where
  "validate_outgoing_rtu_tcp_pdu pdu_len =
     (if pdu_len < MIN_PDU_LENGTH then Err (FrameError.InvalidPduLength pdu_len MIN_PDU_LENGTH)
      else if pdu_len > MAX_PDU_SIZE then Err (FrameError.PduLengthOverflow pdu_len MAX_PDU_SIZE)
      else Ok ())"

definition encode_frame :: "Frame \<Rightarrow> bytes \<Rightarrow> (FrameError, unit) res \<times> bytes" where
  "encode_frame item dst =
     (let unit = (case Frame.header item of Rtu u \<Rightarrow> u | Mbap h \<Rightarrow> MbapHeader.unit_id h) in
      case validate_outgoing_rtu_tcp_pdu (length (Frame.pdu item)) of
        Err e \<Rightarrow> (Err e, dst)
      | Panic \<Rightarrow> (Panic, dst)
      | Ok _ \<Rightarrow>
          (let dst1 = (dst @ [unit]) @ Frame.pdu item;
               crc_start = length dst1 - 1 - length (Frame.pdu item);
               crc = crc16 (drop crc_start dst1)
           in (Ok (), dst1 @ u16_to_le_bytes crc)))"

definition RtuOverTcpCodec_encode :: "Frame \<Rightarrow> bytes \<Rightarrow> (FrameError, unit) res \<times> bytes" where
  "RtuOverTcpCodec_encode item dst = encode_frame item dst"

definition ConfiguredRtuOverTcpCodec_encode
  :: "ConfiguredRtuOverTcpCodec \<Rightarrow> Frame \<Rightarrow> bytes \<Rightarrow> (FrameError, unit) res \<times> bytes" where
  "ConfiguredRtuOverTcpCodec_encode self item dst = encode_frame item dst"

section \<open>Emitting a frame\<close>

lemma emit_frame_split:
  "emit_frame (((u # p) @ [a, b]) @ rest) (length p + 3)
   = (Ok (Some \<lparr>Frame.header = Rtu u, Frame.pdu = p\<rparr>), rest)"
  by (simp add: emit_frame_def split_frame_def split_to_def slice_def numeral_3_eq_3)

lemma prefix_split:
  assumes "3 \<le> n" "n \<le> length src"
  obtains u p a b where "src = ((u # p) @ [a, b]) @ drop n src" "length p + 3 = n"
    "take n src = (u # p) @ [a, b]"
proof -
  have "3 \<le> length (take n src)" using assms by simp
  then obtain d a b where d: "take n src = d @ [a, b]" "d \<noteq> []" by (rule frame_split)
  then obtain u p where "d = u # p" by (cases d) auto
  with d have *: "take n src = (u # p) @ [a, b]" by simp
  moreover have "length p + 3 = n" using assms(2) length_take [of n src] unfolding * by simp
  moreover have "src = ((u # p) @ [a, b]) @ drop n src"
    unfolding * [symmetric] by simp
  ultimately show ?thesis using that by blast
qed

lemma encode_frame_Ok:
  "encode_frame f dst = (Ok (), out) \<longleftrightarrow>
     1 \<le> length (Frame.pdu f) \<and> length (Frame.pdu f) \<le> MAX_PDU_SIZE
     \<and> out = dst @ (Frame_unit_id f # Frame.pdu f)
         @ u16_to_le_bytes (crc16 (Frame_unit_id f # Frame.pdu f))"
  by (auto simp: encode_frame_def validate_outgoing_rtu_tcp_pdu_def Let_def Frame_unit_id_def Suc_le_eq
      split: if_splits FrameHeader.splits)

section \<open>The scanner finds the shortest prefix with a valid CRC\<close>

lemma verify_crc_take:
  assumes "4 \<le> n" "n \<le> length src"
  shows "verify_crc (take n src) \<longleftrightarrow>
    crc16 (take (n - 2) src) = u16_from_le_bytes (src ! (n - 2)) (src ! (n - 1))"
proof -
  have "n - 2 + 1 = n - 1" using assms by simp
  then show ?thesis using assms by (simp add: verify_crc_def Let_def min_def)
qed

lemma crc16_take_Suc:
  "n < length src \<Longrightarrow> crc16 (take (Suc n) src) = crc16_update (crc16 (take n src)) (src ! n)"
  by (simp add: take_Suc_conv_app_nth crc16_append)

lemma scan_candidates_find:
  assumes "4 \<le> c" "m \<le> length src"
  shows "scan_candidates src m [c..<m + 1] (crc16 (take (c - 2) src))
    = Ok (find (\<lambda>n. verify_crc (take n src)) [c..<m + 1])"
  using assms
proof (induction "m + 1 - c" arbitrary: c)
  case (Suc k)
  then have c: "c \<le> m" "c - 2 + 1 = c - 1" by auto
  have l: "[c..<m + 1] = c # [Suc c..<m + 1]" using c by (simp add: upt_conv_Cons)
  have le: "le16_at src (c - 2) = Ok (u16_from_le_bytes (src ! (c - 2)) (src ! (c - 1)))"
    using Suc.prems c by simp
  have step: "crc16 (take (c - 1) src) = crc16_update (crc16 (take (c - 2) src)) (src ! (c - 2))"
    using crc16_take_Suc [of "c - 2" src] Suc.prems c by simp
  show ?case
  proof (cases "c < m")
    case True
    then show ?thesis
      using Suc.hyps(1) [of "Suc c"] Suc.hyps(2) Suc.prems c
      unfolding l by (simp add: le verify_crc_take Let_def step [simplified] del: upt_Suc)
  next
    case False
    then have "[Suc c..<m + 1] = []" by simp
    then show ?thesis
      using False Suc.prems c unfolding l by (simp add: le verify_crc_take Let_def del: upt_Suc)
  qed
qed simp

definition first_valid_prefix :: "bytes \<Rightarrow> nat option" where
  "first_valid_prefix src =
     find (\<lambda>n. verify_crc (take n src)) [MIN_RTU_FRAME..<min (length src) MAX_RTU_ADU_SIZE + 1]"

lemma first_valid_prefix_Some:
  assumes "first_valid_prefix src = Some n"
  shows "4 \<le> n \<and> n \<le> length src \<and> n \<le> 256 \<and> verify_crc (take n src)
    \<and> (\<forall>k. 4 \<le> k \<longrightarrow> k < n \<longrightarrow> \<not> verify_crc (take k src))"
proof -
  define m where "m = min (length src) 256 + 1"
  from assms obtain i where i: "i < m - 4" "verify_crc (take ([4..<m] ! i) src)" "n = [4..<m] ! i"
      "\<forall>j<i. \<not> verify_crc (take ([4..<m] ! j) src)"
    unfolding first_valid_prefix_def find_Some_iff MIN_RTU_FRAME_def MAX_RTU_ADU_SIZE_def m_def [symmetric]
    by auto
  then have n: "n = 4 + i" "4 + i < m" by (simp_all add: nth_upt)
  have "\<not> verify_crc (take k src)" if "4 \<le> k" "k < n" for k
    using i(4) [rule_format, of "k - 4"] that n by (simp add: nth_upt)
  moreover have "n \<le> length src" "n \<le> 256" using n by (simp_all add: m_def)
  ultimately show ?thesis using i(2,3) n(1) by auto
qed

lemma decode_compatibility_eq:
  "decode_compatibility src =
     (case first_valid_prefix src of
        Some n \<Rightarrow> emit_frame src n
      | None \<Rightarrow> if length src \<ge> MAX_RTU_ADU_SIZE then (Err FrameError.Truncated, src) else (Ok None, src))"
proof (cases "4 \<le> length src")
  case True
  let ?m = "min (length src) 256"
  have "crc16 (take 2 src) = crc16_update (crc16_update 0xFFFF (src ! 0)) (src ! 1)"
    using True by (auto simp: length_ge_4 crc16_def)
  moreover have "?m \<le> length src" "(4 :: nat) \<le> 4" by simp_all
  ultimately have "scan_candidates src ?m [4..<?m + 1]
        (crc16_update (crc16_update 0xFFFF (src ! 0)) (src ! 1)) = Ok (first_valid_prefix src)"
    using scan_candidates_find [of 4 ?m src] by (simp add: first_valid_prefix_def del: upt_Suc)
  moreover have "src \<noteq> []" "1 < length src" using True by auto
  ultimately show ?thesis
    using True by (simp add: decode_compatibility_def Let_def del: upt_Suc split: option.split)
next
  case False
  then have "[4..<min (length src) 256 + 1] = []" by simp
  then show ?thesis
    using False by (simp add: decode_compatibility_def first_valid_prefix_def del: upt_Suc)
qed

section \<open>The strict length grammar\<close>

text \<open>Once a length function has an answer, bytes that arrive later do not change it.\<close>

lemma pdu_length_stable:
  "pdu_length_from_u8_count src b i \<noteq> Ok None
     \<Longrightarrow> pdu_length_from_u8_count (src @ later) b i = pdu_length_from_u8_count src b i"
  "pdu_length_from_u16_count src b i \<noteq> Ok None
     \<Longrightarrow> pdu_length_from_u16_count (src @ later) b i = pdu_length_from_u16_count src b i"
  "diagnostic_pdu_length src \<noteq> Ok None
     \<Longrightarrow> diagnostic_pdu_length (src @ later) = diagnostic_pdu_length src"
  "mei_request_pdu_length src \<noteq> Ok None
     \<Longrightarrow> mei_request_pdu_length (src @ later) = mei_request_pdu_length src"
  by (auto simp: pdu_length_from_u8_count_def pdu_length_from_u16_count_def diagnostic_pdu_length_def
      mei_request_pdu_length_def get_def get_range_def nth_append Let_def split: if_splits)

lemma mei_objects_stable:
  "mei_objects src n k \<noteq> Ok None \<Longrightarrow> mei_objects (src @ later) n k = mei_objects src n k"
proof (induction n arbitrary: k)
  case (Suc n)
  then have "1 + k + 2 \<le> length src" by (auto simp: get_range_def split: if_splits)
  then have g: "get_range (src @ later) (1 + k) (1 + k + 2) = get_range src (1 + k) (1 + k + 2)"
    by (simp add: get_range_append)
  show ?case
    unfolding mei_objects.simps Let_def g
    using Suc by (auto simp: Let_def validate_strict_pdu_length_def res_simps get_range_def split: if_splits)
qed simp

lemma mei_response_pdu_length_stable:
  "mei_response_pdu_length src \<noteq> Ok None
     \<Longrightarrow> mei_response_pdu_length (src @ later) = mei_response_pdu_length src"
  by (auto simp: mei_response_pdu_length_def get_def nth_append Let_def validate_strict_pdu_length_def
      mei_objects_stable split: if_splits)

lemmas length_functions_stable = pdu_length_stable mei_response_pdu_length_stable

lemma if_stable:
  "(if c then a else b) \<noteq> x \<Longrightarrow> (c \<Longrightarrow> a \<noteq> x \<Longrightarrow> a' = a) \<Longrightarrow> (\<not> c \<Longrightarrow> b \<noteq> x \<Longrightarrow> b' = b)
     \<Longrightarrow> (if c then a' else b') = (if c then a else b)"
  by (simp split: if_splits)

lemma strict_pdu_length_stable:
  assumes "2 \<le> length src" "strict_pdu_length src dir \<noteq> Ok None"
  shows "strict_pdu_length (src @ later) dir = strict_pdu_length src dir"
proof -
  have "at (src @ later) 1 = (at src 1 :: (FrameError, u8) res)" "1 < length src"
    using assms(1) by (simp_all add: nth_append)
  then show ?thesis
    using assms(2) unfolding strict_pdu_length_def
    by (simp only: at_Ok and_then.simps)
      ((rule refl | erule if_stable | erule length_functions_stable)+)
qed

text \<open>Lengths are within a PDU, nothing panics, and 256 bytes are always enough for an answer.\<close>

lemma mei_objects_range:
  "k \<le> 253 \<Longrightarrow> mei_objects src n k = Ok (Some m) \<Longrightarrow> k \<le> m \<and> m \<le> 253"
proof (induction n arbitrary: k)
  case (Suc n)
  let ?l = "k + (2 + unat (src ! (2 + k)))"
  from Suc.prems have "?l \<le> 253" "mei_objects src n ?l = Ok (Some m)"
    by (auto simp: Let_def get_range_def validate_strict_pdu_length_def res_simps split: if_splits)
  then show ?case using Suc.IH [of ?l] by simp
qed simp

lemma mei_objects_decided:
  "k \<le> 253 \<Longrightarrow> 256 \<le> length src \<Longrightarrow> mei_objects src n k \<noteq> Ok None"
proof (induction n arbitrary: k)
  case (Suc n)
  then show ?case
    by (auto simp: Let_def get_range_def validate_strict_pdu_length_def res_simps split: if_splits)
qed simp

lemma mei_objects_not_Panic: "mei_objects src n k \<noteq> Panic"
proof (induction n arbitrary: k)
  case (Suc n)
  then show ?case
    by (auto simp: Let_def get_range_def validate_strict_pdu_length_def res_simps split: if_splits option.splits)
qed simp

lemmas length_function_defs = pdu_length_from_u8_count_def pdu_length_from_u16_count_def
  diagnostic_pdu_length_def mei_request_pdu_length_def mei_response_pdu_length_def
  validate_strict_pdu_length_def

lemma length_functions_not_Panic:
  "pdu_length_from_u8_count src b i \<noteq> Panic" "pdu_length_from_u16_count src b i \<noteq> Panic"
  "diagnostic_pdu_length src \<noteq> Panic" "mei_request_pdu_length src \<noteq> Panic"
  "mei_response_pdu_length src \<noteq> Panic"
  by (auto simp: length_function_defs get_range_def Let_def mei_objects_not_Panic
      split: if_splits option.splits)

lemma length_functions_decided:
  assumes "256 \<le> length src"
  shows "i < 256 \<Longrightarrow> pdu_length_from_u8_count src b i \<noteq> Ok None"
    "i < 255 \<Longrightarrow> pdu_length_from_u16_count src b i \<noteq> Ok None"
    "diagnostic_pdu_length src \<noteq> Ok None" "mei_request_pdu_length src \<noteq> Ok None"
    "mei_response_pdu_length src \<noteq> Ok None"
  using assms by (auto simp: length_function_defs get_def get_range_def Let_def mei_objects_decided
      split: if_splits)

lemma length_functions_range:
  "pdu_length_from_u8_count src b i = Ok (Some n) \<Longrightarrow> b \<le> n \<and> n \<le> 253"
  "pdu_length_from_u16_count src b i = Ok (Some n) \<Longrightarrow> b \<le> n \<and> n \<le> 253"
  "diagnostic_pdu_length src = Ok (Some n) \<Longrightarrow> n = 5"
  "mei_request_pdu_length src = Ok (Some n) \<Longrightarrow> n = 4"
  "mei_response_pdu_length src = Ok (Some n) \<Longrightarrow> 7 \<le> n \<and> n \<le> 253"
  by (auto simp: length_function_defs get_range_def Let_def res_simps dest!: mei_objects_range [rotated]
      split: if_splits option.splits)

lemma strict_pdu_length_not_Panic: "2 \<le> length src \<Longrightarrow> strict_pdu_length src dir \<noteq> Panic"
  unfolding strict_pdu_length_def
  by (simp add: length_functions_not_Panic)

lemma strict_pdu_length_decided: "256 \<le> length src \<Longrightarrow> strict_pdu_length src dir \<noteq> Ok None"
  unfolding strict_pdu_length_def
  by (simp add: length_functions_decided)

lemma strict_pdu_length_range:
  assumes "strict_pdu_length src dir = Ok (Some n)"
  shows "1 \<le> n \<and> n \<le> 253"
  using assms unfolding strict_pdu_length_def
  by (auto simp: res_simps dest!: length_functions_range split: if_splits)

section \<open>The strict decoder\<close>

lemma decode_strict_short: "length src < 2 \<Longrightarrow> decode_strict src dir = (Ok None, src)"
  by (simp add: decode_strict_def)

lemma decode_strict_eq:
  assumes "2 \<le> length src"
  shows "decode_strict src dir =
    (case strict_pdu_length src dir of
       Err e \<Rightarrow> (Err e, src)
     | Panic \<Rightarrow> (Panic, src)
     | Ok None \<Rightarrow> (Ok None, src)
     | Ok (Some n) \<Rightarrow>
         if length src < n + 3 then (Ok None, src)
         else if verify_crc (take (n + 3) src) then emit_frame src (n + 3)
         else (Err (FrameError.CrcMismatch (crc16 (take (n + 1) src))
                      (u16_from_le_bytes (src ! (n + 1)) (src ! (n + 2)))), src))"
proof (cases "strict_pdu_length src dir")
  case (Ok r)
  show ?thesis
  proof (cases r)
    case None
    then show ?thesis
      using Ok strict_pdu_length_decided [of src dir] assms by (auto simp: decode_strict_def)
  next
    case (Some n)
    with Ok have n: "1 \<le> n" "n \<le> 253" using strict_pdu_length_range [of src dir n] by auto
    show ?thesis
      using Ok Some n assms verify_crc_take [of "n + 3" src]
      by (auto simp: decode_strict_def validate_strict_pdu_length_def Let_def)
  qed
qed (use assms in \<open>simp_all add: decode_strict_def\<close>)

lemma decode_strict_frame:
  assumes "strict_pdu_length ((u # p) @ w @ later) dir = Ok (Some (length p))"
    "w = u16_to_le_bytes (crc16 (u # p))" "p \<noteq> []"
  shows "decode_strict ((u # p) @ w @ later) dir
    = (Ok (Some \<lparr>Frame.header = Rtu u, Frame.pdu = p\<rparr>), later)"
proof -
  let ?a = "u16_lo (crc16 (u # p))" and ?b = "u16_hi (crc16 (u # p))"
  have src: "(u # p) @ w @ later = ((u # p) @ [?a, ?b]) @ later"
    by (simp add: assms(2) u16_to_le_bytes_def)
  have "2 \<le> length ((u # p) @ w @ later)" using assms(3) by (cases p) auto
  moreover have "take (length p + 3) (((u # p) @ [?a, ?b]) @ later) = (u # p) @ [?a, ?b]"
    by (simp add: numeral_3_eq_3)
  moreover have "verify_crc ((u # p) @ [?a, ?b])" unfolding verify_crc_append by simp
  ultimately show ?thesis
    using assms(1) unfolding src
    by (simp add: decode_strict_eq del: append_Cons append_assoc)
      (simp add: emit_frame_split del: append_Cons append_assoc)
qed

text \<open>
  The requests whose boundary the strict grammar can find: all standard ones but Diagnostics
  with a variable or unanswered sub-function or more than one data word, and encapsulated
  interfaces other than device identification.
\<close>

definition one_word_sub_function :: "DiagnosticSubFunction \<Rightarrow> bool" where
  "one_word_sub_function s \<longleftrightarrow> s \<noteq> ReturnQueryData \<and> s \<noteq> ForceListenOnlyMode"

fun strict_request :: "RequestPdu \<Rightarrow> bool" where
  "strict_request (RequestPdu.Diagnostics r) \<longleftrightarrow>
     one_word_sub_function (DiagnosticsRequest.sub_function r) \<and> length (DiagnosticsRequest.data r) = 2"
| "strict_request (RequestPdu.EncapsulatedInterface r) \<longleftrightarrow>
     EncapsulatedInterfaceRequest.mei_type r = ReadDeviceIdentification"
| "strict_request (RequestPdu.Custom fc d) = False"
| "strict_request _ = True"

lemma request_wire_bound: "request_valid r \<Longrightarrow> length (request_wire r) \<le> 253"
  using decode_request_complete [of r] by (metis decode_request_Cons length_Cons Suc_leI)

lemma response_wire_bound:
  assumes "response_valid r"
  shows "length (response_wire r) \<le> 253"
proof -
  have "is_ok (decode_pdu_ref (response_wire r))"
    using decode_response_complete [OF assms]
    by (cases "decode_pdu_ref (response_wire r)") (simp_all add: decode_response_def)
  then obtain q where "decode_pdu_ref (response_wire r) = Ok q"
    by (cases "decode_pdu_ref (response_wire r)") simp_all
  then show ?thesis by (auto simp: decode_pdu_ref_Ok_iff)
qed

lemmas request_images =
  ReadCoilsRequest_payload_def ReadDiscreteInputsRequest_payload_def
  ReadHoldingRegistersRequest_payload_def ReadInputRegistersRequest_payload_def
  WriteSingleCoilRequest_payload_def WriteSingleRegisterRequest_payload_def
  WriteMultipleCoilsRequest_payload_def WriteMultipleRegistersRequest_payload_def
  ReadFileRecordRequest_payload_def WriteFileRecordRequest_payload_def
  MaskWriteRegisterRequest_payload_def ReadWriteMultipleRegistersRequest_payload_def
  ReadFifoQueueRequest_payload_def EncapsulatedInterfaceRequest_payload_def

lemmas request_counts =
  WriteMultipleCoilsRequest_wf_def WriteMultipleRegistersRequest_wf_def ReadFileRecordRequest_wf_def
  WriteFileRecordRequest_wf_def ReadWriteMultipleRegistersRequest_wf_def
  EncapsulatedInterfaceRequest_valid_def

lemma strict_request_length:
  assumes "request_valid r" "strict_request r"
  shows "strict_pdu_length (u # request_wire r @ later) Request = Ok (Some (length (request_wire r)))"
proof (cases r)
  case (Diagnostics d)
  then show ?thesis
    using assms
    by (cases "DiagnosticsRequest.sub_function d")
      (auto simp: strict_pdu_length_def DiagnosticsRequest_payload_def u16_to_be_bytes_def
        diagnostic_pdu_length_def get_range_def one_word_sub_function_def)
qed (use assms request_wire_bound [OF assms(1)] in \<open>auto simp: strict_pdu_length_def length_function_defs
      get_def get_range_def u16_to_be_bytes_def Let_def request_images request_counts\<close>)

text \<open>
  The responses whose boundary the strict grammar can find.  An exception needs a base
  function that the grammar supports.
\<close>

fun strict_response :: "ResponsePdu \<Rightarrow> bool" where
  "strict_response (ResponsePdu.Diagnostics r) \<longleftrightarrow>
     one_word_sub_function (DiagnosticsResponse.sub_function r) \<and> length (DiagnosticsResponse.data r) = 2"
| "strict_response (ResponsePdu.EncapsulatedInterface r) \<longleftrightarrow>
     EncapsulatedInterfaceResponse.mei_type r = ReadDeviceIdentification"
| "strict_response (ResponsePdu.Custom fc d) = False"
| "strict_response (ResponsePdu.Exception e) \<longleftrightarrow>
     strict_supports_standard_base_function (hd (ExceptionResponse_wire e) AND 0x7F)"
| "strict_response _ = True"

lemma mei_objects_entries:
  assumes "\<forall>e\<in>set es. entry_ok e" "length pre = 1 + k" "k + length (entries_bytes es) \<le> 253"
  shows "mei_objects (pre @ entries_bytes es @ rest) (length es) k = Ok (Some (k + length (entries_bytes es)))"
  using assms
proof (induction es arbitrary: pre k)
  case (Cons e es)
  let ?v = "DeviceIdObjectEntry.value e" and ?src = "pre @ entries_bytes (e # es) @ rest"
  have g: "get_range ?src (1 + k) (1 + k + 2)
      = Some [DeviceIdObjectEntry.id e, u8_of_nat (length ?v)]"
    using Cons.prems(2) by (simp add: get_range_def entry_bytes_def [of e])
  have "mei_objects ((pre @ entry_bytes e) @ entries_bytes es @ rest) (length es) (k + (2 + length ?v))
      = Ok (Some (k + (2 + length ?v) + length (entries_bytes es)))"
    using Cons.prems by (intro Cons.IH) simp_all
  moreover have "unat (u8_of_nat (length ?v)) = length ?v"
    using Cons.prems(1) by (simp add: entry_ok_def)
  ultimately show ?case
    using Cons.prems(3) g
    by (simp add: validate_strict_pdu_length_def Let_def)
qed simp

lemma mei_response_length:
  assumes "EncapsulatedInterfaceResponse_valid r"
    "EncapsulatedInterfaceResponse.mei_type r = ReadDeviceIdentification"
  shows "mei_response_pdu_length (u # (0x2B # EncapsulatedInterfaceResponse_payload r) @ later)
    = Ok (Some (Suc (length (EncapsulatedInterfaceResponse_payload r))))"
proof -
  let ?p = "EncapsulatedInterfaceResponse_payload r"
  from assms have len: "length ?p \<le> 252" and ok: "is_ok (ReadDeviceIdentificationResponse_decode ?p)"
    by (simp_all add: EncapsulatedInterfaceResponse_valid_alt EncapsulatedInterfaceResponse_wf_def
        EncapsulatedInterfaceResponse_payload_def)
  from ok obtain d where "ReadDeviceIdentificationResponse_decode ?p = Ok d"
    by (cases "ReadDeviceIdentificationResponse_decode ?p") simp_all
  then have d: "ReadDeviceIdentificationResponse_valid d" "?p = ReadDeviceIdentificationResponse_payload d"
    using ReadDeviceIdentificationResponse_decode_sound by blast+
  let ?n = "ReadDeviceIdentificationResponse.num_objects d"
  obtain es where es: "length es = unat ?n" "\<forall>x\<in>set es. entry_ok x"
      "ReadDeviceIdentificationResponse.object_data d = entries_bytes es"
    using d(1) unfolding ReadDeviceIdentificationResponse_valid_def objects_ok_iff by blast
  define pre where "pre = u # 0x2B # take 6 (ReadDeviceIdentificationResponse_payload d)"
  have pre: "length pre = 1 + 7" "u # (0x2B # ?p) @ later = pre @ entries_bytes es @ later"
    by (simp_all add: pre_def d(2) ReadDeviceIdentificationResponse_payload_def es(3))
  have l: "length ?p = 6 + length (entries_bytes es)"
    by (simp add: d(2) ReadDeviceIdentificationResponse_payload_def es(3))
  have "2 * length es \<le> length (entries_bytes es)" by (induction es) auto
  then have m: "7 + unat ?n * 2 \<le> 253" using len l es(1) by simp
  have "mei_objects (pre @ entries_bytes es @ later) (unat ?n) 7 = Ok (Some (7 + length (entries_bytes es)))"
    unfolding es(1) [symmetric] using es(2) pre(1) len l by (intro mei_objects_entries) simp_all
  then show ?thesis
    unfolding pre(2) l using m
    by (simp add: mei_response_pdu_length_def get_def pre_def ReadDeviceIdentificationResponse_payload_def
        validate_strict_pdu_length_def Let_def)
qed

lemmas response_images =
  ReadCoilsResponse_payload_def ReadDiscreteInputsResponse_payload_def
  ReadHoldingRegistersResponse_payload_def ReadInputRegistersResponse_payload_def
  WriteSingleCoilResponse_payload_def WriteSingleRegisterResponse_payload_def
  ReadExceptionStatusResponse_payload_def GetCommEventCounterResponse_payload_def
  GetCommEventLogResponse_payload_def WriteMultipleCoilsResponse_payload_def
  WriteMultipleRegistersResponse_payload_def ReportServerIdResponse_payload_def
  ReadFileRecordResponse_payload_def WriteFileRecordResponse_payload_def
  MaskWriteRegisterResponse_payload_def ReadWriteMultipleRegistersResponse_payload_def
  ReadFifoQueueResponse_payload_def

lemmas response_counts =
  ReadCoilsResponse_wf_def ReadDiscreteInputsResponse_wf_def ReadHoldingRegistersResponse_wf_def
  ReadInputRegistersResponse_wf_def GetCommEventLogResponse_wf_def ReportServerIdResponse_wf_def
  ReadFileRecordResponse_wf_alt WriteFileRecordResponse_wf_alt
  ReadWriteMultipleRegistersResponse_wf_def ReadFifoQueueResponse_wf_def

lemma strict_response_length:
  assumes "response_valid r" "strict_response r"
  shows "strict_pdu_length (u # response_wire r @ later) Response = Ok (Some (length (response_wire r)))"
proof (cases r)
  case (Diagnostics d)
  then show ?thesis
    using assms
    by (cases "DiagnosticsResponse.sub_function d")
      (auto simp: strict_pdu_length_def DiagnosticsResponse_payload_def u16_to_be_bytes_def
        diagnostic_pdu_length_def get_range_def one_word_sub_function_def)
next
  case (EncapsulatedInterface d)
  then show ?thesis
    using assms mei_response_length [of d u later] by (simp add: strict_pdu_length_def)
next
  case (Exception e)
  then show ?thesis
    using assms
    by (simp add: strict_pdu_length_def ExceptionResponse_wire_def FunctionCode_exception_code_def
        u8_msb_clear not_less)
qed (use assms response_wire_bound [OF assms(1)] in \<open>auto simp: strict_pdu_length_def length_function_defs
      get_def get_range_def u16_to_be_bytes_def Let_def response_images response_counts\<close>)

end
