(* ===== verification/Frame_Stream.thy ===== *)
theory Frame_Stream
  imports Rtu_Tcp
begin

text \<open>
  What a byte-stream transport relies on of its frame decoder, as the locale \<open>stream_decoder\<close>:
  the contract of \<open>tokio_util::codec::Decoder\<close> that lets a reader call \<open>decode\<close> on whatever has
  arrived so far.  From the contract it follows that the frames a reader sees, the error it
  ends with and the bytes it is left with do not depend on how the stream was cut into reads.
  The MBAP codec and both RTU-over-TCP decoders satisfy it.
\<close>

section \<open>A reader\<close>

text \<open>
  A reader calls \<open>decode\<close> until it asks for more or fails (\<open>drain\<close>, at most \<open>n\<close> calls), and does
  so after every chunk received (\<open>feed\<close>); an error ends the connection.  Every frame consumes at
  least one byte, so one more call than there are bytes is enough.
\<close>

type_synonym decoder = "bytes \<Rightarrow> (FrameError, Frame option) res \<times> bytes"

fun drain :: "decoder \<Rightarrow> nat \<Rightarrow> bytes \<Rightarrow> Frame list \<times> (FrameError, Frame option) res \<times> bytes" where
  "drain dec 0 src = ([], Ok None, src)"
| "drain dec (Suc n) src =
     (case dec src of
        (Ok (Some f), rest) \<Rightarrow> (case drain dec n rest of (fs, r, left) \<Rightarrow> (f # fs, r, left))
      | (r, rest) \<Rightarrow> ([], r, rest))"

definition read_all :: "decoder \<Rightarrow> bytes \<Rightarrow> Frame list \<times> (FrameError, Frame option) res \<times> bytes" where
  "read_all dec src = drain dec (Suc (length src)) src"

fun feed :: "decoder \<Rightarrow> bytes \<Rightarrow> bytes list \<Rightarrow> Frame list \<times> (FrameError, Frame option) res \<times> bytes" where
  "feed dec buf [] = ([], Ok None, buf)"
| "feed dec buf (c # cs) =
     (case read_all dec (buf @ c) of
        (fs, Ok None, left) \<Rightarrow> (case feed dec left cs of (gs, r, end_left) \<Rightarrow> (fs @ gs, r, end_left))
      | (fs, r, left) \<Rightarrow> (fs, r, left @ concat cs))"

section \<open>The contract\<close>

locale stream_decoder =
  fixes decode :: decoder
    and bound :: nat
  assumes decode_Nil: "decode [] = (Ok None, [])"
    and decode_no_Panic: "fst (decode src) \<noteq> Panic"
    and decode_None: "decode src = (Ok None, rest) \<Longrightarrow> rest = src \<and> length src < bound"
    and decode_progress: "decode src = (Ok (Some f), rest) \<Longrightarrow> length rest < length src"
    and decode_more:
      "\<lbrakk>decode src = (r, rest); r \<noteq> Ok None\<rbrakk> \<Longrightarrow> decode (src @ later) = (r, rest @ later)"
begin

lemma decode_cases:
  obtains (More) "decode src = (Ok None, src)"
  | (Frame) f rest where "decode src = (Ok (Some f), rest)" "length rest < length src"
  | (Error) e rest where "decode src = (Err e, rest)"
proof -
  obtain r rest where d: "decode src = (r, rest)" by (cases "decode src")
  show ?thesis
  proof (cases r)
    case (Ok v)
    then show ?thesis
      using d decode_None [of src rest] decode_progress [of src _ rest] More Frame by (cases v) auto
  next
    case (Err e)
    then show ?thesis using d Error by simp
  next
    case Panic
    then show ?thesis using d decode_no_Panic [of src] by simp
  qed
qed

lemma drain_fuel: "\<lbrakk>length src < n; length src < m\<rbrakk> \<Longrightarrow> drain decode n src = drain decode m src"
proof (induction n arbitrary: m src)
  case (Suc n)
  then obtain m' where m: "m = Suc m'" by (cases m) auto
  show ?case
  proof (cases rule: decode_cases [of src])
    case (Frame f rest)
    then show ?thesis using Suc.IH [of rest m'] Suc.prems by (simp add: m)
  qed (simp_all add: m)
qed simp

lemma read_all_More: "decode src = (Ok None, src) \<Longrightarrow> read_all decode src = ([], Ok None, src)"
  by (simp add: read_all_def)

lemma read_all_Error: "decode src = (Err e, rest) \<Longrightarrow> read_all decode src = ([], Err e, rest)"
  by (simp add: read_all_def)

lemma read_all_Frame:
  assumes "decode src = (Ok (Some f), rest)"
  shows "read_all decode src = (case read_all decode rest of (fs, r, left) \<Rightarrow> (f # fs, r, left))"
  using assms decode_progress [OF assms] drain_fuel [of rest "length src" "Suc (length rest)"]
  by (simp add: read_all_def)

lemma read_all_result:
  assumes "read_all decode src = (fs, r, left)"
  shows "r = Ok None \<and> decode left = (Ok None, left) \<or> (\<exists>e. r = Err e)"
  using assms
proof (induction src arbitrary: fs rule: length_induct)
  case (1 src)
  then show ?case
    by (cases rule: decode_cases [of src])
      (auto simp: read_all_More read_all_Error read_all_Frame split: prod.splits)
qed

lemma read_all_more:
  "read_all decode (src @ later) =
     (case read_all decode src of
        (fs, Ok None, left) \<Rightarrow> (case read_all decode (left @ later) of (gs, r, l) \<Rightarrow> (fs @ gs, r, l))
      | (fs, r, left) \<Rightarrow> (fs, r, left @ later))"
proof (induction src rule: length_induct)
  case (1 src)
  show ?case
  proof (cases rule: decode_cases [of src])
    case (Frame f rest)
    obtain fs r left where rest: "read_all decode rest = (fs, r, left)" by (cases "read_all decode rest")
    from 1 Frame have IH: "read_all decode (rest @ later) =
        (case read_all decode rest of
           (fs, Ok None, left) \<Rightarrow> (case read_all decode (left @ later) of (gs, r, l) \<Rightarrow> (fs @ gs, r, l))
         | (fs, r, left) \<Rightarrow> (fs, r, left @ later))" by blast
    from read_all_result [OF rest] show ?thesis
      using read_all_Frame [OF Frame(1)] read_all_Frame [OF decode_more [OF Frame(1)], of later] IH rest
      by (auto split: prod.splits)
  next
    case (Error e rest)
    then show ?thesis
      using decode_more [OF Error, of later] by (simp add: read_all_Error)
  next
    case More
    then show ?thesis by (simp add: read_all_More split: prod.splits)
  qed
qed

text \<open>The chunks in which the stream arrives make no difference.\<close>

lemma feed_read_all:
  "decode buf = (Ok None, buf) \<Longrightarrow> feed decode buf cs = read_all decode (buf @ concat cs)"
proof (induction cs arbitrary: buf)
  case (Cons c cs)
  obtain fs r left where r: "read_all decode (buf @ c) = (fs, r, left)" by (cases "read_all decode (buf @ c)")
  from read_all_result [OF r] show ?case
    using Cons.IH [of left] r read_all_more [of "buf @ c" "concat cs"] by auto
qed (simp add: read_all_More)

lemma feed_chunks: "feed decode [] cs = read_all decode (concat cs)"
  using feed_read_all [OF decode_Nil] by simp

lemma feed_left: "feed decode [] cs = (fs, Ok None, left) \<Longrightarrow> length left < bound"
  using read_all_result [of "concat cs" fs "Ok None" left] decode_None [of left left]
  by (auto simp: feed_chunks)

end

section \<open>The codecs satisfy the contract\<close>

sublocale mbap_layout \<subseteq> mbap: stream_decoder "MbapCodec_decode ref_from_bytes" MAX_TCP_ADU_SIZE
proof (unfold_locales, goal_cases)
  case 1
  show ?case by (simp add: mbap_decode_short)
next
  case (2 src)
  show ?case by (rule mbap_decode_no_Panic)
next
  case (3 src rest)
  then show ?case by (rule mbap_decode_None)
next
  case (4 src f rest)
  then show ?case using mbap_decode_frame [of src f rest] by auto
next
  case (5 src r rest later)
  then show ?case by (rule mbap_decode_more)
qed

context mbap_layout
begin

lemmas mbap_feed = mbap.feed_chunks
lemmas mbap_feed_left = mbap.feed_left

end

lemma emit_frame_progress:
  assumes "3 \<le> n" "n \<le> length src"
  obtains f where "emit_frame src n = (Ok (Some f), drop n src)"
    "\<And>later. emit_frame (src @ later) n = (Ok (Some f), drop n src @ later)"
    "\<exists>u a b. Frame.header f = Rtu u \<and> take n src = (u # Frame.pdu f) @ [a, b]"
proof -
  obtain u p a b where s: "src = ((u # p) @ [a, b]) @ drop n src" "length p + 3 = n"
    "take n src = (u # p) @ [a, b]" using assms by (rule prefix_split)
  let ?f = "\<lparr>Frame.header = Rtu u, Frame.pdu = p\<rparr>"
  have e: "emit_frame (src @ later) n = (Ok (Some ?f), drop n src @ later)" for later
    using emit_frame_split [of u p a b "drop n src @ later"] s(1,2) by (metis append_assoc)
  show ?thesis by (rule that [of ?f]) (use e [of "[]"] e s(3) in auto)
qed

lemma first_valid_prefix_None:
  "first_valid_prefix src = None \<longleftrightarrow>
     (\<forall>n. 4 \<le> n \<longrightarrow> n \<le> length src \<longrightarrow> n \<le> 256 \<longrightarrow> \<not> verify_crc (take n src))"
  by (auto simp: first_valid_prefix_def find_None_iff simp del: upt_Suc)

lemma first_valid_prefix_more:
  assumes "first_valid_prefix src = Some n"
  shows "first_valid_prefix (src @ later) = Some n"
proof -
  note n = first_valid_prefix_Some [OF assms]
  have t: "take k (src @ later) = take k src" if "k \<le> n" for k using n that by simp
  show ?thesis
  proof (cases "first_valid_prefix (src @ later)")
    case None
    then show ?thesis using n t [of n] unfolding first_valid_prefix_None by auto
  next
    case (Some m)
    note m = first_valid_prefix_Some [OF Some]
    have "m = n"
    proof (cases m n rule: linorder_cases)
      case less
      then show ?thesis using m n t [of m] by auto
    next
      case greater
      then show ?thesis using m n t [of n] by auto
    qed
    then show ?thesis using Some by simp
  qed
qed

lemma decode_compatibility_Some:
  assumes "first_valid_prefix src = Some n"
  obtains f where "decode_compatibility src = (Ok (Some f), drop n src)"
    "\<And>later. decode_compatibility (src @ later) = (Ok (Some f), drop n src @ later)"
    "4 \<le> n" "n \<le> length src"
proof -
  from first_valid_prefix_Some [OF assms] have n: "4 \<le> n" "3 \<le> n" "n \<le> length src" by auto
  from n(2,3) obtain f where "emit_frame src n = (Ok (Some f), drop n src)"
    "\<And>later. emit_frame (src @ later) n = (Ok (Some f), drop n src @ later)"
    by (rule emit_frame_progress) simp
  then show ?thesis
    using that [of f] n assms first_valid_prefix_more [OF assms]
    by (simp add: decode_compatibility_eq)
qed

lemma decode_compatibility_None:
  assumes "first_valid_prefix src = None"
  shows "length src < 256 \<Longrightarrow> decode_compatibility src = (Ok None, src)"
    "256 \<le> length src \<Longrightarrow> decode_compatibility src = (Err FrameError.Truncated, src)"
    "256 \<le> length src
       \<Longrightarrow> decode_compatibility (src @ later) = (Err FrameError.Truncated, src @ later)"
proof -
  assume "256 \<le> length src"
  moreover from this assms have "first_valid_prefix (src @ later) = None"
    unfolding first_valid_prefix_None by simp
  ultimately show "decode_compatibility (src @ later) = (Err FrameError.Truncated, src @ later)"
    by (simp add: decode_compatibility_eq)
qed (use assms in \<open>simp_all add: decode_compatibility_eq\<close>)

lemma decode_compatibility_cases:
  obtains (More) "decode_compatibility src = (Ok None, src)" "length src < 256"
  | (Frame) f n where "decode_compatibility src = (Ok (Some f), drop n src)"
      "\<And>later. decode_compatibility (src @ later) = (Ok (Some f), drop n src @ later)"
      "4 \<le> n" "n \<le> length src"
  | (Error) "decode_compatibility src = (Err FrameError.Truncated, src)"
      "\<And>later. decode_compatibility (src @ later) = (Err FrameError.Truncated, src @ later)"
proof (cases "first_valid_prefix src")
  case (Some n)
  then show ?thesis by (rule decode_compatibility_Some) (rule Frame)
next
  case None
  then show ?thesis
    using decode_compatibility_None [OF None] More Error by (cases "length src < 256") auto
qed

interpretation crc_scan: stream_decoder decode_compatibility MAX_RTU_ADU_SIZE
proof (unfold_locales, goal_cases)
  case 1
  show ?case by (simp add: decode_compatibility_def)
next
  case (2 src)
  show ?case by (rule decode_compatibility_cases [of src]) simp_all
next
  case (3 src rest)
  then show ?case by (cases rule: decode_compatibility_cases [of src]) auto
next
  case (4 src f rest)
  then show ?case by (cases rule: decode_compatibility_cases [of src]) auto
next
  case (5 src r rest later)
  then show ?case by (cases rule: decode_compatibility_cases [of src]) auto
qed

text \<open>The outcomes of the strict decoder once the length of the PDU is known.\<close>

lemma decode_strict_known:
  assumes "2 \<le> length src" "strict_pdu_length src dir = Ok (Some n)"
  obtains (Wait) "decode_strict src dir = (Ok None, src)" "length src < n + 3" "n \<le> 253"
  | (Accept) f where "decode_strict src dir = (Ok (Some f), drop (n + 3) src)"
      "\<And>later. decode_strict (src @ later) dir = (Ok (Some f), drop (n + 3) src @ later)"
      "n + 3 \<le> length src" "1 \<le> n" "verify_crc (take (n + 3) src)"
      "\<exists>u a b. Frame.header f = Rtu u \<and> take (n + 3) src = (u # Frame.pdu f) @ [a, b]"
  | (Reject) e where "decode_strict src dir = (Err e, src)"
      "\<And>later. decode_strict (src @ later) dir = (Err e, src @ later)"
proof -
  have app: "2 \<le> length (src @ later)" "strict_pdu_length (src @ later) dir = Ok (Some n)" for later
    using assms strict_pdu_length_stable [of src dir later] by simp_all
  have n: "1 \<le> n" "n \<le> 253" using strict_pdu_length_range [OF assms(2)] by auto
  show ?thesis
  proof (cases "length src < n + 3")
    case True
    then show ?thesis using assms n by (intro Wait) (simp_all add: decode_strict_eq)
  next
    case False
    then have n3: "3 \<le> n + 3" "n + 3 \<le> length src" by auto
    show ?thesis
    proof (cases "verify_crc (take (n + 3) src)")
      case v: True
      from n3 show ?thesis
        by (rule emit_frame_progress) (rule Accept, use v assms app n n3 in \<open>simp_all add: decode_strict_eq\<close>)
    next
      case v: False
      show ?thesis by (rule Reject) (use v assms app n3 in \<open>simp_all add: decode_strict_eq nth_append\<close>)
    qed
  qed
qed

lemma decode_strict_cases:
  obtains (More) "decode_strict src dir = (Ok None, src)" "length src < 256"
  | (Frame) f n where "decode_strict src dir = (Ok (Some f), drop n src)"
      "\<And>later. decode_strict (src @ later) dir = (Ok (Some f), drop n src @ later)"
      "4 \<le> n" "n \<le> length src" "strict_pdu_length src dir = Ok (Some (n - 3))"
      "\<exists>u a b. Frame.header f = Rtu u \<and> take n src = (u # Frame.pdu f) @ [a, b]"
      "verify_crc (take n src)"
  | (Error) e where "decode_strict src dir = (Err e, src)"
      "\<And>later. decode_strict (src @ later) dir = (Err e, src @ later)"
proof (cases "2 \<le> length src")
  case True
  then have app: "2 \<le> length (src @ later)" for later by simp
  consider e where "strict_pdu_length src dir = Err e" | "strict_pdu_length src dir = Ok None"
    | n where "strict_pdu_length src dir = Ok (Some n)"
    using strict_pdu_length_not_Panic [OF True, of dir]
    by (metis res.exhaust option.exhaust)
  then show ?thesis
  proof cases
    case (1 e)
    then show ?thesis
      using True app strict_pdu_length_stable [OF True, of dir] by (intro Error) (simp_all add: decode_strict_eq)
  next
    case 2
    with strict_pdu_length_decided [of src dir] have "length src < 256" by force
    with 2 True show ?thesis by (intro More) (simp_all add: decode_strict_eq)
  next
    case (3 n)
    from True 3 show ?thesis
    proof (cases rule: decode_strict_known)
      case (Accept f)
      with 3 show ?thesis by (intro Frame [of f "n + 3"]) simp_all
    qed (simp_all add: More Error)
  qed
qed (simp add: More decode_strict_short)

interpretation strict: stream_decoder "\<lambda>src. decode_strict src dir" MAX_RTU_ADU_SIZE for dir
proof (unfold_locales, goal_cases)
  case 1
  show ?case by (simp add: decode_strict_def)
next
  case (2 src)
  show ?case by (rule decode_strict_cases [of src dir]) simp_all
next
  case (3 src rest)
  then show ?case by (cases rule: decode_strict_cases [of src dir]) auto
next
  case (4 src f rest)
  then show ?case by (cases rule: decode_strict_cases [of src dir]) auto
next
  case (5 src r rest later)
  then show ?case by (cases rule: decode_strict_cases [of src dir]) auto
qed

interpretation configured:
  stream_decoder "ConfiguredRtuOverTcpCodec_decode codec" MAX_RTU_ADU_SIZE for codec
proof (cases "ConfiguredRtuOverTcpCodec.policy codec")
  case CrcScanCompatibility
  then have "ConfiguredRtuOverTcpCodec_decode codec = decode_compatibility"
    by (auto simp: ConfiguredRtuOverTcpCodec_decode_def)
  then show "stream_decoder (ConfiguredRtuOverTcpCodec_decode codec) MAX_RTU_ADU_SIZE"
    using crc_scan.stream_decoder_axioms by simp
next
  case FunctionAwareStrict
  then have "ConfiguredRtuOverTcpCodec_decode codec
      = (\<lambda>src. decode_strict src (ConfiguredRtuOverTcpCodec.direction codec))"
    by (auto simp: ConfiguredRtuOverTcpCodec_decode_def)
  then show "stream_decoder (ConfiguredRtuOverTcpCodec_decode codec) MAX_RTU_ADU_SIZE"
    using strict.stream_decoder_axioms by simp
qed

section \<open>Properties\<close>

text \<open>
  C29.  How a TCP stream is cut into reads does not matter to the RTU-over-TCP codecs: feeding any
  chunks gives the frames, the final outcome and the rest that decoding the whole stream at
  once gives, and a reader that is waiting for more never holds 256 bytes.
\<close>

theorem rtu_tcp_chunking_independent:
  "feed (ConfiguredRtuOverTcpCodec_decode codec) [] reads
     = read_all (ConfiguredRtuOverTcpCodec_decode codec) (concat reads)
   \<and> (feed (ConfiguredRtuOverTcpCodec_decode codec) [] reads = (fs, Ok None, left)
        \<longrightarrow> length left < MAX_RTU_ADU_SIZE)"
  using configured.feed_chunks configured.feed_left by auto

theorem rtu_tcp_chunking_independent_witness:
  "feed (ConfiguredRtuOverTcpCodec_decode (RtuOverTcpCodec_with_policy FunctionAwareStrict Request)) []
     [[0x11], [0x07]] = ([], Ok None, [0x11, 0x07]) \<and> length [0x11 :: u8, 0x07] < MAX_RTU_ADU_SIZE"
proof -
  let ?c = "RtuOverTcpCodec_with_policy FunctionAwareStrict Request"
  have f: "feed (ConfiguredRtuOverTcpCodec_decode ?c) [] [[0x11], [0x07]] = ([], Ok None, [0x11, 0x07])"
    by (simp add: read_all_def ConfiguredRtuOverTcpCodec_decode_def RtuOverTcpCodec_with_policy_def
        decode_strict_def strict_pdu_length_def validate_strict_pdu_length_def)
  then show ?thesis
    using rtu_tcp_chunking_independent [of ?c "[[0x11], [0x07]]" "[]" "[0x11, 0x07]"] by blast
qed

text \<open>
  C8.  The same for Modbus/TCP: the frames read from a stream do not depend on the chunks it arrives in,
  and a reader waiting for more holds less than one maximal ADU.
\<close>

theorem mbap_chunking_independent:
  assumes "mbap_layout rf ab"
  shows "feed (MbapCodec_decode rf) [] reads = read_all (MbapCodec_decode rf) (concat reads)
    \<and> (feed (MbapCodec_decode rf) [] reads = (fs, Ok None, left) \<longrightarrow> length left < MAX_TCP_ADU_SIZE)"
  using mbap_layout.mbap_feed [OF assms] mbap_layout.mbap_feed_left [OF assms] by auto

theorem mbap_chunking_independent_witness:
  "feed (MbapCodec_decode mbap_ref_from_bytes) [] [[0, 2, 0, 0], [0, 2, 0x11, 0x07, 0]]
   = read_all (MbapCodec_decode mbap_ref_from_bytes) [0, 2, 0, 0, 0, 2, 0x11, 0x07, 0]
   \<and> length [0 :: u8] < MAX_TCP_ADU_SIZE"
proof -
  have "feed (MbapCodec_decode mbap_ref_from_bytes) [] [[0, 2, 0, 0], [0, 2, 0x11, 0x07, 0]]
    = ([\<lparr>Frame.header = Mbap \<lparr>transaction_id = 2, protocol_id = 0, length_field = 2, unit_id = 0x11\<rparr>,
         Frame.pdu = [0x07]\<rparr>], Ok None, [0])"
    by (simp add: read_all_def MbapCodec_decode_def split_to_def u16_from_be_bytes_def)
  then show ?thesis
    using mbap_chunking_independent [OF packed.mbap_layout_axioms,
        of "[[0, 2, 0, 0], [0, 2, 0x11, 0x07, 0]]" _ "[0]"] by simp
qed

text \<open>
  C25.  The compatibility decoder, which keeps one running CRC over all candidates, returns exactly the
  shortest prefix of 4 to 256 bytes that \<open>verify_crc\<close> accepts, leaves the rest, and fails only when
  256 bytes have no such prefix.
\<close>

theorem crc_scan_is_first_valid_prefix:
  "decode_compatibility src =
     (case find (\<lambda>n. verify_crc (take n src)) [MIN_RTU_FRAME..<min (length src) MAX_RTU_ADU_SIZE + 1] of
        Some n \<Rightarrow> (Ok (Some \<lparr>Frame.header = Rtu (src ! 0), Frame.pdu = take (n - 3) (drop 1 src)\<rparr>),
                   drop n src)
      | None \<Rightarrow> if length src \<ge> MAX_RTU_ADU_SIZE then (Err FrameError.Truncated, src) else (Ok None, src))"
proof (cases "first_valid_prefix src")
  case (Some n)
  with first_valid_prefix_Some [OF Some] have "3 \<le> n" "n \<le> length src" by auto
  then obtain u p a b where s: "src = ((u # p) @ [a, b]) @ drop n src" "length p + 3 = n"
    by (rule prefix_split)
  have "emit_frame src n = (Ok (Some \<lparr>Frame.header = Rtu u, Frame.pdu = p\<rparr>), drop n src)"
    using emit_frame_split [of u p a b "drop n src"] s by metis
  moreover have "src ! 0 = u" "take (n - 3) (drop 1 src) = p"
    using s(2) by (subst s(1); auto)+
  ultimately show ?thesis
    using Some decode_compatibility_eq [of src] unfolding first_valid_prefix_def by simp
next
  case None
  then show ?thesis
    using decode_compatibility_eq [of src] unfolding first_valid_prefix_def by simp
qed

text \<open>
  C24.  The strict decoder cuts the stream where the PDU codec does: every request the codec decodes and
  the strict grammar supports, sent with its unit address and CRC, is read back whole, whatever
  follows it, and so is every such response in the other direction.
\<close>

theorem strict_framing_agrees_with_codec:
  "(decode_request p = Ok q \<and> strict_request q \<longrightarrow>
      decode_strict ((u # p) @ u16_to_le_bytes (crc16 (u # p)) @ later) Request
        = (Ok (Some \<lparr>Frame.header = Rtu u, Frame.pdu = p\<rparr>), later))
   \<and> (decode_response p = Ok r \<and> strict_response r \<longrightarrow>
      decode_strict ((u # p) @ u16_to_le_bytes (crc16 (u # p)) @ later) Response
        = (Ok (Some \<lparr>Frame.header = Rtu u, Frame.pdu = p\<rparr>), later))"
proof (intro conjI impI; elim conjE)
  assume "decode_request p = Ok q" "strict_request q"
  then show "decode_strict ((u # p) @ u16_to_le_bytes (crc16 (u # p)) @ later) Request
        = (Ok (Some \<lparr>Frame.header = Rtu u, Frame.pdu = p\<rparr>), later)"
    using decode_request_sound [of p q] strict_request_length [of q u "u16_to_le_bytes (crc16 (u # p)) @ later"]
    by (intro decode_strict_frame) (auto simp: decode_request_def decode_pdu_ref_def)
next
  assume "decode_response p = Ok r" "strict_response r"
  then show "decode_strict ((u # p) @ u16_to_le_bytes (crc16 (u # p)) @ later) Response
        = (Ok (Some \<lparr>Frame.header = Rtu u, Frame.pdu = p\<rparr>), later)"
    using decode_response_sound [of p r] strict_response_length [of r u "u16_to_le_bytes (crc16 (u # p)) @ later"]
    by (intro decode_strict_frame) (auto simp: decode_response_def decode_pdu_ref_def)
qed

theorem strict_framing_agrees_with_codec_witness:
  "decode_strict ((0x11 # [0x03, 0, 1, 0, 2]) @ u16_to_le_bytes (crc16 [0x11, 0x03, 0, 1, 0, 2]) @ [9]) Request
     = (Ok (Some \<lparr>Frame.header = Rtu 0x11, Frame.pdu = [0x03, 0, 1, 0, 2]\<rparr>), [9])
   \<and> decode_strict ((0x11 # [0x07, 5]) @ u16_to_le_bytes (crc16 [0x11, 0x07, 5]) @ []) Response
     = (Ok (Some \<lparr>Frame.header = Rtu 0x11, Frame.pdu = [0x07, 5]\<rparr>), [])"
proof -
  let ?q = "RequestPdu.ReadHoldingRegisters \<lparr>ReadHoldingRegistersRequest.address = 1, quantity = 2\<rparr>"
  let ?r = "ResponsePdu.ReadExceptionStatus \<lparr>ReadExceptionStatusResponse.status = 5\<rparr>"
  have "decode_request [0x03, 0, 1, 0, 2] = Ok ?q"
    using decode_request_complete [of ?q]
    by (simp add: ReadHoldingRegistersRequest_wf_def ReadHoldingRegistersRequest_payload_def
        u16_to_be_bytes_def u16_hi_def u16_lo_def)
  moreover have "decode_response [0x07, 5] = Ok ?r"
    using decode_response_complete [of ?r]
    by (simp add: ReadExceptionStatusResponse_wf_def ReadExceptionStatusResponse_payload_def)
  ultimately show ?thesis
    using strict_framing_agrees_with_codec [where p = "[0x03, 0, 1, 0, 2]" and q = ?q and u = "0x11" and later = "[9]"]
      strict_framing_agrees_with_codec [where p = "[0x07, 5]" and r = ?r and u = "0x11" and later = "[]"]
    by simp
qed

text \<open>
  C30.  A frame returned by the strict decoder is a prefix of the stream: unit address, a PDU of 1 to
  253 bytes of the length the grammar derived, its CRC, and then what is left.  An error
  leaves the stream as it was.
\<close>

theorem strict_decode_sound:
  "(decode_strict src dir = (Ok (Some f), rest) \<longrightarrow>
      (\<exists>u. Frame.header f = Rtu u \<and> length (Frame.pdu f) \<in> {1..MAX_PDU_SIZE}
        \<and> strict_pdu_length src dir = Ok (Some (length (Frame.pdu f)))
        \<and> src = (u # Frame.pdu f) @ u16_to_le_bytes (crc16 (u # Frame.pdu f)) @ rest))
   \<and> (decode_strict src dir = (Err e, rest) \<longrightarrow> rest = src)"
proof (cases rule: decode_strict_cases [of src dir])
  case (Frame g n)
  then obtain u a b where g: "Frame.header g = Rtu u" "take n src = (u # Frame.pdu g) @ [a, b]" by blast
  have n: "n = length (Frame.pdu g) + 3"
    using length_take [of n src] Frame(4) unfolding g(2) by simp
  have c: "u16_to_le_bytes (crc16 (u # Frame.pdu g)) = [a, b]"
    using Frame(7) unfolding g(2) verify_crc_append by (simp add: u16_to_le_bytes_def u16_from_le_bytes_def)
  have s: "src = (u # Frame.pdu g) @ u16_to_le_bytes (crc16 (u # Frame.pdu g)) @ drop n src"
    unfolding c using append_take_drop_id [of n src] unfolding g(2) by simp
  have "length (Frame.pdu g) \<in> {1..MAX_PDU_SIZE}"
    using strict_pdu_length_range [OF Frame(5)] n by simp
  with Frame(1,5) g(1) n s show ?thesis by auto
qed auto

theorem strict_decode_sound_witness:
  "[0x11, 0x07] @ u16_to_le_bytes (crc16 [0x11, 0x07]) @ [1]
     = (0x11 # [0x07]) @ u16_to_le_bytes (crc16 (0x11 # [0x07])) @ [1]
   \<and> snd (decode_strict [0x11, 0x80] Request) = [0x11, 0x80]"
proof -
  let ?src = "[0x11, 0x07] @ u16_to_le_bytes (crc16 [0x11, 0x07]) @ [1]"
  have "decode_strict ?src Request = (Ok (Some \<lparr>Frame.header = Rtu 0x11, Frame.pdu = [0x07]\<rparr>), [1])"
    using decode_strict_frame [of "0x11" "[0x07]" _ "[1]" Request]
    by (simp add: strict_pdu_length_def)
  moreover have "decode_strict [0x11, 0x80] Request = (Err (indeterminate 0x80), [0x11, 0x80])"
    by (simp add: decode_strict_def strict_pdu_length_def)
  ultimately show ?thesis
    using strict_decode_sound [where src = ?src and dir = Request and rest = "[1]"
        and f = "\<lparr>Frame.header = Rtu 0x11, Frame.pdu = [0x07]\<rparr>"]
      strict_decode_sound [where src = "[0x11, 0x80]" and dir = Request and rest = "[0x11, 0x80]"
        and e = "indeterminate 0x80"]
    by auto
qed

end
