(* ===== verification/Owned_Response.thy ===== *)
theory Owned_Response
  imports Codec_Roundtrip
begin

text \<open>
  The owned response types of \<open>rusty-modbus-frame/src/owned.rs\<close>: the decoder the client runs on the
  PDU of a response frame.  A \<open>bytes::Bytes\<close> value is its content; \<open>Bytes::slice\<close> panics outside
  the buffer.  The decoder agrees with \<open>decode_response\<close> of the codec except that it accepts
  function code 0 and does not bound the length of the PDU.
\<close>

section \<open>The response types\<close>

definition pdu_data :: "bytes \<Rightarrow> (DecodeError, bytes) res" where
  "pdu_data pdu = (if pdu = [] then Err (DecodeError.Truncated 1 0) else slice_from pdu 1)"

record OwnedReadCoilsResponse =
  byte_count :: u8
  coil_status :: bytes

definition OwnedReadCoilsResponse_from_pdu :: "bytes \<Rightarrow> (DecodeError, OwnedReadCoilsResponse) res" where
  "OwnedReadCoilsResponse_from_pdu pdu =
     and_then (pdu_data pdu) (\<lambda>data.
     if data = [] then Err (DecodeError.Truncated 1 0)
     else and_then (at data 0) (\<lambda>byte_count.
     and_then (slice_from data 1) (\<lambda>payload.
     if length payload \<noteq> unat byte_count
     then Err (DecodeError.ByteCountMismatch (unat byte_count) (length payload))
     else and_then (slice pdu 2 (2 + unat byte_count)) (\<lambda>coil_status.
     Ok \<lparr>OwnedReadCoilsResponse.byte_count = byte_count, coil_status = coil_status\<rparr>))))"

definition OwnedReadCoilsResponse_coil :: "OwnedReadCoilsResponse \<Rightarrow> nat \<Rightarrow> ('e, bool) res" where
  "OwnedReadCoilsResponse_coil self index =
     and_then (at (OwnedReadCoilsResponse.coil_status self) (index div 8)) (\<lambda>byte.
     Ok (drop_bit (index mod 8) byte AND 1 = 1))"

record OwnedReadDiscreteInputsResponse =
  byte_count :: u8
  input_status :: bytes

definition OwnedReadDiscreteInputsResponse_from_pdu :: "bytes \<Rightarrow> (DecodeError, OwnedReadDiscreteInputsResponse) res" where
  "OwnedReadDiscreteInputsResponse_from_pdu pdu =
     and_then (pdu_data pdu) (\<lambda>data.
     if data = [] then Err (DecodeError.Truncated 1 0)
     else and_then (at data 0) (\<lambda>byte_count.
     and_then (slice_from data 1) (\<lambda>payload.
     if length payload \<noteq> unat byte_count
     then Err (DecodeError.ByteCountMismatch (unat byte_count) (length payload))
     else and_then (slice pdu 2 (2 + unat byte_count)) (\<lambda>input_status.
     Ok \<lparr>OwnedReadDiscreteInputsResponse.byte_count = byte_count, input_status = input_status\<rparr>))))"

definition OwnedReadDiscreteInputsResponse_coil :: "OwnedReadDiscreteInputsResponse \<Rightarrow> nat \<Rightarrow> ('e, bool) res" where
  "OwnedReadDiscreteInputsResponse_coil self index =
     and_then (at (OwnedReadDiscreteInputsResponse.input_status self) (index div 8)) (\<lambda>byte.
     Ok (drop_bit (index mod 8) byte AND 1 = 1))"

record OwnedReadHoldingRegistersResponse =
  byte_count :: u8
  register_data :: bytes

definition OwnedReadHoldingRegistersResponse_from_pdu :: "bytes \<Rightarrow> (DecodeError, OwnedReadHoldingRegistersResponse) res" where
  "OwnedReadHoldingRegistersResponse_from_pdu pdu =
     and_then (pdu_data pdu) (\<lambda>data.
     and_then (ReadHoldingRegistersResponse_decode data) (\<lambda>decoded.
     and_then (slice pdu 2 (2 + length (ReadHoldingRegistersResponse.register_data decoded))) (\<lambda>register_data.
     Ok \<lparr>OwnedReadHoldingRegistersResponse.byte_count = ReadHoldingRegistersResponse.byte_count decoded, register_data = register_data\<rparr>)))"

definition OwnedReadHoldingRegistersResponse_count :: "OwnedReadHoldingRegistersResponse \<Rightarrow> nat" where
  "OwnedReadHoldingRegistersResponse_count self = length (OwnedReadHoldingRegistersResponse.register_data self) div 2"

definition OwnedReadHoldingRegistersResponse_register :: "OwnedReadHoldingRegistersResponse \<Rightarrow> nat \<Rightarrow> ('e, u16) res" where
  "OwnedReadHoldingRegistersResponse_register self index = be16_at (OwnedReadHoldingRegistersResponse.register_data self) (index * 2)"

definition OwnedReadHoldingRegistersResponse_registers :: "OwnedReadHoldingRegistersResponse \<Rightarrow> u16 list" where
  "OwnedReadHoldingRegistersResponse_registers self =
     map (\<lambda>c. u16_from_be_bytes (c ! 0) (c ! 1)) (chunks_exact 2 (OwnedReadHoldingRegistersResponse.register_data self))"

definition OwnedReadHoldingRegistersResponse_raw :: "OwnedReadHoldingRegistersResponse \<Rightarrow> bytes" where
  "OwnedReadHoldingRegistersResponse_raw self = OwnedReadHoldingRegistersResponse.register_data self"

record OwnedReadInputRegistersResponse =
  byte_count :: u8
  register_data :: bytes

definition OwnedReadInputRegistersResponse_from_pdu :: "bytes \<Rightarrow> (DecodeError, OwnedReadInputRegistersResponse) res" where
  "OwnedReadInputRegistersResponse_from_pdu pdu =
     and_then (pdu_data pdu) (\<lambda>data.
     and_then (ReadInputRegistersResponse_decode data) (\<lambda>decoded.
     and_then (slice pdu 2 (2 + length (ReadInputRegistersResponse.register_data decoded))) (\<lambda>register_data.
     Ok \<lparr>OwnedReadInputRegistersResponse.byte_count = ReadInputRegistersResponse.byte_count decoded, register_data = register_data\<rparr>)))"

definition OwnedReadInputRegistersResponse_count :: "OwnedReadInputRegistersResponse \<Rightarrow> nat" where
  "OwnedReadInputRegistersResponse_count self = length (OwnedReadInputRegistersResponse.register_data self) div 2"

definition OwnedReadInputRegistersResponse_register :: "OwnedReadInputRegistersResponse \<Rightarrow> nat \<Rightarrow> ('e, u16) res" where
  "OwnedReadInputRegistersResponse_register self index = be16_at (OwnedReadInputRegistersResponse.register_data self) (index * 2)"

definition OwnedReadInputRegistersResponse_registers :: "OwnedReadInputRegistersResponse \<Rightarrow> u16 list" where
  "OwnedReadInputRegistersResponse_registers self =
     map (\<lambda>c. u16_from_be_bytes (c ! 0) (c ! 1)) (chunks_exact 2 (OwnedReadInputRegistersResponse.register_data self))"

definition OwnedReadInputRegistersResponse_raw :: "OwnedReadInputRegistersResponse \<Rightarrow> bytes" where
  "OwnedReadInputRegistersResponse_raw self = OwnedReadInputRegistersResponse.register_data self"

record OwnedReadWriteMultipleRegistersResponse =
  byte_count :: u8
  register_data :: bytes

definition OwnedReadWriteMultipleRegistersResponse_from_pdu :: "bytes \<Rightarrow> (DecodeError, OwnedReadWriteMultipleRegistersResponse) res" where
  "OwnedReadWriteMultipleRegistersResponse_from_pdu pdu =
     and_then (pdu_data pdu) (\<lambda>data.
     and_then (ReadWriteMultipleRegistersResponse_decode data) (\<lambda>decoded.
     and_then (slice pdu 2 (2 + length (ReadWriteMultipleRegistersResponse.register_data decoded))) (\<lambda>register_data.
     Ok \<lparr>OwnedReadWriteMultipleRegistersResponse.byte_count = ReadWriteMultipleRegistersResponse.byte_count decoded, register_data = register_data\<rparr>)))"

definition OwnedReadWriteMultipleRegistersResponse_count :: "OwnedReadWriteMultipleRegistersResponse \<Rightarrow> nat" where
  "OwnedReadWriteMultipleRegistersResponse_count self = length (OwnedReadWriteMultipleRegistersResponse.register_data self) div 2"

definition OwnedReadWriteMultipleRegistersResponse_register :: "OwnedReadWriteMultipleRegistersResponse \<Rightarrow> nat \<Rightarrow> ('e, u16) res" where
  "OwnedReadWriteMultipleRegistersResponse_register self index = be16_at (OwnedReadWriteMultipleRegistersResponse.register_data self) (index * 2)"

definition OwnedReadWriteMultipleRegistersResponse_registers :: "OwnedReadWriteMultipleRegistersResponse \<Rightarrow> u16 list" where
  "OwnedReadWriteMultipleRegistersResponse_registers self =
     map (\<lambda>c. u16_from_be_bytes (c ! 0) (c ! 1)) (chunks_exact 2 (OwnedReadWriteMultipleRegistersResponse.register_data self))"

definition OwnedReadWriteMultipleRegistersResponse_raw :: "OwnedReadWriteMultipleRegistersResponse \<Rightarrow> bytes" where
  "OwnedReadWriteMultipleRegistersResponse_raw self = OwnedReadWriteMultipleRegistersResponse.register_data self"

record OwnedReadFifoQueueResponse =
  byte_count :: u16
  fifo_count :: u16
  fifo_values :: bytes

definition OwnedReadFifoQueueResponse_from_pdu :: "bytes \<Rightarrow> (DecodeError, OwnedReadFifoQueueResponse) res" where
  "OwnedReadFifoQueueResponse_from_pdu pdu =
     and_then (pdu_data pdu) (\<lambda>data.
     and_then (ReadFifoQueueResponse_decode data) (\<lambda>decoded.
     and_then (slice pdu 5 (5 + length (ReadFifoQueueResponse.fifo_values decoded))) (\<lambda>fifo_values.
     Ok \<lparr>OwnedReadFifoQueueResponse.byte_count = ReadFifoQueueResponse.byte_count decoded,
         fifo_count = ReadFifoQueueResponse.fifo_count decoded, fifo_values = fifo_values\<rparr>)))"

record OwnedReadFileRecordResponse =
  byte_count :: u8
  data :: bytes

definition OwnedReadFileRecordResponse_from_pdu :: "bytes \<Rightarrow> (DecodeError, OwnedReadFileRecordResponse) res" where
  "OwnedReadFileRecordResponse_from_pdu pdu =
     and_then (pdu_data pdu) (\<lambda>data.
     and_then (ReadFileRecordResponse_decode data) (\<lambda>decoded.
     and_then (slice pdu 2 (2 + length (ReadFileRecordResponse.data decoded))) (\<lambda>owned_data.
     Ok \<lparr>OwnedReadFileRecordResponse.byte_count = ReadFileRecordResponse.byte_count decoded, data = owned_data\<rparr>)))"

record OwnedWriteFileRecordResponse =
  byte_count :: u8
  data :: bytes

definition OwnedWriteFileRecordResponse_from_pdu :: "bytes \<Rightarrow> (DecodeError, OwnedWriteFileRecordResponse) res" where
  "OwnedWriteFileRecordResponse_from_pdu pdu =
     and_then (pdu_data pdu) (\<lambda>data.
     and_then (WriteFileRecordResponse_decode data) (\<lambda>decoded.
     and_then (slice pdu 2 (2 + length (WriteFileRecordResponse.data decoded))) (\<lambda>owned_data.
     Ok \<lparr>OwnedWriteFileRecordResponse.byte_count = WriteFileRecordResponse.byte_count decoded, data = owned_data\<rparr>)))"

record OwnedDiagnosticsResponse =
  sub_function :: DiagnosticSubFunction
  data :: bytes

definition OwnedDiagnosticsResponse_from_pdu :: "bytes \<Rightarrow> (DecodeError, OwnedDiagnosticsResponse) res" where
  "OwnedDiagnosticsResponse_from_pdu pdu =
     and_then (pdu_data pdu) (\<lambda>data.
     if length data < 2 then Err (DecodeError.Truncated 2 (length data))
     else and_then (be16_at data 0) (\<lambda>raw_sub.
     and_then (ok_or (DiagnosticSubFunction_from_raw raw_sub)
                 (DecodeError.UnknownDiagnosticSubFunction raw_sub)) (\<lambda>sub_function.
     and_then (slice_from data 2) (\<lambda>payload.
     if length payload mod 2 \<noteq> 0 then Err (DecodeError.InvalidDiagnosticDataLength (length payload))
     else and_then (slice_from pdu 3) (\<lambda>owned_data.
     Ok \<lparr>OwnedDiagnosticsResponse.sub_function = sub_function, data = owned_data\<rparr>)))))"

record OwnedGetCommEventLogResponse =
  byte_count :: u8
  status :: u16
  event_count :: u16
  message_count :: u16
  events :: bytes

definition OwnedGetCommEventLogResponse_from_pdu :: "bytes \<Rightarrow> (DecodeError, OwnedGetCommEventLogResponse) res" where
  "OwnedGetCommEventLogResponse_from_pdu pdu =
     and_then (pdu_data pdu) (\<lambda>data.
     and_then (GetCommEventLogResponse_decode data) (\<lambda>decoded.
     and_then (slice pdu 8 (8 + length (GetCommEventLogResponse.events decoded))) (\<lambda>events.
     Ok \<lparr>OwnedGetCommEventLogResponse.byte_count = GetCommEventLogResponse.byte_count decoded,
         status = GetCommEventLogResponse.status decoded,
         event_count = GetCommEventLogResponse.event_count decoded,
         message_count = GetCommEventLogResponse.message_count decoded, events = events\<rparr>)))"

record OwnedReportServerIdResponse =
  byte_count :: u8
  data :: bytes

definition OwnedReportServerIdResponse_from_pdu :: "bytes \<Rightarrow> (DecodeError, OwnedReportServerIdResponse) res" where
  "OwnedReportServerIdResponse_from_pdu pdu =
     and_then (pdu_data pdu) (\<lambda>d.
     if d = [] then Err (DecodeError.Truncated 1 0)
     else and_then (at d 0) (\<lambda>byte_count.
     and_then (slice_from d 1) (\<lambda>payload.
     if length payload \<noteq> unat byte_count
     then Err (DecodeError.ByteCountMismatch (unat byte_count) (length payload))
     else and_then (slice pdu 2 (2 + unat byte_count)) (\<lambda>owned_data.
     Ok \<lparr>OwnedReportServerIdResponse.byte_count = byte_count, data = owned_data\<rparr>))))"

record OwnedEncapsulatedInterfaceResponse =
  mei_type :: MeiType
  data :: bytes

definition OwnedEncapsulatedInterfaceResponse_from_pdu
  :: "bytes \<Rightarrow> (DecodeError, OwnedEncapsulatedInterfaceResponse) res" where
  "OwnedEncapsulatedInterfaceResponse_from_pdu pdu =
     and_then (pdu_data pdu) (\<lambda>data.
     and_then (EncapsulatedInterfaceResponse_decode data) (\<lambda>decoded.
     and_then (slice_from pdu 2) (\<lambda>owned_data.
     Ok \<lparr>OwnedEncapsulatedInterfaceResponse.mei_type = EncapsulatedInterfaceResponse.mei_type decoded,
         data = owned_data\<rparr>)))"

section \<open>The dispatch\<close>

datatype OwnedResponsePdu =
    ReadCoils OwnedReadCoilsResponse
  | ReadDiscreteInputs OwnedReadDiscreteInputsResponse
  | ReadHoldingRegisters OwnedReadHoldingRegistersResponse
  | ReadInputRegisters OwnedReadInputRegistersResponse
  | WriteSingleCoil WriteSingleCoilResponse
  | WriteSingleRegister WriteSingleRegisterResponse
  | ReadExceptionStatus ReadExceptionStatusResponse
  | Diagnostics OwnedDiagnosticsResponse
  | GetCommEventCounter GetCommEventCounterResponse
  | GetCommEventLog OwnedGetCommEventLogResponse
  | WriteMultipleCoils WriteMultipleCoilsResponse
  | WriteMultipleRegisters WriteMultipleRegistersResponse
  | ReportServerId OwnedReportServerIdResponse
  | ReadFileRecord OwnedReadFileRecordResponse
  | WriteFileRecord OwnedWriteFileRecordResponse
  | MaskWriteRegister MaskWriteRegisterResponse
  | ReadWriteMultipleRegisters OwnedReadWriteMultipleRegistersResponse
  | ReadFifoQueue OwnedReadFifoQueueResponse
  | EncapsulatedInterface OwnedEncapsulatedInterfaceResponse
  | Custom u8 bytes
  | Exception ExceptionResponse

definition OwnedResponsePdu_from_pdu :: "bytes \<Rightarrow> (DecodeError, OwnedResponsePdu) res" where
  "OwnedResponsePdu_from_pdu pdu =
     (if pdu = [] then Err (DecodeError.Truncated 1 0)
      else and_then (at pdu 0) (\<lambda>fc_byte.
      if is_exception_response fc_byte
      then and_then (slice_from pdu 1) (\<lambda>rest.
           res_map OwnedResponsePdu.Exception (ExceptionResponse_decode fc_byte rest))
      else and_then (slice_from pdu 1) (\<lambda>data.
      case (case FunctionCode_from_raw fc_byte of Some fc \<Rightarrow> fc | None \<Rightarrow> FunctionCode.Custom fc_byte) of
        FunctionCode.ReadCoils \<Rightarrow> res_map OwnedResponsePdu.ReadCoils (OwnedReadCoilsResponse_from_pdu pdu)
      | FunctionCode.ReadDiscreteInputs \<Rightarrow> res_map OwnedResponsePdu.ReadDiscreteInputs (OwnedReadDiscreteInputsResponse_from_pdu pdu)
      | FunctionCode.ReadHoldingRegisters \<Rightarrow> res_map OwnedResponsePdu.ReadHoldingRegisters (OwnedReadHoldingRegistersResponse_from_pdu pdu)
      | FunctionCode.ReadInputRegisters \<Rightarrow> res_map OwnedResponsePdu.ReadInputRegisters (OwnedReadInputRegistersResponse_from_pdu pdu)
      | FunctionCode.WriteSingleCoil \<Rightarrow> res_map OwnedResponsePdu.WriteSingleCoil (WriteSingleCoilResponse_decode data)
      | FunctionCode.WriteSingleRegister \<Rightarrow> res_map OwnedResponsePdu.WriteSingleRegister (WriteSingleRegisterResponse_decode data)
      | FunctionCode.ReadExceptionStatus \<Rightarrow> res_map OwnedResponsePdu.ReadExceptionStatus (ReadExceptionStatusResponse_decode data)
      | FunctionCode.Diagnostics \<Rightarrow> res_map OwnedResponsePdu.Diagnostics (OwnedDiagnosticsResponse_from_pdu pdu)
      | FunctionCode.GetCommEventCounter \<Rightarrow> res_map OwnedResponsePdu.GetCommEventCounter (GetCommEventCounterResponse_decode data)
      | FunctionCode.GetCommEventLog \<Rightarrow> res_map OwnedResponsePdu.GetCommEventLog (OwnedGetCommEventLogResponse_from_pdu pdu)
      | FunctionCode.WriteMultipleCoils \<Rightarrow> res_map OwnedResponsePdu.WriteMultipleCoils (WriteMultipleCoilsResponse_decode data)
      | FunctionCode.WriteMultipleRegisters \<Rightarrow> res_map OwnedResponsePdu.WriteMultipleRegisters (WriteMultipleRegistersResponse_decode data)
      | FunctionCode.ReportServerId \<Rightarrow> res_map OwnedResponsePdu.ReportServerId (OwnedReportServerIdResponse_from_pdu pdu)
      | FunctionCode.ReadFileRecord \<Rightarrow> res_map OwnedResponsePdu.ReadFileRecord (OwnedReadFileRecordResponse_from_pdu pdu)
      | FunctionCode.WriteFileRecord \<Rightarrow> res_map OwnedResponsePdu.WriteFileRecord (OwnedWriteFileRecordResponse_from_pdu pdu)
      | FunctionCode.MaskWriteRegister \<Rightarrow> res_map OwnedResponsePdu.MaskWriteRegister (MaskWriteRegisterResponse_decode data)
      | FunctionCode.ReadWriteMultipleRegisters \<Rightarrow> res_map OwnedResponsePdu.ReadWriteMultipleRegisters (OwnedReadWriteMultipleRegistersResponse_from_pdu pdu)
      | FunctionCode.ReadFifoQueue \<Rightarrow> res_map OwnedResponsePdu.ReadFifoQueue (OwnedReadFifoQueueResponse_from_pdu pdu)
      | FunctionCode.EncapsulatedInterfaceTransport \<Rightarrow> res_map OwnedResponsePdu.EncapsulatedInterface (OwnedEncapsulatedInterfaceResponse_from_pdu pdu)
      | FunctionCode.Custom fc \<Rightarrow> and_then (slice_from pdu 1) (\<lambda>rest. Ok (OwnedResponsePdu.Custom fc rest)))))"

fun OwnedResponsePdu_function_code :: "OwnedResponsePdu \<Rightarrow> u8" where
  "OwnedResponsePdu_function_code (OwnedResponsePdu.ReadCoils _) = FunctionCode_code FunctionCode.ReadCoils"
| "OwnedResponsePdu_function_code (OwnedResponsePdu.ReadDiscreteInputs _) = FunctionCode_code FunctionCode.ReadDiscreteInputs"
| "OwnedResponsePdu_function_code (OwnedResponsePdu.ReadHoldingRegisters _) = FunctionCode_code FunctionCode.ReadHoldingRegisters"
| "OwnedResponsePdu_function_code (OwnedResponsePdu.ReadInputRegisters _) = FunctionCode_code FunctionCode.ReadInputRegisters"
| "OwnedResponsePdu_function_code (OwnedResponsePdu.WriteSingleCoil _) = FunctionCode_code FunctionCode.WriteSingleCoil"
| "OwnedResponsePdu_function_code (OwnedResponsePdu.WriteSingleRegister _) = FunctionCode_code FunctionCode.WriteSingleRegister"
| "OwnedResponsePdu_function_code (OwnedResponsePdu.ReadExceptionStatus _) = FunctionCode_code FunctionCode.ReadExceptionStatus"
| "OwnedResponsePdu_function_code (OwnedResponsePdu.Diagnostics _) = FunctionCode_code FunctionCode.Diagnostics"
| "OwnedResponsePdu_function_code (OwnedResponsePdu.GetCommEventCounter _) = FunctionCode_code FunctionCode.GetCommEventCounter"
| "OwnedResponsePdu_function_code (OwnedResponsePdu.GetCommEventLog _) = FunctionCode_code FunctionCode.GetCommEventLog"
| "OwnedResponsePdu_function_code (OwnedResponsePdu.WriteMultipleCoils _) = FunctionCode_code FunctionCode.WriteMultipleCoils"
| "OwnedResponsePdu_function_code (OwnedResponsePdu.WriteMultipleRegisters _) = FunctionCode_code FunctionCode.WriteMultipleRegisters"
| "OwnedResponsePdu_function_code (OwnedResponsePdu.ReportServerId _) = FunctionCode_code FunctionCode.ReportServerId"
| "OwnedResponsePdu_function_code (OwnedResponsePdu.ReadFileRecord _) = FunctionCode_code FunctionCode.ReadFileRecord"
| "OwnedResponsePdu_function_code (OwnedResponsePdu.WriteFileRecord _) = FunctionCode_code FunctionCode.WriteFileRecord"
| "OwnedResponsePdu_function_code (OwnedResponsePdu.MaskWriteRegister _) = FunctionCode_code FunctionCode.MaskWriteRegister"
| "OwnedResponsePdu_function_code (OwnedResponsePdu.ReadWriteMultipleRegisters _) = FunctionCode_code FunctionCode.ReadWriteMultipleRegisters"
| "OwnedResponsePdu_function_code (OwnedResponsePdu.ReadFifoQueue _) = FunctionCode_code FunctionCode.ReadFifoQueue"
| "OwnedResponsePdu_function_code (OwnedResponsePdu.EncapsulatedInterface _) = FunctionCode_code FunctionCode.EncapsulatedInterfaceTransport"
| "OwnedResponsePdu_function_code (OwnedResponsePdu.Custom fc _) = fc"
| "OwnedResponsePdu_function_code (OwnedResponsePdu.Exception e) =
     FunctionCode_exception_code (ExceptionResponse.function_code e)"

section \<open>Agreement with the codec\<close>

text \<open>The owned copy of a decoded response.\<close>

fun owned :: "ResponsePdu \<Rightarrow> OwnedResponsePdu" where
  "owned (ResponsePdu.ReadCoils r) = OwnedResponsePdu.ReadCoils
     \<lparr>OwnedReadCoilsResponse.byte_count = ReadCoilsResponse.byte_count r, coil_status = ReadCoilsResponse.coil_status r\<rparr>"
| "owned (ResponsePdu.ReadDiscreteInputs r) = OwnedResponsePdu.ReadDiscreteInputs
     \<lparr>OwnedReadDiscreteInputsResponse.byte_count = ReadDiscreteInputsResponse.byte_count r, input_status = ReadDiscreteInputsResponse.coil_status r\<rparr>"
| "owned (ResponsePdu.ReadHoldingRegisters r) = OwnedResponsePdu.ReadHoldingRegisters
     \<lparr>OwnedReadHoldingRegistersResponse.byte_count = ReadHoldingRegistersResponse.byte_count r, register_data = ReadHoldingRegistersResponse.register_data r\<rparr>"
| "owned (ResponsePdu.ReadInputRegisters r) = OwnedResponsePdu.ReadInputRegisters
     \<lparr>OwnedReadInputRegistersResponse.byte_count = ReadInputRegistersResponse.byte_count r, register_data = ReadInputRegistersResponse.register_data r\<rparr>"
| "owned (ResponsePdu.WriteSingleCoil r) = OwnedResponsePdu.WriteSingleCoil r"
| "owned (ResponsePdu.WriteSingleRegister r) = OwnedResponsePdu.WriteSingleRegister r"
| "owned (ResponsePdu.ReadExceptionStatus r) = OwnedResponsePdu.ReadExceptionStatus r"
| "owned (ResponsePdu.Diagnostics r) = OwnedResponsePdu.Diagnostics
     \<lparr>OwnedDiagnosticsResponse.sub_function = DiagnosticsResponse.sub_function r, data = DiagnosticsResponse.data r\<rparr>"
| "owned (ResponsePdu.GetCommEventCounter r) = OwnedResponsePdu.GetCommEventCounter r"
| "owned (ResponsePdu.GetCommEventLog r) = OwnedResponsePdu.GetCommEventLog
     \<lparr>OwnedGetCommEventLogResponse.byte_count = GetCommEventLogResponse.byte_count r, status = GetCommEventLogResponse.status r, event_count = GetCommEventLogResponse.event_count r, message_count = GetCommEventLogResponse.message_count r, events = GetCommEventLogResponse.events r\<rparr>"
| "owned (ResponsePdu.WriteMultipleCoils r) = OwnedResponsePdu.WriteMultipleCoils r"
| "owned (ResponsePdu.WriteMultipleRegisters r) = OwnedResponsePdu.WriteMultipleRegisters r"
| "owned (ResponsePdu.ReportServerId r) = OwnedResponsePdu.ReportServerId
     \<lparr>OwnedReportServerIdResponse.byte_count = ReportServerIdResponse.byte_count r, data = ReportServerIdResponse.data r\<rparr>"
| "owned (ResponsePdu.ReadFileRecord r) = OwnedResponsePdu.ReadFileRecord
     \<lparr>OwnedReadFileRecordResponse.byte_count = ReadFileRecordResponse.byte_count r, data = ReadFileRecordResponse.data r\<rparr>"
| "owned (ResponsePdu.WriteFileRecord r) = OwnedResponsePdu.WriteFileRecord
     \<lparr>OwnedWriteFileRecordResponse.byte_count = WriteFileRecordResponse.byte_count r, data = WriteFileRecordResponse.data r\<rparr>"
| "owned (ResponsePdu.MaskWriteRegister r) = OwnedResponsePdu.MaskWriteRegister r"
| "owned (ResponsePdu.ReadWriteMultipleRegisters r) = OwnedResponsePdu.ReadWriteMultipleRegisters
     \<lparr>OwnedReadWriteMultipleRegistersResponse.byte_count = ReadWriteMultipleRegistersResponse.byte_count r, register_data = ReadWriteMultipleRegistersResponse.register_data r\<rparr>"
| "owned (ResponsePdu.ReadFifoQueue r) = OwnedResponsePdu.ReadFifoQueue
     \<lparr>OwnedReadFifoQueueResponse.byte_count = ReadFifoQueueResponse.byte_count r, fifo_count = ReadFifoQueueResponse.fifo_count r, fifo_values = ReadFifoQueueResponse.fifo_values r\<rparr>"
| "owned (ResponsePdu.EncapsulatedInterface r) = OwnedResponsePdu.EncapsulatedInterface
     \<lparr>OwnedEncapsulatedInterfaceResponse.mei_type = EncapsulatedInterfaceResponse.mei_type r, data = EncapsulatedInterfaceResponse.data r\<rparr>"
| "owned (ResponsePdu.Custom fc d) = OwnedResponsePdu.Custom fc d"
| "owned (ResponsePdu.Exception e) = OwnedResponsePdu.Exception e"

lemma owned_from_pdu:
  assumes "length d < 253"
  shows "OwnedReadCoilsResponse_from_pdu (b # d) = res_map (\<lambda>r. \<lparr>OwnedReadCoilsResponse.byte_count = ReadCoilsResponse.byte_count r, coil_status = ReadCoilsResponse.coil_status r\<rparr>)
      (ReadCoilsResponse_decode d)"
    "OwnedReadDiscreteInputsResponse_from_pdu (b # d) = res_map (\<lambda>r. \<lparr>OwnedReadDiscreteInputsResponse.byte_count = ReadDiscreteInputsResponse.byte_count r, input_status = ReadDiscreteInputsResponse.coil_status r\<rparr>)
      (ReadDiscreteInputsResponse_decode d)"
    "OwnedReadHoldingRegistersResponse_from_pdu (b # d) = res_map (\<lambda>r. \<lparr>OwnedReadHoldingRegistersResponse.byte_count = ReadHoldingRegistersResponse.byte_count r, register_data = ReadHoldingRegistersResponse.register_data r\<rparr>)
      (ReadHoldingRegistersResponse_decode d)"
    "OwnedReadInputRegistersResponse_from_pdu (b # d) = res_map (\<lambda>r. \<lparr>OwnedReadInputRegistersResponse.byte_count = ReadInputRegistersResponse.byte_count r, register_data = ReadInputRegistersResponse.register_data r\<rparr>)
      (ReadInputRegistersResponse_decode d)"
    "OwnedDiagnosticsResponse_from_pdu (b # d) = res_map (\<lambda>r. \<lparr>OwnedDiagnosticsResponse.sub_function = DiagnosticsResponse.sub_function r, data = DiagnosticsResponse.data r\<rparr>)
      (DiagnosticsResponse_decode d)"
    "OwnedGetCommEventLogResponse_from_pdu (b # d) = res_map (\<lambda>r. \<lparr>OwnedGetCommEventLogResponse.byte_count = GetCommEventLogResponse.byte_count r, status = GetCommEventLogResponse.status r, event_count = GetCommEventLogResponse.event_count r, message_count = GetCommEventLogResponse.message_count r, events = GetCommEventLogResponse.events r\<rparr>)
      (GetCommEventLogResponse_decode d)"
    "OwnedReportServerIdResponse_from_pdu (b # d) = res_map (\<lambda>r. \<lparr>OwnedReportServerIdResponse.byte_count = ReportServerIdResponse.byte_count r, data = ReportServerIdResponse.data r\<rparr>)
      (ReportServerIdResponse_decode d)"
    "OwnedReadFileRecordResponse_from_pdu (b # d) = res_map (\<lambda>r. \<lparr>OwnedReadFileRecordResponse.byte_count = ReadFileRecordResponse.byte_count r, data = ReadFileRecordResponse.data r\<rparr>)
      (ReadFileRecordResponse_decode d)"
    "OwnedWriteFileRecordResponse_from_pdu (b # d) = res_map (\<lambda>r. \<lparr>OwnedWriteFileRecordResponse.byte_count = WriteFileRecordResponse.byte_count r, data = WriteFileRecordResponse.data r\<rparr>)
      (WriteFileRecordResponse_decode d)"
    "OwnedReadWriteMultipleRegistersResponse_from_pdu (b # d) = res_map (\<lambda>r. \<lparr>OwnedReadWriteMultipleRegistersResponse.byte_count = ReadWriteMultipleRegistersResponse.byte_count r, register_data = ReadWriteMultipleRegistersResponse.register_data r\<rparr>)
      (ReadWriteMultipleRegistersResponse_decode d)"
    "OwnedReadFifoQueueResponse_from_pdu (b # d) = res_map (\<lambda>r. \<lparr>OwnedReadFifoQueueResponse.byte_count = ReadFifoQueueResponse.byte_count r, fifo_count = ReadFifoQueueResponse.fifo_count r, fifo_values = ReadFifoQueueResponse.fifo_values r\<rparr>)
      (ReadFifoQueueResponse_decode d)"
    "OwnedEncapsulatedInterfaceResponse_from_pdu (b # d) = res_map (\<lambda>r. \<lparr>OwnedEncapsulatedInterfaceResponse.mei_type = EncapsulatedInterfaceResponse.mei_type r, data = EncapsulatedInterfaceResponse.data r\<rparr>)
      (EncapsulatedInterfaceResponse_decode d)"
proof -
  show "OwnedReadCoilsResponse_from_pdu (b # d) = res_map (\<lambda>r. \<lparr>OwnedReadCoilsResponse.byte_count = ReadCoilsResponse.byte_count r, coil_status = ReadCoilsResponse.coil_status r\<rparr>)
      (ReadCoilsResponse_decode d)"
    by (cases d) (simp_all add: OwnedReadCoilsResponse_from_pdu_def ReadCoilsResponse_decode_def pdu_data_def)
  show "OwnedReadDiscreteInputsResponse_from_pdu (b # d) = res_map (\<lambda>r. \<lparr>OwnedReadDiscreteInputsResponse.byte_count = ReadDiscreteInputsResponse.byte_count r, input_status = ReadDiscreteInputsResponse.coil_status r\<rparr>)
      (ReadDiscreteInputsResponse_decode d)"
    by (cases d) (simp_all add: OwnedReadDiscreteInputsResponse_from_pdu_def ReadDiscreteInputsResponse_decode_def pdu_data_def)
  show "OwnedReadHoldingRegistersResponse_from_pdu (b # d) = res_map (\<lambda>r. \<lparr>OwnedReadHoldingRegistersResponse.byte_count = ReadHoldingRegistersResponse.byte_count r, register_data = ReadHoldingRegistersResponse.register_data r\<rparr>)
      (ReadHoldingRegistersResponse_decode d)"
    using read_holding_registers_rs.decode_sound [of d] assms read_holding_registers_rs.decode_not_Panic [of d]
    by (cases "ReadHoldingRegistersResponse_decode d") (auto simp: OwnedReadHoldingRegistersResponse_from_pdu_def pdu_data_def ReadHoldingRegistersResponse_payload_def)
  show "OwnedReadInputRegistersResponse_from_pdu (b # d) = res_map (\<lambda>r. \<lparr>OwnedReadInputRegistersResponse.byte_count = ReadInputRegistersResponse.byte_count r, register_data = ReadInputRegistersResponse.register_data r\<rparr>)
      (ReadInputRegistersResponse_decode d)"
    using read_input_registers_rs.decode_sound [of d] assms read_input_registers_rs.decode_not_Panic [of d]
    by (cases "ReadInputRegistersResponse_decode d") (auto simp: OwnedReadInputRegistersResponse_from_pdu_def pdu_data_def ReadInputRegistersResponse_payload_def)
  show "OwnedDiagnosticsResponse_from_pdu (b # d) = res_map (\<lambda>r. \<lparr>OwnedDiagnosticsResponse.sub_function = DiagnosticsResponse.sub_function r, data = DiagnosticsResponse.data r\<rparr>)
      (DiagnosticsResponse_decode d)"
    by (cases d; cases "tl d")
      (simp_all add: OwnedDiagnosticsResponse_from_pdu_def DiagnosticsResponse_decode_def pdu_data_def be16_at_def
        rsp_check_diagnostic_data_len_decode_def ok_or_def split: option.split)
  show "OwnedGetCommEventLogResponse_from_pdu (b # d) = res_map (\<lambda>r. \<lparr>OwnedGetCommEventLogResponse.byte_count = GetCommEventLogResponse.byte_count r, status = GetCommEventLogResponse.status r, event_count = GetCommEventLogResponse.event_count r, message_count = GetCommEventLogResponse.message_count r, events = GetCommEventLogResponse.events r\<rparr>)
      (GetCommEventLogResponse_decode d)"
    using get_comm_event_log_rs.decode_sound [of d] assms get_comm_event_log_rs.decode_not_Panic [of d]
    by (cases "GetCommEventLogResponse_decode d") (auto simp: OwnedGetCommEventLogResponse_from_pdu_def pdu_data_def GetCommEventLogResponse_payload_def)
  show "OwnedReportServerIdResponse_from_pdu (b # d) = res_map (\<lambda>r. \<lparr>OwnedReportServerIdResponse.byte_count = ReportServerIdResponse.byte_count r, data = ReportServerIdResponse.data r\<rparr>)
      (ReportServerIdResponse_decode d)"
    by (cases d) (simp_all add: OwnedReportServerIdResponse_from_pdu_def ReportServerIdResponse_decode_def pdu_data_def)
  show "OwnedReadFileRecordResponse_from_pdu (b # d) = res_map (\<lambda>r. \<lparr>OwnedReadFileRecordResponse.byte_count = ReadFileRecordResponse.byte_count r, data = ReadFileRecordResponse.data r\<rparr>)
      (ReadFileRecordResponse_decode d)"
    using read_file_record_rs.decode_sound [of d] assms read_file_record_rs.decode_not_Panic [of d]
    by (cases "ReadFileRecordResponse_decode d") (auto simp: OwnedReadFileRecordResponse_from_pdu_def pdu_data_def ReadFileRecordResponse_payload_def)
  show "OwnedWriteFileRecordResponse_from_pdu (b # d) = res_map (\<lambda>r. \<lparr>OwnedWriteFileRecordResponse.byte_count = WriteFileRecordResponse.byte_count r, data = WriteFileRecordResponse.data r\<rparr>)
      (WriteFileRecordResponse_decode d)"
    using write_file_record_rs.decode_sound [of d] assms write_file_record_rs.decode_not_Panic [of d]
    by (cases "WriteFileRecordResponse_decode d") (auto simp: OwnedWriteFileRecordResponse_from_pdu_def pdu_data_def WriteFileRecordResponse_payload_def)
  show "OwnedReadWriteMultipleRegistersResponse_from_pdu (b # d) = res_map (\<lambda>r. \<lparr>OwnedReadWriteMultipleRegistersResponse.byte_count = ReadWriteMultipleRegistersResponse.byte_count r, register_data = ReadWriteMultipleRegistersResponse.register_data r\<rparr>)
      (ReadWriteMultipleRegistersResponse_decode d)"
    using read_write_multiple_registers_rs.decode_sound [of d] assms read_write_multiple_registers_rs.decode_not_Panic [of d]
    by (cases "ReadWriteMultipleRegistersResponse_decode d") (auto simp: OwnedReadWriteMultipleRegistersResponse_from_pdu_def pdu_data_def ReadWriteMultipleRegistersResponse_payload_def)
  show "OwnedReadFifoQueueResponse_from_pdu (b # d) = res_map (\<lambda>r. \<lparr>OwnedReadFifoQueueResponse.byte_count = ReadFifoQueueResponse.byte_count r, fifo_count = ReadFifoQueueResponse.fifo_count r, fifo_values = ReadFifoQueueResponse.fifo_values r\<rparr>)
      (ReadFifoQueueResponse_decode d)"
    using read_fifo_queue_rs.decode_sound [of d] assms read_fifo_queue_rs.decode_not_Panic [of d]
    by (cases "ReadFifoQueueResponse_decode d") (auto simp: OwnedReadFifoQueueResponse_from_pdu_def pdu_data_def ReadFifoQueueResponse_payload_def)
  show "OwnedEncapsulatedInterfaceResponse_from_pdu (b # d) = res_map (\<lambda>r. \<lparr>OwnedEncapsulatedInterfaceResponse.mei_type = EncapsulatedInterfaceResponse.mei_type r, data = EncapsulatedInterfaceResponse.data r\<rparr>)
      (EncapsulatedInterfaceResponse_decode d)"
    using encapsulated_interface_rs.decode_sound [of d] assms encapsulated_interface_rs.decode_not_Panic [of d]
    by (cases "EncapsulatedInterfaceResponse_decode d") (auto simp: OwnedEncapsulatedInterfaceResponse_from_pdu_def pdu_data_def EncapsulatedInterfaceResponse_payload_def)
qed

lemma from_pdu_agrees:
  assumes "pdu \<noteq> []" "hd pdu \<noteq> 0" "length pdu \<le> 253"
  shows "OwnedResponsePdu_from_pdu pdu = res_map owned (decode_response pdu)"
proof -
  obtain b d where p: "pdu = b # d" "length d < 253" "b \<noteq> 0" using assms by (cases pdu) auto
  have ref: "decode_pdu_ref (b # d) = Ok \<lparr>PduRef.function_code = b, PduRef.data = d\<rparr>"
    using p(2) by (simp add: decode_pdu_ref_Cons)
  show ?thesis
  proof (cases "is_exception_response b")
    case True
    then show ?thesis
      by (cases "ExceptionResponse_decode b d") (simp_all add: p(1) OwnedResponsePdu_from_pdu_def decode_response_def ref)
  next
    case False
    then obtain f where f: "FunctionCode_from_raw b = Some f"
      using p(3) by (cases "FunctionCode_from_raw b") (auto simp: FunctionCode_from_raw_None_iff is_exception_response_iff)
    show ?thesis
      using False unfolding p(1)
      by (cases f) (simp_all add: OwnedResponsePdu_from_pdu_def decode_response_def ref f owned_from_pdu [OF p(2)]
          res_map_def and_then_assoc)
  qed
qed

lemma owned_function_code: "response_valid r \<Longrightarrow> OwnedResponsePdu_function_code (owned r) = hd (response_wire r)"
  by (cases r) (simp_all add: ExceptionResponse_wire_def)

lemma from_pdu_zero: "OwnedResponsePdu_from_pdu (0 # d) = Ok (OwnedResponsePdu.Custom 0 d)"
  by (simp add: OwnedResponsePdu_from_pdu_def is_exception_response_iff FunctionCode_from_raw_def)

section \<open>Properties\<close>

text \<open>
  C38.  On every PDU a frame can carry (1 to 253 bytes) with a nonzero function code, the owned decoder
  gives exactly the codec's answer, error for error; it reports the function code that was on the
  wire, and it does not panic.
\<close>

theorem owned_agrees_with_codec:
  assumes "pdu \<noteq> []" "hd pdu \<noteq> 0" "length pdu \<le> 253"
  shows "OwnedResponsePdu_from_pdu pdu = res_map owned (decode_response pdu)
    \<and> OwnedResponsePdu_from_pdu pdu \<noteq> Panic
    \<and> (\<forall>r. OwnedResponsePdu_from_pdu pdu = Ok r \<longrightarrow> OwnedResponsePdu_function_code r = hd pdu)"
  using from_pdu_agrees [OF assms] decode_response_sound [of pdu] decode_response_not_Panic [of pdu] owned_function_code
  by (cases "decode_response pdu") (auto simp: res_map_def)

theorem owned_agrees_with_codec_witness:
  "\<exists>r. OwnedResponsePdu_from_pdu [0x03, 2, 0xAB, 0xCD] = Ok (owned r)
    \<and> decode_response [0x03, 2, 0xAB, 0xCD] = Ok r \<and> OwnedResponsePdu_function_code (owned r) = 0x03"
proof -
  have "is_ok (decode_response [0x03, 2, 0xAB, 0xCD])" by code_simp
  then obtain r where "decode_response [0x03, 2, 0xAB, 0xCD] = Ok r"
    by (cases "decode_response [0x03, 2, 0xAB, 0xCD]") auto
  then show ?thesis using owned_agrees_with_codec [of "[0x03, 2, 0xAB, 0xCD]"] by simp
qed

end
