(* ===== verification/Client_Session.thy ===== *)
theory Client_Session
  imports Owned_Response Frame
begin

text \<open>
  The error types of the client (\<open>rusty-modbus-client/src/error.rs\<close>, over
  \<open>rusty-modbus-tcp/src/error.rs\<close>) and the record of whether its session may be reused
  (\<open>session.rs\<close>).  An atomic operation is one step; the compare-exchange loop of \<open>retire\<close> takes effect
  at its successful exchange.
\<close>

section \<open>Errors\<close>

text \<open>An \<open>std::io::Error\<close> by its kind and message; the client itself only builds \<open>ConnectionAborted\<close> ones.\<close>

datatype io_error_kind = ConnectionAborted | OtherKind string

record io_error =
  kind :: io_error_kind
  message :: string

datatype TransportError =
    Io io_error
  | Frame FrameError
  | Timeout
  | Disconnected
  | AccessDenied
  | TlsHandshake string
  | AuthorizationDenied "string option" FunctionCode

datatype ClientError =
    Timeout
  | Exception ExceptionResponse
  | Transport TransportError
  | Codec DecodeError
  | Encode EncodeError
  | TransactionConflict TransactionId
  | UnexpectedResponseUnitId u8 u8
  | NotConnected
  | RetriesExhausted u32 ClientError
  | BroadcastReadNotAllowed
  | ShuttingDown
  | UnexpectedResponse u8 u8
  | UnexpectedResponseEcho string u16 u16
  | ShortResponse nat nat
  | UnexpectedResponseLength u8 nat nat
  | UnexpectedResponsePadding u8 u8 u8
  | UnexpectedFileRecordSubResponseCount nat nat
  | InvalidDeviceIdentificationContinuation u8 u8
  | DeviceIdentificationPaginationLimit u8

section \<open>Session reuse\<close>

definition NOT_QUIESCENT :: u8 where [simp]: "NOT_QUIESCENT = 0"
definition REUSE_ELIGIBLE :: u8 where [simp]: "REUSE_ELIGIBLE = 1"
definition RETIRED_BASE :: u8 where [simp]: "RETIRED_BASE = 2"

datatype SessionRetirementReason =
    Aborted
  | FinalOwnerDropped
  | ShutdownDeadlineExceeded
  | ShutdownIncomplete
  | BackgroundTaskFailed
  | DispatchCancelled
  | RequestTimedOut
  | SendFailed
  | ResponseExpired
  | UnexpectedResponseUnit
  | UnexpectedResponseFunction
  | MalformedResponse
  | UnknownOrDuplicateResponse
  | ResponseChannelClosed
  | ReaderDisconnected
  | ReaderTransportFailed
  | TypedResponseDataInvalid
  | TypedResponseEchoMismatch

datatype SessionReuseVerdict =
    NotQuiescent
  | ReuseEligible
  | Retire SessionRetirementReason

definition SessionRetirementReason_state :: "SessionRetirementReason \<Rightarrow> u8" where
  "SessionRetirementReason_state self =
     RETIRED_BASE + (case self of
       Aborted \<Rightarrow> 0 | FinalOwnerDropped \<Rightarrow> 1 | ShutdownDeadlineExceeded \<Rightarrow> 2 | ShutdownIncomplete \<Rightarrow> 3
     | BackgroundTaskFailed \<Rightarrow> 4 | DispatchCancelled \<Rightarrow> 5 | RequestTimedOut \<Rightarrow> 6 | SendFailed \<Rightarrow> 7
     | ResponseExpired \<Rightarrow> 8 | UnexpectedResponseUnit \<Rightarrow> 9 | UnexpectedResponseFunction \<Rightarrow> 10
     | MalformedResponse \<Rightarrow> 11 | UnknownOrDuplicateResponse \<Rightarrow> 12 | ResponseChannelClosed \<Rightarrow> 13
     | ReaderDisconnected \<Rightarrow> 14 | ReaderTransportFailed \<Rightarrow> 15 | TypedResponseDataInvalid \<Rightarrow> 16
     | TypedResponseEchoMismatch \<Rightarrow> 17)"

definition SessionRetirementReason_from_state :: "u8 \<Rightarrow> ('e, SessionRetirementReason) res" where
  "SessionRetirementReason_from_state state =
     (if state < RETIRED_BASE then Panic
      else let n = state - RETIRED_BASE in
        if n = 0 then Ok Aborted
        else if n = 1 then Ok FinalOwnerDropped
        else if n = 2 then Ok ShutdownDeadlineExceeded
        else if n = 3 then Ok ShutdownIncomplete
        else if n = 4 then Ok BackgroundTaskFailed
        else if n = 5 then Ok DispatchCancelled
        else if n = 6 then Ok RequestTimedOut
        else if n = 7 then Ok SendFailed
        else if n = 8 then Ok ResponseExpired
        else if n = 9 then Ok UnexpectedResponseUnit
        else if n = 10 then Ok UnexpectedResponseFunction
        else if n = 11 then Ok MalformedResponse
        else if n = 12 then Ok UnknownOrDuplicateResponse
        else if n = 13 then Ok ResponseChannelClosed
        else if n = 14 then Ok ReaderDisconnected
        else if n = 15 then Ok ReaderTransportFailed
        else if n = 16 then Ok TypedResponseDataInvalid
        else if n = 17 then Ok TypedResponseEchoMismatch
        else Panic)"

record SessionReuseSafety =
  state :: u8

definition SessionReuseSafety_new :: SessionReuseSafety where
  "SessionReuseSafety_new = \<lparr>state = NOT_QUIESCENT\<rparr>"

definition SessionReuseSafety_verdict :: "SessionReuseSafety \<Rightarrow> ('e, SessionReuseVerdict) res" where
  "SessionReuseSafety_verdict self =
     (if state self = NOT_QUIESCENT then Ok NotQuiescent
      else if state self = REUSE_ELIGIBLE then Ok ReuseEligible
      else res_map Retire (SessionRetirementReason_from_state (state self)))"

definition SessionReuseSafety_retire :: "SessionRetirementReason \<Rightarrow> SessionReuseSafety \<Rightarrow> SessionReuseSafety" where
  "SessionReuseSafety_retire reason self =
     (if state self \<ge> RETIRED_BASE then self else self\<lparr>state := SessionRetirementReason_state reason\<rparr>)"

definition SessionReuseSafety_mark_clean_shutdown :: "SessionReuseSafety \<Rightarrow> SessionReuseSafety" where
  "SessionReuseSafety_mark_clean_shutdown self =
     (if state self = NOT_QUIESCENT then self\<lparr>state := REUSE_ELIGIBLE\<rparr> else self)"

text \<open>
  \<open>DispatchGuard\<close>: dropping an armed guard retires the session.
\<close>

record DispatchGuard =
  armed :: bool

definition DispatchGuard_armed :: DispatchGuard where
  "DispatchGuard_armed = \<lparr>armed = True\<rparr>"

definition DispatchGuard_disarm :: "DispatchGuard \<Rightarrow> DispatchGuard" where
  "DispatchGuard_disarm self = self\<lparr>armed := False\<rparr>"

definition DispatchGuard_drop :: "DispatchGuard \<Rightarrow> SessionReuseSafety \<Rightarrow> SessionReuseSafety" where
  "DispatchGuard_drop self reuse_safety =
     (if armed self then SessionReuseSafety_retire DispatchCancelled reuse_safety else reuse_safety)"

section \<open>The first reason wins\<close>

lemma state_roundtrip [simp]:
  "SessionRetirementReason_from_state (SessionRetirementReason_state r) = Ok r"
  by (cases r) (simp_all add: SessionRetirementReason_from_state_def SessionRetirementReason_state_def)

lemma state_retired [simp]: "2 \<le> SessionRetirementReason_state r"
  by (cases r) (simp_all add: SessionRetirementReason_state_def)

text \<open>The operations on the record, and the verdict they should give.\<close>

datatype session_op = Op_retire SessionRetirementReason | Op_clean

fun session_apply :: "session_op \<Rightarrow> SessionReuseSafety \<Rightarrow> SessionReuseSafety" where
  "session_apply (Op_retire r) s = SessionReuseSafety_retire r s"
| "session_apply Op_clean s = SessionReuseSafety_mark_clean_shutdown s"

fun first_reason :: "session_op list \<Rightarrow> SessionRetirementReason option" where
  "first_reason [] = None"
| "first_reason (Op_retire r # ops) = Some r"
| "first_reason (Op_clean # ops) = first_reason ops"

lemma retired_stays:
  "2 \<le> state s \<Longrightarrow> fold session_apply ops s = s"
proof (induction ops)
  case (Cons op ops)
  then have "state s \<noteq> 0" by auto
  then show ?case
    using Cons by (cases op) (simp_all add: SessionReuseSafety_retire_def SessionReuseSafety_mark_clean_shutdown_def)
qed simp

lemma session_state:
  "state s < 2 \<Longrightarrow> state (fold session_apply ops s) =
     (case first_reason ops of Some r \<Rightarrow> SessionRetirementReason_state r
      | None \<Rightarrow> if Op_clean \<in> set ops then 1 else state s)"
proof (induction ops arbitrary: s)
  case (Cons op ops)
  show ?case
  proof (cases op)
    case (Op_retire r)
    then show ?thesis
      using Cons.prems retired_stays [of "s\<lparr>state := SessionRetirementReason_state r\<rparr>" ops]
      by (auto simp: SessionReuseSafety_retire_def)
  next
    case Op_clean
    have "state s = 0 \<or> state s = 1"
      using Cons.prems by (auto simp: word_less_nat_alt word_unat_eq_iff less_2_cases_iff)
    then show ?thesis
      using Op_clean Cons.IH [of "SessionReuseSafety_mark_clean_shutdown s"]
      by (auto simp: SessionReuseSafety_mark_clean_shutdown_def split: option.split)
  qed
qed simp

section \<open>Properties\<close>

text \<open>
  C15.  Whatever the client's tasks do to the session record and in whatever order, the verdict is the
  first reason for retirement that was reported, even one reported after a clean shutdown; without
  any, the session is eligible for reuse exactly when a clean shutdown was recorded.  The
  \<open>unreachable!\<close> of \<open>from_state\<close> is not reached.
\<close>

theorem session_first_reason_wins:
  "SessionReuseSafety_verdict (fold session_apply ops SessionReuseSafety_new) =
     Ok (case first_reason ops of Some r \<Rightarrow> Retire r
         | None \<Rightarrow> if Op_clean \<in> set ops then ReuseEligible else NotQuiescent)"
proof -
  have "SessionRetirementReason_state r \<noteq> 0 \<and> SessionRetirementReason_state r \<noteq> 1" for r
    using state_retired [of r] by (auto simp: word_le_nat_alt)
  then show ?thesis
    using session_state [of SessionReuseSafety_new ops]
    by (auto simp: SessionReuseSafety_verdict_def SessionReuseSafety_new_def split: option.split)
qed

end
