(* ===== verification/Transaction.thy ===== *)
theory Transaction
  imports Client_Session
begin

text \<open>
  The transaction manager of the client (\<open>rusty-modbus-client/src/transaction.rs\<close>): up to 16 requests
  in flight, in slots indexed by the transaction ID modulo 16.  An \<open>Instant\<close> is a natural number and
  every reading of the clock is an argument.  A oneshot channel is a number: \<open>inbox\<close> holds
  what was sent on it, and the sender is consumed by sending.  \<open>deadline_changed\<close> is the permit of
  the \<open>Notify\<close>.  A slot is behind a lock of its own, and what the code does between taking and
  releasing one is a definition here (\<open>try_slot\<close>, \<open>take_matching\<close>, \<open>take_oldest\<close>, \<open>cancel_slot\<close>,
  \<open>expire_slot\<close>); the operations are composed of these sections, as a task that runs alone executes
  them.  Their interleaving by concurrent tasks is the subject of \<open>Transaction_Tasks\<close>.
\<close>

section \<open>State\<close>

type_synonym Instant = nat
type_synonym reply = "(ClientError, OwnedResponsePdu) res"

definition MAX_SLOTS :: nat where [simp]: "MAX_SLOTS = 16"

record ExpectedResponse =
  unit_id :: UnitId
  function_code :: FunctionCode

datatype CompletionOutcome =
    Delivered
  | Expired
  | UnknownOrDuplicate
  | UnitMismatch u8 u8
  | FunctionRejected u8 u8
  | CodecRejected DecodeError

record PendingTransaction =
  txn_id :: TransactionId
  sender :: nat
  sent_at :: Instant
  deadline :: Instant
  expected :: ExpectedResponse

record TransactionManager =
  next_id :: u16
  slots :: "PendingTransaction option list"
  deadline_changed :: bool
  reuse_safety :: SessionReuseSafety
  next_channel :: nat
  inbox :: "nat \<rightharpoonup> reply"

fun UnitId_raw :: "UnitId \<Rightarrow> u8" where
  "UnitId_raw (UnitId v) = v"

section \<open>Operations\<close>

definition TransactionManager_new :: TransactionManager where
  "TransactionManager_new =
     \<lparr>next_id = 1, slots = replicate MAX_SLOTS None, deadline_changed = False,
      reuse_safety = SessionReuseSafety_new, next_channel = 0, inbox = Map.empty\<rparr>"

definition retire :: "SessionRetirementReason \<Rightarrow> TransactionManager \<Rightarrow> TransactionManager" where
  "retire reason m = m\<lparr>reuse_safety := SessionReuseSafety_retire reason (reuse_safety m)\<rparr>"

definition notify_one :: "TransactionManager \<Rightarrow> TransactionManager" where
  "notify_one m = m\<lparr>deadline_changed := True\<rparr>"

definition send_reply :: "nat \<Rightarrow> reply \<Rightarrow> TransactionManager \<Rightarrow> TransactionManager" where
  "send_reply ch r m = m\<lparr>inbox := (inbox m)(ch \<mapsto> r)\<rparr>"

definition set_slot :: "nat \<Rightarrow> PendingTransaction option \<Rightarrow> TransactionManager \<Rightarrow> TransactionManager" where
  "set_slot i p m = m\<lparr>slots := (slots m)[i := p]\<rparr>"

definition fetch_add_id :: "TransactionManager \<Rightarrow> TransactionId \<times> TransactionManager" where
  "fetch_add_id m = (next_id m, m\<lparr>next_id := next_id m + 1\<rparr>)"

function next_transaction_id :: "TransactionManager \<Rightarrow> TransactionId \<times> TransactionManager" where
  "next_transaction_id m =
     (case fetch_add_id m of (tid, m) \<Rightarrow> if tid \<noteq> 0 then (tid, m) else next_transaction_id m)"
  by auto
termination by (relation "measure (\<lambda>m. if next_id m = 0 then 1 else 0)") (auto simp: fetch_add_id_def)

declare next_transaction_id.simps [simp del]

text \<open>The section of \<open>register\<close> under the lock of a slot: occupy it, with a new channel, if it is free.\<close>

definition try_slot
  :: "TransactionId \<Rightarrow> UnitId \<Rightarrow> FunctionCode \<Rightarrow> Instant \<Rightarrow> Instant \<Rightarrow> TransactionManager \<Rightarrow> nat option \<times> TransactionManager" where
  "try_slot tid unit fc dl now m =
     (let slot_idx = unat tid mod MAX_SLOTS in
      if slots m ! slot_idx = None
      then let ch = next_channel m;
               p = \<lparr>txn_id = tid, sender = ch, sent_at = now, deadline = dl,
                    expected = \<lparr>unit_id = unit, function_code = fc\<rparr>\<rparr> in
           (Some ch, notify_one (set_slot slot_idx (Some p) (m\<lparr>next_channel := ch + 1\<rparr>)))
      else (None, m))"

text \<open>
  The loop of \<open>register\<close>: \<open>seen\<close> and \<open>seen_count\<close> are the slots that were tried.  The index is
  below 16, so the accesses to the arrays are in range.
\<close>

partial_function (option) register_loop
  :: "UnitId \<Rightarrow> FunctionCode \<Rightarrow> Instant \<Rightarrow> Instant \<Rightarrow> bool list \<Rightarrow> nat \<Rightarrow> TransactionManager
      \<Rightarrow> ((ClientError, TransactionId \<times> nat) res \<times> TransactionManager) option" where
  "register_loop unit fc dl now seen_slots seen_count m =
     (if seen_count < MAX_SLOTS
      then let (tid, m) = next_transaction_id m;
               slot_idx = unat tid mod MAX_SLOTS;
               seen_count = (if seen_slots ! slot_idx then seen_count else seen_count + 1);
               seen_slots = (if seen_slots ! slot_idx then seen_slots else seen_slots[slot_idx := True]) in
           (case try_slot tid unit fc dl now m of
              (Some ch, m) \<Rightarrow> Some (Ok (tid, ch), m)
            | (None, m) \<Rightarrow> register_loop unit fc dl now seen_slots seen_count m)
      else Some (Err (TransactionConflict (next_id m - 1)), m))"

definition register
  :: "UnitId \<Rightarrow> FunctionCode \<Rightarrow> Instant \<Rightarrow> Instant \<Rightarrow> TransactionManager
      \<Rightarrow> ((ClientError, TransactionId \<times> nat) res \<times> TransactionManager) option" where
  "register unit fc dl now m = register_loop unit fc dl now (replicate MAX_SLOTS False) 0 m"

text \<open>The guard a request future owns; dropping it removes its own slot, and no other.\<close>

record TransactionRegistration =
  registration_id :: TransactionId

definition register_guarded
  :: "UnitId \<Rightarrow> FunctionCode \<Rightarrow> Instant \<Rightarrow> Instant \<Rightarrow> TransactionManager
      \<Rightarrow> ((ClientError, TransactionRegistration \<times> nat) res \<times> TransactionManager) option" where
  "register_guarded unit fc dl now m =
     map_option (\<lambda>(r, m). (res_map (\<lambda>(tid, ch). (\<lparr>registration_id = tid\<rparr>, ch)) r, m)) (register unit fc dl now m)"

definition transaction_id :: "TransactionRegistration \<Rightarrow> TransactionId" where
  "transaction_id g = registration_id g"

definition deliver_response
  :: "PendingTransaction \<Rightarrow> UnitId \<Rightarrow> bytes \<Rightarrow> TransactionManager \<Rightarrow> (ClientError, CompletionOutcome) res \<times> TransactionManager" where
  "deliver_response pending response_unit_id raw m =
     (let expected_unit_id = UnitId_raw (unit_id (expected pending));
          got_unit_id = UnitId_raw response_unit_id in
      if expected_unit_id \<noteq> got_unit_id
      then (Ok (UnitMismatch expected_unit_id got_unit_id),
            send_reply (sender pending) (Err (UnexpectedResponseUnitId expected_unit_id got_unit_id))
              (retire UnexpectedResponseUnit m))
      else case OwnedResponsePdu_from_pdu raw of
        Panic \<Rightarrow> (Panic, m)
      | Err e \<Rightarrow> (Ok (CodecRejected e), send_reply (sender pending) (Err (Codec e)) (retire MalformedResponse m))
      | Ok response \<Rightarrow>
          let exp = FunctionCode_code (function_code (expected pending));
              got = OwnedResponsePdu_function_code response in
          if got \<noteq> exp \<and> got \<noteq> exp OR 0x80
          then (Ok (FunctionRejected exp got),
                send_reply (sender pending) (Err (UnexpectedResponse exp got)) (retire UnexpectedResponseFunction m))
          else (Ok Delivered, send_reply (sender pending) (Ok response) m))"

text \<open>
  The section under the lock of a slot that takes the transaction with an exact identifier out of it,
  and what the completing task does with a transaction it took: \<open>now\<close> was read under the lock.
\<close>

definition take_matching :: "TransactionId \<Rightarrow> TransactionManager \<Rightarrow> PendingTransaction option \<times> TransactionManager" where
  "take_matching tid m =
     (let slot_idx = unat tid mod MAX_SLOTS in
      case slots m ! slot_idx of
        None \<Rightarrow> (None, m)
      | Some pending \<Rightarrow> if txn_id pending \<noteq> tid then (None, m) else (Some pending, set_slot slot_idx None m))"

definition finish_response
  :: "PendingTransaction \<Rightarrow> Instant \<Rightarrow> UnitId \<Rightarrow> bytes \<Rightarrow> TransactionManager
      \<Rightarrow> (ClientError, CompletionOutcome) res \<times> TransactionManager" where
  "finish_response pending now response_unit_id raw m =
     (let m = notify_one m in
      if deadline pending \<le> now
      then (Ok Expired, send_reply (sender pending) (Err ClientError.Timeout) (retire ResponseExpired m))
      else deliver_response pending response_unit_id raw m)"

definition complete_response
  :: "TransactionId \<Rightarrow> UnitId \<Rightarrow> bytes \<Rightarrow> Instant \<Rightarrow> TransactionManager
      \<Rightarrow> (ClientError, CompletionOutcome) res \<times> TransactionManager" where
  "complete_response tid response_unit_id raw now m =
     (case take_matching tid m of
        (None, m) \<Rightarrow> (Ok UnknownOrDuplicate, retire UnknownOrDuplicateResponse m)
      | (Some pending, m) \<Rightarrow> finish_response pending now response_unit_id raw m)"

text \<open>The scan for the oldest transaction: the first slot with the least \<open>sent_at\<close>.\<close>

fun oldest_slot :: "(nat \<times> PendingTransaction option) list \<Rightarrow> (nat \<times> Instant) option \<Rightarrow> (nat \<times> Instant) option" where
  "oldest_slot [] oldest = oldest"
| "oldest_slot ((idx, slot) # rest) oldest =
     (case slot of
        None \<Rightarrow> oldest_slot rest oldest
      | Some p \<Rightarrow>
          if (case oldest of None \<Rightarrow> True | Some (_, t) \<Rightarrow> sent_at p < t)
          then oldest_slot rest (Some (idx, sent_at p)) else oldest_slot rest oldest)"

text \<open>The section under the lock of the slot that was found; the outcome is on the left if nothing was taken.\<close>

definition take_oldest
  :: "nat \<Rightarrow> UnitId \<Rightarrow> Instant \<Rightarrow> TransactionManager \<Rightarrow> (CompletionOutcome + PendingTransaction) \<times> TransactionManager" where
  "take_oldest idx response_unit_id now m =
     (case slots m ! idx of
        None \<Rightarrow> (Inl UnknownOrDuplicate, retire UnknownOrDuplicateResponse m)
      | Some pending \<Rightarrow>
          if deadline pending \<le> now then (Inr pending, set_slot idx None m)
          else let exp = UnitId_raw (unit_id (expected pending)); got = UnitId_raw response_unit_id in
          if exp \<noteq> got then (Inl (UnitMismatch exp got), retire UnexpectedResponseUnit m)
          else (Inr pending, set_slot idx None m))"

definition complete_oldest_response
  :: "UnitId \<Rightarrow> bytes \<Rightarrow> Instant \<Rightarrow> TransactionManager \<Rightarrow> (ClientError, CompletionOutcome) res \<times> TransactionManager" where
  "complete_oldest_response response_unit_id raw now m =
     (case oldest_slot (enumerate 0 (slots m)) None of
        None \<Rightarrow> (Ok UnknownOrDuplicate, retire UnknownOrDuplicateResponse m)
      | Some (idx, _) \<Rightarrow>
          case take_oldest idx response_unit_id now m of
            (Inl out, m) \<Rightarrow> (Ok out, m)
          | (Inr pending, m) \<Rightarrow> finish_response pending now response_unit_id raw m)"

definition remove :: "TransactionId \<Rightarrow> TransactionManager \<Rightarrow> bool \<times> TransactionManager" where
  "remove tid m =
     (case take_matching tid m of
        (None, m) \<Rightarrow> (False, m)
      | (Some _, m) \<Rightarrow> (True, notify_one m))"

definition TransactionRegistration_drop :: "TransactionRegistration \<Rightarrow> TransactionManager \<Rightarrow> TransactionManager" where
  "TransactionRegistration_drop g m = snd (remove (registration_id g) m)"

text \<open>The bodies of the loops of \<open>cancel_all\<close> and of the deadline scheduler, each under the lock of its slot.\<close>

definition cancel_slot :: "nat \<Rightarrow> ClientError \<Rightarrow> TransactionManager \<Rightarrow> bool \<times> TransactionManager" where
  "cancel_slot i e m =
     (case slots m ! i of
        None \<Rightarrow> (False, m)
      | Some pending \<Rightarrow> (True, send_reply (sender pending) (Err e) (set_slot i None m)))"

definition expire_slot
  :: "nat \<Rightarrow> Instant \<Rightarrow> Instant option \<Rightarrow> TransactionManager \<Rightarrow> bool \<times> Instant option \<times> TransactionManager" where
  "expire_slot i now nearest m =
     (case slots m ! i of
        None \<Rightarrow> (False, nearest, m)
      | Some pending \<Rightarrow>
          if deadline pending \<le> now
          then (True, nearest,
                send_reply (sender pending) (Err ClientError.Timeout) (retire RequestTimedOut (set_slot i None m)))
          else if (case nearest of None \<Rightarrow> True | Some current \<Rightarrow> deadline pending < current)
          then (False, Some (deadline pending), m)
          else (False, nearest, m))"

fun cancel_slots :: "nat list \<Rightarrow> ClientError \<Rightarrow> bool \<Rightarrow> TransactionManager \<Rightarrow> bool \<times> TransactionManager" where
  "cancel_slots [] e cancelled m = (cancelled, m)"
| "cancel_slots (i # is) e cancelled m = (case cancel_slot i e m of (b, m) \<Rightarrow> cancel_slots is e (cancelled \<or> b) m)"

definition cancel_all :: "ClientError \<Rightarrow> TransactionManager \<Rightarrow> TransactionManager" where
  "cancel_all e m =
     (case cancel_slots [0..<MAX_SLOTS] e False m of (cancelled, m) \<Rightarrow> if cancelled then notify_one m else m)"

fun expire_slots
  :: "nat list \<Rightarrow> Instant \<Rightarrow> bool \<Rightarrow> Instant option \<Rightarrow> TransactionManager \<Rightarrow> bool \<times> Instant option \<times> TransactionManager" where
  "expire_slots [] now expired nearest m = (expired, nearest, m)"
| "expire_slots (i # is) now expired nearest m =
     (case expire_slot i now nearest m of (b, nearest, m) \<Rightarrow> expire_slots is now (expired \<or> b) nearest m)"

definition expire_due_and_next_deadline :: "Instant \<Rightarrow> TransactionManager \<Rightarrow> Instant option \<times> TransactionManager" where
  "expire_due_and_next_deadline now m =
     (case expire_slots [0..<MAX_SLOTS] now False None m of (expired, nearest, m) \<Rightarrow>
        (nearest, if expired then notify_one m else m))"

definition pending_count :: "TransactionManager \<Rightarrow> nat" where
  "pending_count m = length (filter (\<lambda>s. s \<noteq> None) (slots m))"

end
