(* ===== verification/Transaction_Laws.thy ===== *)
theory Transaction_Laws
  imports Transaction
begin

text \<open>
  Laws of the transaction manager: its operations one by one, and the invariant of its slots and
  channels.  The invariant is shown for \<open>mgr_step\<close>, the changes to slots and channels the code is made of,
  without the conditions it makes them under; a transaction that was taken out of its slot and not yet
  answered is held by a task.  That the code makes no other changes is shown for every section
  and every operation.
\<close>

section \<open>Changes of slots and channels\<close>

inductive mgr_step
  :: "TransactionManager \<times> PendingTransaction list \<Rightarrow> TransactionManager \<times> PendingTransaction list \<Rightarrow> bool" where
  take_id: "mgr_step (m, H) (m\<lparr>next_id := next_id m + 1\<rparr>, H)"
| occupy: "tid \<noteq> 0 \<Longrightarrow> slots m ! (unat tid mod 16) = None \<Longrightarrow> txn_id p = tid \<Longrightarrow> sender p = next_channel m \<Longrightarrow>
    mgr_step (m, H) (set_slot (unat tid mod 16) (Some p) (m\<lparr>next_channel := next_channel m + 1\<rparr>), H)"
| take_slot: "i < 16 \<Longrightarrow> slots m ! i = Some p \<Longrightarrow> mgr_step (m, H) (set_slot i None m, p # H)"
| answer: "p \<in> set H \<Longrightarrow> mgr_step (m, H) (send_reply (sender p) r m, remove1 p H)"
| forget: "p \<in> set H \<Longrightarrow> mgr_step (m, H) (m, remove1 p H)"
| retire: "mgr_step (m, H) (retire reason m, H)"
| notify: "mgr_step (m, H) (notify_one m, H)"

inductive_cases mgr_stepE: "mgr_step (m, H) c"

definition pending :: "TransactionManager \<Rightarrow> PendingTransaction list" where
  "pending m = map the (filter (\<lambda>s. s \<noteq> None) (slots m))"

definition slots_ok :: "TransactionManager \<Rightarrow> bool" where
  "slots_ok m \<longleftrightarrow> length (slots m) = 16
     \<and> (\<forall>i < 16. \<forall>p. slots m ! i = Some p \<longrightarrow> unat (txn_id p) mod 16 = i \<and> txn_id p \<noteq> 0)"

fun mgr_inv :: "TransactionManager \<times> PendingTransaction list \<Rightarrow> bool" where
  "mgr_inv (m, H) \<longleftrightarrow> slots_ok m
     \<and> distinct (map sender (pending m @ H))
     \<and> (\<forall>p \<in> set (pending m @ H). sender p < next_channel m \<and> inbox m (sender p) = None)
     \<and> dom (inbox m) \<subseteq> {..<next_channel m}"

lemma manager_ops_simps [simp]:
  "slots (retire r m) = slots m" "inbox (retire r m) = inbox m" "next_channel (retire r m) = next_channel m"
  "slots (notify_one m) = slots m" "inbox (notify_one m) = inbox m" "next_channel (notify_one m) = next_channel m"
  "slots (send_reply c x m) = slots m" "next_channel (send_reply c x m) = next_channel m"
  "inbox (send_reply c x m) = (inbox m)(c \<mapsto> x)"
  "slots (set_slot i p m) = (slots m)[i := p]" "inbox (set_slot i p m) = inbox m"
  "next_channel (set_slot i p m) = next_channel m" "next_id (set_slot i p m) = next_id m"
  by (simp_all add: retire_def notify_one_def send_reply_def set_slot_def)

text \<open>The operations with their sections written out.\<close>

lemma complete_response_unfold:
  "complete_response tid u raw now m =
     (case slots m ! (unat tid mod 16) of
        None \<Rightarrow> (Ok UnknownOrDuplicate, retire UnknownOrDuplicateResponse m)
      | Some p \<Rightarrow>
          if txn_id p \<noteq> tid then (Ok UnknownOrDuplicate, retire UnknownOrDuplicateResponse m)
          else finish_response p now u raw (set_slot (unat tid mod 16) None m))"
  by (simp add: complete_response_def take_matching_def Let_def split: option.split)

lemma complete_oldest_response_unfold:
  "complete_oldest_response u raw now m =
     (case oldest_slot (enumerate 0 (slots m)) None of
        None \<Rightarrow> (Ok UnknownOrDuplicate, retire UnknownOrDuplicateResponse m)
      | Some (i, _) \<Rightarrow>
          (case slots m ! i of
             None \<Rightarrow> (Ok UnknownOrDuplicate, retire UnknownOrDuplicateResponse m)
           | Some p \<Rightarrow>
               if now < deadline p \<and> UnitId_raw (unit_id (expected p)) \<noteq> UnitId_raw u
               then (Ok (UnitMismatch (UnitId_raw (unit_id (expected p))) (UnitId_raw u)), retire UnexpectedResponseUnit m)
               else finish_response p now u raw (set_slot i None m)))"
  by (auto simp: complete_oldest_response_def take_oldest_def Let_def split: option.split)

lemma remove_unfold:
  "remove tid m =
     (case slots m ! (unat tid mod 16) of
        None \<Rightarrow> (False, m)
      | Some p \<Rightarrow> if txn_id p \<noteq> tid then (False, m) else (True, notify_one (set_slot (unat tid mod 16) None m)))"
  by (simp add: remove_def take_matching_def Let_def split: option.split)

lemma cancel_slots_unfold [simp]:
  "cancel_slots (i # is) e b m =
     (case slots m ! i of
        None \<Rightarrow> cancel_slots is e b m
      | Some p \<Rightarrow> cancel_slots is e True (send_reply (sender p) (Err e) (set_slot i None m)))"
  by (simp add: cancel_slot_def split: option.split)

lemma expire_slots_unfold [simp]:
  "expire_slots (i # is) now b nearest m =
     (case slots m ! i of
        None \<Rightarrow> expire_slots is now b nearest m
      | Some p \<Rightarrow>
          if deadline p \<le> now
          then expire_slots is now True nearest
                 (send_reply (sender p) (Err ClientError.Timeout) (retire RequestTimedOut (set_slot i None m)))
          else if (case nearest of None \<Rightarrow> True | Some current \<Rightarrow> deadline p < current)
          then expire_slots is now b (Some (deadline p)) m
          else expire_slots is now b nearest m)"
  by (simp add: expire_slot_def split: option.split)

declare cancel_slots.simps(2) [simp del] expire_slots.simps(2) [simp del]

lemma pending_cong: "slots m = slots m' \<Longrightarrow> pending m = pending m'"
  by (simp add: pending_def)

lemma pending_split:
  assumes "i < length (slots m)" "slots m' = (slots m)[i := q]"
  obtains xs ys where "pending m = xs @ (case slots m ! i of None \<Rightarrow> [] | Some p \<Rightarrow> [p]) @ ys"
    "pending m' = xs @ (case q of None \<Rightarrow> [] | Some p \<Rightarrow> [p]) @ ys"
proof -
  let ?f = "\<lambda>l. map the (filter (\<lambda>s. s \<noteq> None) l)"
  have "pending m = ?f (take i (slots m)) @ (case slots m ! i of None \<Rightarrow> [] | Some p \<Rightarrow> [p]) @ ?f (drop (Suc i) (slots m))"
    unfolding pending_def by (subst id_take_nth_drop [OF assms(1)]) (auto split: option.split)
  moreover have "pending m' = ?f (take i (slots m)) @ (case q of None \<Rightarrow> [] | Some p \<Rightarrow> [p]) @ ?f (drop (Suc i) (slots m))"
    unfolding pending_def assms(2) upd_conv_take_nth_drop [OF assms(1)] by (auto split: option.split)
  ultimately show ?thesis by (rule that)
qed

lemma pending_nth: "p \<in> set (pending m) \<longleftrightarrow> (\<exists>i < length (slots m). slots m ! i = Some p)"
  by (auto simp: pending_def in_set_conv_nth image_iff)

section \<open>The invariant\<close>

lemma new_inv: "mgr_inv (TransactionManager_new, [])"
  by (simp add: TransactionManager_new_def slots_ok_def pending_def)

lemma slots_ok_set:
  assumes "slots_ok m" "\<And>p. q = Some p \<Longrightarrow> unat (txn_id p) mod 16 = i \<and> txn_id p \<noteq> 0" "slots m' = (slots m)[i := q]"
  shows "slots_ok m'"
  unfolding slots_ok_def assms(3)
proof (intro conjI allI impI)
  fix j p assume j: "j < 16" "(slots m)[i := q] ! j = Some p"
  then have "unat (txn_id p) mod 16 = j \<and> txn_id p \<noteq> 0"
    using assms(1,2) by (cases "j = i") (auto simp: slots_ok_def)
  then show "unat (txn_id p) mod 16 = j" "txn_id p \<noteq> 0" by auto
qed (use assms(1) in \<open>simp add: slots_ok_def\<close>)

lemma remove1_split:
  assumes "p \<in> set H"
  obtains xs ys where "H = xs @ p # ys" "remove1 p H = xs @ ys"
  using split_list_first [OF assms] by (auto simp: remove1_append)

lemma step_inv:
  assumes "mgr_step c c'" "mgr_inv c"
  shows "mgr_inv c'"
  using assms
proof (induction rule: mgr_step.induct)
  case (occupy tid m p H)
  let ?i = "unat tid mod 16" and ?m = "set_slot (unat tid mod 16) (Some p) (m\<lparr>next_channel := next_channel m + 1\<rparr>)"
  have len: "?i < length (slots m)" using occupy.prems by (simp add: slots_ok_def)
  obtain xs ys where split: "pending m = xs @ ys" "pending ?m = xs @ p # ys"
    by (rule pending_split [OF len, of ?m "Some p"]) (simp_all add: occupy(2))
  have ok: "slots_ok m" using occupy.prems by simp
  have "slots_ok ?m" by (rule slots_ok_set [OF ok, of "Some p" ?i]) (use occupy(1,3) in simp_all)
  moreover have old: "sender q < next_channel m \<and> inbox m (sender q) = None" if "q \<in> set (pending m @ H)" for q
    using occupy.prems that by simp
  moreover have "distinct (map sender (pending m @ H))" "dom (inbox m) \<subseteq> {..<next_channel m}"
    using occupy.prems by simp_all
  moreover have "sender p \<notin> sender ` set (pending m @ H)" using old occupy(4) by force
  moreover have "inbox m (next_channel m) = None" using calculation(4) by (auto simp: domIff subset_iff)
  ultimately show ?case
    unfolding mgr_inv.simps split using occupy(4) by (auto simp: less_Suc_eq split(1))
next
  case (take_slot i m p H)
  have len: "i < length (slots m)" using take_slot by (simp add: slots_ok_def)
  obtain xs ys where split: "pending m = xs @ p # ys" "pending (set_slot i None m) = xs @ ys"
    by (rule pending_split [OF len, of "set_slot i None m" None]) (simp_all add: take_slot(2))
  have ok: "slots_ok m" using take_slot.prems by simp
  have "slots_ok (set_slot i None m)" by (rule slots_ok_set [OF ok, of None i]) simp_all
  then show ?case using take_slot.prems unfolding mgr_inv.simps split by auto
next
  case (answer p H m r)
  obtain xs ys where split: "H = xs @ p # ys" "remove1 p H = xs @ ys" using answer(1) by (rule remove1_split)
  have "pending (send_reply (sender p) r m) = pending m" "slots_ok (send_reply (sender p) r m) = slots_ok m"
    by (simp_all add: pending_def slots_ok_def)
  moreover have "mgr_inv (m, xs @ p # ys)" using answer.prems split(1) by (simp only:)
  ultimately have "mgr_inv (send_reply (sender p) r m, xs @ ys)" by (auto simp: image_iff)
  then show ?case by (simp only: split(2))
next
  case (forget p H m)
  obtain xs ys where split: "H = xs @ p # ys" "remove1 p H = xs @ ys" using forget(1) by (rule remove1_split)
  moreover have "mgr_inv (m, xs @ p # ys)" using forget.prems split(1) by (simp only:)
  ultimately have "mgr_inv (m, xs @ ys)" by auto
  then show ?case by (simp only: split(2))
qed (auto simp: slots_ok_def pending_def)

lemma steps_inv: "mgr_step\<^sup>*\<^sup>* c c' \<Longrightarrow> mgr_inv c \<Longrightarrow> mgr_inv c'"
  by (induction rule: rtranclp_induct) (auto intro: step_inv)

lemma step_inbox:
  assumes "mgr_step c c'" "mgr_inv c"
  shows "inbox (fst c) \<subseteq>\<^sub>m inbox (fst c')"
  using assms
proof (induction rule: mgr_step.induct)
  case (answer p H m r)
  then have "inbox m (sender p) = None" by auto
  then show ?case by (auto simp: map_le_def)
qed simp_all

lemma steps_inbox: "mgr_step\<^sup>*\<^sup>* c c' \<Longrightarrow> mgr_inv c \<Longrightarrow> inbox (fst c) \<subseteq>\<^sub>m inbox (fst c')"
proof (induction rule: rtranclp_induct)
  case (step c' c'')
  then show ?case using step_inbox [OF step(2) steps_inv [OF step(1)]] map_le_trans by blast
qed simp

lemma pending_ids_distinct:
  "slots_ok m \<Longrightarrow> i < 16 \<Longrightarrow> j < 16 \<Longrightarrow> slots m ! i = Some p \<Longrightarrow> slots m ! j = Some q \<Longrightarrow> txn_id p = txn_id q \<Longrightarrow> i = j"
  unfolding slots_ok_def by metis

section \<open>Operations as runs of steps\<close>

lemma run_trans [trans]: "mgr_step\<^sup>*\<^sup>* a b \<Longrightarrow> mgr_step\<^sup>*\<^sup>* b c \<Longrightarrow> mgr_step\<^sup>*\<^sup>* a c"
  by (rule rtranclp_trans)

lemma run_retire: "mgr_step\<^sup>*\<^sup>* (m, H) (retire r m, H)"
  by (rule r_into_rtranclp) (rule mgr_step.retire)

lemma run_notify: "mgr_step\<^sup>*\<^sup>* (m, H) (notify_one m, H)"
  by (rule r_into_rtranclp) (rule mgr_step.notify)

lemma run_take: "i < 16 \<Longrightarrow> slots m ! i = Some p \<Longrightarrow> mgr_step\<^sup>*\<^sup>* (m, H) (set_slot i None m, p # H)"
  by (rule r_into_rtranclp) (rule mgr_step.take_slot)

lemma run_answer: "mgr_step\<^sup>*\<^sup>* (m, p # H) (send_reply (sender p) r m, H)"
  using mgr_step.answer [of p "p # H" m r] by (simp add: r_into_rtranclp)

lemma run_forget: "mgr_step\<^sup>*\<^sup>* (m, p # H) (m, H)"
  using mgr_step.forget [of p "p # H" m] by (simp add: r_into_rtranclp)

lemma next_transaction_id_eq:
  "next_transaction_id m =
     (let tid = (if next_id m = 0 then 1 else next_id m) in (tid, m\<lparr>next_id := tid + 1\<rparr>))"
  by (cases "next_id m = 0")
    (simp_all add: next_transaction_id.simps [of m] next_transaction_id.simps [of "m\<lparr>next_id := 1\<rparr>"]
      fetch_add_id_def Let_def)

lemma next_transaction_id_run:
  assumes "next_transaction_id m = (tid, m')"
  shows "tid \<noteq> 0" "mgr_step\<^sup>*\<^sup>* (m, H) (m', H)" "slots m' = slots m" "next_channel m' = next_channel m"
    "inbox m' = inbox m" "reuse_safety m' = reuse_safety m"
proof -
  have m': "tid = (if next_id m = 0 then 1 else next_id m)" "m' = m\<lparr>next_id := tid + 1\<rparr>"
    using assms by (auto simp: next_transaction_id_eq Let_def)
  then show "tid \<noteq> 0" "slots m' = slots m" "next_channel m' = next_channel m" "inbox m' = inbox m"
    "reuse_safety m' = reuse_safety m" by auto
  have step: "mgr_step (m, H) (m\<lparr>next_id := next_id m + 1\<rparr>, H)" for m by (rule mgr_step.take_id)
  show "mgr_step\<^sup>*\<^sup>* (m, H) (m', H)"
  proof (cases "next_id m = 0")
    case True
    then have "mgr_step (m, H) (m\<lparr>next_id := 1\<rparr>, H)" "mgr_step (m\<lparr>next_id := 1\<rparr>, H) (m', H)"
      using step [of m] step [of "m\<lparr>next_id := 1\<rparr>"] m' by simp_all
    then show ?thesis by (meson r_into_rtranclp rtranclp.rtrancl_into_rtrancl)
  next
    case False
    then show ?thesis using step [of m] m' by (simp add: r_into_rtranclp)
  qed
qed

section \<open>Registration\<close>

text \<open>
  The value of \<open>next_id\<close> after \<open>d\<close> allocations; the identifier handed out next skips zero.
\<close>

definition nonzero :: "u16 \<Rightarrow> u16" where
  "nonzero n = (if n = 0 then 1 else n)"

fun advance :: "u16 \<Rightarrow> nat \<Rightarrow> u16" where
  "advance n 0 = n"
| "advance n (Suc d) = advance (nonzero n + 1) d"

lemma next_transaction_id_nonzero:
  "next_transaction_id m = (nonzero (next_id m), m\<lparr>next_id := nonzero (next_id m) + 1\<rparr>)"
  by (simp add: next_transaction_id_eq nonzero_def Let_def)

lemma advance_add: "advance n (a + b) = advance (advance n a) b"
  by (induction n a rule: advance.induct) simp_all

lemma advance_nonwrap: "n \<noteq> 0 \<Longrightarrow> unat n + d \<le> 65536 \<Longrightarrow> advance n d = n + of_nat d"
proof (induction n d rule: advance.induct)
  case (2 n d)
  show ?case
  proof (cases "d = 0")
    case False
    then have "unat n + 1 < 65536" using "2.prems"(2) by simp
    then have u: "unat (n + 1) = unat n + 1" by (simp add: unat_word_ariths)
    then have "n + 1 \<noteq> 0" by auto
    then show ?thesis using 2 u by (simp add: nonzero_def)
  qed (use 2 in \<open>simp add: nonzero_def\<close>)
qed simp

lemma every_slot_reached:
  assumes "i < 16"
  obtains d where "unat (nonzero (advance n d)) mod 16 = i"
proof -
  let ?b = "if i = 0 then 15 else i - 1"
  have reach0: "\<exists>a. advance n a = 0"
  proof (cases "n = 0")
    case False
    have "n + of_nat (65536 - unat n) = of_nat (unat n + (65536 - unat n))" by (simp only: of_nat_add of_nat_unat) simp
    also have "unat n + (65536 - unat n) = 65536" using unat_u16_lt [of n] by linarith
    finally have "n + of_nat (65536 - unat n) = 0" by simp
    moreover have "unat n + (65536 - unat n) \<le> 65536" using unat_u16_lt [of n] by linarith
    ultimately have "advance n (65536 - unat n) = 0" using advance_nonwrap [OF False, of "65536 - unat n"] by (simp only:)
    then show ?thesis by blast
  qed (use advance.simps(1) in blast)
  then obtain a where a: "advance n a = 0" by blast
  have "nonzero (advance 0 k) = of_nat (Suc k)" if "k < 16" for k
  proof (cases k)
    case (Suc j)
    have "advance 0 k = 2 + of_nat j" using advance_nonwrap [of 2 j] that by (simp add: Suc nonzero_def)
    moreover have "(2 + of_nat j :: u16) = of_nat (Suc k)" by (simp add: Suc)
    moreover have "unat (of_nat (Suc k) :: u16) = Suc k"
      using that by (simp only: unat_of_nat) (simp add: take_bit_nat_eq_self)
    ultimately show ?thesis by (auto simp: nonzero_def)
  qed (simp add: nonzero_def)
  then have "nonzero (advance n (a + ?b)) = of_nat (Suc ?b)" using assms by (simp add: advance_add a)
  moreover have "unat (of_nat (Suc ?b) :: u16) = Suc ?b"
    using assms by (simp only: unat_of_nat) (simp add: take_bit_nat_eq_self)
  ultimately have "unat (nonzero (advance n (a + ?b))) mod 16 = i" using assms by auto
  then show ?thesis by (rule that)
qed

text \<open>The outcome of a registration, alone: a free slot is taken, or there is none.\<close>

definition registered
  :: "UnitId \<Rightarrow> FunctionCode \<Rightarrow> Instant \<Rightarrow> Instant \<Rightarrow> TransactionManager
      \<Rightarrow> (ClientError, TransactionId \<times> nat) res \<Rightarrow> TransactionManager \<Rightarrow> bool" where
  "registered unit fc dl now m r m' \<longleftrightarrow>
     (case r of
        Ok (tid, ch) \<Rightarrow> tid \<noteq> 0 \<and> slots m ! (unat tid mod 16) = None \<and> ch = next_channel m
          \<and> slots m' = (slots m)[unat tid mod 16 := Some \<lparr>txn_id = tid, sender = ch, sent_at = now, deadline = dl,
              expected = \<lparr>unit_id = unit, function_code = fc\<rparr>\<rparr>]
          \<and> next_channel m' = Suc ch \<and> deadline_changed m'
      | Err e \<Rightarrow> (\<forall>i < 16. slots m ! i \<noteq> None) \<and> (\<exists>t. e = TransactionConflict t) \<and> slots m' = slots m
          \<and> next_channel m' = next_channel m
      | Panic \<Rightarrow> False)
     \<and> inbox m' = inbox m \<and> reuse_safety m' = reuse_safety m"

lemma register_loop_unfold:
  assumes "c < 16" "next_transaction_id m = (tid, m')"
  shows "register_loop unit fc dl now seen c m =
    (let i = unat tid mod 16; c' = (if seen ! i then c else c + 1); seen' = (if seen ! i then seen else seen[i := True]) in
     if slots m ! i = None
     then Some (Ok (tid, next_channel m), notify_one (set_slot i
            (Some \<lparr>txn_id = tid, sender = next_channel m, sent_at = now, deadline = dl,
               expected = \<lparr>unit_id = unit, function_code = fc\<rparr>\<rparr>) (m'\<lparr>next_channel := next_channel m + 1\<rparr>)))
     else register_loop unit fc dl now seen' c' m')"
  using assms next_transaction_id_run(3,4) [OF assms(2)]
  by (subst register_loop.simps) (simp add: Let_def try_slot_def)

lemma register_found:
  fixes m m' :: TransactionManager and unit :: UnitId and fc :: FunctionCode and dl now :: Instant
  assumes "next_transaction_id m = (tid, m')" "slots m ! (unat tid mod 16) = None"
    and p: "p = \<lparr>txn_id = tid, sender = next_channel m, sent_at = now, deadline = dl,
               expected = \<lparr>unit_id = unit, function_code = fc\<rparr>\<rparr>"
    and m'': "m'' = notify_one (set_slot (unat tid mod 16) (Some p) (m'\<lparr>next_channel := next_channel m + 1\<rparr>))"
  shows "registered unit fc dl now m (Ok (tid, next_channel m)) m'' \<and> mgr_step\<^sup>*\<^sup>* (m, H) (m'', H)"
proof -
  note run = next_transaction_id_run [OF assms(1)]
  have "mgr_step (m', H) (set_slot (unat tid mod 16) (Some p) (m'\<lparr>next_channel := next_channel m' + 1\<rparr>), H)"
    using run assms(2) by (intro mgr_step.occupy) (simp_all add: p)
  moreover have "mgr_step (c, H) (notify_one c, H)" for c by (rule mgr_step.notify)
  ultimately have "mgr_step\<^sup>*\<^sup>* (m, H) (m'', H)"
    unfolding m'' run(4) [symmetric] using run(2) by (meson rtranclp.rtrancl_into_rtrancl)
  moreover have "registered unit fc dl now m (Ok (tid, next_channel m)) m''"
    using run assms(2) by (simp add: registered_def m'' p notify_one_def set_slot_def)
  ultimately show ?thesis by simp
qed

lemma registered_cong:
  assumes "slots m' = slots m" "next_channel m' = next_channel m" "inbox m' = inbox m" "reuse_safety m' = reuse_safety m"
  shows "registered unit fc dl now m' = registered unit fc dl now m"
  by (intro ext) (simp only: registered_def assms)

definition seen_ok :: "bool list \<Rightarrow> nat \<Rightarrow> TransactionManager \<Rightarrow> bool" where
  "seen_ok seen c m \<longleftrightarrow> length seen = 16 \<and> length (slots m) = 16 \<and> c = length (filter (\<lambda>b. b) seen)
     \<and> (\<forall>i < 16. seen ! i \<longrightarrow> slots m ! i \<noteq> None)"

lemma all_seen: "seen_ok seen c m \<Longrightarrow> \<not> c < 16 \<Longrightarrow> i < 16 \<Longrightarrow> seen ! i"
  using length_filter_less [of False seen "\<lambda>b. b"]
  by (cases "seen ! i") (auto simp: seen_ok_def, metis nth_mem)

lemma some_unseen: "seen_ok seen c m \<Longrightarrow> c < 16 \<Longrightarrow> \<exists>i < 16. \<not> seen ! i"
  using filter_True [of seen "\<lambda>b. b"] by (metis in_set_conv_nth order_less_irrefl seen_ok_def)

lemma seen_ok_mark:
  assumes "seen_ok seen c m" "i < 16" "\<not> seen ! i" "slots m ! i \<noteq> None"
  shows "seen_ok (seen[i := True]) (c + 1) m"
proof -
  have i: "i < length seen" using assms by (simp add: seen_ok_def)
  have "length (filter (\<lambda>b. b) (seen[i := True])) = Suc (length (filter (\<lambda>b. b) seen))"
    unfolding upd_conv_take_nth_drop [OF i] using assms(3) by (subst (3) id_take_nth_drop [OF i]) simp
  then show ?thesis using assms by (auto simp: seen_ok_def nth_list_update)
qed

definition register_returns
  :: "UnitId \<Rightarrow> FunctionCode \<Rightarrow> Instant \<Rightarrow> Instant \<Rightarrow> PendingTransaction list \<Rightarrow> bool list \<Rightarrow> nat \<Rightarrow> TransactionManager \<Rightarrow> bool" where
  "register_returns unit fc dl now H seen c m \<longleftrightarrow> (\<exists>r m'. register_loop unit fc dl now seen c m = Some (r, m')
     \<and> registered unit fc dl now m r m' \<and> mgr_step\<^sup>*\<^sup>* (m, H) (m', H))"

lemma register_iterate:
  fixes m :: TransactionManager
  assumes "c < 16" and i: "i = unat (nonzero (next_id m)) mod 16"
    and m': "m' = m\<lparr>next_id := nonzero (next_id m) + 1\<rparr>"
    and iter: "slots m ! i \<noteq> None \<Longrightarrow> register_returns unit fc dl now H
      (if seen ! i then seen else seen[i := True]) (if seen ! i then c else c + 1) m'"
  shows "register_returns unit fc dl now H seen c m"
proof -
  have nt: "next_transaction_id m = (nonzero (next_id m), m')" by (simp add: next_transaction_id_nonzero m')
  note loop = register_loop_unfold [OF assms(1) nt, folded i] and run = next_transaction_id_run [OF nt]
  show ?thesis
  proof (cases "slots m ! i = None")
    case True
    then show ?thesis unfolding register_returns_def loop
      using register_found [OF nt _ refl refl, folded i, of unit fc dl now H] by (auto simp: Let_def)
  next
    case False
    then have "register_loop unit fc dl now seen c m = register_loop unit fc dl now
      (if seen ! i then seen else seen[i := True]) (if seen ! i then c else c + 1) m'" by (auto simp: loop Let_def)
    moreover have "registered unit fc dl now m' = registered unit fc dl now m" using run by (intro registered_cong)
    ultimately show ?thesis using iter [OF False] run(2) unfolding register_returns_def
      by (metis (no_types, lifting) rtranclp_trans)
  qed
qed

lemma register_loop_law: "seen_ok seen c m \<Longrightarrow> register_returns unit fc dl now H seen c m"
proof (induction "16 - c" arbitrary: seen c m rule: less_induct)
  case less
  have search: "register_returns unit fc dl now H seen c m"
    if "c < 16" "seen_ok seen c m" "\<not> seen ! (unat (nonzero (advance (next_id m) d)) mod 16)" for d m
    using that
  proof (induction d arbitrary: m)
    case (Suc d)
    let ?m' = "m\<lparr>next_id := nonzero (next_id m) + 1\<rparr>" and ?i = "unat (nonzero (next_id m)) mod 16"
    show ?case
    proof (rule register_iterate [OF \<open>c < 16\<close> refl refl])
      assume "slots m ! ?i \<noteq> None"
      then have "seen_ok (seen[?i := True]) (c + 1) ?m'" if "\<not> seen ! ?i"
        using seen_ok_mark [of seen c ?m' ?i] Suc.prems that by (simp add: seen_ok_def)
      then show "register_returns unit fc dl now H (if seen ! ?i then seen else seen[?i := True])
        (if seen ! ?i then c else c + 1) ?m'"
        using Suc.IH [of ?m'] Suc.prems less.hyps [of "c + 1"] by (simp add: seen_ok_def)
    qed
  next
    case 0
    let ?m' = "m\<lparr>next_id := nonzero (next_id m) + 1\<rparr>" and ?i = "unat (nonzero (next_id m)) mod 16"
    show ?case
    proof (rule register_iterate [OF \<open>c < 16\<close> refl refl])
      assume "slots m ! ?i \<noteq> None"
      then have "seen_ok (seen[?i := True]) (c + 1) ?m'"
        using seen_ok_mark [of seen c ?m' ?i] "0.prems" by (simp add: seen_ok_def)
      then show "register_returns unit fc dl now H (if seen ! ?i then seen else seen[?i := True])
        (if seen ! ?i then c else c + 1) ?m'"
        using "0.prems" less.hyps [of "c + 1"] by simp
    qed
  qed
  show ?case
  proof (cases "c < 16")
    case True
    then obtain i where i: "i < 16" "\<not> seen ! i" using some_unseen less.prems by blast
    then obtain d where "unat (nonzero (advance (next_id m) d)) mod 16 = i" using every_slot_reached by blast
    then show ?thesis using search [OF True less.prems, of d] i by simp
  next
    case False
    then have "\<forall>i < 16. slots m ! i \<noteq> None" using all_seen less.prems unfolding seen_ok_def by blast
    moreover have "register_loop unit fc dl now seen c m = Some (Err (TransactionConflict (next_id m - 1)), m)"
      using False by (subst register_loop.simps) simp
    ultimately show ?thesis by (simp add: registered_def register_returns_def)
  qed
qed

lemma register_law:
  assumes "length (slots m) = 16"
  obtains r m' where "register unit fc dl now m = Some (r, m')" "registered unit fc dl now m r m'"
    "mgr_step\<^sup>*\<^sup>* (m, H) (m', H)"
proof -
  have "seen_ok (replicate 16 False) 0 m" using assms by (simp add: seen_ok_def)
  then show ?thesis
    using register_loop_law [of "replicate 16 False" 0 m unit fc dl now H] that unfolding register_returns_def register_def by auto
qed

section \<open>The operations as runs\<close>

lemma run_retire_answer: "mgr_step\<^sup>*\<^sup>* (m, p # H) (send_reply (sender p) r (retire reason m), H)"
  by (rule rtranclp_trans [OF run_retire run_answer])

lemma run_take_notify:
  "i < 16 \<Longrightarrow> slots m ! i = Some p \<Longrightarrow> mgr_step\<^sup>*\<^sup>* (m, H) (notify_one (set_slot i None m), p # H)"
  by (rule rtranclp_trans [OF run_take run_notify])

lemma deliver_response_run: "mgr_step\<^sup>*\<^sup>* (m, p # H) (snd (deliver_response p u raw m), H)"
  by (auto simp: deliver_response_def Let_def run_retire_answer run_answer run_forget split: res.split)

lemma complete_response_run: "mgr_step\<^sup>*\<^sup>* (m, H) (snd (complete_response tid u raw now m), H)"
proof (cases "slots m ! (unat tid mod 16)")
  case (Some p)
  have "mgr_step\<^sup>*\<^sup>* (m, H) (notify_one (set_slot (unat tid mod 16) None m), p # H)"
    using Some by (intro run_take_notify) simp_all
  then show ?thesis
    using Some by (auto simp: complete_response_unfold finish_response_def Let_def run_retire
        intro: rtranclp_trans run_retire_answer deliver_response_run)
qed (simp add: complete_response_unfold run_retire)

lemma oldest_slot_None: "oldest_slot (enumerate k ss) old = None \<longleftrightarrow> old = None \<and> (\<forall>s \<in> set ss. s = None)"
  by (induction ss arbitrary: k old) (auto simp del: not_None_eq not_Some_eq split: option.splits)

lemma oldest_slot_found:
  "oldest_slot (enumerate k ss) old = Some (i, t) \<Longrightarrow>
    old = Some (i, t) \<or> (\<exists>p. k \<le> i \<and> i < k + length ss \<and> ss ! (i - k) = Some p \<and> sent_at p = t)"
proof (induction ss arbitrary: k old)
  case (Cons s ss)
  show ?case
    using Cons.prems Cons.IH [of "Suc k"]
    by (cases s) (force simp: nth_Cons' Suc_diff_le split: if_splits)+
qed simp

lemma oldest_slot_least:
  "oldest_slot (enumerate k ss) old = Some (i, t) \<Longrightarrow>
    (\<forall>p. Some p \<in> set ss \<longrightarrow> t \<le> sent_at p) \<and> (\<forall>j u. old = Some (j, u) \<longrightarrow> t \<le> u)"
proof (induction ss arbitrary: k old)
  case (Cons s ss)
  show ?case
    using Cons.prems Cons.IH [of "Suc k"]
    by (cases s; cases old) (fastforce split: if_splits)+
qed simp

lemma complete_oldest_response_run:
  assumes "length (slots m) = 16"
  shows "mgr_step\<^sup>*\<^sup>* (m, H) (snd (complete_oldest_response u raw now m), H)"
proof (cases "oldest_slot (enumerate 0 (slots m)) None")
  case (Some it)
  then obtain i t p where it: "it = (i, t)" and p: "i < 16" "slots m ! i = Some p"
    using oldest_slot_found [of 0 "slots m" None "fst it" "snd it"] assms by (cases it) auto
  have "mgr_step\<^sup>*\<^sup>* (m, H) (notify_one (set_slot i None m), p # H)" using p by (rule run_take_notify)
  then show ?thesis
    using Some it p by (auto simp: complete_oldest_response_unfold finish_response_def Let_def run_retire
        intro: rtranclp_trans run_retire_answer deliver_response_run)
qed (simp add: complete_oldest_response_unfold run_retire)

lemma remove_run: "mgr_step\<^sup>*\<^sup>* (m, H) (snd (remove tid m), H)"
proof (cases "slots m ! (unat tid mod 16)")
  case (Some p)
  have "mgr_step\<^sup>*\<^sup>* (m, H) (notify_one (set_slot (unat tid mod 16) None m), p # H)"
    using Some by (intro run_take_notify) simp_all
  then show ?thesis using Some by (auto simp: remove_unfold intro: rtranclp_trans run_forget)
qed (simp add: remove_unfold)

lemma cancel_slots_run: "\<forall>i \<in> set is. i < 16 \<Longrightarrow> mgr_step\<^sup>*\<^sup>* (m, H) (snd (cancel_slots is e b m), H)"
proof (induction "is" arbitrary: b m)
  case (Cons i "is")
  show ?case
  proof (cases "slots m ! i")
    case (Some p)
    have "mgr_step\<^sup>*\<^sup>* (m, H) (send_reply (sender p) (Err e) (set_slot i None m), H)"
      using Cons.prems Some by (intro rtranclp_trans [OF run_take run_answer]) simp_all
    then show ?thesis
      using Cons.IH [of "send_reply (sender p) (Err e) (set_slot i None m)" True] Cons.prems Some
      by simp
  qed (use Cons in simp)
qed simp

lemma cancel_all_run: "mgr_step\<^sup>*\<^sup>* (m, H) (cancel_all e m, H)"
  using cancel_slots_run [of "[0..<16]" m H e False]
  by (auto simp: cancel_all_def split: prod.split intro: rtranclp_trans run_notify)

lemma expire_slots_run:
  "\<forall>i \<in> set is. i < 16 \<Longrightarrow> mgr_step\<^sup>*\<^sup>* (m, H) (snd (snd (expire_slots is now b nearest m)), H)"
proof (induction "is" arbitrary: b nearest m)
  case (Cons i "is")
  show ?case
  proof (cases "slots m ! i")
    case (Some p)
    have "mgr_step\<^sup>*\<^sup>* (m, H) (send_reply (sender p) (Err ClientError.Timeout) (retire RequestTimedOut (set_slot i None m)), H)"
      using Cons.prems Some by (intro rtranclp_trans [OF run_take run_retire_answer]) simp_all
    then show ?thesis using Cons.IH Cons.prems Some by (auto intro: rtranclp_trans)
  qed (use Cons in auto)
qed simp

lemma expire_run: "mgr_step\<^sup>*\<^sup>* (m, H) (snd (expire_due_and_next_deadline now m), H)"
  using expire_slots_run [of "[0..<16]" m H now False None]
  by (auto simp: expire_due_and_next_deadline_def split: prod.split intro: rtranclp_trans run_notify)

section \<open>Deadlines\<close>

text \<open>What a slot holds after the transactions that are due were expired.\<close>

definition unexpired :: "Instant \<Rightarrow> PendingTransaction option \<Rightarrow> PendingTransaction option" where
  "unexpired now s = (case s of None \<Rightarrow> None | Some p \<Rightarrow> if deadline p \<le> now then None else Some p)"

lemma expire_slots_slots:
  "distinct is \<Longrightarrow> \<forall>i \<in> set is. i < length (slots m) \<Longrightarrow>
    length (slots (snd (snd (expire_slots is now b nearest m)))) = length (slots m) \<and>
    slots (snd (snd (expire_slots is now b nearest m))) ! j = (if j \<in> set is then unexpired now (slots m ! j) else slots m ! j)"
proof (induction "is" arbitrary: b nearest m)
  case (Cons i "is")
  show ?case
  proof (cases "slots m ! i")
    case (Some p)
    show ?thesis using Cons.IH Cons.prems Some by (auto simp: unexpired_def nth_list_update)
  qed (use Cons in \<open>auto simp: unexpired_def\<close>)
qed simp

lemma expire_slots_inbox:
  "distinct is \<Longrightarrow> \<forall>i \<in> set is. i < length (slots m) \<Longrightarrow>
    inbox (snd (snd (expire_slots is now b nearest m))) c =
      (if \<exists>i \<in> set is. \<exists>p. slots m ! i = Some p \<and> deadline p \<le> now \<and> sender p = c
       then Some (Err ClientError.Timeout) else inbox m c)"
proof (induction "is" arbitrary: b nearest m)
  case (Cons i "is")
  show ?case
  proof (cases "slots m ! i")
    case (Some p)
    let ?m = "send_reply (sender p) (Err ClientError.Timeout) (retire RequestTimedOut (set_slot i None m))"
    have "slots ?m ! j = slots m ! j" if "j \<in> set is" for j using Cons.prems that by (auto simp: nth_list_update)
    then show ?thesis using Cons.IH [of ?m True nearest] Cons.IH [of m b] Cons.prems Some by auto
  qed (use Cons in auto)
qed simp

definition least_of :: "Instant option \<Rightarrow> Instant set \<Rightarrow> bool" where
  "least_of r S \<longleftrightarrow> (case r of None \<Rightarrow> S = {} | Some t \<Rightarrow> t \<in> S \<and> (\<forall>u \<in> S. t \<le> u))"

lemma least_of_insert: "least_of r S \<Longrightarrow> u \<in> S \<Longrightarrow> u \<le> v \<Longrightarrow> least_of r (insert v S)"
  by (auto simp: least_of_def split: option.splits intro: order_trans)

definition live_deadlines :: "nat list \<Rightarrow> Instant \<Rightarrow> TransactionManager \<Rightarrow> Instant set" where
  "live_deadlines is now m = {deadline p |i p. i \<in> set is \<and> unexpired now (slots m ! i) = Some p}"

lemma live_deadlines_Cons:
  "live_deadlines (i # is) now m = deadline ` set_option (unexpired now (slots m ! i)) \<union> live_deadlines is now m"
  by (auto simp: live_deadlines_def)

lemma live_deadlines_cong:
  "(\<And>i. i \<in> set is \<Longrightarrow> slots m ! i = slots m' ! i) \<Longrightarrow> live_deadlines is now m = live_deadlines is now m'"
  unfolding live_deadlines_def by (rule Collect_cong) metis

lemma expire_slots_nearest:
  "distinct is \<Longrightarrow> \<forall>i \<in> set is. i < length (slots m) \<Longrightarrow>
    least_of (fst (snd (expire_slots is now b nearest m))) (set_option nearest \<union> live_deadlines is now m)"
proof (induction "is" arbitrary: b nearest m)
  case (Cons i "is")
  show ?case
  proof (cases "slots m ! i")
    case (Some p)
    let ?m = "send_reply (sender p) (Err ClientError.Timeout) (retire RequestTimedOut (set_slot i None m))"
    have same: "live_deadlines is now ?m = live_deadlines is now m"
      using Cons.prems by (intro live_deadlines_cong) (auto simp: nth_list_update)
    show ?thesis
    proof (cases "deadline p \<le> now")
      case True
      then show ?thesis
        using Cons.IH [of ?m True nearest] True Cons.prems Some same by (simp add: live_deadlines_Cons unexpired_def)
    next
      case False
      then have eq: "live_deadlines (i # is) now m = insert (deadline p) (live_deadlines is now m)"
        using Some by (simp add: live_deadlines_Cons unexpired_def)
      show ?thesis
      proof (cases "case nearest of None \<Rightarrow> True | Some current \<Rightarrow> deadline p < current")
        case True
        then show ?thesis using Cons.IH [of m b "Some (deadline p)"] True Cons.prems Some False
            least_of_insert [of _ "insert (deadline p) (live_deadlines is now m)" "deadline p"]
          by (cases nearest) (auto simp: eq insert_commute)
      next
        case nearer: False
        then obtain t where "nearest = Some t" "t \<le> deadline p" by (auto split: option.splits)
        then show ?thesis using Cons.IH [of m b nearest] Cons.prems Some False nearer
            least_of_insert [of _ "insert t (live_deadlines is now m)" t "deadline p"]
          by (simp add: eq insert_commute)
      qed
    qed
  qed (use Cons in \<open>auto simp: live_deadlines_Cons unexpired_def\<close>)
qed (auto simp: least_of_def live_deadlines_def split: option.split)

section \<open>Correlation of responses\<close>

text \<open>What \<open>deliver_response\<close> may put into the channel of the transaction, and nowhere else.\<close>

definition answers :: "PendingTransaction \<Rightarrow> UnitId \<Rightarrow> bytes \<Rightarrow> Instant \<Rightarrow> OwnedResponsePdu \<Rightarrow> bool" where
  "answers p u raw now resp \<longleftrightarrow> now < deadline p \<and> UnitId_raw u = UnitId_raw (unit_id (expected p))
     \<and> OwnedResponsePdu_from_pdu raw = Ok resp
     \<and> OwnedResponsePdu_function_code resp \<in> {FunctionCode_code (function_code (expected p)),
         FunctionCode_code (function_code (expected p)) OR 0x80}"

lemma deliver_response_cases:
  assumes "now < deadline p" "deliver_response p u raw m = (r, m')"
  shows "slots m' = slots m"
    and "r = Panic \<longrightarrow> OwnedResponsePdu_from_pdu raw = Panic"
    and "r \<noteq> Panic \<longrightarrow> (\<exists>x. inbox m' = (inbox m)(sender p \<mapsto> x) \<and> (\<forall>resp. x = Ok resp \<longleftrightarrow> answers p u raw now resp))"
    and "r = Ok Delivered \<longleftrightarrow> (\<exists>resp. answers p u raw now resp)"
    and "r \<noteq> Ok UnknownOrDuplicate"
    and "r = Ok Delivered \<longrightarrow> reuse_safety m' = reuse_safety m"
  using assms
  by (auto simp: deliver_response_def answers_def Let_def send_reply_def split: if_splits res.splits)

lemma from_pdu_not_Panic:
  assumes "length raw \<le> 253"
  shows "OwnedResponsePdu_from_pdu raw \<noteq> Panic"
proof (cases "raw = [] \<or> hd raw = 0")
  case True
  then show ?thesis
    by (cases raw) (auto simp: from_pdu_zero, simp add: OwnedResponsePdu_from_pdu_def)
next
  case False
  then show ?thesis
    using from_pdu_agrees [of raw] decode_response_not_Panic [of raw] assms by (simp add: res_map_def and_then_eq_Panic)
qed

lemma slots_lookup:
  assumes "slots_ok m"
  shows "slots m ! (unat tid mod 16) = Some p \<and> txn_id p = tid \<longleftrightarrow> p \<in> set (pending m) \<and> txn_id p = tid"
proof -
  have "unat tid mod 16 < length (slots m)" using assms by (simp add: slots_ok_def)
  then show ?thesis using assms unfolding pending_nth slots_ok_def by metis
qed

lemma pending_distinct:
  assumes "slots_ok m" "distinct (map sender (pending m))"
  shows "distinct (map txn_id (pending m))"
proof -
  have "inj_on txn_id (set (pending m))"
  proof (rule inj_onI)
    fix p q assume "p \<in> set (pending m)" "q \<in> set (pending m)" "txn_id p = txn_id q"
    then show "p = q" using pending_ids_distinct [OF assms(1)] assms(1)
      unfolding pending_nth slots_ok_def by (metis option.inject)
  qed
  then show ?thesis using assms(2) by (simp add: distinct_map)
qed

text \<open>A request in flight, for the examples.\<close>

definition sample_pending :: PendingTransaction where
  "sample_pending = \<lparr>txn_id = 1, sender = 0, sent_at = 10, deadline = 50,
     expected = \<lparr>unit_id = UnitId 1, function_code = FunctionCode.ReadCoils\<rparr>\<rparr>"

definition sample_manager :: TransactionManager where
  "sample_manager = set_slot 1 (Some sample_pending) (TransactionManager_new\<lparr>next_channel := 1\<rparr>)"

lemma sample_manager_run: "mgr_step (TransactionManager_new, []) (sample_manager, [])"
  using mgr_step.occupy [of 1 TransactionManager_new sample_pending "[]"]
  by (simp add: sample_manager_def sample_pending_def TransactionManager_new_def)

lemma sample_manager_ok: "slots_ok sample_manager"
  using step_inv [OF sample_manager_run new_inv] by simp

lemma sample_manager_pending: "sample_pending \<in> set (pending sample_manager)"
proof -
  have "slots sample_manager ! 1 = Some sample_pending" "1 < length (slots sample_manager)"
    by (simp_all add: sample_manager_def TransactionManager_new_def)
  then show ?thesis unfolding pending_nth by blast
qed

section \<open>Properties\<close>

text \<open>
  C10.  Registering a request always returns, although the loop has no bound of its own: the
  identifiers that the counter hands out reach every slot, so the request is registered when some
  slot is free, under a nonzero identifier, in a slot that was free, with a channel no other
  transaction has; and it is refused with \<open>TransactionConflict\<close>, changing no slot, only when all
  sixteen slots are taken.
\<close>

theorem register_terminates:
  assumes "slots_ok m"
  shows "\<exists>r m'. register unit fc dl now m = Some (r, m') \<and> registered unit fc dl now m r m'
    \<and> (is_ok r \<longleftrightarrow> None \<in> set (slots m))"
proof -
  have len: "length (slots m) = 16" using assms by (simp add: slots_ok_def)
  obtain r m' where r: "register unit fc dl now m = Some (r, m')" "registered unit fc dl now m r m'"
    using register_law [OF len] by metis
  have "is_ok r \<longleftrightarrow> None \<in> set (slots m)"
    using r(2) len by (cases r) (auto simp: registered_def in_set_conv_nth, metis mod_less_divisor zero_less_numeral)
  then show ?thesis using r by blast
qed

theorem register_terminates_witness:
  "\<exists>r m'. register (UnitId 1) FunctionCode.ReadCoils 50 10 TransactionManager_new = Some (r, m') \<and> is_ok r"
  using register_terminates [of TransactionManager_new "UnitId 1" FunctionCode.ReadCoils 50 10] new_inv
  by (auto simp: TransactionManager_new_def)

text \<open>
  C7.  A response frame answers no request but the one it belongs to.  Whatever arrives, only the
  channel of the outstanding request with the frame's transaction identifier can change, and only
  that request's slot; the caller gets a response, and the session stays usable, exactly when the frame came
  before the request's deadline, from the unit that was addressed, and decodes to a response (or the
  exception response) of the function that was sent, and what the caller gets is what the frame decodes to.  A
  frame that no outstanding request waits for changes no slot and no channel.
\<close>

theorem response_correlation:
  assumes "slots_ok m" "length raw \<le> 253" "complete_response tid u raw now m = (r, m')"
  shows "r \<noteq> Panic
    \<and> (r = Ok UnknownOrDuplicate \<longleftrightarrow> (\<forall>p \<in> set (pending m). txn_id p \<noteq> tid))
    \<and> (r = Ok UnknownOrDuplicate \<longrightarrow> slots m' = slots m \<and> inbox m' = inbox m)
    \<and> (\<forall>p \<in> set (pending m). txn_id p = tid \<longrightarrow>
         slots m' = (slots m)[unat tid mod 16 := None]
         \<and> (\<exists>x. inbox m' = (inbox m)(sender p \<mapsto> x) \<and> (\<forall>resp. x = Ok resp \<longleftrightarrow> answers p u raw now resp))
         \<and> (r = Ok Delivered \<longleftrightarrow> (\<exists>resp. answers p u raw now resp)))
    \<and> (r = Ok Delivered \<longrightarrow> reuse_safety m' = reuse_safety m)"
proof (cases "\<exists>p. slots m ! (unat tid mod 16) = Some p \<and> txn_id p = tid")
  case False
  then have "complete_response tid u raw now m = (Ok UnknownOrDuplicate, retire UnknownOrDuplicateResponse m)"
    by (auto simp: complete_response_unfold split: option.split)
  moreover have "\<forall>p \<in> set (pending m). txn_id p \<noteq> tid" using False slots_lookup [OF assms(1)] by blast
  ultimately show ?thesis using assms(3) by auto
next
  case True
  then obtain p where p: "slots m ! (unat tid mod 16) = Some p" "txn_id p = tid" by blast
  have only: "q = p" if "q \<in> set (pending m)" "txn_id q = tid" for q
    using slots_lookup [OF assms(1), of tid q] p that by simp
  have mem: "p \<in> set (pending m)" using slots_lookup [OF assms(1), of tid p] p by simp
  have all: "(\<forall>q \<in> set (pending m). txn_id q = tid \<longrightarrow> Q q) \<longleftrightarrow> Q p" for Q using only mem p(2) by blast
  have known: "(\<forall>q \<in> set (pending m). txn_id q \<noteq> tid) \<longleftrightarrow> False" using mem p(2) by blast
  let ?m = "notify_one (set_slot (unat tid mod 16) None m)"
  show ?thesis
  proof (cases "deadline p \<le> now")
    case True
    then have "r = Ok Expired" "m' = send_reply (sender p) (Err ClientError.Timeout) (retire ResponseExpired ?m)"
      using assms(3) p by (simp_all add: complete_response_unfold finish_response_def Let_def)
    moreover have "\<not> answers p u raw now resp" for resp using True by (simp add: answers_def)
    ultimately show ?thesis unfolding all known by auto
  next
    case False
    then have "deliver_response p u raw ?m = (r, m')" using assms(3) p by (simp add: complete_response_unfold finish_response_def Let_def)
    note d = deliver_response_cases [OF _ this, of now]
    have "r \<noteq> Panic" using d(2) from_pdu_not_Panic [OF assms(2)] False by auto
    moreover have "reuse_safety ?m = reuse_safety m" by (simp add: notify_one_def set_slot_def)
    moreover have "slots ?m = (slots m)[unat tid mod 16 := None]" "inbox ?m = inbox m" by simp_all
    ultimately show ?thesis unfolding all known using d False by simp
  qed
qed

theorem response_correlation_witness:
  "\<exists>r m'. complete_response 1 (UnitId 1) [1, 1, 5] 20 sample_manager = (r, m') \<and> r = Ok Delivered \<and> slots m' = replicate 16 None"
proof -
  obtain r m' where c: "complete_response 1 (UnitId 1) [1, 1, 5] 20 sample_manager = (r, m')" by (rule prod.exhaust)
  have p: "txn_id sample_pending = 1" by (simp add: sample_pending_def)
  have "is_ok (OwnedResponsePdu_from_pdu [1, 1, 5])" by code_simp
  then obtain resp where resp: "OwnedResponsePdu_from_pdu [1, 1, 5] = Ok resp"
    by (cases "OwnedResponsePdu_from_pdu [1, 1, 5]") auto
  have "(case OwnedResponsePdu_from_pdu [1, 1, 5] of Ok x \<Rightarrow> OwnedResponsePdu_function_code x = 1 | _ \<Rightarrow> False)" by code_simp
  then have "answers sample_pending (UnitId 1) [1, 1, 5] 20 resp" by (simp add: answers_def sample_pending_def resp)
  moreover have "length [1, 1, 5 :: u8] \<le> 253" by simp
  ultimately have "r = Ok Delivered \<and> slots m' = (slots sample_manager)[unat (1 :: u16) mod 16 := None]"
    using response_correlation [OF sample_manager_ok _ c] p sample_manager_pending by blast
  moreover have "(slots sample_manager)[unat (1 :: u16) mod 16 := None] = replicate 16 None"
    by (rule nth_equalityI) (auto simp: sample_manager_def TransactionManager_new_def nth_list_update)
  ultimately show ?thesis using c by metis
qed

text \<open>
  C13.  No request waits beyond its deadline: one pass of the deadline scheduler at time \<open>now\<close> removes
  exactly the requests whose deadline has come and answers each of them with a timeout, touches no
  other slot and no other channel, and returns the earliest deadline that is still ahead, which is
  when the scheduler wakes next.
\<close>

theorem deadlines_enforced:
  assumes "slots_ok m" "expire_due_and_next_deadline now m = (nearest, m')"
  shows "slots m' = map (unexpired now) (slots m)
    \<and> (\<forall>c. inbox m' c = (if \<exists>p \<in> set (pending m). deadline p \<le> now \<and> sender p = c
         then Some (Err ClientError.Timeout) else inbox m c))
    \<and> least_of nearest (deadline ` set (pending m')) \<and> (\<forall>t. nearest = Some t \<longrightarrow> now < t)"
proof -
  have len: "length (slots m) = 16" using assms(1) by (simp add: slots_ok_def)
  obtain b n m1 where e: "expire_slots [0..<16] now False None m = (b, n, m1)" by (cases "expire_slots [0..<16] now False None m") auto
  have eq: "nearest = n" "slots m' = slots m1" "inbox m' = inbox m1"
    using assms(2) e by (auto simp: expire_due_and_next_deadline_def)
  have s: "length (slots m1) = 16" "j < 16 \<Longrightarrow> slots m1 ! j = unexpired now (slots m ! j)" for j
    using expire_slots_slots [of "[0..<16]" m now False None j] e len by auto
  then have sl: "slots m' = map (unexpired now) (slots m)" using eq len by (intro nth_equalityI) auto
  have live: "live_deadlines [0..<16] now m = deadline ` set (pending m')"
  proof (rule set_eqI)
    fix t
    have "t \<in> deadline ` set (pending m') \<longleftrightarrow> (\<exists>i < 16. \<exists>p. slots m' ! i = Some p \<and> deadline p = t)"
      unfolding image_iff Bex_def pending_nth using s(1) eq(2) by metis
    also have "\<dots> \<longleftrightarrow> t \<in> live_deadlines [0..<16] now m" using s(2) eq(2) by (simp add: live_deadlines_def) metis
    finally show "t \<in> live_deadlines [0..<16] now m \<longleftrightarrow> t \<in> deadline ` set (pending m')" by simp
  qed
  have due: "(\<exists>p \<in> set (pending m). deadline p \<le> now \<and> sender p = c) \<longleftrightarrow>
      (\<exists>i \<in> set [0..<16]. \<exists>p. slots m ! i = Some p \<and> deadline p \<le> now \<and> sender p = c)" for c
    by (auto simp: pending_nth len Bex_def)
  have "\<forall>c. inbox m' c = (if \<exists>p \<in> set (pending m). deadline p \<le> now \<and> sender p = c
         then Some (Err ClientError.Timeout) else inbox m c)"
    unfolding due using expire_slots_inbox [of "[0..<16]" m now False None] e len eq(3) by simp
  moreover have least: "least_of nearest (deadline ` set (pending m'))"
    using expire_slots_nearest [of "[0..<16]" m now False None] e len live by (simp add: eq)
  moreover have "now < t" if "nearest = Some t" for t
  proof -
    have "t \<in> live_deadlines [0..<16] now m" using least that live by (simp add: least_of_def)
    then show ?thesis by (auto simp: live_deadlines_def unexpired_def split: option.splits if_splits)
  qed
  ultimately show ?thesis using sl by blast
qed

theorem deadlines_enforced_witness:
  "\<exists>nearest m'. expire_due_and_next_deadline 50 sample_manager = (nearest, m') \<and> slots m' = replicate 16 None
    \<and> inbox m' 0 = Some (Err ClientError.Timeout)"
proof -
  obtain n m' where e: "expire_due_and_next_deadline 50 sample_manager = (n, m')" by (rule prod.exhaust)
  have "deadline sample_pending \<le> 50" "sender sample_pending = 0" by (simp_all add: sample_pending_def)
  moreover have "map (unexpired 50) (slots sample_manager) = replicate 16 None"
    by (rule nth_equalityI)
      (auto simp: sample_manager_def TransactionManager_new_def sample_pending_def unexpired_def nth_list_update)
  ultimately show ?thesis using deadlines_enforced [OF sample_manager_ok e] e sample_manager_pending by auto
qed

end
