(* ===== verification/Transaction_Tasks.thy ===== *)
theory Transaction_Tasks
  imports Transaction_Laws
begin

text \<open>
  The transaction manager shared by concurrent tasks: senders that register and drop requests, the
  reader that completes them, the deadline scheduler, and shutdown.  A step is one section of the code of
  \<open>transaction.rs\<close> that runs under the lock of one slot, one atomic operation, or the
  completion of a transaction that its task has taken out of its slot; the sections are those the
  operations of \<open>Transaction\<close> are composed of.  Steps of different tasks interleave freely.  The log
  records, newest first, the requests that were registered and what happened to the manager since.
\<close>

section \<open>Steps of the tasks\<close>

datatype event =
    Registered PendingTransaction
  | Response "TransactionId option" UnitId bytes Instant
  | Clock Instant
  | CancelAll ClientError
  | Dropped PendingTransaction

text \<open>A transaction that a task has taken out of its slot, with the time it read and the response.\<close>

type_synonym held = "PendingTransaction \<times> Instant \<times> UnitId \<times> bytes"
type_synonym tasks = "TransactionManager \<times> held list \<times> event list"

inductive task_step :: "tasks \<Rightarrow> tasks \<Rightarrow> bool" where
  fetch_id: "fetch_add_id m = (tid, m') \<Longrightarrow> task_step (m, H, es) (m', H, es)"
| occupied: "tid \<noteq> 0 \<Longrightarrow> try_slot tid unit fc dl now m = (None, m') \<Longrightarrow> task_step (m, H, es) (m', H, es)"
| registers: "tid \<noteq> 0 \<Longrightarrow> try_slot tid unit fc dl now m = (Some ch, m') \<Longrightarrow>
    task_step (m, H, es) (m', H, Registered \<lparr>txn_id = tid, sender = ch, sent_at = now, deadline = dl,
      expected = \<lparr>unit_id = unit, function_code = fc\<rparr>\<rparr> # es)"
| unmatched: "take_matching tid m = (None, m') \<Longrightarrow>
    task_step (m, H, es) (retire UnknownOrDuplicateResponse m', H, Response (Some tid) u raw now # es)"
| matched: "take_matching tid m = (Some p, m') \<Longrightarrow> length raw \<le> 253 \<Longrightarrow>
    task_step (m, H, es) (m', (p, now, u, raw) # H, Response (Some tid) u raw now # es)"
| rtu_ignored: "i < 16 \<Longrightarrow> take_oldest i u now m = (Inl out, m') \<Longrightarrow>
    task_step (m, H, es) (m', H, Response None u raw now # es)"
| rtu_taken: "i < 16 \<Longrightarrow> take_oldest i u now m = (Inr p, m') \<Longrightarrow> length raw \<le> 253 \<Longrightarrow>
    task_step (m, H, es) (m', (p, now, u, raw) # H, Response None u raw now # es)"
| finishes: "(p, now, u, raw) \<in> set H \<Longrightarrow> finish_response p now u raw m = (r, m') \<Longrightarrow>
    task_step (m, H, es) (m', remove1 (p, now, u, raw) H, es)"
| drops: "take_matching tid m = (Some p, m') \<Longrightarrow> task_step (m, H, es) (m', H, Dropped p # es)"
| cancels: "i < 16 \<Longrightarrow> cancel_slot i e m = (b, m') \<Longrightarrow> task_step (m, H, es) (m', H, CancelAll e # es)"
| expires: "i < 16 \<Longrightarrow> expire_slot i now nearest m = (b, nearest', m') \<Longrightarrow>
    task_step (m, H, es) (m', H, Clock now # es)"
| retires: "task_step (m, H, es) (retire reason m, H, es)"
| notifies: "task_step (m, H, es) (notify_one m, H, es)"

section \<open>What a reply must be explained by\<close>

text \<open>The event \<open>ev\<close> happened after the request \<open>p\<close> was registered.\<close>

definition since :: "event list \<Rightarrow> PendingTransaction \<Rightarrow> event \<Rightarrow> bool" where
  "since es p ev \<longleftrightarrow> (\<exists>later earlier. es = later @ Registered p # earlier \<and> ev \<in> set later)"

text \<open>A response that may be meant for \<open>p\<close> arrived: with its identifier, or over RTU, which has none.\<close>

definition got_response :: "event list \<Rightarrow> PendingTransaction \<Rightarrow> UnitId \<Rightarrow> bytes \<Rightarrow> Instant \<Rightarrow> bool" where
  "got_response es p u raw now \<longleftrightarrow>
     since es p (Response (Some (txn_id p)) u raw now) \<or> since es p (Response None u raw now)"

text \<open>Why \<open>deliver_response\<close> refuses a response to \<open>p\<close>.\<close>

definition refuses :: "PendingTransaction \<Rightarrow> UnitId \<Rightarrow> bytes \<Rightarrow> ClientError \<Rightarrow> bool" where
  "refuses p u raw e \<longleftrightarrow>
     (let exp_unit = UnitId_raw (unit_id (expected p)); got_unit = UnitId_raw u;
          exp = FunctionCode_code (function_code (expected p)) in
      exp_unit \<noteq> got_unit \<and> e = UnexpectedResponseUnitId exp_unit got_unit
      \<or> exp_unit = got_unit \<and> (\<exists>d. OwnedResponsePdu_from_pdu raw = Err d \<and> e = Codec d)
      \<or> exp_unit = got_unit \<and> (\<exists>resp. OwnedResponsePdu_from_pdu raw = Ok resp
          \<and> OwnedResponsePdu_function_code resp \<notin> {exp, exp OR 0x80}
          \<and> e = UnexpectedResponse exp (OwnedResponsePdu_function_code resp)))"

definition explained :: "event list \<Rightarrow> PendingTransaction \<Rightarrow> reply \<Rightarrow> bool" where
  "explained es p r \<longleftrightarrow>
     (case r of
        Ok resp \<Rightarrow> \<exists>u raw now. got_response es p u raw now \<and> answers p u raw now resp
      | Err e \<Rightarrow>
          since es p (CancelAll e)
          \<or> e = ClientError.Timeout \<and> (\<exists>now \<ge> deadline p. since es p (Clock now) \<or> (\<exists>u raw. got_response es p u raw now))
          \<or> (\<exists>u raw now. got_response es p u raw now \<and> now < deadline p \<and> refuses p u raw e)
      | Panic \<Rightarrow> False)"

text \<open>The requests of the log, newest first.\<close>

fun requests :: "event list \<Rightarrow> PendingTransaction list" where
  "requests [] = []"
| "requests (Registered p # es) = p # requests es"
| "requests (_ # es) = requests es"

lemma requests_iff: "p \<in> set (requests es) \<longleftrightarrow> Registered p \<in> set es"
  by (induction es rule: requests.induct) auto

lemma since_now: "p \<in> set (requests es) \<Longrightarrow> since (ev # es) p ev"
proof -
  assume "p \<in> set (requests es)"
  then obtain a b where "es = a @ Registered p # b" by (auto simp: requests_iff dest: split_list)
  then have "ev # es = (ev # a) @ Registered p # b \<and> ev \<in> set (ev # a)" by simp
  then show ?thesis unfolding since_def by blast
qed

lemma since_mono: "since es p ev \<Longrightarrow> since (e # es) p ev"
  unfolding since_def by (metis append_Cons list.set_intros(2))

lemma got_response_mono: "got_response es p u raw now \<Longrightarrow> got_response (e # es) p u raw now"
  by (auto simp: got_response_def intro: since_mono)

lemma explained_mono: "explained es p r \<Longrightarrow> explained (e # es) p r"
  unfolding explained_def by (auto split: res.splits intro: since_mono got_response_mono) (meson since_mono got_response_mono)+

text \<open>What a task that completes \<open>p\<close> puts into its channel.\<close>

lemma finish_response_reply:
  assumes "finish_response p now u raw m = (r, m')" "length raw \<le> 253" "got_response es p u raw now"
  obtains x where "inbox m' = (inbox m)(sender p \<mapsto> x)" "explained es p x" "slots m' = slots m"
proof (cases "deadline p \<le> now")
  case True
  have "explained es p (Err ClientError.Timeout)" unfolding explained_def using assms(3) True by auto
  moreover have "inbox m' = (inbox m)(sender p \<mapsto> Err ClientError.Timeout)" "slots m' = slots m"
    using assms(1) True by (auto simp: finish_response_def)
  ultimately show ?thesis by (intro that)
next
  case False
  then have d: "deliver_response p u raw (notify_one m) = (r, m')" using assms(1) by (simp add: finish_response_def Let_def)
  have "\<exists>x. inbox m' = (inbox m)(sender p \<mapsto> x) \<and> slots m' = slots m
      \<and> ((\<exists>resp. x = Ok resp \<and> answers p u raw now resp) \<or> (\<exists>e. x = Err e \<and> refuses p u raw e))"
    using d False from_pdu_not_Panic [OF assms(2)]
    by (auto simp: deliver_response_def answers_def refuses_def Let_def split: if_splits res.splits)
  then obtain x where x: "inbox m' = (inbox m)(sender p \<mapsto> x)" "slots m' = slots m"
    "(\<exists>resp. x = Ok resp \<and> answers p u raw now resp) \<or> (\<exists>e. x = Err e \<and> refuses p u raw e)" by blast
  have "explained es p x" using x(3) assms(3) False unfolding explained_def not_le
    by (elim disjE exE) (simp_all only: res.simps, blast+)
  then show ?thesis using x(1,2) by (intro that)
qed

section \<open>The steps change slots and channels as the code may\<close>

lemma try_slot_run:
  assumes "tid \<noteq> 0" "try_slot tid unit fc dl now m = (r, m')"
  shows "mgr_step\<^sup>*\<^sup>* (m, H) (m', H)"
proof (cases "slots m ! (unat tid mod 16) = None")
  case True
  let ?p = "\<lparr>txn_id = tid, sender = next_channel m, sent_at = now, deadline = dl, expected = \<lparr>unit_id = unit, function_code = fc\<rparr>\<rparr>"
  have "mgr_step (m, H) (set_slot (unat tid mod 16) (Some ?p) (m\<lparr>next_channel := next_channel m + 1\<rparr>), H)"
    using True assms(1) by (intro mgr_step.occupy) simp_all
  then have "mgr_step\<^sup>*\<^sup>* (m, H) (notify_one (set_slot (unat tid mod 16) (Some ?p) (m\<lparr>next_channel := next_channel m + 1\<rparr>)), H)"
    using run_notify by (rule converse_rtranclp_into_rtranclp)
  then show ?thesis using assms(2) True by (auto simp: try_slot_def Let_def)
qed (use assms(2) in \<open>auto simp: try_slot_def\<close>)

lemma take_matching_cases:
  assumes "take_matching tid m = (r, m')"
  shows "r = None \<Longrightarrow> m' = m"
    and "r = Some p \<Longrightarrow> slots m ! (unat tid mod 16) = Some p \<and> txn_id p = tid \<and> m' = set_slot (unat tid mod 16) None m"
  using assms by (auto simp: take_matching_def Let_def split: option.splits if_splits)

lemma take_oldest_cases:
  assumes "take_oldest i u now m = (r, m')"
  shows "r = Inl out \<Longrightarrow> \<exists>reason. m' = retire reason m"
    and "r = Inr p \<Longrightarrow> slots m ! i = Some p \<and> m' = set_slot i None m"
  using assms by (auto simp: take_oldest_def Let_def split: option.splits if_splits)

lemma finish_response_run:
  assumes "p \<in> set H"
  shows "mgr_step\<^sup>*\<^sup>* (m, H) (snd (finish_response p now u raw m), remove1 p H)"
proof -
  have answer: "mgr_step\<^sup>*\<^sup>* (m, H) (send_reply (sender p) r m, remove1 p H)" for r m
    using mgr_step.answer [OF assms] by (rule r_into_rtranclp)
  have forget: "mgr_step\<^sup>*\<^sup>* (m, H) (m, remove1 p H)" for m using mgr_step.forget [OF assms] by (rule r_into_rtranclp)
  have "mgr_step\<^sup>*\<^sup>* (m, H) (snd (deliver_response p u raw m), remove1 p H)" for m
    by (auto simp: deliver_response_def Let_def answer forget intro: rtranclp_trans [OF run_retire answer] split: res.split)
  then show ?thesis
    by (auto simp: finish_response_def Let_def intro: rtranclp_trans [OF run_notify] rtranclp_trans [OF run_retire answer])
qed

lemma task_step_run:
  assumes "task_step (m, H, es) (m', H', es')" "mgr_inv (m, map fst H)"
  shows "mgr_step\<^sup>*\<^sup>* (m, map fst H) (m', map fst H')"
  using assms
proof (induction rule: task_step.induct [split_format (complete)])
  case (fetch_id m tid m' H es)
  then show ?case by (auto simp: fetch_add_id_def intro: mgr_step.take_id)
next
  case (matched tid m p m' raw H es now u)
  then show ?case using take_matching_cases(2) [OF matched(1)] by (auto intro: run_take)
next
  case (rtu_taken i u now m p m' raw H es)
  then show ?case using take_oldest_cases(2) [OF rtu_taken(2)] by (auto intro: run_take)
next
  case (finishes p now u raw H m r m' es)
  let ?h = "(p, now, u, raw)"
  obtain xs ys where split: "H = xs @ ?h # ys" "remove1 ?h H = xs @ ys" using finishes(1) by (rule remove1_split)
  have "p \<notin> set (map fst xs)" using finishes.prems unfolding split(1) by (auto simp: image_iff)
  then have "remove1 p (map fst H) = map fst xs @ map fst ys" unfolding split(1) by (simp add: remove1_append)
  then have "remove1 p (map fst H) = map fst (remove1 ?h H)" by (simp only: split(2) map_append)
  moreover have "m' = snd (finish_response p now u raw m)" using finishes by simp
  ultimately show ?case using finish_response_run [of p "map fst H" m now u raw] finishes(1) by force
next
  case (drops tid m p m' H es)
  then show ?case using take_matching_cases(2) [OF drops(1)]
    by (auto intro: rtranclp_trans [OF run_take run_forget])
next
  case (cancels i e m b m' H es)
  then show ?case by (auto simp: cancel_slot_def split: option.splits intro: rtranclp_trans [OF run_take run_answer])
next
  case (expires i now nearest m b nearest' m' H es)
  then show ?case
    by (auto simp: expire_slot_def split: option.splits if_splits intro: rtranclp_trans [OF run_take run_retire_answer])
next
  case (rtu_ignored i u now m out m' H es raw)
  then show ?case using take_oldest_cases(1) [OF rtu_ignored(2)] by (auto intro: run_retire)
next
  case (unmatched tid m m' H es u raw now)
  then show ?case using take_matching_cases(1) [OF unmatched(1)] by (auto intro: run_retire)
qed (auto simp: run_retire run_notify intro: try_slot_run)

section \<open>The invariant of the log\<close>

definition log_inv :: "tasks \<Rightarrow> bool" where
  "log_inv c \<longleftrightarrow> (case c of (m, H, es) \<Rightarrow>
     mgr_inv (m, map fst H)
     \<and> set (pending m) \<subseteq> set (requests es)
     \<and> (\<forall>(p, now, u, raw) \<in> set H. p \<in> set (requests es) \<and> length raw \<le> 253 \<and> got_response es p u raw now)
     \<and> distinct (map sender (requests es)) \<and> (\<forall>p \<in> set (requests es). sender p < next_channel m)
     \<and> (\<forall>ch r. inbox m ch = Some r \<longrightarrow> (\<exists>p \<in> set (requests es). sender p = ch \<and> explained es p r))
     \<and> (\<forall>p \<in> set (requests es). p \<in> set (pending m) \<or> p \<in> fst ` set H \<or> inbox m (sender p) \<noteq> None \<or> since es p (Dropped p)))"

lemma pending_set:
  assumes "i < length (slots m)" "slots m' = (slots m)[i := q]"
  shows "q = Some p \<Longrightarrow> slots m ! i = None \<Longrightarrow> set (pending m') = insert p (set (pending m))"
    and "q = None \<Longrightarrow> slots m ! i = Some p \<Longrightarrow> set (pending m) = insert p (set (pending m'))"
proof -
  obtain xs ys where split: "pending m = xs @ (case slots m ! i of None \<Rightarrow> [] | Some p \<Rightarrow> [p]) @ ys"
    "pending m' = xs @ (case q of None \<Rightarrow> [] | Some p \<Rightarrow> [p]) @ ys" by (rule pending_split [OF assms])
  then show "q = Some p \<Longrightarrow> slots m ! i = None \<Longrightarrow> set (pending m') = insert p (set (pending m))"
    and "q = None \<Longrightarrow> slots m ! i = Some p \<Longrightarrow> set (pending m) = insert p (set (pending m'))" by auto
qed

text \<open>
  One step keeps the facts about the log.  \<open>kept\<close> has what a step that registers nothing must still show: where
  the requests went and where new replies come from.
\<close>

lemma log_inv_kept:
  assumes inv: "log_inv (m, H, es)" and mgr: "mgr_inv (m', map fst H')"
    and log: "es' = es \<or> (\<exists>e. es' = e # es \<and> (\<forall>p. e \<noteq> Registered p))"
    and chan: "next_channel m' = next_channel m"
    and pend: "set (pending m') \<subseteq> set (pending m)"
    and held: "\<forall>(p, now, u, raw) \<in> set H' - set H. p \<in> set (requests es) \<and> length raw \<le> 253 \<and> got_response es' p u raw now"
    and reply: "\<forall>ch r. inbox m' ch = Some r \<longrightarrow> inbox m ch = Some r \<or> (\<exists>p \<in> set (requests es). sender p = ch \<and> explained es' p r)"
    and le: "inbox m \<subseteq>\<^sub>m inbox m'"
    and went: "\<forall>p \<in> set (pending m) \<union> fst ` set H.
       p \<in> set (pending m') \<or> p \<in> fst ` set H' \<or> inbox m' (sender p) \<noteq> None \<or> since es' p (Dropped p)"
  shows "log_inv (m', H', es')"
proof -
  have i: "set (pending m) \<subseteq> set (requests es)" "distinct (map sender (requests es))"
      "\<forall>(p, now, u, raw) \<in> set H. p \<in> set (requests es) \<and> length raw \<le> 253 \<and> got_response es p u raw now"
      "\<forall>p \<in> set (requests es). sender p < next_channel m"
      "\<forall>ch r. inbox m ch = Some r \<longrightarrow> (\<exists>p \<in> set (requests es). sender p = ch \<and> explained es p r)"
      "\<forall>p \<in> set (requests es). p \<in> set (pending m) \<or> p \<in> fst ` set H \<or> inbox m (sender p) \<noteq> None \<or> since es p (Dropped p)"
    using inv by (simp_all add: log_inv_def)
  have req: "requests es' = requests es" using log by (cases "hd es'") auto
  have since: "since es p ev \<Longrightarrow> since es' p ev" and expl: "explained es p r \<Longrightarrow> explained es' p r"
    and got: "got_response es p u raw now \<Longrightarrow> got_response es' p u raw now" for p ev r u raw now
    using log by (auto intro: since_mono explained_mono got_response_mono)
  have "\<forall>(p, now, u, raw) \<in> set H'. p \<in> set (requests es) \<and> length raw \<le> 253 \<and> got_response es' p u raw now"
  proof clarify
    fix p now u raw assume h: "(p, now, u, raw) \<in> set H'"
    show "p \<in> set (requests es) \<and> length raw \<le> 253 \<and> got_response es' p u raw now"
    proof (cases "(p, now, u, raw) \<in> set H")
      case True
      then show ?thesis using i(3) got by fastforce
    next
      case False
      then show ?thesis using held h by fastforce
    qed
  qed
  moreover have "\<exists>p \<in> set (requests es). sender p = ch \<and> explained es' p r" if "inbox m' ch = Some r" for ch r
    using reply that i(5) expl by blast
  moreover have "p \<in> set (pending m') \<or> p \<in> fst ` set H' \<or> inbox m' (sender p) \<noteq> None \<or> since es' p (Dropped p)"
    if "p \<in> set (requests es)" for p
  proof -
    have "inbox m (sender p) \<noteq> None \<Longrightarrow> inbox m' (sender p) \<noteq> None" using le by (auto simp: map_le_def dom_def)
    then show ?thesis using i(6) that went since by blast
  qed
  ultimately show ?thesis using mgr i(1,2,4) pend unfolding log_inv_def prod.case req chan by simp
qed

lemma log_invD:
  assumes "log_inv (m, H, es)"
  shows "mgr_inv (m, map fst H)" "length (slots m) = 16" "set (pending m) \<subseteq> set (requests es)"
    "\<And>p now u raw. (p, now, u, raw) \<in> set H \<Longrightarrow> p \<in> set (requests es) \<and> length raw \<le> 253 \<and> got_response es p u raw now"
    "distinct (map sender (requests es))" "\<forall>p \<in> set (requests es). sender p < next_channel m"
    "\<And>ch r. inbox m ch = Some r \<Longrightarrow> \<exists>p \<in> set (requests es). sender p = ch \<and> explained es p r"
    "\<And>p. p \<in> set (requests es) \<Longrightarrow> p \<in> set (pending m) \<or> p \<in> fst ` set H \<or> inbox m (sender p) \<noteq> None \<or> since es p (Dropped p)"
proof -
  show "length (slots m) = 16" using assms by (simp add: log_inv_def slots_ok_def)
  show "p \<in> set (requests es) \<and> length raw \<le> 253 \<and> got_response es p u raw now" if "(p, now, u, raw) \<in> set H" for p now u raw
    using assms that by (auto simp: log_inv_def)
qed (use assms in \<open>auto simp: log_inv_def\<close>)

text \<open>Steps that leave slots and channels alone.\<close>

lemma log_inv_idle:
  assumes "log_inv (m, H, es)" "slots m' = slots m" "inbox m' = inbox m" "next_channel m' = next_channel m"
    "es' = es \<or> (\<exists>e. es' = e # es \<and> (\<forall>p. e \<noteq> Registered p))"
  shows "log_inv (m', H, es')"
proof (rule log_inv_kept [OF assms(1) _ assms(5)])
  have "pending m' = pending m" using assms(2) by (rule pending_cong)
  then show "set (pending m') \<subseteq> set (pending m)" "\<forall>p \<in> set (pending m) \<union> fst ` set H.
      p \<in> set (pending m') \<or> p \<in> fst ` set H \<or> inbox m' (sender p) \<noteq> None \<or> since es' p (Dropped p)"
    "mgr_inv (m', map fst H)"
    using log_invD(1) [OF assms(1)] assms(2-4) by (auto simp: slots_ok_def)
qed (use assms in auto)

text \<open>Steps that take a transaction out of its slot: into the hands of a task, dropped, or answered at once.\<close>

lemma log_inv_take:
  assumes inv: "log_inv (m, H, es)" and slot: "i < 16" "slots m ! i = Some p" "slots m' = (slots m)[i := None]"
    and ev: "\<forall>p. ev \<noteq> Registered p" and chan: "next_channel m' = next_channel m" and mgr: "mgr_inv (m', map fst H')"
    and how: "inbox m' = inbox m \<and> (\<exists>now u raw. H' = (p, now, u, raw) # H \<and> length raw \<le> 253 \<and> got_response (ev # es) p u raw now)
      \<or> inbox m' = inbox m \<and> H' = H \<and> ev = Dropped p
      \<or> H' = H \<and> (\<exists>r. inbox m' = (inbox m)(sender p \<mapsto> r) \<and> explained (ev # es) p r)"
  shows "log_inv (m', H', ev # es)"
proof -
  have pend: "set (pending m) = insert p (set (pending m'))"
    using pending_set(2) [OF _ slot(3)] slot(1,2) log_invD(2) [OF inv] by simp
  then have p: "p \<in> set (requests es)" "inbox m (sender p) = None" using log_invD(1,3) [OF inv] by auto
  have le: "inbox m \<subseteq>\<^sub>m inbox m'" using how p(2) by (auto simp: map_le_def)
  show ?thesis
  proof (rule log_inv_kept [OF inv mgr _ chan _ _ _ le])
    show "\<forall>q \<in> set (pending m) \<union> fst ` set H.
        q \<in> set (pending m') \<or> q \<in> fst ` set H' \<or> inbox m' (sender q) \<noteq> None \<or> since (ev # es) q (Dropped q)"
      using how pend since_now [OF p(1), of "Dropped p"] by auto
    show "\<forall>ch r. inbox m' ch = Some r \<longrightarrow> inbox m ch = Some r \<or> (\<exists>p \<in> set (requests es). sender p = ch \<and> explained (ev # es) p r)"
      using how p(1) by (auto split: if_splits)
    show "\<forall>(p, now, u, raw) \<in> set H' - set H. p \<in> set (requests es) \<and> length raw \<le> 253 \<and> got_response (ev # es) p u raw now"
      using how p(1) by auto
  qed (use ev pend in auto)
qed

lemma log_inv_register:
  assumes inv: "log_inv (m, H, es)" and mgr: "mgr_inv (m', map fst H)" and r: "try_slot tid unit fc dl now m = (Some ch, m')"
    and p: "p = \<lparr>txn_id = tid, sender = ch, sent_at = now, deadline = dl, expected = \<lparr>unit_id = unit, function_code = fc\<rparr>\<rparr>"
  shows "log_inv (m', H, Registered p # es)"
proof -
  note i = log_invD [OF inv]
  have m': "slots m ! (unat tid mod 16) = None" "slots m' = (slots m)[unat tid mod 16 := Some p]" "inbox m' = inbox m"
    "next_channel m' = next_channel m + 1" "ch = next_channel m"
    using r by (auto simp: try_slot_def p Let_def split: if_splits)
  have pend: "set (pending m') = insert p (set (pending m))"
    using pending_set(1) [OF _ m'(2)] m'(1) i(2) by simp
  have ps: "sender p = next_channel m" by (simp add: p m'(5))
  have fresh: "sender q \<noteq> sender p" if "q \<in> set (requests es)" for q using i(6) that unfolding ps by auto
  have "q \<in> set (pending m') \<or> q \<in> fst ` set H \<or> inbox m' (sender q) \<noteq> None \<or> since (Registered p # es) q (Dropped q)"
    if "q \<in> set (p # requests es)" for q
    using i(8) [of q] since_mono [of es q "Dropped q" "Registered p"] that pend m'(3) by auto
  moreover have "\<exists>q \<in> set (p # requests es). sender q = c \<and> explained (Registered p # es) q r" if "inbox m' c = Some r" for c r
    using i(7) [of c r] that m'(3) explained_mono by auto
  moreover have "\<forall>(q, now, u, raw) \<in> set H. q \<in> set (p # requests es) \<and> length raw \<le> 253 \<and> got_response (Registered p # es) q u raw now"
    using i(4) got_response_mono by fastforce
  moreover have "distinct (map sender (p # requests es))" "\<forall>q \<in> set (p # requests es). sender q < next_channel m'"
    using i(5,6) fresh ps m'(4) by (auto simp: image_iff)
  moreover have "set (pending m') \<subseteq> set (p # requests es)" using pend i(3) by auto
  ultimately show ?thesis using mgr unfolding log_inv_def prod.case requests.simps by blast
qed

lemma log_inv_finish:
  assumes inv: "log_inv (m, H, es)" and h: "(p, now, u, raw) \<in> set H" and f: "finish_response p now u raw m = (r, m')"
    and mgr: "mgr_inv (m', map fst (remove1 (p, now, u, raw) H))"
  shows "log_inv (m', remove1 (p, now, u, raw) H, es)"
proof -
  let ?H = "remove1 (p, now, u, raw) H"
  have p: "p \<in> set (requests es)" "length raw \<le> 253" "got_response es p u raw now" using log_invD(4) [OF inv h] by auto
  obtain x where x: "inbox m' = (inbox m)(sender p \<mapsto> x)" "explained es p x" "slots m' = slots m"
    by (rule finish_response_reply [OF f p(2,3)])
  have chan: "next_channel m' = next_channel m"
    using f by (auto simp: finish_response_def deliver_response_def Let_def split: if_splits res.splits)
  have pend: "pending m' = pending m" using x(3) by (rule pending_cong)
  have "inbox m (sender p) = None" using log_invD(1) [OF inv] h by (force simp: image_iff)
  then have le: "inbox m \<subseteq>\<^sub>m inbox m'" unfolding x(1) by (auto simp: map_le_def)
  have went: "q = p \<or> q \<in> fst ` set ?H" if q: "q \<in> fst ` set H" for q
  proof -
    obtain y where "y \<in> set H" "q = fst y" using q by blast
    then show ?thesis by (cases "y = (p, now, u, raw)") auto
  qed
  show ?thesis
  proof (rule log_inv_kept [OF inv mgr _ chan _ _ _ le])
    show "\<forall>q \<in> set (pending m) \<union> fst ` set H.
        q \<in> set (pending m') \<or> q \<in> fst ` set ?H \<or> inbox m' (sender q) \<noteq> None \<or> since es q (Dropped q)"
      using went pend x(1) by auto
    show "\<forall>ch r. inbox m' ch = Some r \<longrightarrow> inbox m ch = Some r \<or> (\<exists>p \<in> set (requests es). sender p = ch \<and> explained es p r)"
      using x(1,2) p(1) by auto
    show "\<forall>(p, now, u, raw) \<in> set ?H - set H. p \<in> set (requests es) \<and> length raw \<le> 253 \<and> got_response es p u raw now"
      using set_remove1_subset [of "(p, now, u, raw)" H] by blast
  qed (use pend in auto)
qed

lemma step_log_inv:
  assumes "task_step (m, H, es) (m', H', es')" "log_inv (m, H, es)"
  shows "log_inv (m', H', es') \<and> inbox m \<subseteq>\<^sub>m inbox m'"
proof
  have inv: "mgr_inv (m, map fst H)" using assms(2) by (rule log_invD)
  have run: "mgr_step\<^sup>*\<^sup>* (m, map fst H) (m', map fst H')" by (rule task_step_run [OF assms(1) inv])
  show "inbox m \<subseteq>\<^sub>m inbox m'" using steps_inbox [OF run inv] by simp
  have mgr: "mgr_inv (m', map fst H')" using run inv by (rule steps_inv)
  show "log_inv (m', H', es')"
    using assms mgr
  proof (induction rule: task_step.induct [split_format (complete)])
    case (registers tid unit fc dl now m ch m' H es)
    then show ?case by (intro log_inv_register [OF _ _ _ refl])
  next
    case (matched tid m p m' raw H es now u)
    note t = take_matching_cases(2) [OF matched(1) refl]
    have "p \<in> set (requests es)"
      using t pending_nth [of p m] log_invD(2,3) [OF matched.prems(1)] by (metis mod_less_divisor subsetD zero_less_numeral)
    then have "got_response (Response (Some tid) u raw now # es) p u raw now"
      using since_now [of p es] t by (auto simp: got_response_def)
    then show ?case using matched t by (intro log_inv_take [OF matched.prems(1), of "unat tid mod 16" p]) auto
  next
    case (rtu_taken i u now m p m' raw H es)
    note t = take_oldest_cases(2) [OF rtu_taken(2) refl]
    have "p \<in> set (requests es)"
      using t pending_nth [of p m] log_invD(2,3) [OF rtu_taken.prems(1)] rtu_taken(1) by (metis subsetD)
    then have "got_response (Response None u raw now # es) p u raw now"
      using since_now [of p es] by (auto simp: got_response_def)
    then show ?case using rtu_taken t by (intro log_inv_take [OF rtu_taken.prems(1), of i p]) auto
  next
    case (drops tid m p m' H es)
    then show ?case using take_matching_cases(2) [OF drops(1) refl]
      by (intro log_inv_take [OF drops.prems(1), of "unat tid mod 16" p]) auto
  next
    case (fetch_id m tid m' H es)
    then show ?case by (intro log_inv_idle [OF fetch_id.prems(1)]) (auto simp: fetch_add_id_def)
  next
    case (occupied tid unit fc dl now m m' H es)
    then have "m' = m" by (auto simp: try_slot_def Let_def split: if_splits)
    then show ?case using occupied.prems(1) by simp
  next
    case (unmatched tid m m' H es u raw now)
    then show ?case using take_matching_cases(1) [OF unmatched(1) refl]
      by (intro log_inv_idle [OF unmatched.prems(1)]) auto
  next
    case (rtu_ignored i u now m out m' H es raw)
    then show ?case using take_oldest_cases(1) [OF rtu_ignored(2) refl]
      by (intro log_inv_idle [OF rtu_ignored.prems(1)]) auto
  next
    case (finishes p now u raw H m r m' es)
    then show ?case by (intro log_inv_finish)
  next
    case (cancels i e m b m' H es)
    show ?case
    proof (cases "slots m ! i")
      case (Some p)
      have "p \<in> set (requests es)"
        using Some pending_nth [of p m] log_invD(2,3) [OF cancels.prems(1)] cancels(1) by (metis subsetD)
      then have "explained (CancelAll e # es) p (Err e)" using since_now [of p es] by (simp add: explained_def)
      then show ?thesis using cancels Some
        by (intro log_inv_take [OF cancels.prems(1), of i p]) (auto simp: cancel_slot_def)
    qed (use cancels in \<open>auto simp: cancel_slot_def intro!: log_inv_idle [OF cancels.prems(1)]\<close>)
  next
    case (expires i now nearest m b nearest' m' H es)
    show ?case
    proof (cases "\<exists>p. slots m ! i = Some p \<and> deadline p \<le> now")
      case True
      then obtain p where p: "slots m ! i = Some p" "deadline p \<le> now" by blast
      have "p \<in> set (requests es)"
        using p(1) pending_nth [of p m] log_invD(2,3) [OF expires.prems(1)] expires(1) by (metis subsetD)
      then have "explained (Clock now # es) p (Err ClientError.Timeout)"
        using since_now [of p es] p(2) by (auto simp: explained_def)
      then show ?thesis using expires p
        by (intro log_inv_take [OF expires.prems(1), of i p]) (auto simp: expire_slot_def)
    next
      case False
      then have "m' = m" using expires(2) by (auto simp: expire_slot_def split: option.splits if_splits)
      then show ?thesis by (intro log_inv_idle [OF expires.prems(1)]) auto
    qed
  next
    case (retires m H es reason)
    then show ?case by (intro log_inv_idle [OF retires.prems(1)]) auto
  next
    case (notifies m H es)
    then show ?case by (intro log_inv_idle [OF notifies.prems(1)]) auto
  qed
qed

lemma steps_log_inv:
  "task_step\<^sup>*\<^sup>* c c' \<Longrightarrow> log_inv c \<Longrightarrow> log_inv c' \<and> inbox (fst c) \<subseteq>\<^sub>m inbox (fst c')"
proof (induction rule: rtranclp_induct)
  case (step c' c'')
  then have inv: "log_inv c'" "inbox (fst c) \<subseteq>\<^sub>m inbox (fst c')" by auto
  obtain m H es m' H' es' where c: "c' = (m, H, es)" "c'' = (m', H', es')" by (metis prod_cases3)
  have "log_inv c'' \<and> inbox m \<subseteq>\<^sub>m inbox m'" unfolding c(2) by (rule step_log_inv) (use step(2) inv(1) c in simp_all)
  then show ?case using inv(2) map_le_trans unfolding c by auto
qed simp

lemma log_inv_new: "log_inv (TransactionManager_new, [], [])"
  using new_inv by (simp add: log_inv_def) (simp add: TransactionManager_new_def pending_def)

section \<open>The operations are runs of the steps\<close>

lemma next_transaction_id_tasks:
  "next_transaction_id m = (tid, m') \<Longrightarrow> tid \<noteq> 0 \<and> task_step\<^sup>*\<^sup>* (m, H, es) (m', H, es)"
proof (induction m arbitrary: tid m' rule: next_transaction_id.induct)
  case (1 m)
  obtain i n where f: "fetch_add_id m = (i, n)" by (rule prod.exhaust)
  then have "task_step (m, H, es) (n, H, es)" by (rule task_step.fetch_id)
  then show ?case
    using "1.IH" [OF f [symmetric]] "1.prems" f
    by (subst (asm) next_transaction_id.simps) (auto split: if_splits intro: converse_rtranclp_into_rtranclp)
qed

text \<open>The log after a registration.\<close>

definition log_registered
  :: "UnitId \<Rightarrow> FunctionCode \<Rightarrow> Instant \<Rightarrow> Instant \<Rightarrow> (ClientError, TransactionId \<times> nat) res \<Rightarrow> event list \<Rightarrow> event list" where
  "log_registered unit fc dl now r es =
     (case r of
        Ok (tid, ch) \<Rightarrow> Registered \<lparr>txn_id = tid, sender = ch, sent_at = now, deadline = dl,
          expected = \<lparr>unit_id = unit, function_code = fc\<rparr>\<rparr> # es
      | _ \<Rightarrow> es)"

lemma register_loop_tasks:
  "register_loop unit fc dl now seen c m = Some y \<Longrightarrow>
     task_step\<^sup>*\<^sup>* (m, H, es) (snd y, H, log_registered unit fc dl now (fst y) es)"
proof (induction rule: register_loop.raw_induct [rotated, consumes 1])
  case (1 loop unit fc dl now seen c m y)
  show ?case
  proof (cases "c < 16")
    case True
    obtain tid m1 where n: "next_transaction_id m = (tid, m1)" by (rule prod.exhaust)
    obtain o1 m2 where t: "try_slot tid unit fc dl now m1 = (o1, m2)" by (rule prod.exhaust)
    have nt: "tid \<noteq> 0" "task_step\<^sup>*\<^sup>* (m, H, es) (m1, H, es)" using next_transaction_id_tasks [OF n] by auto
    show ?thesis
    proof (cases o1)
      case None
      have "task_step (m1, H, es) (m2, H, es)" using nt(1) t [unfolded None] by (rule task_step.occupied)
      moreover have "task_step\<^sup>*\<^sup>* (m2, H, es) (snd y, H, log_registered unit fc dl now (fst y) es)"
        using 1 True n t None by (simp add: Let_def)
      ultimately show ?thesis using nt(2) by (meson converse_rtranclp_into_rtranclp rtranclp_trans)
    next
      case (Some ch)
      note step = task_step.registers [OF nt(1) t [unfolded Some], of H es]
      have "y = (Ok (tid, ch), m2)" using 1(2) True n t Some by (simp add: Let_def)
      then show ?thesis using nt(2) step by (simp add: log_registered_def)
    qed
  qed (use 1(2) in \<open>auto simp: log_registered_def\<close>)
qed

lemma finish_tasks:
  assumes "finish_response p now u raw m = (r, m')"
  shows "task_step (m, (p, now, u, raw) # H, es) (m', H, es)"
  using task_step.finishes [OF _ assms, of "(p, now, u, raw) # H" es] by simp

lemma complete_response_tasks:
  assumes "complete_response tid u raw now m = (r, m')" "length raw \<le> 253"
  shows "task_step\<^sup>*\<^sup>* (m, H, es) (m', H, Response (Some tid) u raw now # es)"
proof -
  obtain t m1 where t: "take_matching tid m = (t, m1)" by (rule prod.exhaust)
  show ?thesis
  proof (cases t)
    case None
    then show ?thesis using task_step.unmatched [of tid m m1 H es u raw now] t assms(1)
      by (auto simp: complete_response_def)
  next
    case (Some p)
    then have "finish_response p now u raw m1 = (r, m')" using t assms(1) by (simp add: complete_response_def)
    from task_step.matched [OF t [unfolded Some] assms(2), of H es now u] finish_tasks [OF this]
    show ?thesis by (meson r_into_rtranclp rtranclp.rtrancl_into_rtrancl)
  qed
qed

lemma complete_oldest_response_tasks:
  assumes "complete_oldest_response u raw now m = (r, m')" "length raw \<le> 253" "length (slots m) = 16"
  shows "task_step\<^sup>*\<^sup>* (m, H, es) (m', H, es) \<or> task_step\<^sup>*\<^sup>* (m, H, es) (m', H, Response None u raw now # es)"
proof (cases "oldest_slot (enumerate 0 (slots m)) None")
  case None
  then show ?thesis using assms(1) task_step.retires [of m H es] by (auto simp: complete_oldest_response_def)
next
  case (Some it)
  then obtain i t0 where it: "it = (i, t0)" "i < 16"
    using oldest_slot_found [of 0 "slots m" None "fst it" "snd it"] assms(3) by (cases it) auto
  obtain t m1 where t: "take_oldest i u now m = (t, m1)" by (rule prod.exhaust)
  show ?thesis
  proof (cases t)
    case (Inl out)
    then show ?thesis using task_step.rtu_ignored [OF it(2), of u now m out m1 H es raw] t assms(1) Some it(1)
      by (auto simp: complete_oldest_response_def)
  next
    case (Inr p)
    then have "finish_response p now u raw m1 = (r, m')" using t assms(1) Some it(1) by (simp add: complete_oldest_response_def)
    from task_step.rtu_taken [OF it(2) t [unfolded Inr] assms(2), of H es] finish_tasks [OF this]
    show ?thesis by (meson r_into_rtranclp rtranclp.rtrancl_into_rtrancl)
  qed
qed

lemma remove_tasks:
  assumes "remove tid m = (b, m')"
  shows "\<exists>es'. task_step\<^sup>*\<^sup>* (m, H, es) (m', H, es')"
proof -
  obtain t m1 where t: "take_matching tid m = (t, m1)" by (rule prod.exhaust)
  show ?thesis
  proof (cases t)
    case None
    then show ?thesis using t assms take_matching_cases(1) [of tid m] by (auto simp: remove_def)
  next
    case (Some p)
    then have "m' = notify_one m1" using t assms by (simp add: remove_def)
    then show ?thesis
      using task_step.drops [OF t [unfolded Some], of H es] task_step.notifies [of m1 H "Dropped p # es"]
      by (meson r_into_rtranclp rtranclp.rtrancl_into_rtrancl)
  qed
qed

lemma cancel_slots_tasks:
  "cancel_slots is e b m = (b', m') \<Longrightarrow> set is \<subseteq> {..<16} \<Longrightarrow>
     task_step\<^sup>*\<^sup>* (m, H, es) (m', H, replicate (length is) (CancelAll e) @ es)"
proof (induction "is" arbitrary: b m es)
  case (Cons i "is")
  obtain c n where c: "cancel_slot i e m = (c, n)" by (rule prod.exhaust)
  have "task_step (m, H, es) (n, H, CancelAll e # es)" using Cons.prems c by (intro task_step.cancels) auto
  moreover have "task_step\<^sup>*\<^sup>* (n, H, CancelAll e # es) (m', H, replicate (length is) (CancelAll e) @ CancelAll e # es)"
    using Cons c by (simp add: cancel_slots.simps(2) del: cancel_slots_unfold)
  ultimately show ?case by (simp add: replicate_app_Cons_same)
qed simp

lemma expire_slots_tasks:
  "expire_slots is now b near m = (b', near', m') \<Longrightarrow> set is \<subseteq> {..<16} \<Longrightarrow>
     task_step\<^sup>*\<^sup>* (m, H, es) (m', H, replicate (length is) (Clock now) @ es)"
proof (induction "is" arbitrary: b near m es)
  case (Cons i "is")
  obtain c k n where c: "expire_slot i now near m = (c, k, n)" by (rule prod_cases3)
  have "task_step (m, H, es) (n, H, Clock now # es)" using Cons.prems c by (intro task_step.expires) auto
  moreover have "task_step\<^sup>*\<^sup>* (n, H, Clock now # es) (m', H, replicate (length is) (Clock now) @ Clock now # es)"
    using Cons c by (simp add: expire_slots.simps(2) del: expire_slots_unfold)
  ultimately show ?case by (simp add: replicate_app_Cons_same)
qed simp

lemma cancel_all_tasks:
  "task_step\<^sup>*\<^sup>* (m, H, es) (cancel_all e m, H, replicate 16 (CancelAll e) @ es)"
proof -
  obtain b n where c: "cancel_slots [0..<16] e False m = (b, n)" by (rule prod.exhaust)
  then have "task_step\<^sup>*\<^sup>* (m, H, es) (n, H, replicate 16 (CancelAll e) @ es)" using cancel_slots_tasks [OF c, of H es] by (auto simp: subset_iff)
  then show ?thesis using c task_step.notifies by (auto simp: cancel_all_def intro: rtranclp.rtrancl_into_rtrancl)
qed

lemma expire_due_tasks:
  "task_step\<^sup>*\<^sup>* (m, H, es) (snd (expire_due_and_next_deadline now m), H, replicate 16 (Clock now) @ es)"
proof -
  obtain b k n where c: "expire_slots [0..<16] now False None m = (b, k, n)" by (rule prod_cases3)
  then have "task_step\<^sup>*\<^sup>* (m, H, es) (n, H, replicate 16 (Clock now) @ es)" using expire_slots_tasks [OF c, of H es] by (auto simp: subset_iff)
  then show ?thesis using c task_step.notifies
    by (auto simp: expire_due_and_next_deadline_def intro: rtranclp.rtrancl_into_rtrancl)
qed

section \<open>Properties\<close>

text \<open>The sections and the channel of the first request, for the example.\<close>

lemma sample_registration: "task_step (TransactionManager_new, [], []) (notify_one sample_manager, [], [Registered sample_pending])"
proof -
  have "try_slot 1 (UnitId 1) FunctionCode.ReadCoils 50 10 TransactionManager_new = (Some 0, notify_one sample_manager)"
    by (simp add: try_slot_def sample_manager_def sample_pending_def TransactionManager_new_def notify_one_def set_slot_def)
  from task_step.registers [OF _ this, of "[]" "[]"] show ?thesis by (simp add: sample_pending_def)
qed

text \<open>
  C12.  No interleaving of the tasks that share the manager loses, mixes up or repeats an answer.  Take any run of the
  sections that senders, the reader, the deadline scheduler and shutdown execute, in any order, from a new
  manager.  At most sixteen requests are outstanding, each in the slot of its identifier, with distinct
  identifiers.  Every request has a channel of its own, and what a channel holds was caused, after the
  request was registered, by an event that explains it: a response with the request's identifier (or over
  RTU) that came in time, from the addressed unit, and decodes to the answer; a response that is refused
  for the stated reason; the passing of its deadline; or the cancellation with that error.  Every
  registered request is still pending, being completed, answered, or was dropped by its sender.  And what
  a channel holds no later step of any task replaces.
\<close>

theorem replies_are_explained:
  assumes "task_step\<^sup>*\<^sup>* (TransactionManager_new, [], []) (m, H, es)" "task_step\<^sup>*\<^sup>* (m, H, es) (m', H', es')"
  shows "slots_ok m \<and> pending_count m \<le> 16 \<and> distinct (map txn_id (pending m))
    \<and> distinct (map sender (requests es))
    \<and> (\<forall>ch r. inbox m ch = Some r \<longrightarrow> (\<exists>p \<in> set (requests es). sender p = ch \<and> explained es p r))
    \<and> (\<forall>p \<in> set (requests es).
         p \<in> set (pending m) \<or> p \<in> fst ` set H \<or> inbox m (sender p) \<noteq> None \<or> since es p (Dropped p))
    \<and> inbox m \<subseteq>\<^sub>m inbox m'"
proof -
  have inv: "log_inv (m, H, es)" using steps_log_inv [OF assms(1) log_inv_new] by simp
  note i = log_invD [OF inv]
  have ok: "slots_ok m" "distinct (map sender (pending m))" using i(1) by auto
  have "pending_count m \<le> 16" using length_filter_le [of "\<lambda>s. s \<noteq> None" "slots m"] i(2) by (simp add: pending_count_def)
  moreover have "distinct (map txn_id (pending m))" using ok by (rule pending_distinct)
  moreover have "inbox m \<subseteq>\<^sub>m inbox m'" using steps_log_inv [OF assms(2) inv] by simp
  ultimately show ?thesis using ok(1) i(5,7,8) by blast
qed

theorem replies_are_explained_witness:
  "\<exists>m es resp. task_step\<^sup>*\<^sup>* (TransactionManager_new, [], []) (m, [], es) \<and> inbox m 0 = Some (Ok resp)
     \<and> requests es = [sample_pending] \<and> explained es sample_pending (Ok resp)"
proof -
  let ?m = "notify_one sample_manager"
  obtain r m where c: "complete_response 1 (UnitId 1) [1, 1, 5] 20 ?m = (r, m)" by (rule prod.exhaust)
  let ?es = "[Response (Some 1) (UnitId 1) [1, 1, 5] 20, Registered sample_pending]"
  have "(case inbox (snd (complete_response 1 (UnitId 1) [1, 1, 5] 20 ?m)) 0 of Some (Ok _) \<Rightarrow> True | _ \<Rightarrow> False)"
    by code_simp
  then obtain resp where r: "inbox m 0 = Some (Ok resp)" using c by (auto split: option.splits res.splits)
  have run: "task_step\<^sup>*\<^sup>* (TransactionManager_new, [], []) (m, [], ?es)"
    using sample_registration complete_response_tasks [OF c, of "[]" "[Registered sample_pending]"]
    by (auto intro: converse_rtranclp_into_rtranclp)
  then show ?thesis using replies_are_explained [OF run rtranclp.rtrancl_refl] r by (intro exI [of _ m] exI [of _ ?es]) auto
qed

end
