(* ===== verification/Client_Lifecycle.thy ===== *)
theory Client_Lifecycle
  imports Transaction_Laws
begin

text \<open>
  Admission, cancellation and shutdown of a client (\<open>rusty-modbus-client/src/lifecycle.rs\<close>).  The
  fields behind the \<open>state\<close> mutex are the record \<open>State\<close>; the rest of the shared object extends it.
  The semaphore is its number of free permits and whether it is closed, a watch channel its value,
  a \<open>Notify\<close> its permit.  Of a background task the record keeps whether its handle is installed and
  whether it was asked to abort.  Waiting is the runtime's: what other tasks do during a wait, and
  what the wait returns, is an argument.
\<close>

section \<open>State\<close>

datatype Phase = Running | Draining | Cancelling | Closed

record State =
  phase :: Phase
  active :: nat
  drain_deadline :: "Instant option"
  coordinator_started :: bool

record Tasks =
  reader :: bool
  deadline_task :: bool
  reader_abort :: bool
  deadline_abort :: bool
  coordinator_abort :: bool
  reader_aborted :: bool
  deadline_aborted :: bool
  coordinator_aborted :: bool

record ClientLifecycle = State +
  permits :: nat
  semaphore_closed :: bool
  active_changed :: bool
  cancellation :: bool
  task_stop :: bool
  completion :: bool
  tasks :: Tasks
  txn_mgr :: TransactionManager
  connected :: bool

definition Tasks_default :: Tasks where
  "Tasks_default = \<lparr>reader = False, deadline_task = False, reader_abort = False, deadline_abort = False,
     coordinator_abort = False, reader_aborted = False, deadline_aborted = False, coordinator_aborted = False\<rparr>"

definition ClientLifecycle_new :: "nat \<Rightarrow> TransactionManager \<Rightarrow> bool \<Rightarrow> ClientLifecycle" where
  "ClientLifecycle_new max_in_flight mgr conn =
     \<lparr>phase = Running, active = 0, drain_deadline = None, coordinator_started = False,
      permits = max_in_flight, semaphore_closed = False, active_changed = False, cancellation = False,
      task_stop = False, completion = False, tasks = Tasks_default, txn_mgr = mgr, connected = conn\<rparr>"

definition install_tasks :: "ClientLifecycle \<Rightarrow> ClientLifecycle" where
  "install_tasks l = l\<lparr>tasks := (tasks l)\<lparr>reader_abort := True, deadline_abort := True, reader := True, deadline_task := True\<rparr>\<rparr>"

definition is_running :: "ClientLifecycle \<Rightarrow> bool" where
  "is_running l \<longleftrightarrow> phase l = Running"

definition phase_name :: "ClientLifecycle \<Rightarrow> string" where
  "phase_name l = (case phase l of Running \<Rightarrow> ''running'' | Draining \<Rightarrow> ''draining''
     | Cancelling \<Rightarrow> ''cancelling'' | Closed \<Rightarrow> ''closed'')"

definition active_count :: "ClientLifecycle \<Rightarrow> nat" where
  "active_count l = active l"

text \<open>The session record is shared with the transaction manager.\<close>

definition retire_session :: "SessionRetirementReason \<Rightarrow> ClientLifecycle \<Rightarrow> ClientLifecycle" where
  "retire_session reason l = l\<lparr>txn_mgr := retire reason (txn_mgr l)\<rparr>"

definition mark_clean :: "ClientLifecycle \<Rightarrow> ClientLifecycle" where
  "mark_clean l = l\<lparr>txn_mgr := (txn_mgr l)\<lparr>reuse_safety := SessionReuseSafety_mark_clean_shutdown (reuse_safety (txn_mgr l))\<rparr>\<rparr>"

section \<open>Admission\<close>

text \<open>
  \<open>admit\<close> reads the phase, waits for a permit, and enters under the lock: \<open>admit_check\<close>, what the
  wait gives, and \<open>admit_enter\<close>.  A permit that is dropped goes back to the semaphore.
\<close>

definition admit_check :: "ClientLifecycle \<Rightarrow> (ClientError, unit) res" where
  "admit_check l = (if phase l \<noteq> Running then Err NotConnected else Ok ())"

definition acquire_owned :: "ClientLifecycle \<Rightarrow> ((ClientError, unit) res \<times> ClientLifecycle) option" where
  "acquire_owned l =
     (if semaphore_closed l then Some (Err ShuttingDown, l)
      else if permits l = 0 then None
      else Some (Ok (), l\<lparr>permits := permits l - 1\<rparr>))"

definition admit_enter :: "ClientLifecycle \<Rightarrow> (ClientError, unit) res \<times> ClientLifecycle" where
  "admit_enter l =
     (if phase l \<noteq> Running then (Err ShuttingDown, l\<lparr>permits := permits l + 1\<rparr>)
      else (Ok (), l\<lparr>active := active l + 1\<rparr>))"

definition admit
  :: "(ClientLifecycle \<Rightarrow> ClientLifecycle) \<Rightarrow> ClientLifecycle \<Rightarrow> ((ClientError, unit) res \<times> ClientLifecycle) option" where
  "admit wait l =
     (case admit_check l of
        Err e \<Rightarrow> Some (Err e, l)
      | Panic \<Rightarrow> Some (Panic, l)
      | Ok _ \<Rightarrow>
          (case acquire_owned (wait l) of
             None \<Rightarrow> None
           | Some (Ok _, l) \<Rightarrow> Some (admit_enter l)
           | Some (r, l) \<Rightarrow> Some (r, l)))"

text \<open>Dropping an \<open>OperationGuard\<close>, with its permit.  The subtraction saturates.\<close>

definition OperationGuard_drop :: "ClientLifecycle \<Rightarrow> ClientLifecycle" where
  "OperationGuard_drop l =
     (let l = l\<lparr>active := active l - 1\<rparr>;
          l = (if active l = 0 then l\<lparr>active_changed := True\<rparr> else l) in
      l\<lparr>permits := permits l + 1\<rparr>)"

definition OperationGuard_is_cancelled :: "ClientLifecycle \<Rightarrow> bool" where
  "OperationGuard_is_cancelled l = cancellation l"

section \<open>Shutdown\<close>

definition seal :: "Instant \<Rightarrow> ClientLifecycle \<Rightarrow> ClientLifecycle" where
  "seal dl l =
     (if phase l = Running
      then l\<lparr>phase := Draining, drain_deadline := Some dl, semaphore_closed := True\<rparr> else l)"

text \<open>The flag says whether a coordinator task is spawned.\<close>

definition ensure_coordinator :: "ClientLifecycle \<Rightarrow> bool \<times> ClientLifecycle" where
  "ensure_coordinator l =
     (if phase l = Closed \<or> coordinator_started l then (False, l)
      else (True, l\<lparr>coordinator_started := True, tasks := (tasks l)\<lparr>coordinator_abort := True\<rparr>\<rparr>))"

definition abort_tasks :: "ClientLifecycle \<Rightarrow> ClientLifecycle" where
  "abort_tasks l =
     (let t = tasks l;
          t = (if reader_abort t then t\<lparr>reader_aborted := True\<rparr> else t);
          t = (if deadline_abort t then t\<lparr>deadline_aborted := True\<rparr> else t) in
      l\<lparr>tasks := t\<rparr>)"

definition abort_phase :: "ClientLifecycle \<Rightarrow> ClientLifecycle" where
  "abort_phase l =
     (if phase l \<noteq> Closed then l\<lparr>phase := Cancelling, semaphore_closed := True\<rparr> else l\<lparr>semaphore_closed := True\<rparr>)"

definition abort_inner :: "SessionRetirementReason \<Rightarrow> ClientLifecycle \<Rightarrow> ClientLifecycle" where
  "abort_inner reason l =
     (let l = retire_session reason l;
          l = abort_phase l;
          l = l\<lparr>connected := False\<rparr>;
          l = l\<lparr>txn_mgr := cancel_all ShuttingDown (txn_mgr l)\<rparr>;
          l = l\<lparr>cancellation := True\<rparr>;
          l = l\<lparr>task_stop := True\<rparr> in
      abort_tasks l)"

definition abort :: "SessionRetirementReason \<Rightarrow> ClientLifecycle \<Rightarrow> ClientLifecycle" where
  "abort reason l = abort_inner reason l"

definition abort_coordinator :: "ClientLifecycle \<Rightarrow> ClientLifecycle" where
  "abort_coordinator l =
     (if coordinator_abort (tasks l) then l\<lparr>tasks := (tasks l)\<lparr>coordinator_aborted := True\<rparr>\<rparr> else l)"

definition stop_tasks :: "bool \<Rightarrow> ClientLifecycle \<Rightarrow> ClientLifecycle" where
  "stop_tasks hard_stop l =
     (let l = l\<lparr>task_stop := True\<rparr>;
          t = tasks l;
          t = (if hard_stop \<and> reader_abort t then t\<lparr>reader_aborted := True\<rparr> else t);
          t = (if deadline_abort t then t\<lparr>deadline_aborted := True\<rparr> else t) in
      l\<lparr>tasks := t\<rparr>)"

text \<open>How a joined task ended: normally, cancelled, or by a panic.\<close>

datatype join_outcome = Joined | JoinCancelled | JoinPanicked

definition join_tasks :: "join_outcome \<Rightarrow> join_outcome \<Rightarrow> ClientLifecycle \<Rightarrow> ClientLifecycle" where
  "join_tasks jr jd l =
     (let has_reader = reader (tasks l); has_deadline = deadline_task (tasks l);
          l = l\<lparr>tasks := (tasks l)\<lparr>reader := False, deadline_task := False\<rparr>\<rparr>;
          l = (if has_reader \<and> jr = JoinPanicked then retire_session BackgroundTaskFailed l else l) in
      if has_deadline \<and> jd = JoinPanicked then retire_session BackgroundTaskFailed l else l)"

text \<open>
  The coordinator: the deadline it waits for, the last section under the state lock, and what it
  records after that.
\<close>

definition coordinator_deadline :: "ClientLifecycle \<Rightarrow> Instant option" where
  "coordinator_deadline l = (if phase l = Draining then drain_deadline l else None)"

definition close_state :: "ClientLifecycle \<Rightarrow> bool \<times> ClientLifecycle" where
  "close_state l =
     (phase l = Draining \<and> active l = 0 \<and> pending_count (txn_mgr l) = 0, l\<lparr>phase := Closed\<rparr>)"

definition record_shutdown :: "bool \<Rightarrow> ClientLifecycle \<Rightarrow> ClientLifecycle" where
  "record_shutdown clean l =
     (let l = (if clean then mark_clean l else retire_session ShutdownIncomplete l) in l\<lparr>completion := True\<rparr>)"

datatype drain_outcome = ZeroActive | CancellationSeen | DrainDeadline

definition coordinate_shutdown
  :: "(Instant \<Rightarrow> ClientLifecycle \<Rightarrow> drain_outcome \<times> ClientLifecycle)
      \<Rightarrow> (ClientLifecycle \<Rightarrow> (join_outcome \<times> join_outcome) \<times> ClientLifecycle) \<Rightarrow> ClientLifecycle \<Rightarrow> ClientLifecycle" where
  "coordinate_shutdown wait join l =
     (let l = (case coordinator_deadline l of
                 None \<Rightarrow> l
               | Some d \<Rightarrow>
                   (case wait d l of
                      (DrainDeadline, l) \<Rightarrow> abort_inner ShutdownDeadlineExceeded l
                    | (_, l) \<Rightarrow> l));
          l = stop_tasks (phase l = Cancelling) l;
          ((jr, jd), l) = join l;
          l = join_tasks jr jd l;
          l = l\<lparr>connected := False\<rparr>;
          (clean, l) = close_state l in
      record_shutdown clean l)"

end
