(* ===== verification/Client_Engine.thy ===== *)
theory Client_Engine
  imports Client_Lifecycle
begin

text \<open>
  The request engine of the client (\<open>rusty-modbus-client/src/client.rs\<close> and \<open>config.rs\<close>).  A
  \<open>Duration\<close> is a number of nanoseconds.  The asynchronous runtime, the transport and the other
  tasks of the client are the argument \<open>Runtime\<close>: for every point where the code waits it says what
  the wait returns and what the rest of the system did to the client in the meantime.
\<close>

section \<open>Configuration\<close>

type_synonym Duration = nat

definition DURATION_MAX :: Duration where
  "DURATION_MAX = (2 ^ 64 - 1) * 1000000000 + 999999999"

definition Duration_saturating_mul :: "Duration \<Rightarrow> u32 \<Rightarrow> Duration" where
  "Duration_saturating_mul d n = min DURATION_MAX (d * unat n)"

definition Duration_saturating_add :: "Duration \<Rightarrow> Duration \<Rightarrow> Duration" where
  "Duration_saturating_add a b = min DURATION_MAX (a + b)"

definition Duration_from_secs :: "nat \<Rightarrow> Duration" where
  "Duration_from_secs s = s * 1000000000"

definition Duration_from_millis :: "nat \<Rightarrow> Duration" where
  "Duration_from_millis ms = ms * 1000000"

record RetryConfig =
  max_retries :: u32
  retry_delay :: Duration
  retryable_exceptions :: "ExceptionCode list"

record ClientConfig =
  unit_id :: UnitId
  timeout :: Duration
  max_in_flight :: nat
  retry :: RetryConfig
  shutdown_timeout :: Duration

definition RetryConfig_default :: RetryConfig where
  "RetryConfig_default =
     \<lparr>max_retries = 3, retry_delay = Duration_from_millis 100, retryable_exceptions = [ServerDeviceBusy]\<rparr>"

definition ClientConfig_default :: ClientConfig where
  "ClientConfig_default =
     \<lparr>unit_id = UnitId 0xFF, timeout = Duration_from_secs 5, max_in_flight = 16,
      retry = RetryConfig_default, shutdown_timeout = Duration_from_secs 10\<rparr>"

definition is_retryable :: "RetryConfig \<Rightarrow> ExceptionCode \<Rightarrow> bool" where
  "is_retryable self c \<longleftrightarrow> c = ServerDeviceBusy \<and> ServerDeviceBusy \<in> set (retryable_exceptions self)"

section \<open>Deadlines\<close>

definition operation_budget :: "Duration \<Rightarrow> Duration \<Rightarrow> u32 \<Rightarrow> Duration" where
  "operation_budget tmo delay n =
     Duration_saturating_add (Duration_saturating_add (Duration_saturating_mul tmo n) tmo)
       (Duration_saturating_mul delay n)"

text \<open>\<open>Instant::checked_add\<close>; the last instant the platform can represent is an argument.\<close>

definition Instant_checked_add :: "Instant \<Rightarrow> Instant \<Rightarrow> Duration \<Rightarrow> Instant option" where
  "Instant_checked_add limit start d = (if start + d \<le> limit then Some (start + d) else None)"

partial_function (option) instant_search :: "Instant \<Rightarrow> Instant \<Rightarrow> Duration \<Rightarrow> Duration \<Rightarrow> Duration option" where
  "instant_search limit start lower upper =
     (if upper - lower > 1
      then let midpoint = Duration_saturating_add lower ((upper - lower) div 2) in
           if Instant_checked_add limit start midpoint \<noteq> None
           then instant_search limit start midpoint upper
           else instant_search limit start lower midpoint
      else Some lower)"

definition saturating_instant_add :: "Instant \<Rightarrow> Instant \<Rightarrow> Duration \<Rightarrow> Instant option" where
  "saturating_instant_add limit start d =
     (case Instant_checked_add limit start d of
        Some dl \<Rightarrow> Some dl
      | None \<Rightarrow>
          map_option (\<lambda>lower. case Instant_checked_add limit start lower of Some t \<Rightarrow> t | None \<Rightarrow> start)
            (instant_search limit start 0 d))"

definition checked_pdu_length :: "nat \<Rightarrow> (ClientError, u16) res" where
  "checked_pdu_length pdu_len =
     (if pdu_len = 0 then Err (Transport (TransportError.Frame (InvalidPduLength pdu_len 1)))
      else if pdu_len > MAX_PDU_SIZE
      then Err (Transport (TransportError.Frame (PduLengthOverflow pdu_len MAX_PDU_SIZE)))
      else expect (u16_try_from pdu_len))"

section \<open>The client and the system around it\<close>

datatype RequestKind = ReplaySafe | Mutating

datatype 'a PollOutcome = Ready 'a | Deadline | Cancelled

datatype AttemptDisposition =
    Complete "(ClientError, OwnedResponsePdu) res"
  | Retry string ClientError

record 'w ModbusClient =
  sink :: 'w
  config :: ClientConfig
  lifecycle :: ClientLifecycle

text \<open>
  \<open>acquire_permit\<close> is what waiting for the semaphore returns (false when it was closed); a deadline
  of \<open>None\<close> is a wait that only cancellation interrupts; \<open>poll_reply\<close> runs until the response
  channel holds a value or has lost its sender; \<open>poll_backoff\<close> says whether the sleep was cancelled.
\<close>

record 'w Runtime =
  instant_limit :: Instant
  read_clock :: "'w ModbusClient \<Rightarrow> Instant \<times> 'w ModbusClient"
  acquire_permit :: "'w ModbusClient \<Rightarrow> bool \<times> 'w ModbusClient"
  poll_sink :: "Instant option \<Rightarrow> 'w ModbusClient \<Rightarrow> unit PollOutcome \<times> 'w ModbusClient"
  poll_send :: "Instant option \<Rightarrow> Frame \<Rightarrow> 'w ModbusClient \<Rightarrow> (TransportError, unit) res PollOutcome \<times> 'w ModbusClient"
  poll_reply :: "nat \<Rightarrow> 'w ModbusClient \<Rightarrow> 'w ModbusClient"
  poll_backoff :: "Instant \<Rightarrow> 'w ModbusClient \<Rightarrow> bool \<times> 'w ModbusClient"

definition on_mgr :: "(TransactionManager \<Rightarrow> TransactionManager) \<Rightarrow> 'w ModbusClient \<Rightarrow> 'w ModbusClient" where
  "on_mgr f c = c\<lparr>lifecycle := (lifecycle c)\<lparr>txn_mgr := f (txn_mgr (lifecycle c))\<rparr>\<rparr>"

definition client_mgr :: "'w ModbusClient \<Rightarrow> TransactionManager" where
  "client_mgr c = txn_mgr (lifecycle c)"

definition client_retire :: "SessionRetirementReason \<Rightarrow> 'w ModbusClient \<Rightarrow> 'w ModbusClient" where
  "client_retire reason = on_mgr (retire reason)"

definition from_transport :: "'w \<Rightarrow> ClientConfig \<Rightarrow> 'w ModbusClient" where
  "from_transport s cfg =
     \<lparr>sink = s, config = cfg,
      lifecycle = install_tasks (ClientLifecycle_new (max 1 (min (max_in_flight cfg) MAX_SLOTS)) TransactionManager_new True)\<rparr>"

definition from_rtu_transport :: "'w \<Rightarrow> ClientConfig \<Rightarrow> 'w ModbusClient" where
  "from_rtu_transport s cfg = from_transport s (cfg\<lparr>max_in_flight := 1\<rparr>)"

definition is_connected :: "'w ModbusClient \<Rightarrow> bool" where
  "is_connected c \<longleftrightarrow> is_running (lifecycle c) \<and> connected (lifecycle c)"

definition client_unit_id :: "'w ModbusClient \<Rightarrow> UnitId" where
  "client_unit_id c = ClientConfig.unit_id (config c)"

definition session_reuse_verdict :: "'w ModbusClient \<Rightarrow> ('e, SessionReuseVerdict) res" where
  "session_reuse_verdict c = SessionReuseSafety_verdict (reuse_safety (client_mgr c))"

definition client_abort :: "'w ModbusClient \<Rightarrow> 'w ModbusClient" where
  "client_abort c = c\<lparr>lifecycle := abort Aborted (lifecycle c)\<rparr>"

definition ModbusClient_drop :: "'w ModbusClient \<Rightarrow> 'w ModbusClient" where
  "ModbusClient_drop c = c\<lparr>lifecycle := abort_coordinator (abort FinalOwnerDropped (lifecycle c))\<rparr>"

text \<open>Which errors of a typed response retire the session.\<close>

fun typed_response_reason :: "ClientError \<Rightarrow> SessionRetirementReason option" where
  "typed_response_reason (UnexpectedResponseEcho _ _ _) = Some TypedResponseEchoMismatch"
| "typed_response_reason (Codec _) = Some TypedResponseDataInvalid"
| "typed_response_reason (ShortResponse _ _) = Some TypedResponseDataInvalid"
| "typed_response_reason (UnexpectedResponseLength _ _ _) = Some TypedResponseDataInvalid"
| "typed_response_reason (UnexpectedResponsePadding _ _ _) = Some TypedResponseDataInvalid"
| "typed_response_reason (UnexpectedFileRecordSubResponseCount _ _) = Some TypedResponseDataInvalid"
| "typed_response_reason (InvalidDeviceIdentificationContinuation _ _) = Some TypedResponseDataInvalid"
| "typed_response_reason (DeviceIdentificationPaginationLimit _) = Some TypedResponseDataInvalid"
| "typed_response_reason _ = None"

definition finish_typed_response :: "(ClientError, 'a) res \<Rightarrow> 'w ModbusClient \<Rightarrow> (ClientError, 'a) res \<times> 'w ModbusClient" where
  "finish_typed_response result c =
     (case result of
        Err e \<Rightarrow> (case typed_response_reason e of
                    Some reason \<Rightarrow> (result, client_retire reason c)
                  | None \<Rightarrow> (result, c))
      | _ \<Rightarrow> (result, c))"

section \<open>One request\<close>

text \<open>Leaving \<open>send_request\<close> after registration drops the dispatch guard and the registration.\<close>

definition drop_guards :: "DispatchGuard \<Rightarrow> TransactionRegistration \<Rightarrow> 'w ModbusClient \<Rightarrow> 'w ModbusClient" where
  "drop_guards g reg c =
     on_mgr (\<lambda>m. TransactionRegistration_drop reg (m\<lparr>reuse_safety := DispatchGuard_drop g (reuse_safety m)\<rparr>)) c"

definition send_failure_reason :: "TransportError \<Rightarrow> SessionRetirementReason" where
  "send_failure_reason e = (if e = TransportError.Timeout then RequestTimedOut else SendFailed)"

definition dispatch_request_frame
  :: "'w Runtime \<Rightarrow> TransactionRegistration \<Rightarrow> nat \<Rightarrow> Frame \<Rightarrow> Instant \<Rightarrow> 'w ModbusClient
      \<Rightarrow> (ClientError, OwnedResponsePdu) res \<times> 'w ModbusClient" where
  "dispatch_request_frame R reg rx frame dl c =
     (let g = DispatchGuard_armed in
      case poll_send R (Some dl) frame c of
        (Ready (Ok _), c) \<Rightarrow>
          let c = poll_reply R rx c in
          (case inbox (client_mgr c) rx of
             Some (Ok response) \<Rightarrow> (Ok response, drop_guards (DispatchGuard_disarm g) reg c)
           | Some (Err e) \<Rightarrow> (Err e, drop_guards g reg c)
           | Some Panic \<Rightarrow> (Panic, c)
           | None \<Rightarrow> (Err ShuttingDown, drop_guards g reg (client_retire ResponseChannelClosed c)))
      | (Ready (Err e), c) \<Rightarrow> (Err (Transport e), drop_guards g reg (client_retire (send_failure_reason e) c))
      | (Ready Panic, c) \<Rightarrow> (Panic, c)
      | (Deadline, c) \<Rightarrow> (Err ClientError.Timeout, drop_guards g reg (client_retire RequestTimedOut c))
      | (Cancelled, c) \<Rightarrow>
          (case inbox (client_mgr c) rx of
             Some (Ok response) \<Rightarrow> (Ok response, drop_guards (DispatchGuard_disarm g) reg c)
           | Some (Err e) \<Rightarrow> (Err e, drop_guards g reg c)
           | Some Panic \<Rightarrow> (Panic, c)
           | None \<Rightarrow> (Err ShuttingDown, drop_guards g reg c)))"

definition send_request
  :: "'w Runtime \<Rightarrow> UnitId \<Rightarrow> FunctionCode \<Rightarrow> bytes \<Rightarrow> u16 \<Rightarrow> Instant \<Rightarrow> 'w ModbusClient
      \<Rightarrow> (ClientError, OwnedResponsePdu) res \<times> 'w ModbusClient" where
  "send_request R unit fc raw pdu_len dl c =
     (if \<not> connected (lifecycle c) then (Err NotConnected, c)
      else case poll_sink R (Some dl) c of
        (Deadline, c) \<Rightarrow> (Err ClientError.Timeout, c)
      | (Cancelled, c) \<Rightarrow> (Err ShuttingDown, c)
      | (Ready _, c) \<Rightarrow>
          (case read_clock R c of (now, c) \<Rightarrow>
           case register_guarded unit fc dl now (client_mgr c) of
             None \<Rightarrow> (Panic, c)
           | Some (Panic, m) \<Rightarrow> (Panic, on_mgr (\<lambda>_. m) c)
           | Some (Err e, m) \<Rightarrow> (Err e, on_mgr (\<lambda>_. m) c)
           | Some (Ok (reg, rx), m) \<Rightarrow>
               let c = on_mgr (\<lambda>_. m) c in
               (case MbapHeader_new (transaction_id reg) (UnitId_raw unit) pdu_len of
                  Ok hdr \<Rightarrow> dispatch_request_frame R reg rx \<lparr>Frame.header = Mbap hdr, Frame.pdu = raw\<rparr> dl c
                | Err e \<Rightarrow> (Err e, c)
                | Panic \<Rightarrow> (Panic, c))))"

section \<open>Retries\<close>

definition classify_attempt :: "RetryConfig \<Rightarrow> RequestKind \<Rightarrow> (ClientError, OwnedResponsePdu) res \<Rightarrow> AttemptDisposition" where
  "classify_attempt cfg req_kind result =
     (case result of
        Ok response \<Rightarrow>
          (case response of
             OwnedResponsePdu.Exception exc \<Rightarrow>
               if exception_code exc = Acknowledge then Complete result
               else if exception_code exc = ServerDeviceBusy \<and> is_retryable cfg (exception_code exc)
               then Retry ''server_device_busy'' (ClientError.Exception exc)
               else Complete result
           | _ \<Rightarrow> Complete result)
      | Err e \<Rightarrow>
          if e = ClientError.Timeout \<and> req_kind = ReplaySafe then Retry ''attempt_timeout'' e
          else if e = Transport TransportError.Timeout \<and> req_kind = ReplaySafe then Retry ''transport_timeout'' e
          else Complete result
      | Panic \<Rightarrow> Complete result)"

text \<open>
  The loop of \<open>send_with_retry\<close>.  Besides the result it returns the attempts it made, each with the
  deadline it was given and its outcome.
\<close>

record attempt =
  attempt_deadline :: Instant
  outcome :: "(ClientError, OwnedResponsePdu) res"

datatype 'w iteration =
    Finished "(ClientError, OwnedResponsePdu) res" "attempt list" "'w ModbusClient"
  | Again u32 ClientError attempt "'w ModbusClient"

definition after_attempt
  :: "'w Runtime \<Rightarrow> RequestKind \<Rightarrow> Instant \<Rightarrow> u32 \<Rightarrow> attempt \<Rightarrow> 'w ModbusClient \<Rightarrow> 'w iteration" where
  "after_attempt R req_kind op_deadline attempts_made a c =
     (case classify_attempt (retry (config c)) req_kind (outcome a) of
        Complete result \<Rightarrow> Finished result [a] c
      | Retry reason error \<Rightarrow>
          if attempts_made > max_retries (retry (config c)) \<or> attempts_made = - 1
          then Finished (Err (RetriesExhausted attempts_made error)) [a] c
          else (case read_clock R c of (backoff_start, c) \<Rightarrow>
            case saturating_instant_add (instant_limit R) backoff_start (retry_delay (retry (config c))) of
              None \<Rightarrow> Finished Panic [a] c
            | Some t \<Rightarrow>
                (case poll_backoff R (min t op_deadline) c of
                   (True, c) \<Rightarrow> Finished (Err ShuttingDown) [a] c
                 | (False, c) \<Rightarrow> Again attempts_made error a c)))"

definition retry_iteration
  :: "'w Runtime \<Rightarrow> UnitId \<Rightarrow> FunctionCode \<Rightarrow> bytes \<Rightarrow> u16 \<Rightarrow> RequestKind \<Rightarrow> Instant \<Rightarrow> u32 \<Rightarrow> ClientError option
      \<Rightarrow> 'w ModbusClient \<Rightarrow> 'w iteration" where
  "retry_iteration R unit fc raw pdu_len req_kind op_deadline attempts_made last_error c =
     (if OperationGuard_is_cancelled (lifecycle c) then Finished (Err ShuttingDown) [] c
      else case read_clock R c of (now, c) \<Rightarrow>
      if now \<ge> op_deadline
      then Finished (Err (RetriesExhausted attempts_made (case last_error of Some e \<Rightarrow> e | None \<Rightarrow> ClientError.Timeout))) [] c
      else case read_clock R c of (attempt_start, c) \<Rightarrow>
      case saturating_instant_add (instant_limit R) attempt_start (timeout (config c)) of
        None \<Rightarrow> Finished Panic [] c
      | Some t \<Rightarrow>
          let dl = min t op_deadline;
              attempts_made = (if attempts_made = - 1 then attempts_made else attempts_made + 1) in
          case send_request R unit fc raw pdu_len dl c of (result, c) \<Rightarrow>
          after_attempt R req_kind op_deadline attempts_made \<lparr>attempt_deadline = dl, outcome = result\<rparr> c)"

lemma u32_suc: "n \<noteq> - 1 \<Longrightarrow> unat (n + 1) = Suc (unat (n :: u32))"
proof -
  assume "n \<noteq> - 1"
  moreover have "n = - 1" if "unat n = 4294967295"
    using that word_unat_eq_iff [of n 4294967295] by simp
  ultimately have "unat n \<noteq> 4294967295" by blast
  moreover have "unat n < 4294967296" using unsigned_less [of n] by simp
  ultimately have "unat n + 1 < 4294967296" by linarith
  then show ?thesis by (simp add: unat_word_ariths)
qed

lemma retry_iteration_Again:
  assumes "retry_iteration R unit fc raw pdu_len req_kind op_deadline n last_error c = Again n' e a c'"
  shows "unat n' = Suc (unat n)"
  using assms
  by (auto simp: retry_iteration_def after_attempt_def Let_def u32_suc split: if_splits prod.splits option.splits
      AttemptDisposition.splits bool.splits)

function retry_loop
  :: "'w Runtime \<Rightarrow> UnitId \<Rightarrow> FunctionCode \<Rightarrow> bytes \<Rightarrow> u16 \<Rightarrow> RequestKind \<Rightarrow> Instant \<Rightarrow> u32 \<Rightarrow> ClientError option
      \<Rightarrow> 'w ModbusClient \<Rightarrow> (ClientError, OwnedResponsePdu) res \<times> attempt list \<times> 'w ModbusClient" where
  "retry_loop R unit fc raw pdu_len req_kind op_deadline attempts_made last_error c =
     (case retry_iteration R unit fc raw pdu_len req_kind op_deadline attempts_made last_error c of
        Finished r as c \<Rightarrow> (r, as, c)
      | Again n error a c \<Rightarrow>
          (case retry_loop R unit fc raw pdu_len req_kind op_deadline n (Some error) c of
             (r, as, c) \<Rightarrow> (r, a # as, c)))"
  by pat_completeness auto
termination
proof (relation "measure (\<lambda>(_, _, _, _, _, _, _, n, _, _). 2 ^ 32 - unat n)")
  fix R :: "'w Runtime" and unit fc raw pdu_len req_kind op_deadline n le c n' e a c'
  assume "retry_iteration R unit fc raw pdu_len req_kind op_deadline n le c = Again n' e a c'"
  then have "unat n' = Suc (unat n)" by (rule retry_iteration_Again)
  moreover have "unat n' < 2 ^ 32" using unsigned_less [of n'] by simp
  ultimately have "2 ^ 32 - unat n' < 2 ^ 32 - unat n" by linarith
  then show "((R, unit, fc, raw, pdu_len, req_kind, op_deadline, n', Some e, c'),
      R, unit, fc, raw, pdu_len, req_kind, op_deadline, n, le, c)
    \<in> measure (\<lambda>(_, _, _, _, _, _, _, n, _, _). 2 ^ 32 - unat n)" by simp
qed simp

declare retry_loop.simps [simp del]

definition admit_operation :: "'w Runtime \<Rightarrow> 'w ModbusClient \<Rightarrow> (ClientError, unit) res \<times> 'w ModbusClient" where
  "admit_operation R c =
     (case admit_check (lifecycle c) of
        Ok _ \<Rightarrow>
          (case acquire_permit R c of
             (False, c) \<Rightarrow> (Err ShuttingDown, c)
           | (True, c) \<Rightarrow> (case admit_enter (lifecycle c) of (r, l) \<Rightarrow> (r, c\<lparr>lifecycle := l\<rparr>)))
      | r \<Rightarrow> (r, c))"

definition end_operation :: "'w ModbusClient \<Rightarrow> 'w ModbusClient" where
  "end_operation c = c\<lparr>lifecycle := OperationGuard_drop (lifecycle c)\<rparr>"

definition send_with_retry
  :: "'w Runtime \<Rightarrow> UnitId \<Rightarrow> FunctionCode \<Rightarrow> bytes \<Rightarrow> RequestKind \<Rightarrow> 'w ModbusClient
      \<Rightarrow> (ClientError, OwnedResponsePdu) res \<times> attempt list \<times> 'w ModbusClient" where
  "send_with_retry R unit fc raw req_kind c =
     (if \<not> connected (lifecycle c) then (Err NotConnected, [], c)
      else case checked_pdu_length (length raw) of
        Err e \<Rightarrow> (Err e, [], c)
      | Panic \<Rightarrow> (Panic, [], c)
      | Ok pdu_len \<Rightarrow>
          (case admit_operation R c of
             (Err e, c) \<Rightarrow> (Err e, [], c)
           | (Panic, c) \<Rightarrow> (Panic, [], c)
           | (Ok _, c) \<Rightarrow>
               (case read_clock R c of (operation_start, c) \<Rightarrow>
                let cfg = config c; rc = retry cfg;
                    budget = operation_budget (timeout cfg) (retry_delay rc) (max_retries rc) in
                case saturating_instant_add (instant_limit R) operation_start budget of
                  None \<Rightarrow> (Panic, [], c)
                | Some op_deadline \<Rightarrow>
                    (case retry_loop R unit fc raw pdu_len req_kind op_deadline 0 None c of
                       (r, as, c) \<Rightarrow> (r, as, end_operation c)))))"

definition send_broadcast :: "'w Runtime \<Rightarrow> bytes \<Rightarrow> 'w ModbusClient \<Rightarrow> (ClientError, unit) res \<times> 'w ModbusClient" where
  "send_broadcast R raw c =
     (if \<not> connected (lifecycle c) then (Err NotConnected, c)
      else case checked_pdu_length (length raw) of
        Err e \<Rightarrow> (Err e, c)
      | Panic \<Rightarrow> (Panic, c)
      | Ok pdu_len \<Rightarrow>
          (case admit_operation R c of
             (Ok _, c) \<Rightarrow>
               if OperationGuard_is_cancelled (lifecycle c) then (Err ShuttingDown, end_operation c)
               else (case MbapHeader_new 0 0 pdu_len of
                  Err e \<Rightarrow> (Err e, c)
                | Panic \<Rightarrow> (Panic, c)
                | Ok hdr \<Rightarrow>
                    (case poll_sink R None c of
                       (Ready _, c) \<Rightarrow>
                         let g = DispatchGuard_armed;
                             drop_guard = (\<lambda>g c. end_operation (on_mgr (\<lambda>m. m\<lparr>reuse_safety := DispatchGuard_drop g (reuse_safety m)\<rparr>) c)) in
                         (case poll_send R None \<lparr>Frame.header = Mbap hdr, Frame.pdu = raw\<rparr> c of
                            (Ready (Ok _), c) \<Rightarrow> (Ok (), drop_guard (DispatchGuard_disarm g) c)
                          | (Ready (Err e), c) \<Rightarrow>
                              (Err (Transport e), drop_guard g (client_retire (send_failure_reason e) c))
                          | (Ready Panic, c) \<Rightarrow> (Panic, c)
                          | (_, c) \<Rightarrow> (Err ShuttingDown, drop_guard g c))
                     | (_, c) \<Rightarrow> (Err ShuttingDown, end_operation c)))
           | r \<Rightarrow> r))"

definition client_shutdown
  :: "'w Runtime \<Rightarrow> (Instant \<Rightarrow> ClientLifecycle \<Rightarrow> drain_outcome \<times> ClientLifecycle)
      \<Rightarrow> (ClientLifecycle \<Rightarrow> (join_outcome \<times> join_outcome) \<times> ClientLifecycle) \<Rightarrow> 'w ModbusClient \<Rightarrow> 'w ModbusClient option" where
  "client_shutdown R wait join c =
     (case read_clock R c of (now, c) \<Rightarrow>
      map_option (\<lambda>dl.
        let l = seal dl (lifecycle c) in
        case ensure_coordinator l of
          (True, l) \<Rightarrow> c\<lparr>lifecycle := coordinate_shutdown wait join l\<rparr>
        | (False, l) \<Rightarrow> c\<lparr>lifecycle := l\<rparr>)
        (saturating_instant_add (instant_limit R) now (shutdown_timeout (config c))))"

section \<open>The reader\<close>

text \<open>
  One result of \<open>stream.recv()\<close> in the reader task (\<open>reader.rs\<close>); the flag says whether the loop goes
  on.  \<open>display\<close> is the text of a transport error.
\<close>

definition reader_step
  :: "(TransportError \<Rightarrow> string) \<Rightarrow> (TransportError, Frame) res \<Rightarrow> Instant \<Rightarrow> ClientLifecycle \<Rightarrow> bool \<times> ClientLifecycle" where
  "reader_step display received now l =
     (case received of
        Ok frame \<Rightarrow>
          (case Frame.header frame of
             Mbap h \<Rightarrow> (True, l\<lparr>txn_mgr := snd (complete_response (MbapHeader.transaction_id h)
                 (UnitId (MbapHeader.unit_id h)) (Frame.pdu frame) now (txn_mgr l))\<rparr>)
           | Rtu u \<Rightarrow> (True, l\<lparr>txn_mgr := snd (complete_oldest_response (UnitId u) (Frame.pdu frame) now (txn_mgr l))\<rparr>))
      | Err e \<Rightarrow>
          if e = TransportError.Timeout then (True, l)
          else if e = Disconnected
          then let l = (retire_session ReaderDisconnected l)\<lparr>connected := False\<rparr> in
               (False, l\<lparr>txn_mgr := cancel_all (Transport Disconnected) (txn_mgr l)\<rparr>)
          else let l = (retire_session ReaderTransportFailed l)\<lparr>connected := False\<rparr> in
               (False, l\<lparr>txn_mgr := cancel_all
                  (Transport (TransportError.Io \<lparr>kind = ConnectionAborted, message = display e\<rparr>)) (txn_mgr l)\<rparr>)
      | Panic \<Rightarrow> (False, l))"

fun reader_run
  :: "(TransportError \<Rightarrow> string) \<Rightarrow> ((TransportError, Frame) res \<times> Instant) list \<Rightarrow> ClientLifecycle \<Rightarrow> ClientLifecycle" where
  "reader_run display [] l = l"
| "reader_run display ((received, now) # rest) l =
     (if task_stop l then l
      else case reader_step display received now l of
        (True, l) \<Rightarrow> reader_run display rest l
      | (False, l) \<Rightarrow> l)"

end
