(* ===== verification/Client_Laws.thy ===== *)
theory Client_Laws
  imports Client_Engine
begin

text \<open>
  Laws of the request engine: deadlines saturate, the loop of attempts ends, and what it may replay.
\<close>

section \<open>Saturating deadlines\<close>

lemma instant_search_law:
  assumes "lower \<le> upper" "upper \<le> DURATION_MAX" "start + lower \<le> limit" "limit < start + upper"
  shows "instant_search limit start lower upper = Some (limit - start)"
  using assms
proof (induction "upper - lower" arbitrary: lower upper rule: less_induct)
  case less
  show ?case
  proof (cases "upper - lower > 1")
    case False
    then show ?thesis using less.prems by (subst instant_search.simps) auto
  next
    case True
    define mid where "mid = lower + (upper - lower) div 2"
    have mid: "lower < mid" "mid < upper" using True by (auto simp: mid_def)
    have sat: "Duration_saturating_add lower ((upper - lower) div 2) = mid"
      using mid less.prems(2) by (simp add: Duration_saturating_add_def mid_def)
    show ?thesis
    proof (cases "start + mid \<le> limit")
      case ok: True
      have "instant_search limit start mid upper = Some (limit - start)"
        using mid ok less.prems by (intro less.hyps) auto
      then show ?thesis using True ok by (subst instant_search.simps) (simp add: sat Instant_checked_add_def)
    next
      case over: False
      have "instant_search limit start lower mid = Some (limit - start)"
        using mid over less.prems by (intro less.hyps) auto
      then show ?thesis using True over by (subst instant_search.simps) (simp add: sat Instant_checked_add_def)
    qed
  qed
qed

lemma saturating_instant_add_eq:
  assumes "start \<le> limit" "d \<le> DURATION_MAX"
  shows "saturating_instant_add limit start d = Some (min (start + d) limit)"
  using assms instant_search_law [of 0 d start limit]
  by (auto simp: saturating_instant_add_def Instant_checked_add_def min_def)

section \<open>The interface to the runtime\<close>

lemma on_mgr_config [simp]: "config (on_mgr f c) = config c"
  by (simp add: on_mgr_def)

lemma client_ops_config [simp]:
  "config (drop_guards g reg c) = config c" "config (client_retire reason c) = config c"
  "config (end_operation c) = config c"
  by (simp_all add: drop_guards_def client_retire_def end_operation_def on_mgr_def)

text \<open>
  What the engine relies on: nothing changes the configuration of a client, and the clock stays
  within the range of an \<open>Instant\<close>.
\<close>

text \<open>When an attempt may be repeated: the server was busy, or a harmless request timed out.\<close>

definition busy :: "(ClientError, OwnedResponsePdu) res \<Rightarrow> bool" where
  "busy r \<longleftrightarrow> (\<exists>exc. r = Ok (OwnedResponsePdu.Exception exc) \<and> exception_code exc = ServerDeviceBusy)"

definition may_replay :: "RetryConfig \<Rightarrow> RequestKind \<Rightarrow> (ClientError, OwnedResponsePdu) res \<Rightarrow> bool" where
  "may_replay cfg req_kind r \<longleftrightarrow> (busy r \<and> ServerDeviceBusy \<in> set (retryable_exceptions cfg))
     \<or> (req_kind = ReplaySafe \<and> (r = Err ClientError.Timeout \<or> r = Err (Transport TransportError.Timeout)))"

definition loop_result
  :: "RetryConfig \<Rightarrow> RequestKind \<Rightarrow> nat \<Rightarrow> attempt list \<Rightarrow> (ClientError, OwnedResponsePdu) res \<Rightarrow> bool" where
  "loop_result cfg req_kind n as r \<longleftrightarrow>
     (as \<noteq> [] \<and> r = outcome (last as) \<and> \<not> may_replay cfg req_kind r)
     \<or> (\<exists>k e. r = Err (RetriesExhausted k e) \<and> unat k = n + length as \<and> (\<forall>a \<in> set as. may_replay cfg req_kind (outcome a)))
     \<or> (r = Err ShuttingDown \<and> (\<forall>a \<in> set as. may_replay cfg req_kind (outcome a)))"

definition config_ok :: "ClientConfig \<Rightarrow> bool" where
  "config_ok cfg \<longleftrightarrow> timeout cfg \<le> DURATION_MAX \<and> retry_delay (retry cfg) \<le> DURATION_MAX"

lemma classify_attempt_cases:
  "classify_attempt cfg req_kind r = Complete r \<and> \<not> may_replay cfg req_kind r
     \<or> (\<exists>reason e. classify_attempt cfg req_kind r = Retry reason e) \<and> may_replay cfg req_kind r"
proof (cases r)
  case (Ok resp)
  then show ?thesis
    by (cases resp) (auto simp: classify_attempt_def may_replay_def busy_def is_retryable_def)
next
  case (Err e)
  then show ?thesis by (auto simp: classify_attempt_def may_replay_def busy_def)
next
  case Panic
  then show ?thesis by (simp add: classify_attempt_def may_replay_def busy_def)
qed

locale runtime =
  fixes R :: "'w Runtime"
  assumes clock_config: "config (snd (read_clock R c)) = config c"
    and clock_bound: "fst (read_clock R c) \<le> instant_limit R"
    and permit_config: "config (snd (acquire_permit R c)) = config c"
    and sink_config: "config (snd (poll_sink R dl c)) = config c"
    and send_config: "config (snd (poll_send R dl frame c)) = config c"
    and reply_config: "config (poll_reply R ch c) = config c"
    and backoff_config: "config (snd (poll_backoff R t c)) = config c"
begin

lemma runtime_eqs:
  "read_clock R c = (t, c') \<Longrightarrow> config c' = config c \<and> t \<le> instant_limit R"
  "acquire_permit R c = (b, c') \<Longrightarrow> config c' = config c"
  "poll_sink R od c = (u, c') \<Longrightarrow> config c' = config c"
  "poll_send R od f c = (v, c') \<Longrightarrow> config c' = config c"
  "poll_backoff R t c = (b, c') \<Longrightarrow> config c' = config c"
  using clock_config [of c] clock_bound [of c] permit_config [of c] sink_config [of od c]
    send_config [of od f c] backoff_config [of t c] by simp_all

lemma dispatch_config:
  assumes "dispatch_request_frame R reg rx frame dl c = (r, c')"
  shows "config c' = config c"
  using assms
  by (auto simp: dispatch_request_frame_def Let_def reply_config
      split: prod.splits PollOutcome.splits res.splits option.splits dest!: runtime_eqs)

lemma send_request_config:
  assumes "send_request R unit fc raw pdu_len dl c = (r, c')"
  shows "config c' = config c"
  using assms
  by (auto simp: send_request_def Let_def split: if_splits prod.splits PollOutcome.splits res.splits option.splits
      dest!: runtime_eqs dispatch_config)

lemma deadline_after:
  assumes "config_ok (config c)" "read_clock R c = (t, c')" "d = timeout (config c) \<or> d = retry_delay (retry (config c))"
  shows "\<exists>u. saturating_instant_add (instant_limit R) t d = Some u"
  using assms runtime_eqs(1) [OF assms(2)] saturating_instant_add_eq [of t "instant_limit R" d]
  by (auto simp: config_ok_def)

text \<open>What one pass of the loop may do, given the number of attempts before it.\<close>

definition iteration_ok :: "ClientConfig \<Rightarrow> RequestKind \<Rightarrow> u32 \<Rightarrow> 'w iteration \<Rightarrow> bool" where
  "iteration_ok cfg req_kind n it \<longleftrightarrow>
     (case it of
        Finished r as c' \<Rightarrow> config c' = cfg \<and> length as \<le> 1 \<and> loop_result (retry cfg) req_kind (unat n) as r
      | Again n' e a c' \<Rightarrow> config c' = cfg \<and> unat n' = Suc (unat n) \<and> n' \<le> max_retries (retry cfg) \<and> n' \<noteq> - 1
          \<and> may_replay (retry cfg) req_kind (outcome a))"

lemma after_attempt_law:
  assumes n: "unat n' = Suc (unat n)" and cfg: "config_ok (config c)"
  shows "iteration_ok (config c) req_kind n (after_attempt R req_kind od n' a c)"
  using classify_attempt_cases [of "retry (config c)" req_kind "outcome a"]
proof (elim disjE conjE exE)
  assume "classify_attempt (retry (config c)) req_kind (outcome a) = Complete (outcome a)"
    "\<not> may_replay (retry (config c)) req_kind (outcome a)"
  then show ?thesis by (simp add: after_attempt_def iteration_ok_def loop_result_def)
next
  fix reason e
  assume cl: "classify_attempt (retry (config c)) req_kind (outcome a) = Retry reason e"
    and may: "may_replay (retry (config c)) req_kind (outcome a)"
  show ?thesis
  proof (cases "n' > max_retries (retry (config c)) \<or> n' = - 1")
    case True
    then show ?thesis using cl may n by (auto simp: after_attempt_def iteration_ok_def loop_result_def)
  next
    case False
    obtain t c1 where r: "read_clock R c = (t, c1)" by (rule prod.exhaust)
    have k: "config c1 = config c" using runtime_eqs(1) [OF r] by simp
    obtain u where u: "saturating_instant_add (instant_limit R) t (retry_delay (retry (config c))) = Some u"
      using deadline_after [OF cfg r] by blast
    obtain b c2 where b: "poll_backoff R (min u od) c1 = (b, c2)" by (rule prod.exhaust)
    have "config c2 = config c" using runtime_eqs(5) [OF b] k by simp
    then show ?thesis using False cl may r k u b n
      by (cases b) (simp_all add: after_attempt_def iteration_ok_def loop_result_def not_less)
  qed
qed

lemma retry_iteration_law:
  assumes n: "n \<noteq> - 1" and cfg: "config_ok (config c)"
  shows "iteration_ok (config c) req_kind n (retry_iteration R unit fc raw pdu_len req_kind od n le c)"
    (is "iteration_ok _ _ _ ?it")
proof (cases "OperationGuard_is_cancelled (lifecycle c)")
  case True
  then show ?thesis by (simp add: iteration_ok_def retry_iteration_def loop_result_def)
next
  case False
  obtain now c1 where r1: "read_clock R c = (now, c1)" by (rule prod.exhaust)
  note k1 = runtime_eqs(1) [OF r1]
  show ?thesis
  proof (cases "now \<ge> od")
    case True
    then have "?it = Finished (Err (RetriesExhausted n (case le of Some e \<Rightarrow> e | None \<Rightarrow> ClientError.Timeout))) [] c1"
      using False r1 by (simp add: retry_iteration_def)
    then show ?thesis using k1 by (simp add: iteration_ok_def loop_result_def)
  next
    case early: False
    obtain t0 c2 where r2: "read_clock R c1 = (t0, c2)" by (rule prod.exhaust)
    have k2: "config c2 = config c" using runtime_eqs(1) [OF r2] k1 by simp
    obtain t where t: "saturating_instant_add (instant_limit R) t0 (timeout (config c)) = Some t"
      using deadline_after [of c1 t0 c2] k1 cfg r2 by auto
    obtain res c3 where sr: "send_request R unit fc raw pdu_len (min t od) c2 = (res, c3)" by (rule prod.exhaust)
    have k3: "config c3 = config c" using send_request_config [OF sr] k2 by simp
    have "?it = after_attempt R req_kind od (n + 1) \<lparr>attempt_deadline = min t od, outcome = res\<rparr> c3"
      using False r1 early r2 t sr k2 n by (simp add: retry_iteration_def Let_def)
    then show ?thesis using after_attempt_law [of "n + 1" n c3] k3 cfg n by (simp add: u32_suc)
  qed
qed

lemma retry_loop_law:
  assumes "retry_loop R unit fc raw pdu_len req_kind od n le c = (r, as, c')"
    "n \<le> max_retries (retry (config c))" "n \<noteq> - 1" "config_ok (config c)"
  shows "config c' = config c \<and> unat n + length as \<le> unat (max_retries (retry (config c))) + 1
    \<and> (\<forall>a \<in> set (butlast as). may_replay (retry (config c)) req_kind (outcome a))
    \<and> loop_result (retry (config c)) req_kind (unat n) as r"
  using assms
proof (induction "2 ^ 32 - unat n" arbitrary: n le c r as c' rule: less_induct)
  case less
  note it = retry_iteration_law [OF less.prems(3,4), of req_kind unit fc raw pdu_len od le]
  have n: "unat n \<le> unat (max_retries (retry (config c)))" using less.prems(2) by (simp add: word_le_nat_alt)
  show ?case
  proof (cases "retry_iteration R unit fc raw pdu_len req_kind od n le c")
    case (Finished r' as' c'')
    then have "r' = r" "as' = as" "c'' = c'" using less.prems(1) by (simp_all add: retry_loop.simps [of R])
    then show ?thesis using it Finished n by (cases as) (auto simp: iteration_ok_def)
  next
    case (Again n' e a c1)
    have k: "config c1 = config c" "unat n' = Suc (unat n)" "n' \<le> max_retries (retry (config c))" "n' \<noteq> - 1"
      "may_replay (retry (config c)) req_kind (outcome a)"
      using it Again by (auto simp: iteration_ok_def)
    obtain as' where rec: "retry_loop R unit fc raw pdu_len req_kind od n' (Some e) c1 = (r, as', c')" "as = a # as'"
      using less.prems(1) Again by (auto simp: retry_loop.simps [of R unit fc raw pdu_len req_kind od n] split: prod.splits)
    have "unat n' < 2 ^ 32" using unsigned_less [of n'] by simp
    then have "2 ^ 32 - unat n' < 2 ^ 32 - unat n" using k(2) by linarith
    from less.hyps [OF this rec(1)] show ?thesis
      using k less.prems(4) rec(2) by (auto simp: loop_result_def)
  qed
qed

lemma admit_config: "admit_operation R c = (r, c') \<Longrightarrow> config c' = config c"
  by (auto simp: admit_operation_def split: res.splits prod.splits bool.splits dest!: runtime_eqs)

end

lemma checked_pdu_length_not_Panic: "checked_pdu_length n \<noteq> Panic"
  by (simp add: checked_pdu_length_def u16_try_from_def)

lemma operation_budget_bound: "operation_budget tmo delay n \<le> DURATION_MAX"
  by (simp add: operation_budget_def Duration_saturating_add_def)

lemma admit_not_Panic: "admit_operation R c \<noteq> (Panic, c')"
  by (auto simp: admit_operation_def admit_check_def admit_enter_def split: prod.splits bool.splits if_splits)

lemma send_with_retry_cases:
  assumes R: "runtime R" and call: "send_with_retry R unit fc raw req_kind c = (r, as, c')"
  obtains (refused) e where "r = Err e" "as = []" "config c' = config c"
  | (loop) pdu_len od c1 c2 where "retry_loop R unit fc raw pdu_len req_kind od 0 None c1 = (r, as, c2)"
      "c' = end_operation c2" "config c1 = config c"
proof (cases "connected (lifecycle c)")
  case False
  then show ?thesis using call by (intro refused) (auto simp: send_with_retry_def)
next
  case True
  show ?thesis
  proof (cases "checked_pdu_length (length raw)")
    case (Err e)
    then show ?thesis using call True by (intro refused) (auto simp: send_with_retry_def)
  next
    case (Ok pdu_len)
    obtain ra c1 where ad: "admit_operation R c = (ra, c1)" by (rule prod.exhaust)
    note k1 = runtime.admit_config [OF R ad]
    show ?thesis
    proof (cases ra)
      case (Err e)
      then show ?thesis using call True Ok ad k1 by (intro refused) (auto simp: send_with_retry_def)
    next
      case ra: (Ok u)
      obtain t c2 where t: "read_clock R c1 = (t, c2)" by (rule prod.exhaust)
      note k2 = runtime.runtime_eqs(1) [OF R t]
      obtain od where od: "saturating_instant_add (instant_limit R) t (operation_budget (timeout (config c2))
          (retry_delay (retry (config c2))) (max_retries (retry (config c2)))) = Some od"
        using saturating_instant_add_eq [OF _ operation_budget_bound] k2 by blast
      obtain r' as' c3 where l: "retry_loop R unit fc raw pdu_len req_kind od 0 None c2 = (r', as', c3)"
        by (cases "retry_loop R unit fc raw pdu_len req_kind od 0 None c2") auto
      have "(r, as, c') = (r', as', end_operation c3)"
        using call True Ok ad ra t od l by (simp add: send_with_retry_def Let_def)
      then show ?thesis using l k1 k2 by (intro loop [of pdu_len od c2 c3]) simp_all
    qed (use ad admit_not_Panic in blast)
  qed (simp add: checked_pdu_length_not_Panic)
qed

section \<open>Properties\<close>

text \<open>
  C4.  Retrying a request ends after at most \<open>max_retries + 1\<close> attempts, and never repeats a request that may
  have changed the server: an attempt is followed by another only if the server answered that it
  was busy (and the configuration selects that exception), or if the request is safe to replay and
  the attempt timed out.  The caller gets the outcome of the last attempt, or an error that
  says that the attempts are exhausted and how many there were, or that the client is shutting down;
  without any attempt the caller gets an error.
\<close>

theorem retry_policy:
  assumes "runtime R" "config_ok (config c)" "send_with_retry R unit fc raw req_kind c = (r, as, c')"
  shows "length as \<le> unat (max_retries (retry (config c))) + 1
    \<and> (\<forall>a \<in> set (butlast as). may_replay (retry (config c)) req_kind (outcome a))
    \<and> (req_kind = Mutating \<longrightarrow> (\<forall>a \<in> set (butlast as). busy (outcome a)))
    \<and> (as \<noteq> [] \<longrightarrow> loop_result (retry (config c)) req_kind 0 as r)
    \<and> (as = [] \<longrightarrow> (\<exists>e. r = Err e))"
proof (rule send_with_retry_cases [OF assms(1,3)])
  fix pdu_len od c1 c2
  assume l: "retry_loop R unit fc raw pdu_len req_kind od 0 None c1 = (r, as, c2)" and k: "config c1 = config c"
  have "unat (0 :: u32) + length as \<le> unat (max_retries (retry (config c))) + 1
      \<and> (\<forall>a \<in> set (butlast as). may_replay (retry (config c)) req_kind (outcome a))
      \<and> loop_result (retry (config c)) req_kind (unat (0 :: u32)) as r"
    using runtime.retry_loop_law [OF assms(1) l] assms(2) k by simp
  then show ?thesis by (auto simp: may_replay_def loop_result_def)
qed simp

end
