(* ===== verification/Store_Helpers.thy ===== *)
theory Store_Helpers
  imports Modbus_Types
begin

text \<open>
  Packing helpers of the server's data store (\<open>server/src/store/mod.rs\<close>): bits to bytes, least
  significant bit first, and registers to big-endian bytes, in both directions, with the
  validation of packed write values.  Each loop over a caller's buffer is shown to write a
  closed form (\<open>pack_bits\<close>, \<open>unpack_bits\<close>, \<open>regs_be\<close>, \<open>be_regs\<close>) at the front of the buffer, and
  packing and unpacking are shown to be inverse to each other.
\<close>

section \<open>store/mod.rs\<close>

definition MAX_FILE_RECORD_REGISTERS :: nat where [simp]: "MAX_FILE_RECORD_REGISTERS = 122"
definition MAX_COMM_EVENT_LOG_EVENTS :: nat where [simp]: "MAX_COMM_EVENT_LOG_EVENTS = 64"
definition MAX_DIAGNOSTIC_RESPONSE_DATA_LEN :: nat where
  [simp]: "MAX_DIAGNOSTIC_RESPONSE_DATA_LEN = MAX_PDU_SIZE - 3"
definition MAX_SERVER_ID_BYTES :: nat where [simp]: "MAX_SERVER_ID_BYTES = MAX_PDU_SIZE - 2"

definition validate_packed_coils :: "u16 \<Rightarrow> bytes \<Rightarrow> (ExceptionCode, nat) res" where
  "validate_packed_coils qty packed_values =
     (if qty = 0 \<or> qty > MAX_WRITE_COILS then Err IllegalDataValue
      else let expected = div_ceil (unat qty) 8 in
      if length packed_values \<noteq> expected then Err IllegalDataValue
      else Ok (unat qty))"

definition validate_register_values_be :: "u16 \<Rightarrow> bytes \<Rightarrow> (ExceptionCode, nat) res" where
  "validate_register_values_be qty value_bytes =
     (if qty = 0 \<or> qty > MAX_WRITE_REGISTERS then Err IllegalDataValue
      else let expected = unat qty * 2 in
      if length value_bytes \<noteq> expected then Err IllegalDataValue
      else Ok (unat qty))"

text \<open>The inner loop \<open>for bit in 0..bit_count { out[start + bit] = (byte >> bit) & 1 == 1 }\<close>.\<close>

definition unpack_byte :: "u8 \<Rightarrow> nat \<Rightarrow> nat \<Rightarrow> bool list \<Rightarrow> ('e, bool list) res" where
  "unpack_byte byte start bit_count out =
     for_fold (\<lambda>k out. put_at out (start + k) (drop_bit k byte AND 1 = 1)) [0..<bit_count] out"

text \<open>The inner loop \<open>for (bit, &value) in chunk.iter().enumerate() { byte |= u8::from(value) << bit }\<close>.\<close>

definition pack_byte :: "bool list \<Rightarrow> u8" where
  "pack_byte chunk = fold (\<lambda>(k, v) byte. byte OR push_bit k (of_bool v)) (enumerate 0 chunk) 0"

definition unpack_packed_coils :: "u16 \<Rightarrow> bytes \<Rightarrow> bool list \<Rightarrow> (ExceptionCode, nat \<times> bool list) res" where
  "unpack_packed_coils qty packed_values out =
     and_then (validate_packed_coils qty packed_values) (\<lambda>n.
     if length out < n then Err IllegalDataValue
     else and_then (for_fold (\<lambda>(byte_index, byte) out.
            let start = byte_index * 8 in
            and_then (usize_sub n start) (\<lambda>d.
            let bit_count = min d 8 in
            unpack_byte byte start bit_count out)) (enumerate 0 packed_values) out) (\<lambda>out.
     Ok (n, out)))"

definition unpack_register_values_be :: "u16 \<Rightarrow> bytes \<Rightarrow> u16 list \<Rightarrow> (ExceptionCode, nat \<times> u16 list) res" where
  "unpack_register_values_be qty value_bytes out =
     and_then (validate_register_values_be qty value_bytes) (\<lambda>n.
     if length out < n then Err IllegalDataValue
     else and_then (for_fold (\<lambda>(i, chunk) out. and_then (be16_at chunk 0) (put_at out i))
            (take n (zip [0..<length out] (chunks_exact 2 value_bytes))) out) (\<lambda>out.
     Ok (n, out)))"

definition pack_coils :: "bool list \<Rightarrow> bytes \<Rightarrow> (ExceptionCode, bytes) res" where
  "pack_coils bits out =
     (let byte_count = div_ceil (length bits) 8 in
      if length out < byte_count then Err IllegalDataValue
      else for_fold (\<lambda>byte_index out.
             let start = byte_index * 8; stop = min (start + 8) (length bits) in
             and_then (slice bits start stop) (\<lambda>chunk. put_at out byte_index (pack_byte chunk)))
           [0..<byte_count] out)"

definition pack_registers_be :: "u16 list \<Rightarrow> bytes \<Rightarrow> (ExceptionCode, bytes) res" where
  "pack_registers_be registers out =
     (let byte_count = length registers * 2 in
      if length out < byte_count then Err IllegalDataValue
      else for_fold (\<lambda>(i, v) out. copy_at out (i * 2) (i * 2 + 2) (u16_to_be_bytes v))
             (enumerate 0 registers) out)"

section \<open>Closed forms\<close>

definition pack_bits :: "bool list \<Rightarrow> bytes" where
  "pack_bits bs = map (\<lambda>i. pack_byte (take 8 (drop (8 * i) bs))) [0..<div_ceil (length bs) 8]"

definition unpack_bits :: "bytes \<Rightarrow> bool list" where
  "unpack_bits bs = concat (map (\<lambda>b. map (bit b) [0..<8]) bs)"

definition regs_be :: "u16 list \<Rightarrow> bytes" where
  "regs_be rs = concat (map u16_to_be_bytes rs)"

fun be_regs :: "bytes \<Rightarrow> u16 list" where
  "be_regs (h # l # bs) = u16_from_be_bytes h l # be_regs bs"
| "be_regs _ = []"

subsection \<open>Bits of a byte\<close>

lemma fold_pack_bit:
  "bit (fold (\<lambda>(k, v) byte. byte OR push_bit k (of_bool v)) (enumerate n chunk) (b :: u8)) i \<longleftrightarrow>
     bit b i \<or> (n \<le> i \<and> i < n + length chunk \<and> i < 8 \<and> chunk ! (i - n))"
proof (induction chunk arbitrary: n b)
  case (Cons v chunk)
  have "bit (push_bit n (of_bool v) :: u8) i \<longleftrightarrow> i = n \<and> i < 8 \<and> v"
    by (auto simp: bit_simps)
  then have "bit (b OR push_bit n (of_bool v)) i \<longleftrightarrow> bit b i \<or> i = n \<and> i < 8 \<and> v"
    by (simp add: bit_or_iff)
  moreover have "(v # chunk) ! (i - n) = chunk ! (i - Suc n)" if "n < i"
    using that by (simp add: nth_Cons')
  ultimately show ?case
    using Cons.IH [of "Suc n" "b OR push_bit n (of_bool v)"] by (cases i n rule: linorder_cases) auto
qed auto

lemma pack_byte_bit: "bit (pack_byte chunk) i \<longleftrightarrow> i < 8 \<and> i < length chunk \<and> chunk ! i"
  by (auto simp: pack_byte_def fold_pack_bit)

lemma low_bit_test: "(drop_bit k b AND 1 = 1) = bit (b :: u8) k"
  unfolding and_one_eq mod_2_eq_odd bit_iff_odd_drop_bit [symmetric] by simp

lemma pack_byte_unpack: "pack_byte (map (bit b) [0..<8]) = b"
  by (rule bit_word_eqI) (auto simp: pack_byte_bit)

lemma unpack_bits_length [simp]: "length (unpack_bits bs) = 8 * length bs"
  by (induction bs) (auto simp: unpack_bits_def)

lemma unpack_bits_nth: "i < 8 * length bs \<Longrightarrow> unpack_bits bs ! i = bit (bs ! (i div 8)) (i mod 8)"
proof (induction bs arbitrary: i)
  case (Cons b bs)
  show ?case
  proof (cases "i < 8")
    case True
    then show ?thesis by (simp add: unpack_bits_def nth_append)
  next
    case False
    then obtain j where j: "i = j + 8" by (metis add.commute le_Suc_ex not_less)
    then have "i div 8 = Suc (j div 8)" "i mod 8 = j mod 8" by simp_all
    then show ?thesis using Cons j by (simp add: unpack_bits_def nth_append)
  qed
qed simp

lemma pack_bits_length [simp]: "length (pack_bits bs) = div_ceil (length bs) 8"
  by (simp add: pack_bits_def)

lemma div_ceil_8_index: "i < div_ceil n 8 \<longleftrightarrow> 8 * i < n"
  using div_ceil_8_le [of n] div_ceil_8_ge [of n] by linarith

lemma pack_bits_bit:
  "j < div_ceil (length bs) 8 \<Longrightarrow> k < 8 \<Longrightarrow>
     bit (pack_bits bs ! j) k \<longleftrightarrow> 8 * j + k < length bs \<and> bs ! (8 * j + k)"
  by (auto simp: pack_bits_def pack_byte_bit)

lemma pack_bits_eqI:
  assumes "length ys = div_ceil (length bs) 8"
    and "\<And>j k. 8 * j < length bs \<Longrightarrow> k < 8 \<Longrightarrow>
           bit (ys ! j) k \<longleftrightarrow> 8 * j + k < length bs \<and> bs ! (8 * j + k)"
  shows "ys = pack_bits bs"
proof (rule nth_equalityI)
  fix j assume "j < length ys"
  then have j: "j < div_ceil (length bs) 8" using assms(1) by simp
  show "ys ! j = pack_bits bs ! j"
    by (rule bit_word_eqI) (use j assms(2) in \<open>simp add: pack_bits_bit div_ceil_8_index\<close>)
qed (simp add: assms(1))

lemma unpack_pack_bits: "take (length bs) (unpack_bits (pack_bits bs)) = bs"
proof (rule nth_equalityI)
  have le: "length bs \<le> 8 * div_ceil (length bs) 8"
    using div_ceil_8_ge [of "length bs"] by simp
  then show "length (take (length bs) (unpack_bits (pack_bits bs))) = length bs" by simp
  fix i assume "i < length (take (length bs) (unpack_bits (pack_bits bs)))"
  then have i: "i < length bs" by simp
  then have "i div 8 < div_ceil (length bs) 8" by (simp add: div_ceil_8_index)
  then show "take (length bs) (unpack_bits (pack_bits bs)) ! i = bs ! i"
    using i le by (simp add: unpack_bits_nth pack_bits_bit)
qed

subsection \<open>Registers\<close>

lemma regs_be_length [simp]: "length (regs_be rs) = 2 * length rs"
  by (induction rs) (auto simp: regs_be_def)

lemma be_regs_length [simp]: "length (be_regs bs) = length bs div 2"
  by (induction bs rule: be_regs.induct) auto

lemma be_regs_regs_be [simp]: "be_regs (regs_be rs) = rs"
  by (induction rs) (auto simp: regs_be_def u16_to_be_bytes_def)

lemma regs_be_be_regs: "even (length bs) \<Longrightarrow> regs_be (be_regs bs) = bs"
  by (induction bs rule: be_regs.induct) (auto simp: regs_be_def)

lemma chunks_exact_2: "chunks_exact 2 (h # l # bs) = [h, l] # chunks_exact 2 bs"
  "chunks_exact 2 [] = []" "chunks_exact 2 [h] = []"
  by (subst chunks_exact.simps, simp)+

lemma be_regs_chunks: "be_regs bs = map (\<lambda>c. u16_from_be_bytes (c ! 0) (c ! 1)) (chunks_exact 2 bs)"
  by (induction bs rule: be_regs.induct) (auto simp: chunks_exact_2)

section \<open>Loops that fill a buffer\<close>

lemma overwrite_Nil [simp]: "overwrite xs a [] = xs"
  by (simp add: overwrite_def)

lemma overwrite_append:
  "a + length ys + length zs \<le> length xs \<Longrightarrow>
     overwrite (overwrite xs a ys) (a + length ys) zs = overwrite xs a (ys @ zs)"
  by (simp add: overwrite_def add_ac)

lemma overwrite_snoc:
  assumes "a + length ys < length xs"
  shows "(overwrite xs a ys)[a + length ys := y] = overwrite xs a (ys @ [y])"
proof -
  have "drop (a + length ys) xs = xs ! (a + length ys) # drop (Suc (a + length ys)) xs"
    using assms by (simp add: Cons_nth_drop_Suc)
  then show ?thesis using assms by (simp add: overwrite_def list_update_append)
qed

lemma overwrite_0: "length ys \<le> length xs \<Longrightarrow> overwrite xs 0 ys = ys @ drop (length ys) xs"
  by (simp add: overwrite_def)

lemma copy_at_overwrite:
  "a + length ys \<le> length xs \<Longrightarrow> b = a + length ys \<Longrightarrow> copy_at xs a b ys = Ok (overwrite xs a ys)"
  by (simp add: overwrite_def)

lemma for_fold_cong:
  "(\<And>x s. x \<in> set xs \<Longrightarrow> f x s = g x s) \<Longrightarrow> for_fold f xs s = for_fold g xs s"
proof (induction xs arbitrary: s)
  case (Cons x xs)
  then show ?case by (cases "g x s") simp_all
qed simp

lemma for_fold_put:
  assumes "a + n \<le> length out"
  shows "for_fold (\<lambda>k out. put_at out (a + k) (g k)) [0..<n] out = Ok (overwrite out a (map g [0..<n]))"
  using assms
proof (induction n)
  case (Suc n)
  then show ?case
    using overwrite_snoc [of a "map g [0..<n]" out "g n"] by (simp add: for_fold_append)
qed simp

lemma unpack_byte_overwrite:
  "start + c \<le> length out \<Longrightarrow>
     unpack_byte b start c out = Ok (overwrite out start (map (bit b) [0..<c]))"
  unfolding unpack_byte_def low_bit_test by (rule for_fold_put)

lemma pack_coils_Ok:
  assumes "div_ceil (length bits) 8 \<le> length out"
  shows "pack_coils bits out = Ok (pack_bits bits @ drop (div_ceil (length bits) 8) out)"
proof -
  let ?n = "div_ceil (length bits) 8"
  have body: "and_then (slice bits (i * 8) (min (i * 8 + 8) (length bits))) (\<lambda>chunk. put_at acc i (pack_byte chunk))
      = (put_at acc (0 + i) (pack_byte (take 8 (drop (8 * i) bits))) :: (ExceptionCode, bytes) res)"
    if "i \<in> set [0..<?n]" for i acc
  proof -
    have "8 * i < length bits" using that by (simp add: div_ceil_8_index)
    then show ?thesis by (simp add: mult.commute min_def)
  qed
  have "for_fold (\<lambda>i acc. and_then (slice bits (i * 8) (min (i * 8 + 8) (length bits)))
          (\<lambda>chunk. put_at acc i (pack_byte chunk))) [0..<?n] out
      = (for_fold (\<lambda>i acc. put_at acc (0 + i) (pack_byte (take 8 (drop (8 * i) bits)))) [0..<?n] out
          :: (ExceptionCode, bytes) res)"
    by (rule for_fold_cong) (rule body)
  also have "\<dots> = Ok (overwrite out 0 (pack_bits bits))"
    unfolding pack_bits_def by (rule for_fold_put) (use assms in simp)
  finally show ?thesis
    using assms by (simp add: pack_coils_def Let_def overwrite_0)
qed

lemma pack_coils_Err: "length out < div_ceil (length bits) 8 \<Longrightarrow> pack_coils bits out = Err IllegalDataValue"
  by (simp add: pack_coils_def)

lemma pack_registers_be_Ok:
  assumes "2 * length regs \<le> length out"
  shows "pack_registers_be regs out = Ok (regs_be regs @ drop (2 * length regs) out)"
proof -
  let ?body = "\<lambda>(i, v) acc. copy_at acc (i * 2) (i * 2 + 2) (u16_to_be_bytes v) :: (ExceptionCode, bytes) res"
  have "\<exists>s'. for_fold ?body (enumerate 0 regs) out = Ok s'
      \<and> s' = overwrite out 0 (regs_be (take (length (enumerate 0 regs)) regs))"
  proof (rule for_fold_invariant)
    fix i s
    assume i: "i < length (enumerate 0 regs)" and s: "s = overwrite out 0 (regs_be (take i regs))"
    have r: "regs_be (take (Suc i) regs) = regs_be (take i regs) @ u16_to_be_bytes (regs ! i)"
      using i by (simp add: take_Suc_conv_app_nth regs_be_def)
    have "length (regs_be (take i regs)) = i * 2" using i by simp
    then show "\<exists>s'. ?body (enumerate 0 regs ! i) s = Ok s' \<and> s' = overwrite out 0 (regs_be (take (Suc i) regs))"
      using i assms overwrite_append [of 0 "regs_be (take i regs)" "u16_to_be_bytes (regs ! i)" out]
        copy_at_overwrite [of "i * 2" "u16_to_be_bytes (regs ! i)" s "i * 2 + 2"]
      by (simp add: nth_enumerate_eq s r mult.commute)
  qed (simp add: regs_be_def)
  then show ?thesis
    using assms by (simp add: pack_registers_be_def overwrite_0 mult.commute)
qed

lemma pack_registers_be_Err:
  "length out < 2 * length regs \<Longrightarrow> pack_registers_be regs out = Err IllegalDataValue"
  by (simp add: pack_registers_be_def)

lemma unpack_bits_take:
  assumes "i < length bs" "c \<le> 8"
  shows "take (8 * i + c) (unpack_bits bs) = take (8 * i) (unpack_bits bs) @ map (bit (bs ! i)) [0..<c]"
proof (rule nth_equalityI)
  show "length (take (8 * i + c) (unpack_bits bs))
      = length (take (8 * i) (unpack_bits bs) @ map (bit (bs ! i)) [0..<c])"
    using assms by simp
  fix k assume "k < length (take (8 * i + c) (unpack_bits bs))"
  then have k: "k < 8 * i + c" "k < 8 * length bs" by simp_all
  show "take (8 * i + c) (unpack_bits bs) ! k
      = (take (8 * i) (unpack_bits bs) @ map (bit (bs ! i)) [0..<c]) ! k"
  proof (cases "k < 8 * i")
    case True
    then show ?thesis using k assms by (simp add: nth_append)
  next
    case False
    then obtain r where r: "k = 8 * i + r" by (metis le_Suc_ex not_less)
    with k assms have "r < c" "k div 8 = i" "k mod 8 = r" by simp_all
    then show ?thesis using k r assms by (simp add: nth_append unpack_bits_nth)
  qed
qed

lemma unpack_packed_coils_Ok:
  assumes "validate_packed_coils qty packed = Ok n" "n \<le> length out"
  shows "unpack_packed_coils qty packed out = Ok (n, take n (unpack_bits packed) @ drop n out)"
proof -
  from assms(1) have len: "length packed = div_ceil n 8"
    by (auto simp: validate_packed_coils_def Let_def split: if_splits)
  let ?v = "\<lambda>i. take (min n (8 * i)) (unpack_bits packed)"
  let ?body = "\<lambda>(byte_index, byte) out. let start = byte_index * 8 in
      and_then (usize_sub n start) (\<lambda>d. unpack_byte byte start (min d 8) out) :: (ExceptionCode, bool list) res"
  have "\<exists>s'. for_fold ?body (enumerate 0 packed) out = Ok s'
      \<and> s' = overwrite out 0 (?v (length (enumerate 0 packed)))"
  proof (rule for_fold_invariant)
    fix i s
    assume i': "i < length (enumerate 0 packed)" and s: "s = overwrite out 0 (?v i)"
    then have i: "i < length packed" "8 * i < n" using len by (simp_all add: div_ceil_8_index)
    let ?c = "min (n - 8 * i) 8"
    have v: "?v (Suc i) = ?v i @ map (bit (packed ! i)) [0..<?c]"
    proof -
      have "min n (8 * Suc i) = 8 * i + ?c" "min n (8 * i) = 8 * i" using i by auto
      then show ?thesis using unpack_bits_take [of i packed ?c] i by simp
    qed
    have l: "length (?v i) = 8 * i" using i by (simp add: min_def)
    have "unpack_byte (packed ! i) (8 * i) ?c s
        = (Ok (overwrite s (8 * i) (map (bit (packed ! i)) [0..<?c])) :: (ExceptionCode, bool list) res)"
      using i assms(2) l by (intro unpack_byte_overwrite) (simp add: s)
    then have "?body (enumerate 0 packed ! i) s = Ok (overwrite s (8 * i) (map (bit (packed ! i)) [0..<?c]))"
      using i by (simp add: nth_enumerate_eq mult.commute Let_def)
    moreover have "overwrite s (8 * i) (map (bit (packed ! i)) [0..<?c]) = overwrite out 0 (?v (Suc i))"
      using i assms(2) l overwrite_append [of 0 "?v i" "map (bit (packed ! i)) [0..<?c]" out]
      unfolding s v by simp
    ultimately show "\<exists>s'. ?body (enumerate 0 packed ! i) s = Ok s' \<and> s' = overwrite out 0 (?v (Suc i))"
      by blast
  qed simp
  moreover have "min n (8 * length (enumerate 0 packed)) = n" "n \<le> 8 * length packed"
    using len div_ceil_8_ge [of n] by (simp_all add: min_def)
  ultimately have "for_fold ?body (enumerate 0 packed) out = Ok (take n (unpack_bits packed) @ drop n out)"
    using assms(2) by (simp add: overwrite_0 del: length_enumerate)
  then show ?thesis
    using assms by (simp add: unpack_packed_coils_def Let_def)
qed

text \<open>The loop that writes big-endian values over \<open>regs[start..start + n]\<close>.\<close>

definition write_regs_be :: "u16 list \<Rightarrow> nat \<Rightarrow> nat \<Rightarrow> bytes \<Rightarrow> ('e, u16 list) res" where
  "write_regs_be regs start n value_bytes =
     and_then (slice regs start (start + n)) (\<lambda>slots.
     for_fold (\<lambda>(i, chunk) regs. and_then (be16_at chunk 0) (\<lambda>v. put_at regs (start + i) v))
       (zip [0..<length slots] (chunks_exact 2 value_bytes)) regs)"

lemma for_fold_zip_be:
  assumes "length bs = 2 * n" "start + n \<le> length regs" "n \<le> m"
  shows "for_fold (\<lambda>(i, chunk) regs. and_then (be16_at chunk 0) (\<lambda>v. put_at regs (start + i) v))
      (zip [0..<m] (chunks_exact 2 bs)) regs = Ok (overwrite regs start (be_regs bs))"
proof -
  have len: "length (chunks_exact 2 bs) = n"
    using be_regs_length [of bs] assms(1) unfolding be_regs_chunks by simp
  let ?z = "zip [0..<m] (chunks_exact 2 bs)"
  let ?f = "\<lambda>(i, chunk) regs. and_then (be16_at chunk 0) (\<lambda>v. put_at regs (start + i) v) :: ('e, u16 list) res"
  have lz: "length ?z = n" using len assms(3) by simp
  have "\<exists>s'. for_fold ?f ?z regs = Ok s' \<and> s' = overwrite regs start (take (length ?z) (be_regs bs))"
  proof (rule for_fold_invariant)
    fix i s
    assume i: "i < length ?z" and s: "s = overwrite regs start (take i (be_regs bs))"
    let ?c = "chunks_exact 2 bs ! i"
    have c: "length ?c = 2" using i lz len chunks_exact_length [of ?c 2 bs] by (simp add: nth_mem)
    have v: "be_regs bs ! i = u16_from_be_bytes (?c ! 0) (?c ! 1)"
      using i lz len by (simp add: be_regs_chunks)
    have t: "take (Suc i) (be_regs bs) = take i (be_regs bs) @ [be_regs bs ! i]"
      using i len assms(1) by (intro take_Suc_conv_app_nth) simp
    have l: "length (take i (be_regs bs)) = i" using i len assms(1) by simp
    have "length s = length regs" using i lz l assms unfolding s by (intro overwrite_length) simp
    then have "start + i < length s" using i assms(2) unfolding lz by simp
    then have "?f (?z ! i) s = Ok (s[start + i := be_regs bs ! i])" using i c v by simp
    moreover have "s[start + i := be_regs bs ! i] = overwrite regs start (take (Suc i) (be_regs bs))"
      using overwrite_snoc [of start "take i (be_regs bs)" regs "be_regs bs ! i"]
        \<open>start + i < length s\<close> \<open>length s = length regs\<close> unfolding s t l by simp
    ultimately show "\<exists>s'. ?f (?z ! i) s = Ok s' \<and> s' = overwrite regs start (take (Suc i) (be_regs bs))"
      by blast
  qed simp
  then show ?thesis using lz assms(1) by simp
qed

lemma write_regs_be_Ok:
  "length bs = 2 * n \<Longrightarrow> start + n \<le> length regs \<Longrightarrow>
     write_regs_be regs start n bs = Ok (overwrite regs start (be_regs bs))"
  using for_fold_zip_be [of bs n start regs n] by (simp add: write_regs_be_def)

lemma unpack_register_values_be_Ok:
  assumes "validate_register_values_be qty bs = Ok n" "n \<le> length out"
  shows "unpack_register_values_be qty bs out = Ok (n, be_regs bs @ drop n out)"
proof -
  from assms(1) have len: "length bs = 2 * n"
    by (auto simp: validate_register_values_be_def Let_def split: if_splits)
  then have "length (chunks_exact 2 bs) = n"
    using be_regs_length [of bs] unfolding be_regs_chunks by simp
  then have t: "take n (zip [0..<length out] (chunks_exact 2 bs)) = zip [0..<length out] (chunks_exact 2 bs)"
    using assms(2) by simp
  show ?thesis
    using assms len
    by (simp add: unpack_register_values_be_def t for_fold_zip_be [of bs n 0 out "length out", simplified]
        overwrite_0 del: take_zip)
qed

lemma validate_packed_coils_Ok_iff:
  "validate_packed_coils qty bs = Ok n \<longleftrightarrow>
     n = unat qty \<and> 0 < n \<and> n \<le> 1968 \<and> length bs = div_ceil n 8"
  by (auto simp: validate_packed_coils_def Let_def word_less_nat_alt unat_gt_0 word_gt_0)

lemma validate_register_values_be_Ok_iff:
  "validate_register_values_be qty bs = Ok n \<longleftrightarrow>
     n = unat qty \<and> 0 < n \<and> n \<le> 123 \<and> length bs = 2 * n"
  by (auto simp: validate_register_values_be_def Let_def word_less_nat_alt unat_gt_0 word_gt_0)

end
