(* ===== verification/Data_Store.thy ===== *)
theory Data_Store
  imports Store_Helpers
begin

text \<open>
  The server's \<open>DataStore\<close> trait (\<open>server/src/store/mod.rs\<close>) as a record of operations over a
  state \<open>'s\<close>, with the default bodies of its provided methods.  A method takes the state and
  returns its outcome with the state afterwards; the state may change in every call, since
  implementations use interior mutability.  A \<open>&mut [T]\<close> argument is a list, returned updated
  with an \<open>Ok\<close> result; after an error every caller discards it.
\<close>

type_synonym ('s, 'a) call = "(ExceptionCode, 'a) res \<times> 's"

fun call_then
  :: "('e, 'a) res \<times> 's \<Rightarrow> ('a \<Rightarrow> 's \<Rightarrow> ('e, 'b) res \<times> 's) \<Rightarrow> ('e, 'b) res \<times> 's" where
  "call_then (Ok x, s) f = f x s"
| "call_then (Err e, s) f = (Err e, s)"
| "call_then (Panic, s) f = (Panic, s)"

section \<open>store/mod.rs\<close>

record CommEventLogMeta =
  status :: u16
  event_count :: u16
  message_count :: u16

record CommEventLog =
  status :: u16
  event_count :: u16
  message_count :: u16
  events :: bytes

record 's DataStore =
  read_coils :: "'s \<Rightarrow> u16 \<Rightarrow> u16 \<Rightarrow> bool list \<Rightarrow> ('s, nat \<times> bool list) call"
  read_coils_packed :: "'s \<Rightarrow> u16 \<Rightarrow> u16 \<Rightarrow> bytes \<Rightarrow> ('s, nat \<times> bytes) call"
  write_coil :: "'s \<Rightarrow> u16 \<Rightarrow> bool \<Rightarrow> ('s, unit) call"
  write_coils :: "'s \<Rightarrow> u16 \<Rightarrow> bool list \<Rightarrow> ('s, unit) call"
  write_coils_packed :: "'s \<Rightarrow> u16 \<Rightarrow> u16 \<Rightarrow> bytes \<Rightarrow> ('s, unit) call"
  read_discrete_inputs :: "'s \<Rightarrow> u16 \<Rightarrow> u16 \<Rightarrow> bool list \<Rightarrow> ('s, nat \<times> bool list) call"
  read_discrete_inputs_packed :: "'s \<Rightarrow> u16 \<Rightarrow> u16 \<Rightarrow> bytes \<Rightarrow> ('s, nat \<times> bytes) call"
  read_holding_registers :: "'s \<Rightarrow> u16 \<Rightarrow> u16 \<Rightarrow> u16 list \<Rightarrow> ('s, nat \<times> u16 list) call"
  read_holding_registers_be :: "'s \<Rightarrow> u16 \<Rightarrow> u16 \<Rightarrow> bytes \<Rightarrow> ('s, nat \<times> bytes) call"
  write_register :: "'s \<Rightarrow> u16 \<Rightarrow> u16 \<Rightarrow> ('s, unit) call"
  write_registers :: "'s \<Rightarrow> u16 \<Rightarrow> u16 list \<Rightarrow> ('s, unit) call"
  write_registers_be :: "'s \<Rightarrow> u16 \<Rightarrow> u16 \<Rightarrow> bytes \<Rightarrow> ('s, unit) call"
  atomic_mask_write_register :: "'s \<Rightarrow> u16 \<Rightarrow> u16 \<Rightarrow> u16 \<Rightarrow> ('s, unit) call"
  atomic_read_write_registers_be
    :: "'s \<Rightarrow> u16 \<Rightarrow> u16 \<Rightarrow> u16 \<Rightarrow> u16 \<Rightarrow> bytes \<Rightarrow> bytes \<Rightarrow> ('s, nat \<times> bytes) call"
  read_input_registers :: "'s \<Rightarrow> u16 \<Rightarrow> u16 \<Rightarrow> u16 list \<Rightarrow> ('s, nat \<times> u16 list) call"
  read_input_registers_be :: "'s \<Rightarrow> u16 \<Rightarrow> u16 \<Rightarrow> bytes \<Rightarrow> ('s, nat \<times> bytes) call"
  handle_custom_function :: "'s \<Rightarrow> UnitId \<Rightarrow> u8 \<Rightarrow> bytes \<Rightarrow> bytes \<Rightarrow> ('s, nat \<times> bytes) call"
  read_file_record :: "'s \<Rightarrow> u16 \<Rightarrow> u16 \<Rightarrow> u16 \<Rightarrow> u16 list \<Rightarrow> ('s, nat \<times> u16 list) call"
  read_file_record_be :: "'s \<Rightarrow> u16 \<Rightarrow> u16 \<Rightarrow> u16 \<Rightarrow> bytes \<Rightarrow> ('s, nat \<times> bytes) call"
  write_file_record :: "'s \<Rightarrow> u16 \<Rightarrow> u16 \<Rightarrow> u16 list \<Rightarrow> ('s, unit) call"
  write_file_record_be :: "'s \<Rightarrow> u16 \<Rightarrow> u16 \<Rightarrow> u16 \<Rightarrow> bytes \<Rightarrow> ('s, unit) call"
  read_fifo_queue :: "'s \<Rightarrow> u16 \<Rightarrow> ('s, u16 list) call"
  read_fifo_queue_be :: "'s \<Rightarrow> u16 \<Rightarrow> bytes \<Rightarrow> ('s, nat \<times> bytes) call"
  read_exception_status :: "'s \<Rightarrow> ('s, u8) call"
  get_comm_event_counter :: "'s \<Rightarrow> ('s, u16 \<times> u16) call"
  get_comm_event_log :: "'s \<Rightarrow> ('s, CommEventLog) call"
  append_comm_event_log :: "'s \<Rightarrow> bytes \<Rightarrow> ('s, CommEventLogMeta \<times> bytes) call"
  report_server_id :: "'s \<Rightarrow> ('s, bytes) call"
  append_server_id :: "'s \<Rightarrow> bytes \<Rightarrow> ('s, nat \<times> bytes) call"
  diagnostic :: "'s \<Rightarrow> DiagnosticSubFunction \<Rightarrow> bytes \<Rightarrow> ('s, bytes option) call"
  append_diagnostic_response
    :: "'s \<Rightarrow> DiagnosticSubFunction \<Rightarrow> bytes \<Rightarrow> bytes \<Rightarrow> ('s, nat option \<times> bytes) call"

subsection \<open>Provided methods\<close>

text \<open>A provided method is given the required method it calls.\<close>

definition default_read_coils_packed
  :: "('s \<Rightarrow> u16 \<Rightarrow> u16 \<Rightarrow> bool list \<Rightarrow> ('s, nat \<times> bool list) call)
      \<Rightarrow> 's \<Rightarrow> u16 \<Rightarrow> u16 \<Rightarrow> bytes \<Rightarrow> ('s, nat \<times> bytes) call" where
  "default_read_coils_packed read self addr qty out =
     call_then (read self addr qty (replicate (unat MAX_READ_COILS) False)) (\<lambda>(count, values) s.
     if count > length values \<or> count > unat qty then (Err ServerDeviceFailure, s)
     else (and_then (slice values 0 count) (\<lambda>bits. and_then (pack_coils bits out) (\<lambda>out.
           Ok (count, out))), s))"

definition default_write_coils_packed
  :: "('s \<Rightarrow> u16 \<Rightarrow> bool list \<Rightarrow> ('s, unit) call) \<Rightarrow> 's \<Rightarrow> u16 \<Rightarrow> u16 \<Rightarrow> bytes \<Rightarrow> ('s, unit) call" where
  "default_write_coils_packed write self addr qty packed_values =
     call_then (and_then (unpack_packed_coils qty packed_values (replicate (unat MAX_WRITE_COILS) False))
                  (\<lambda>(n, values). slice values 0 n), self)
       (\<lambda>values s. write s addr values)"

definition default_read_discrete_inputs_packed
  :: "('s \<Rightarrow> u16 \<Rightarrow> u16 \<Rightarrow> bool list \<Rightarrow> ('s, nat \<times> bool list) call)
      \<Rightarrow> 's \<Rightarrow> u16 \<Rightarrow> u16 \<Rightarrow> bytes \<Rightarrow> ('s, nat \<times> bytes) call" where
  "default_read_discrete_inputs_packed read self addr qty out =
     call_then (read self addr qty (replicate (unat MAX_READ_DISCRETE_INPUTS) False)) (\<lambda>(count, values) s.
     if count > length values \<or> count > unat qty then (Err ServerDeviceFailure, s)
     else (and_then (slice values 0 count) (\<lambda>bits. and_then (pack_coils bits out) (\<lambda>out.
           Ok (count, out))), s))"

definition default_read_holding_registers_be
  :: "('s \<Rightarrow> u16 \<Rightarrow> u16 \<Rightarrow> u16 list \<Rightarrow> ('s, nat \<times> u16 list) call)
      \<Rightarrow> 's \<Rightarrow> u16 \<Rightarrow> u16 \<Rightarrow> bytes \<Rightarrow> ('s, nat \<times> bytes) call" where
  "default_read_holding_registers_be read self addr qty out =
     call_then (read self addr qty (replicate (unat MAX_READ_REGISTERS) 0)) (\<lambda>(count, values) s.
     if count > length values \<or> count > unat qty then (Err ServerDeviceFailure, s)
     else (and_then (slice values 0 count) (\<lambda>regs. and_then (pack_registers_be regs out) (\<lambda>out.
           Ok (count, out))), s))"

definition default_write_registers_be
  :: "('s \<Rightarrow> u16 \<Rightarrow> u16 list \<Rightarrow> ('s, unit) call) \<Rightarrow> 's \<Rightarrow> u16 \<Rightarrow> u16 \<Rightarrow> bytes \<Rightarrow> ('s, unit) call" where
  "default_write_registers_be write self addr qty value_bytes =
     call_then (and_then (unpack_register_values_be qty value_bytes (replicate (unat MAX_WRITE_REGISTERS) 0))
                  (\<lambda>(n, values). slice values 0 n), self)
       (\<lambda>values s. write s addr values)"

definition default_atomic_mask_write_register :: "'s \<Rightarrow> u16 \<Rightarrow> u16 \<Rightarrow> u16 \<Rightarrow> ('s, unit) call" where
  "default_atomic_mask_write_register self addr and_mask or_mask = (Err IllegalFunction, self)"

definition default_atomic_read_write_registers_be
  :: "'s \<Rightarrow> u16 \<Rightarrow> u16 \<Rightarrow> u16 \<Rightarrow> u16 \<Rightarrow> bytes \<Rightarrow> bytes \<Rightarrow> ('s, nat \<times> bytes) call" where
  "default_atomic_read_write_registers_be self read_addr read_qty write_addr write_qty write_values out =
     (Err IllegalFunction, self)"

definition default_read_input_registers_be
  :: "('s \<Rightarrow> u16 \<Rightarrow> u16 \<Rightarrow> u16 list \<Rightarrow> ('s, nat \<times> u16 list) call)
      \<Rightarrow> 's \<Rightarrow> u16 \<Rightarrow> u16 \<Rightarrow> bytes \<Rightarrow> ('s, nat \<times> bytes) call" where
  "default_read_input_registers_be read self addr qty out =
     call_then (read self addr qty (replicate (unat MAX_READ_REGISTERS) 0)) (\<lambda>(count, values) s.
     if count > length values \<or> count > unat qty then (Err ServerDeviceFailure, s)
     else (and_then (slice values 0 count) (\<lambda>regs. and_then (pack_registers_be regs out) (\<lambda>out.
           Ok (count, out))), s))"

definition default_handle_custom_function
  :: "'s \<Rightarrow> UnitId \<Rightarrow> u8 \<Rightarrow> bytes \<Rightarrow> bytes \<Rightarrow> ('s, nat \<times> bytes) call" where
  "default_handle_custom_function self unit fc request_data response_data = (Err IllegalFunction, self)"

definition default_read_file_record
  :: "'s \<Rightarrow> u16 \<Rightarrow> u16 \<Rightarrow> u16 \<Rightarrow> u16 list \<Rightarrow> ('s, nat \<times> u16 list) call" where
  "default_read_file_record self file record len buf = (Err IllegalFunction, self)"

definition default_read_file_record_be
  :: "('s \<Rightarrow> u16 \<Rightarrow> u16 \<Rightarrow> u16 \<Rightarrow> u16 list \<Rightarrow> ('s, nat \<times> u16 list) call)
      \<Rightarrow> 's \<Rightarrow> u16 \<Rightarrow> u16 \<Rightarrow> u16 \<Rightarrow> bytes \<Rightarrow> ('s, nat \<times> bytes) call" where
  "default_read_file_record_be read self file record record_len out =
     call_then (read self file record record_len (replicate MAX_FILE_RECORD_REGISTERS 0)) (\<lambda>(count, values) s.
     if count > length values \<or> count > unat record_len then (Err ServerDeviceFailure, s)
     else (and_then (slice values 0 count) (\<lambda>regs. and_then (pack_registers_be regs out) (\<lambda>out.
           Ok (count, out))), s))"

definition default_write_file_record :: "'s \<Rightarrow> u16 \<Rightarrow> u16 \<Rightarrow> u16 list \<Rightarrow> ('s, unit) call" where
  "default_write_file_record self file record values = (Err IllegalFunction, self)"

definition default_write_file_record_be
  :: "('s \<Rightarrow> u16 \<Rightarrow> u16 \<Rightarrow> u16 list \<Rightarrow> ('s, unit) call)
      \<Rightarrow> 's \<Rightarrow> u16 \<Rightarrow> u16 \<Rightarrow> u16 \<Rightarrow> bytes \<Rightarrow> ('s, unit) call" where
  "default_write_file_record_be write self file record record_len value_bytes =
     (let expected = unat record_len * 2 in
      if length value_bytes \<noteq> expected then (Err IllegalDataValue, self)
      else write self file record
             (map (\<lambda>chunk. u16_from_be_bytes (chunk ! 0) (chunk ! 1)) (chunks_exact 2 value_bytes)))"

definition default_read_fifo_queue :: "'s \<Rightarrow> u16 \<Rightarrow> ('s, u16 list) call" where
  "default_read_fifo_queue self addr = (Err IllegalDataAddress, self)"

definition default_read_fifo_queue_be
  :: "('s \<Rightarrow> u16 \<Rightarrow> ('s, u16 list) call) \<Rightarrow> 's \<Rightarrow> u16 \<Rightarrow> bytes \<Rightarrow> ('s, nat \<times> bytes) call" where
  "default_read_fifo_queue_be read self addr out =
     call_then (read self addr) (\<lambda>values s.
     if length values > unat MAX_FIFO_VALUES then (Err IllegalDataValue, s)
     else (and_then (pack_registers_be values out) (\<lambda>out. Ok (length values, out)), s))"

definition default_read_exception_status :: "'s \<Rightarrow> ('s, u8) call" where
  "default_read_exception_status self = (Err IllegalFunction, self)"

definition default_get_comm_event_counter :: "'s \<Rightarrow> ('s, u16 \<times> u16) call" where
  "default_get_comm_event_counter self = (Err IllegalFunction, self)"

definition default_get_comm_event_log :: "'s \<Rightarrow> ('s, CommEventLog) call" where
  "default_get_comm_event_log self = (Err IllegalFunction, self)"

definition default_append_comm_event_log
  :: "('s \<Rightarrow> ('s, CommEventLog) call) \<Rightarrow> 's \<Rightarrow> bytes \<Rightarrow> ('s, CommEventLogMeta \<times> bytes) call" where
  "default_append_comm_event_log get_log self out =
     call_then (get_log self) (\<lambda>log s.
     if length (CommEventLog.events log) > MAX_COMM_EVENT_LOG_EVENTS then (Err ServerDeviceFailure, s)
     else (Ok (\<lparr>CommEventLogMeta.status = CommEventLog.status log,
                CommEventLogMeta.event_count = CommEventLog.event_count log,
                CommEventLogMeta.message_count = CommEventLog.message_count log\<rparr>,
               out @ CommEventLog.events log), s))"

definition default_report_server_id :: "'s \<Rightarrow> ('s, bytes) call" where
  "default_report_server_id self = (Err IllegalFunction, self)"

definition default_append_server_id
  :: "('s \<Rightarrow> ('s, bytes) call) \<Rightarrow> 's \<Rightarrow> bytes \<Rightarrow> ('s, nat \<times> bytes) call" where
  "default_append_server_id report self out =
     call_then (report self) (\<lambda>data s.
     if length data > MAX_SERVER_ID_BYTES then (Err ServerDeviceFailure, s)
     else (Ok (length data, out @ data), s))"

definition default_diagnostic :: "'s \<Rightarrow> DiagnosticSubFunction \<Rightarrow> bytes \<Rightarrow> ('s, bytes option) call" where
  "default_diagnostic self sub data =
     (case sub of
        ReturnQueryData \<Rightarrow> (Ok (Some data), self)
      | _ \<Rightarrow> (Err IllegalFunction, self))"

definition default_append_diagnostic_response
  :: "('s \<Rightarrow> DiagnosticSubFunction \<Rightarrow> bytes \<Rightarrow> ('s, bytes option) call)
      \<Rightarrow> 's \<Rightarrow> DiagnosticSubFunction \<Rightarrow> bytes \<Rightarrow> bytes \<Rightarrow> ('s, nat option \<times> bytes) call" where
  "default_append_diagnostic_response diag self sub data out =
     call_then (diag self sub data) (\<lambda>reply s.
     case reply of
       None \<Rightarrow> (Ok (None, out), s)
     | Some data \<Rightarrow>
         if length data > MAX_DIAGNOSTIC_RESPONSE_DATA_LEN then (Err ServerDeviceFailure, s)
         else (Ok (Some (length data), out @ data), s))"

end
