(* ===== verification/Client_Methods.thy ===== *)
theory Client_Methods
  imports Client_Engine Data_Store
begin

text \<open>
  The typed request methods of the client (\<open>rusty-modbus-client/src/methods/\<close>): each builds a request,
  encodes it into a buffer of the code's size, sends it through the engine, and checks the
  response against the request before it returns the values.
\<close>

section \<open>mod.rs\<close>

definition MAX_WRITE_MULTIPLE_COILS :: nat where [simp]: "MAX_WRITE_MULTIPLE_COILS = 1968"
definition MAX_WRITE_MULTIPLE_REGISTERS :: nat where [simp]: "MAX_WRITE_MULTIPLE_REGISTERS = 123"
definition MAX_READ_WRITE_MULTIPLE_WRITE_REGISTERS :: nat where [simp]: "MAX_READ_WRITE_MULTIPLE_WRITE_REGISTERS = 121"
definition FILE_RECORD_MIN_BYTE_COUNT :: nat where [simp]: "FILE_RECORD_MIN_BYTE_COUNT = 0x07"
definition FILE_RECORD_MAX_BYTE_COUNT :: nat where [simp]: "FILE_RECORD_MAX_BYTE_COUNT = 0xF5"

text \<open>\<open>encode_request\<close> on the outcome of \<open>encode_into\<close>, and the slice \<open>&buf[..len]\<close> that is sent.\<close>

definition encode_request :: "(EncodeError, nat \<times> bytes) res \<Rightarrow> (ClientError, nat \<times> bytes) res" where
  "encode_request r = (case r of Ok x \<Rightarrow> Ok x | Err e \<Rightarrow> Err (Encode e) | Panic \<Rightarrow> Panic)"

definition request_bytes :: "(EncodeError, nat \<times> bytes) res \<Rightarrow> (ClientError, bytes) res" where
  "request_bytes r = and_then (encode_request r) (\<lambda>(len, buf). slice buf 0 len)"

definition validate_response_length :: "u8 \<Rightarrow> nat \<Rightarrow> nat \<Rightarrow> (ClientError, unit) res" where
  "validate_response_length fc expected_len actual =
     (if actual < expected_len then Err (ShortResponse expected_len actual)
      else if actual = expected_len then Ok ()
      else Err (UnexpectedResponseLength fc expected_len actual))"

definition validate_bit_response_shape :: "u8 \<Rightarrow> u16 \<Rightarrow> bytes \<Rightarrow> (ClientError, unit) res" where
  "validate_bit_response_shape fc qty dat =
     (let expected_len = div_ceil (unat qty) 8 in
      and_then (validate_response_length fc expected_len (length dat)) (\<lambda>_.
      let remainder = unat qty mod 8 in
      if remainder \<noteq> 0
      then let invalid_mask = push_bit remainder (0xFF :: u8) in
           and_then (usize_sub expected_len 1) (\<lambda>i.
           and_then (at dat i) (\<lambda>actual.
           if actual AND invalid_mask \<noteq> 0 then Err (UnexpectedResponsePadding fc invalid_mask actual) else Ok ()))
      else Ok ()))"

definition validate_register_response_shape :: "u8 \<Rightarrow> u16 \<Rightarrow> bytes \<Rightarrow> (ClientError, unit) res" where
  "validate_register_response_shape fc qty dat = validate_response_length fc (unat qty * 2) (length dat)"

definition checked_quantity_len :: "nat \<Rightarrow> nat \<Rightarrow> (ClientError, u16) res" where
  "checked_quantity_len len maximum =
     (let qty = (case u16_try_from len of Some q \<Rightarrow> q | None \<Rightarrow> 0xFFFF) in
      if len = 0 \<or> len > maximum then Err (Encode (EncodeError.QuantityOutOfRange qty)) else Ok qty)"

definition checked_byte_count_value :: "nat \<Rightarrow> nat \<Rightarrow> nat \<Rightarrow> (ClientError, u8) res" where
  "checked_byte_count_value len minimum maximum =
     (if len < minimum \<or> len > maximum then Err (Encode (EncodeError.ByteCountOutOfRange len minimum maximum))
      else if len < 256 then Ok (word_of_nat len)
      else Err (Encode (EncodeError.ByteCountOutOfRange len minimum maximum)))"

definition checked_byte_count_len :: "nat \<Rightarrow> (ClientError, u8) res" where
  "checked_byte_count_len len = checked_byte_count_value len 0 255"

definition checked_file_record_byte_count :: "nat \<Rightarrow> (ClientError, u8) res" where
  "checked_file_record_byte_count len = checked_byte_count_value len FILE_RECORD_MIN_BYTE_COUNT FILE_RECORD_MAX_BYTE_COUNT"

definition expect_echo :: "string \<Rightarrow> u16 \<Rightarrow> u16 \<Rightarrow> (ClientError, unit) res" where
  "expect_echo field exp got = (if exp = got then Ok () else Err (UnexpectedResponseEcho field exp got))"

text \<open>One call of \<open>send_with_retry\<close>, and the answer to a response of the wrong kind.\<close>

definition send
  :: "'w Runtime \<Rightarrow> UnitId \<Rightarrow> FunctionCode \<Rightarrow> bytes \<Rightarrow> RequestKind \<Rightarrow> 'w ModbusClient
      \<Rightarrow> (ClientError, OwnedResponsePdu) res \<times> 'w ModbusClient" where
  "send R unit fc raw req_kind c = (case send_with_retry R unit fc raw req_kind c of (r, _, c) \<Rightarrow> (r, c))"

fun other_response :: "OwnedResponsePdu \<Rightarrow> (ClientError, 'a) res" where
  "other_response (OwnedResponsePdu.Exception exc) = Err (ClientError.Exception exc)"
| "other_response _ = Err (Codec (DecodeError.UnknownFunctionCode 0))"

text \<open>The loop that pushes one value after the other.\<close>

fun collect_values :: "(nat \<Rightarrow> ('e, 'a) res) \<Rightarrow> nat list \<Rightarrow> ('e, 'a list) res" where
  "collect_values f [] = Ok []"
| "collect_values f (i # is) = and_then (f i) (\<lambda>x. and_then (collect_values f is) (\<lambda>xs. Ok (x # xs)))"

section \<open>coils.rs\<close>

definition read_coils :: "'w Runtime \<Rightarrow> UnitId \<Rightarrow> u16 \<Rightarrow> u16 \<Rightarrow> 'w ModbusClient \<Rightarrow> (ClientError, bool list) res \<times> 'w ModbusClient" where
  "read_coils R unit addr qty c =
     (if is_broadcast unit then (Err BroadcastReadNotAllowed, c)
      else call_then (request_bytes (ReadCoilsRequest_encode_into
             \<lparr>ReadCoilsRequest.address = addr, quantity = qty\<rparr> (replicate 5 0)), c) (\<lambda>raw c.
           call_then (send R unit FunctionCode.ReadCoils raw ReplaySafe c) (\<lambda>response c.
           case response of
             OwnedResponsePdu.ReadCoils rc \<Rightarrow>
               call_then (finish_typed_response (validate_bit_response_shape (FunctionCode_code FunctionCode.ReadCoils)
                 qty (OwnedReadCoilsResponse.coil_status rc)) c) (\<lambda>_ c.
               finish_typed_response (collect_values (OwnedReadCoilsResponse_coil rc) [0..<unat qty]) c)
           | _ \<Rightarrow> finish_typed_response (other_response response) c)))"

definition read_discrete_inputs :: "'w Runtime \<Rightarrow> UnitId \<Rightarrow> u16 \<Rightarrow> u16 \<Rightarrow> 'w ModbusClient \<Rightarrow> (ClientError, bool list) res \<times> 'w ModbusClient" where
  "read_discrete_inputs R unit addr qty c =
     (if is_broadcast unit then (Err BroadcastReadNotAllowed, c)
      else call_then (request_bytes (ReadDiscreteInputsRequest_encode_into
             \<lparr>ReadDiscreteInputsRequest.address = addr, quantity = qty\<rparr> (replicate 5 0)), c) (\<lambda>raw c.
           call_then (send R unit FunctionCode.ReadDiscreteInputs raw ReplaySafe c) (\<lambda>response c.
           case response of
             OwnedResponsePdu.ReadDiscreteInputs rd \<Rightarrow>
               call_then (finish_typed_response (validate_bit_response_shape (FunctionCode_code FunctionCode.ReadDiscreteInputs)
                 qty (input_status rd)) c) (\<lambda>_ c.
               finish_typed_response (collect_values (OwnedReadDiscreteInputsResponse_coil rd) [0..<unat qty]) c)
           | _ \<Rightarrow> finish_typed_response (other_response response) c)))"

definition write_single_coil :: "'w Runtime \<Rightarrow> UnitId \<Rightarrow> u16 \<Rightarrow> bool \<Rightarrow> 'w ModbusClient \<Rightarrow> (ClientError, unit) res \<times> 'w ModbusClient" where
  "write_single_coil R unit addr v c =
     (let val = CoilValue_from_bool v in
      call_then (request_bytes (WriteSingleCoilRequest_encode_into
        \<lparr>WriteSingleCoilRequest.address = addr, value = val\<rparr> (replicate 5 0)), c) (\<lambda>raw c.
      if is_broadcast unit then send_broadcast R raw c
      else call_then (send R unit FunctionCode.WriteSingleCoil raw Mutating c) (\<lambda>response c.
           case response of
             OwnedResponsePdu.WriteSingleCoil resp \<Rightarrow>
               call_then (finish_typed_response (expect_echo ''address'' addr (WriteSingleCoilResponse.address resp)) c) (\<lambda>_ c.
               finish_typed_response (expect_echo ''value'' (CoilValue_to_wire val)
                 (CoilValue_to_wire (WriteSingleCoilResponse.value resp))) c)
           | _ \<Rightarrow> finish_typed_response (other_response response) c)))"

text \<open>The coils of a write, packed into zeroed bytes.\<close>

definition pack_coil_values :: "bool list \<Rightarrow> bytes \<Rightarrow> ('e, bytes) res" where
  "pack_coil_values vs coil_bytes =
     for_fold (\<lambda>(i, v) out.
       if v then and_then (at out (i div 8)) (\<lambda>b. put_at out (i div 8) (b OR push_bit (i mod 8) 1)) else Ok out)
       (enumerate 0 vs) coil_bytes"

definition write_multiple_coils :: "'w Runtime \<Rightarrow> UnitId \<Rightarrow> u16 \<Rightarrow> bool list \<Rightarrow> 'w ModbusClient \<Rightarrow> (ClientError, unit) res \<times> 'w ModbusClient" where
  "write_multiple_coils R unit addr vs c =
     call_then (checked_quantity_len (length vs) MAX_WRITE_MULTIPLE_COILS, c) (\<lambda>qty c.
     call_then (checked_byte_count_len (div_ceil (length vs) 8), c) (\<lambda>bc c.
     call_then (pack_coil_values vs (replicate (unat bc) 0), c) (\<lambda>coil_bytes c.
     call_then (request_bytes (WriteMultipleCoilsRequest_encode_into
        \<lparr>WriteMultipleCoilsRequest.address = addr, quantity = qty, byte_count = bc, coil_values = coil_bytes\<rparr>
        (replicate 256 0)), c) (\<lambda>raw c.
     if is_broadcast unit then send_broadcast R raw c
     else call_then (send R unit FunctionCode.WriteMultipleCoils raw Mutating c) (\<lambda>response c.
          case response of
            OwnedResponsePdu.WriteMultipleCoils resp \<Rightarrow>
              call_then (finish_typed_response (expect_echo ''address'' addr (WriteMultipleCoilsResponse.address resp)) c) (\<lambda>_ c.
              finish_typed_response (expect_echo ''quantity'' qty (WriteMultipleCoilsResponse.quantity resp)) c)
          | _ \<Rightarrow> finish_typed_response (other_response response) c)))))"

section \<open>registers.rs\<close>

definition read_holding_registers :: "'w Runtime \<Rightarrow> UnitId \<Rightarrow> u16 \<Rightarrow> u16 \<Rightarrow> 'w ModbusClient \<Rightarrow> (ClientError, u16 list) res \<times> 'w ModbusClient" where
  "read_holding_registers R unit addr qty c =
     (if is_broadcast unit then (Err BroadcastReadNotAllowed, c)
      else call_then (request_bytes (ReadHoldingRegistersRequest_encode_into
             \<lparr>ReadHoldingRegistersRequest.address = addr, quantity = qty\<rparr> (replicate 5 0)), c) (\<lambda>raw c.
           call_then (send R unit FunctionCode.ReadHoldingRegisters raw ReplaySafe c) (\<lambda>response c.
           case response of
             OwnedResponsePdu.ReadHoldingRegisters rr \<Rightarrow>
               call_then (finish_typed_response (validate_register_response_shape (FunctionCode_code FunctionCode.ReadHoldingRegisters)
                 qty (OwnedReadHoldingRegistersResponse.register_data rr)) c) (\<lambda>_ c.
               finish_typed_response (Ok (OwnedReadHoldingRegistersResponse_registers rr)) c)
           | _ \<Rightarrow> finish_typed_response (other_response response) c)))"

definition read_holding_registers_raw :: "'w Runtime \<Rightarrow> UnitId \<Rightarrow> u16 \<Rightarrow> u16 \<Rightarrow> 'w ModbusClient \<Rightarrow> (ClientError, bytes) res \<times> 'w ModbusClient" where
  "read_holding_registers_raw R unit addr qty c =
     (if is_broadcast unit then (Err BroadcastReadNotAllowed, c)
      else call_then (request_bytes (ReadHoldingRegistersRequest_encode_into
             \<lparr>ReadHoldingRegistersRequest.address = addr, quantity = qty\<rparr> (replicate 5 0)), c) (\<lambda>raw c.
           call_then (send R unit FunctionCode.ReadHoldingRegisters raw ReplaySafe c) (\<lambda>response c.
           case response of
             OwnedResponsePdu.ReadHoldingRegisters rr \<Rightarrow>
               call_then (finish_typed_response (validate_register_response_shape (FunctionCode_code FunctionCode.ReadHoldingRegisters)
                 qty (OwnedReadHoldingRegistersResponse.register_data rr)) c) (\<lambda>_ c.
               finish_typed_response (Ok (OwnedReadHoldingRegistersResponse.register_data rr)) c)
           | _ \<Rightarrow> finish_typed_response (other_response response) c)))"

definition read_input_registers :: "'w Runtime \<Rightarrow> UnitId \<Rightarrow> u16 \<Rightarrow> u16 \<Rightarrow> 'w ModbusClient \<Rightarrow> (ClientError, u16 list) res \<times> 'w ModbusClient" where
  "read_input_registers R unit addr qty c =
     (if is_broadcast unit then (Err BroadcastReadNotAllowed, c)
      else call_then (request_bytes (ReadInputRegistersRequest_encode_into
             \<lparr>ReadInputRegistersRequest.address = addr, quantity = qty\<rparr> (replicate 5 0)), c) (\<lambda>raw c.
           call_then (send R unit FunctionCode.ReadInputRegisters raw ReplaySafe c) (\<lambda>response c.
           case response of
             OwnedResponsePdu.ReadInputRegisters rr \<Rightarrow>
               call_then (finish_typed_response (validate_register_response_shape (FunctionCode_code FunctionCode.ReadInputRegisters)
                 qty (OwnedReadInputRegistersResponse.register_data rr)) c) (\<lambda>_ c.
               finish_typed_response (Ok (OwnedReadInputRegistersResponse_registers rr)) c)
           | _ \<Rightarrow> finish_typed_response (other_response response) c)))"

definition write_single_register :: "'w Runtime \<Rightarrow> UnitId \<Rightarrow> u16 \<Rightarrow> u16 \<Rightarrow> 'w ModbusClient \<Rightarrow> (ClientError, unit) res \<times> 'w ModbusClient" where
  "write_single_register R unit addr v c =
     call_then (request_bytes (WriteSingleRegisterRequest_encode_into
       \<lparr>WriteSingleRegisterRequest.address = addr, value = v\<rparr> (replicate 5 0)), c) (\<lambda>raw c.
     if is_broadcast unit then send_broadcast R raw c
     else call_then (send R unit FunctionCode.WriteSingleRegister raw Mutating c) (\<lambda>response c.
          case response of
            OwnedResponsePdu.WriteSingleRegister resp \<Rightarrow>
              call_then (finish_typed_response (expect_echo ''address'' addr (WriteSingleRegisterResponse.address resp)) c) (\<lambda>_ c.
              finish_typed_response (expect_echo ''value'' v (WriteSingleRegisterResponse.value resp)) c)
          | _ \<Rightarrow> finish_typed_response (other_response response) c))"

text \<open>The registers of a write, each copied into its two bytes.\<close>

definition register_value_bytes :: "u16 list \<Rightarrow> ('e, bytes) res" where
  "register_value_bytes vs =
     for_fold (\<lambda>(i, v) out. copy_at out (i * 2) (i * 2 + 2) (u16_to_be_bytes v))
       (enumerate 0 vs) (replicate (length vs * 2) 0)"

definition write_multiple_registers :: "'w Runtime \<Rightarrow> UnitId \<Rightarrow> u16 \<Rightarrow> u16 list \<Rightarrow> 'w ModbusClient \<Rightarrow> (ClientError, unit) res \<times> 'w ModbusClient" where
  "write_multiple_registers R unit addr vs c =
     call_then (checked_quantity_len (length vs) MAX_WRITE_MULTIPLE_REGISTERS, c) (\<lambda>qty c.
     call_then (checked_byte_count_len (length vs * 2), c) (\<lambda>bc c.
     call_then (register_value_bytes vs, c) (\<lambda>value_bytes c.
     call_then (request_bytes (WriteMultipleRegistersRequest_encode_into
        \<lparr>WriteMultipleRegistersRequest.address = addr, quantity = qty, byte_count = bc, register_values = value_bytes\<rparr>
        (replicate 256 0)), c) (\<lambda>raw c.
     if is_broadcast unit then send_broadcast R raw c
     else call_then (send R unit FunctionCode.WriteMultipleRegisters raw Mutating c) (\<lambda>response c.
          case response of
            OwnedResponsePdu.WriteMultipleRegisters resp \<Rightarrow>
              call_then (finish_typed_response (expect_echo ''address'' addr (WriteMultipleRegistersResponse.address resp)) c) (\<lambda>_ c.
              finish_typed_response (expect_echo ''quantity'' qty (WriteMultipleRegistersResponse.quantity resp)) c)
          | _ \<Rightarrow> finish_typed_response (other_response response) c)))))"

definition mask_write_register :: "'w Runtime \<Rightarrow> UnitId \<Rightarrow> u16 \<Rightarrow> u16 \<Rightarrow> u16 \<Rightarrow> 'w ModbusClient \<Rightarrow> (ClientError, unit) res \<times> 'w ModbusClient" where
  "mask_write_register R unit addr am om c =
     call_then (request_bytes (MaskWriteRegisterRequest_encode_into
       \<lparr>MaskWriteRegisterRequest.address = addr, and_mask = am, or_mask = om\<rparr> (replicate 7 0)), c) (\<lambda>raw c.
     if is_broadcast unit then send_broadcast R raw c
     else call_then (send R unit FunctionCode.MaskWriteRegister raw Mutating c) (\<lambda>response c.
          case response of
            OwnedResponsePdu.MaskWriteRegister resp \<Rightarrow>
              call_then (finish_typed_response (expect_echo ''address'' addr (MaskWriteRegisterResponse.address resp)) c) (\<lambda>_ c.
              call_then (finish_typed_response (expect_echo ''and_mask'' am (MaskWriteRegisterResponse.and_mask resp)) c) (\<lambda>_ c.
              finish_typed_response (expect_echo ''or_mask'' om (MaskWriteRegisterResponse.or_mask resp)) c))
          | _ \<Rightarrow> finish_typed_response (other_response response) c))"

definition read_write_multiple_registers
  :: "'w Runtime \<Rightarrow> UnitId \<Rightarrow> u16 \<Rightarrow> u16 \<Rightarrow> u16 \<Rightarrow> u16 list \<Rightarrow> 'w ModbusClient \<Rightarrow> (ClientError, u16 list) res \<times> 'w ModbusClient" where
  "read_write_multiple_registers R unit raddr rqty waddr vs c =
     (if is_broadcast unit then (Err BroadcastReadNotAllowed, c)
      else call_then (checked_quantity_len (length vs) MAX_READ_WRITE_MULTIPLE_WRITE_REGISTERS, c) (\<lambda>wqty c.
           call_then (checked_byte_count_len (length vs * 2), c) (\<lambda>bc c.
           call_then (register_value_bytes vs, c) (\<lambda>value_bytes c.
           call_then (request_bytes (ReadWriteMultipleRegistersRequest_encode_into
             \<lparr>read_address = raddr, read_quantity = rqty, write_address = waddr, write_quantity = wqty,
              write_byte_count = bc, write_register_values = value_bytes\<rparr> (replicate 256 0)), c) (\<lambda>raw c.
           call_then (send R unit FunctionCode.ReadWriteMultipleRegisters raw Mutating c) (\<lambda>response c.
           case response of
             OwnedResponsePdu.ReadWriteMultipleRegisters rw \<Rightarrow>
               call_then (finish_typed_response (validate_register_response_shape
                 (FunctionCode_code FunctionCode.ReadWriteMultipleRegisters)
                 rqty (OwnedReadWriteMultipleRegistersResponse.register_data rw)) c) (\<lambda>_ c.
               finish_typed_response (Ok (OwnedReadWriteMultipleRegistersResponse_registers rw)) c)
           | _ \<Rightarrow> finish_typed_response (other_response response) c))))))"

section \<open>fifo.rs\<close>

definition read_fifo_queue :: "'w Runtime \<Rightarrow> UnitId \<Rightarrow> u16 \<Rightarrow> 'w ModbusClient \<Rightarrow> (ClientError, u16 list) res \<times> 'w ModbusClient" where
  "read_fifo_queue R unit paddr c =
     (if is_broadcast unit then (Err BroadcastReadNotAllowed, c)
      else call_then (request_bytes (ReadFifoQueueRequest_encode_into
             \<lparr>fifo_pointer_address = paddr\<rparr> (replicate 3 0)), c) (\<lambda>raw c.
           call_then (send R unit FunctionCode.ReadFifoQueue raw ReplaySafe c) (\<lambda>response c.
           case response of
             OwnedResponsePdu.ReadFifoQueue fifo \<Rightarrow>
               finish_typed_response (Ok (map (\<lambda>ch. u16_from_be_bytes (ch ! 0) (ch ! 1))
                 (chunks_exact 2 (OwnedReadFifoQueueResponse.fifo_values fifo)))) c
           | _ \<Rightarrow> finish_typed_response (other_response response) c)))"

section \<open>file.rs\<close>

function read_file_record_sub_response_count :: "bytes \<Rightarrow> nat" where
  "read_file_record_sub_response_count [] = 0"
| "read_file_record_sub_response_count (response_len # rest) =
     (if unat response_len \<le> length rest
      then 1 + read_file_record_sub_response_count (drop (unat response_len) rest) else 0)"
  by pat_completeness auto
termination by (relation "measure length") auto

definition read_file_record :: "'w Runtime \<Rightarrow> UnitId \<Rightarrow> bytes \<Rightarrow> 'w ModbusClient \<Rightarrow> (ClientError, OwnedReadFileRecordResponse) res \<times> 'w ModbusClient" where
  "read_file_record R unit sub_request_data c =
     (if is_broadcast unit then (Err BroadcastReadNotAllowed, c)
      else call_then (checked_file_record_byte_count (length sub_request_data), c) (\<lambda>bc c.
           call_then (request_bytes (ReadFileRecordRequest_encode_into
             \<lparr>ReadFileRecordRequest.byte_count = bc, sub_requests = sub_request_data\<rparr> (replicate 256 0)), c) (\<lambda>raw c.
           let expected_sub_responses = length sub_request_data div 7 in
           call_then (send R unit FunctionCode.ReadFileRecord raw ReplaySafe c) (\<lambda>response c.
           case response of
             OwnedResponsePdu.ReadFileRecord r \<Rightarrow>
               let actual_sub_responses = read_file_record_sub_response_count (OwnedReadFileRecordResponse.data r) in
               finish_typed_response
                 (if actual_sub_responses = expected_sub_responses then Ok r
                  else Err (UnexpectedFileRecordSubResponseCount expected_sub_responses actual_sub_responses)) c
           | _ \<Rightarrow> finish_typed_response (other_response response) c))))"

definition write_file_record :: "'w Runtime \<Rightarrow> UnitId \<Rightarrow> bytes \<Rightarrow> 'w ModbusClient \<Rightarrow> (ClientError, OwnedWriteFileRecordResponse) res \<times> 'w ModbusClient" where
  "write_file_record R unit sub_request_data c =
     (if is_broadcast unit then (Err BroadcastReadNotAllowed, c)
      else call_then (checked_file_record_byte_count (length sub_request_data), c) (\<lambda>bc c.
           call_then (request_bytes (WriteFileRecordRequest_encode_into
             \<lparr>WriteFileRecordRequest.byte_count = bc, sub_requests = sub_request_data\<rparr> (replicate 256 0)), c) (\<lambda>raw c.
           call_then (send R unit FunctionCode.WriteFileRecord raw Mutating c) (\<lambda>response c.
           case response of
             OwnedResponsePdu.WriteFileRecord r \<Rightarrow> finish_typed_response (Ok r) c
           | _ \<Rightarrow> finish_typed_response (other_response response) c))))"

section \<open>device\_id.rs\<close>

text \<open>
  A \<open>String\<close> is what the lossy conversion of the standard library makes of the bytes, an argument
  \<open>lossy\<close>.
\<close>

definition MAX_BASIC_DEVICE_ID_RESPONSE_PAGES :: u8 where [simp]: "MAX_BASIC_DEVICE_ID_RESPONSE_PAGES = 3"

record OwnedDeviceIdentification =
  vendor_name :: "string option"
  product_code :: "string option"
  major_minor_revision :: "string option"

definition OwnedDeviceIdentification_default :: OwnedDeviceIdentification where
  "OwnedDeviceIdentification_default = \<lparr>vendor_name = None, product_code = None, major_minor_revision = None\<rparr>"

definition record_object
  :: "(bytes \<Rightarrow> string) \<Rightarrow> DeviceIdObjectEntry \<Rightarrow> OwnedDeviceIdentification \<Rightarrow> OwnedDeviceIdentification" where
  "record_object lossy obj result =
     (let v = lossy (DeviceIdObjectEntry.value obj); oid = DeviceIdObjectEntry.id obj in
      if oid = 0x00 then result\<lparr>vendor_name := Some v\<rparr>
      else if oid = 0x01 then result\<lparr>product_code := Some v\<rparr>
      else if oid = 0x02 then result\<lparr>major_minor_revision := Some v\<rparr>
      else result)"

fun mei_data :: "OwnedResponsePdu \<Rightarrow> (ClientError, bytes) res" where
  "mei_data (OwnedResponsePdu.EncapsulatedInterface mei) = Ok (OwnedEncapsulatedInterfaceResponse.data mei)"
| "mei_data response = other_response response"

text \<open>One pass of the loop: the response of one page, or the page that comes next.\<close>

datatype page = LastPage OwnedDeviceIdentification | NextPage u8 u8 OwnedDeviceIdentification

definition device_id_page
  :: "'w Runtime \<Rightarrow> (bytes \<Rightarrow> string) \<Rightarrow> UnitId \<Rightarrow> u8 \<Rightarrow> u8 \<Rightarrow> OwnedDeviceIdentification \<Rightarrow> 'w ModbusClient
      \<Rightarrow> (ClientError, page) res \<times> 'w ModbusClient" where
  "device_id_page R lossy unit request_object_id response_pages result c =
     call_then (request_bytes (ReadDeviceIdentificationRequest_encode_into
       \<lparr>ReadDeviceIdentificationRequest.device_id_code = BasicStream, object_id = request_object_id\<rparr> (replicate 4 0)), c) (\<lambda>raw c.
     call_then (send R unit FunctionCode.EncapsulatedInterfaceTransport raw ReplaySafe c) (\<lambda>response c.
     call_then (finish_typed_response (mei_data response) c) (\<lambda>pdu_data c.
     let decode_buf = 0x0E # pdu_data in
     call_then (finish_typed_response
       (case ReadDeviceIdentificationResponse_decode decode_buf of Ok d \<Rightarrow> Ok d | Err e \<Rightarrow> Err (Codec e) | Panic \<Rightarrow> Panic) c) (\<lambda>dev_id c.
     let response_pages = response_pages + 1 in
     call_then (DeviceIdObjectIter_collect (ReadDeviceIdentificationResponse_objects dev_id), c) (\<lambda>objs c.
     let result = fold (record_object lossy) objs result in
     if \<not> ReadDeviceIdentificationResponse.more_follows dev_id then (Ok (LastPage result), c)
     else if response_pages \<ge> MAX_BASIC_DEVICE_ID_RESPONSE_PAGES
     then finish_typed_response (Err (DeviceIdentificationPaginationLimit MAX_BASIC_DEVICE_ID_RESPONSE_PAGES)) c
     else if ReadDeviceIdentificationResponse.next_object_id dev_id \<le> request_object_id
     then finish_typed_response (Err (InvalidDeviceIdentificationContinuation request_object_id
            (ReadDeviceIdentificationResponse.next_object_id dev_id))) c
     else (Ok (NextPage (ReadDeviceIdentificationResponse.next_object_id dev_id) response_pages result), c))))))"

lemma call_then_Ok: "call_then p f = (Ok x, s) \<longleftrightarrow> (\<exists>y s'. p = (Ok y, s') \<and> f y s' = (Ok x, s))"
  by (cases p; cases "fst p") auto

lemma device_id_page_next:
  assumes "device_id_page R lossy unit oid pages result c = (Ok (NextPage noid pages' result'), c')"
  shows "pages' = pages + 1" "pages' < 3" "oid < noid"
  using assms
  by (auto simp: device_id_page_def call_then_Ok Let_def finish_typed_response_def not_le
      split: if_splits option.splits)

function device_id_pages
  :: "'w Runtime \<Rightarrow> (bytes \<Rightarrow> string) \<Rightarrow> UnitId \<Rightarrow> u8 \<Rightarrow> u8 \<Rightarrow> OwnedDeviceIdentification \<Rightarrow> 'w ModbusClient
      \<Rightarrow> (ClientError, OwnedDeviceIdentification) res \<times> 'w ModbusClient" where
  "device_id_pages R lossy unit oid response_pages result c =
     (case device_id_page R lossy unit oid response_pages result c of
        (Ok (LastPage result), c) \<Rightarrow> (Ok result, c)
      | (Ok (NextPage noid pages result), c) \<Rightarrow> device_id_pages R lossy unit noid pages result c
      | (Err e, c) \<Rightarrow> (Err e, c)
      | (Panic, c) \<Rightarrow> (Panic, c))"
  by pat_completeness auto
termination
proof (relation "measure (\<lambda>(_, _, _, oid, _, _, _). 256 - unat oid)")
  fix R :: "'w Runtime" and lossy unit oid pages result c x c' r p noid pages' result'
  assume "(r, c') = device_id_page R lossy unit oid pages result c" "r = Ok p" "p = NextPage noid pages' result'"
  then have "oid < noid" using device_id_page_next(3) [of R lossy unit oid pages result c] by metis
  then have "256 - unat noid < 256 - unat oid" using unsigned_less [of noid] by (simp add: word_less_nat_alt diff_less_mono2)
  then show "((R, lossy, unit, noid, pages', result', c'), R, lossy, unit, oid, pages, result, c)
    \<in> measure (\<lambda>(_, _, _, oid, _, _, _). 256 - unat oid)" by simp
qed simp

declare device_id_pages.simps [simp del]

definition read_device_identification
  :: "'w Runtime \<Rightarrow> (bytes \<Rightarrow> string) \<Rightarrow> UnitId \<Rightarrow> 'w ModbusClient \<Rightarrow> (ClientError, OwnedDeviceIdentification) res \<times> 'w ModbusClient" where
  "read_device_identification R lossy unit c =
     (if is_broadcast unit then (Err BroadcastReadNotAllowed, c)
      else device_id_pages R lossy unit 0x00 0 OwnedDeviceIdentification_default c)"

end
