(* ===== verification/Server_Device_Id.thy ===== *)
theory Server_Device_Id
  imports Codec_Decode Validate
begin

text \<open>
  The server side of Read Device Identification (\<open>server/src/device_id.rs\<close>) with the part of
  \<open>server/src/config.rs\<close> it serves.  A Rust \<open>String\<close> is represented by its UTF-8 bytes, which is all
  the server uses of it.  The answers are shown to be decodable by the client's parser, and the
  stream access to return, answer after answer, every configured object exactly once.
\<close>

section \<open>config.rs\<close>

record DeviceIdentification =
  vendor_name :: bytes
  product_code :: bytes
  major_minor_revision :: bytes
  vendor_url :: "bytes option"
  product_name :: "bytes option"
  model_name :: "bytes option"
  user_application_name :: "bytes option"

section \<open>device_id.rs\<close>

definition DEVICE_ID_RESPONSE_HEADER_LEN :: nat where [simp]: "DEVICE_ID_RESPONSE_HEADER_LEN = 7"
definition DEVICE_ID_OBJECT_HEADER_LEN :: nat where [simp]: "DEVICE_ID_OBJECT_HEADER_LEN = 2"
definition DEVICE_ID_REQUEST_LEN :: nat where [simp]: "DEVICE_ID_REQUEST_LEN = 2"
definition BASIC_DEVICE_ID_OBJECT_COUNT :: nat where [simp]: "BASIC_DEVICE_ID_OBJECT_COUNT = 3"
definition MAX_CONFIGURED_DEVICE_ID_OBJECTS :: nat where [simp]: "MAX_CONFIGURED_DEVICE_ID_OBJECTS = 7"
definition MAX_DEVICE_ID_OBJECT_VALUE_LEN :: nat where
  [simp]: "MAX_DEVICE_ID_OBJECT_VALUE_LEN =
     MAX_PDU_SIZE - DEVICE_ID_RESPONSE_HEADER_LEN - DEVICE_ID_OBJECT_HEADER_LEN"

record server_DeviceIdObject =
  id :: u8
  "value" :: bytes

record ConfiguredDeviceIdObjects =
  objects :: "server_DeviceIdObject list"
  len :: nat

definition ConfiguredDeviceIdObjects_new :: ConfiguredDeviceIdObjects where
  "ConfiguredDeviceIdObjects_new =
     \<lparr>objects = replicate MAX_CONFIGURED_DEVICE_ID_OBJECTS \<lparr>server_DeviceIdObject.id = 0, value = []\<rparr>, len = 0\<rparr>"

definition ConfiguredDeviceIdObjects_push
  :: "ConfiguredDeviceIdObjects \<Rightarrow> server_DeviceIdObject \<Rightarrow> (ExceptionCode, ConfiguredDeviceIdObjects) res" where
  "ConfiguredDeviceIdObjects_push self obj =
     (if \<not> ConfiguredDeviceIdObjects.len self < length (objects self) then Panic
      else and_then (put_at (objects self) (ConfiguredDeviceIdObjects.len self) obj) (\<lambda>objs.
           Ok \<lparr>objects = objs, len = ConfiguredDeviceIdObjects.len self + 1\<rparr>))"

definition ConfiguredDeviceIdObjects_as_slice
  :: "ConfiguredDeviceIdObjects \<Rightarrow> (ExceptionCode, server_DeviceIdObject list) res" where
  "ConfiguredDeviceIdObjects_as_slice self = slice (objects self) 0 (ConfiguredDeviceIdObjects.len self)"

definition push_optional
  :: "u8 \<Rightarrow> bytes option \<Rightarrow> ConfiguredDeviceIdObjects \<Rightarrow> (ExceptionCode, ConfiguredDeviceIdObjects) res" where
  "push_optional i v objs =
     (case v of
        Some w \<Rightarrow> ConfiguredDeviceIdObjects_push objs \<lparr>server_DeviceIdObject.id = i, value = w\<rparr>
      | None \<Rightarrow> Ok objs)"

definition configured_objects :: "DeviceIdentification \<Rightarrow> (ExceptionCode, ConfiguredDeviceIdObjects) res" where
  "configured_objects device_id =
     and_then (ConfiguredDeviceIdObjects_push ConfiguredDeviceIdObjects_new
       \<lparr>server_DeviceIdObject.id = 0x00, value = vendor_name device_id\<rparr>) (\<lambda>objs.
     and_then (ConfiguredDeviceIdObjects_push objs
       \<lparr>server_DeviceIdObject.id = 0x01, value = product_code device_id\<rparr>) (\<lambda>objs.
     and_then (ConfiguredDeviceIdObjects_push objs
       \<lparr>server_DeviceIdObject.id = 0x02, value = major_minor_revision device_id\<rparr>) (\<lambda>objs.
     and_then (push_optional 0x03 (vendor_url device_id) objs) (\<lambda>objs.
     and_then (push_optional 0x04 (product_name device_id) objs) (\<lambda>objs.
     and_then (push_optional 0x05 (model_name device_id) objs) (\<lambda>objs.
     push_optional 0x06 (user_application_name device_id) objs))))))"

definition server_conformity_level :: "DeviceIdentification \<Rightarrow> u8" where
  "server_conformity_level device_id =
     (if vendor_url device_id \<noteq> None \<or> product_name device_id \<noteq> None
         \<or> model_name device_id \<noteq> None \<or> user_application_name device_id \<noteq> None
      then 0x82 else 0x81)"

definition device_id_exception :: "ExceptionCode \<Rightarrow> bytes" where
  "device_id_exception exception =
     [FunctionCode_exception_code EncapsulatedInterfaceTransport, ExceptionCode_code exception]"

text \<open>The \<open>debug_assert_eq!\<close> at the end is a panic when it fails.\<close>

definition build_response
  :: "DeviceIdCode \<Rightarrow> u8 \<Rightarrow> bool \<Rightarrow> u8 \<Rightarrow> server_DeviceIdObject list \<Rightarrow> nat \<Rightarrow> (ExceptionCode, bytes) res" where
  "build_response code level more_fl next_id objs response_len =
     (let response = [FunctionCode_code EncapsulatedInterfaceTransport, 0x0E, DeviceIdCode_code code, level,
                      (if more_fl then 0xFF else 0x00),
                      (if more_fl then next_id else 0x00),
                      u8_of_nat (length objs)];
          response = fold (\<lambda>obj response.
            response @ [server_DeviceIdObject.id obj]
              @ [u8_of_nat (length (server_DeviceIdObject.value obj))]
              @ server_DeviceIdObject.value obj) objs response
      in if length response = response_len then Ok response else Panic)"

text \<open>The loop that selects the objects that fit, stopping at the first that does not.\<close>

fun select_objects :: "server_DeviceIdObject list \<Rightarrow> nat \<Rightarrow> nat \<Rightarrow> nat \<times> nat \<times> bool \<times> u8" where
  "select_objects [] response_len selected_count = (response_len, selected_count, False, 0)"
| "select_objects (obj # objs) response_len selected_count =
     (let object_len = DEVICE_ID_OBJECT_HEADER_LEN + length (server_DeviceIdObject.value obj) in
      if response_len + object_len > MAX_PDU_SIZE
      then (response_len, selected_count, True, server_DeviceIdObject.id obj)
      else select_objects objs (response_len + object_len) (selected_count + 1))"

fun position :: "('a \<Rightarrow> bool) \<Rightarrow> 'a list \<Rightarrow> nat option" where
  "position P [] = None"
| "position P (x # xs) = (if P x then Some 0 else map_option Suc (position P xs))"

definition build_stream_response
  :: "DeviceIdCode \<Rightarrow> u8 \<Rightarrow> u8 \<Rightarrow> server_DeviceIdObject list \<Rightarrow> (ExceptionCode, bytes) res" where
  "build_stream_response code level oid objs =
     (if list_ex (\<lambda>obj. length (server_DeviceIdObject.value obj) > MAX_DEVICE_ID_OBJECT_VALUE_LEN) objs
      then Ok (device_id_exception ServerDeviceFailure)
      else let start = (case position (\<lambda>obj. server_DeviceIdObject.id obj = oid) objs of
                          Some i \<Rightarrow> i | None \<Rightarrow> 0) in
      and_then (slice_from objs start) (\<lambda>rest.
      let (response_len, selected_count, more_follows, next_object_id) =
            select_objects rest DEVICE_ID_RESPONSE_HEADER_LEN 0 in
      if selected_count = 0 then Ok (device_id_exception ServerDeviceFailure)
      else and_then (slice objs start (start + selected_count)) (\<lambda>selected.
           build_response code level more_follows next_object_id selected response_len)))"

definition build_device_id_response :: "bytes \<Rightarrow> DeviceIdentification \<Rightarrow> (ExceptionCode, bytes) res" where
  "build_device_id_response mei_data device_id =
     (if length mei_data \<noteq> DEVICE_ID_REQUEST_LEN then Ok (device_id_exception IllegalDataValue)
      else case mei_data of
        [] \<Rightarrow> Ok (device_id_exception IllegalDataValue)
      | raw_device_id_code # rest \<Rightarrow>
      (case get rest 0 of
        None \<Rightarrow> Ok (device_id_exception IllegalDataValue)
      | Some oid \<Rightarrow>
      (case DeviceIdCode_from_raw raw_device_id_code of
        None \<Rightarrow> Ok (device_id_exception IllegalDataValue)
      | Some code \<Rightarrow>
      and_then (configured_objects device_id) (\<lambda>c.
      and_then (ConfiguredDeviceIdObjects_as_slice c) (\<lambda>objs.
      let level = server_conformity_level device_id in
      case code of
        Individual \<Rightarrow>
          (case find (\<lambda>obj. server_DeviceIdObject.id obj = oid) objs of
             None \<Rightarrow> Ok (device_id_exception IllegalDataAddress)
           | Some obj \<Rightarrow>
             if length (server_DeviceIdObject.value obj) > MAX_DEVICE_ID_OBJECT_VALUE_LEN
             then Ok (device_id_exception ServerDeviceFailure)
             else build_response code level False 0 [obj]
                    (DEVICE_ID_RESPONSE_HEADER_LEN + DEVICE_ID_OBJECT_HEADER_LEN
                     + length (server_DeviceIdObject.value obj)))
      | BasicStream \<Rightarrow>
          and_then (slice objs 0 BASIC_DEVICE_ID_OBJECT_COUNT) (\<lambda>basic.
          build_stream_response code level oid basic)
      | RegularStream \<Rightarrow> build_stream_response code level oid objs
      | ExtendedStream \<Rightarrow> build_stream_response code level oid objs)))))"


section \<open>The configured objects\<close>

text \<open>The objects of a configuration in the order of their ids.\<close>

definition device_objects :: "DeviceIdentification \<Rightarrow> server_DeviceIdObject list" where
  "device_objects d =
     (let optional = (\<lambda>i v. case v of Some w \<Rightarrow> [\<lparr>server_DeviceIdObject.id = i, value = w\<rparr>] | None \<Rightarrow> []) in
      [\<lparr>server_DeviceIdObject.id = 0, value = vendor_name d\<rparr>,
       \<lparr>server_DeviceIdObject.id = 1, value = product_code d\<rparr>,
       \<lparr>server_DeviceIdObject.id = 2, value = major_minor_revision d\<rparr>]
      @ optional 3 (vendor_url d) @ optional 4 (product_name d)
      @ optional 5 (model_name d) @ optional 6 (user_application_name d))"

lemma configured_objects_slice:
  "and_then (configured_objects d) ConfiguredDeviceIdObjects_as_slice = Ok (device_objects d)"
  by (cases "vendor_url d"; cases "product_name d"; cases "model_name d"; cases "user_application_name d")
    (simp_all add: configured_objects_def push_optional_def ConfiguredDeviceIdObjects_push_def
      ConfiguredDeviceIdObjects_new_def ConfiguredDeviceIdObjects_as_slice_def put_at_def slice_def
      device_objects_def numeral_eq_Suc)

lemma configured_objects_then:
  "and_then (configured_objects d) (\<lambda>c. and_then (ConfiguredDeviceIdObjects_as_slice c) f) = f (device_objects d)"
  using configured_objects_slice [of d] by (cases "configured_objects d") auto

lemma device_objects_length: "3 \<le> length (device_objects d)" "length (device_objects d) \<le> 7"
  by (auto simp: device_objects_def Let_def split: option.split)

lemma device_objects_distinct: "distinct (map server_DeviceIdObject.id (device_objects d))"
  by (auto simp: device_objects_def Let_def split: option.split)

section \<open>Selection\<close>

abbreviation object_size :: "server_DeviceIdObject \<Rightarrow> nat" where
  "object_size obj \<equiv> 2 + length (server_DeviceIdObject.value obj)"

abbreviation objects_size :: "server_DeviceIdObject list \<Rightarrow> nat" where
  "objects_size objs \<equiv> sum_list (map object_size objs)"

text \<open>How many of the objects fit after a response of \<open>n\<close> bytes.\<close>

fun fit_count :: "server_DeviceIdObject list \<Rightarrow> nat \<Rightarrow> nat" where
  "fit_count [] n = 0"
| "fit_count (obj # objs) n =
     (if n + object_size obj > MAX_PDU_SIZE then 0 else Suc (fit_count objs (n + object_size obj)))"

lemma select_objects_closed:
  "select_objects objs n c =
     (let k = fit_count objs n in
      (n + objects_size (take k objs), c + k, k < length objs,
       if k < length objs then server_DeviceIdObject.id (objs ! k) else 0))"
  by (induction objs n c rule: select_objects.induct) (simp_all add: Let_def)

lemma fit_count_le: "fit_count objs n \<le> length objs"
  by (induction objs n rule: fit_count.induct) auto

lemma fit_count_size: "n \<le> MAX_PDU_SIZE \<Longrightarrow> n + objects_size (take (fit_count objs n) objs) \<le> MAX_PDU_SIZE"
  by (induction objs n rule: fit_count.induct) auto

lemma fit_count_pos:
  "objs \<noteq> [] \<Longrightarrow> length (server_DeviceIdObject.value (hd objs)) \<le> 244 \<Longrightarrow> 0 < fit_count objs 7"
  by (cases objs) auto

lemma position_nth:
  "position P xs = Some i \<Longrightarrow> i < length xs \<and> P (xs ! i)"
  by (induction xs arbitrary: i) (auto split: if_splits)

lemma position_id:
  "distinct (map server_DeviceIdObject.id objs) \<Longrightarrow> i < length objs \<Longrightarrow>
     position (\<lambda>obj. server_DeviceIdObject.id obj = server_DeviceIdObject.id (objs ! i)) objs = Some i"
  by (induction objs arbitrary: i) (auto simp: nth_Cons split: nat.splits)


section \<open>The answers\<close>

definition entry_of :: "server_DeviceIdObject \<Rightarrow> DeviceIdObjectEntry" where
  "entry_of obj = \<lparr>DeviceIdObjectEntry.id = server_DeviceIdObject.id obj,
     DeviceIdObjectEntry.value = server_DeviceIdObject.value obj\<rparr>"

text \<open>The message a client parses from an answer with the given objects.\<close>

definition device_id_answer
  :: "DeviceIdCode \<Rightarrow> u8 \<Rightarrow> bool \<Rightarrow> u8 \<Rightarrow> server_DeviceIdObject list \<Rightarrow> ReadDeviceIdentificationResponse" where
  "device_id_answer code level m n objs =
     \<lparr>ReadDeviceIdentificationResponse.device_id_code = code, conformity_level = level, more_follows = m,
      next_object_id = (if m then n else 0), num_objects = u8_of_nat (length objs),
      object_data = entries_bytes (map entry_of objs)\<rparr>"

lemma entries_bytes_size: "length (concat (map (entry_bytes \<circ> entry_of) objs)) = objects_size objs"
  by (induction objs) (auto simp: entry_of_def)

lemma fold_append_entries:
  "fold (\<lambda>obj response. response @ [server_DeviceIdObject.id obj]
      @ [u8_of_nat (length (server_DeviceIdObject.value obj))] @ server_DeviceIdObject.value obj) objs acc
   = acc @ entries_bytes (map entry_of objs)"
  by (induction objs arbitrary: acc) (auto simp: entry_of_def entry_bytes_def)

lemma build_response_closed:
  "n = 7 + objects_size objs \<Longrightarrow>
     build_response code level m next objs n
       = Ok (0x2B # ReadDeviceIdentificationResponse_payload (device_id_answer code level m next objs))"
  unfolding build_response_def Let_def fold_append_entries
  by (simp add: entries_bytes_size ReadDeviceIdentificationResponse_payload_def device_id_answer_def)

lemma device_id_answer_valid:
  assumes "length objs \<le> 255" "code = Individual \<Longrightarrow> length objs = 1" "level = 0x81 \<or> level = 0x82"
    "\<forall>obj \<in> set objs. length (server_DeviceIdObject.value obj) \<le> 244"
  shows "ReadDeviceIdentificationResponse_valid (device_id_answer code level m n objs)"
proof -
  have "\<forall>e \<in> set (map entry_of objs). entry_ok e" using assms(4) by (auto simp: entry_ok_def entry_of_def)
  then have "objects_ok (length objs) (entries_bytes (map entry_of objs))"
    using objects_ok_entries [of "map entry_of objs"] by simp
  then show ?thesis
    using assms(1-3)
    by (auto simp: ReadDeviceIdentificationResponse_valid_def device_id_answer_def valid_conformity_level_def
        word_unat_eq_iff)
qed

lemma payload_size:
  "length (ReadDeviceIdentificationResponse_payload (device_id_answer code level m n objs)) = 6 + objects_size objs"
  by (simp add: ReadDeviceIdentificationResponse_payload_def device_id_answer_def entries_bytes_size)

text \<open>The index at which a stream answer starts, and the objects of that answer.\<close>

definition stream_start :: "u8 \<Rightarrow> server_DeviceIdObject list \<Rightarrow> nat" where
  "stream_start oid objs =
     (case position (\<lambda>obj. server_DeviceIdObject.id obj = oid) objs of Some i \<Rightarrow> i | None \<Rightarrow> 0)"

definition stream_page :: "nat \<Rightarrow> server_DeviceIdObject list \<Rightarrow> server_DeviceIdObject list" where
  "stream_page i objs = take (fit_count (drop i objs) 7) (drop i objs)"

lemma stream_start_less: "objs \<noteq> [] \<Longrightarrow> stream_start oid objs < length objs"
  using position_nth [of "\<lambda>obj. server_DeviceIdObject.id obj = oid" objs]
  by (auto simp: stream_start_def split: option.split)

lemma stream_page_pos:
  assumes "i < length objs" "\<forall>obj \<in> set objs. length (server_DeviceIdObject.value obj) \<le> 244"
  shows "0 < fit_count (drop i objs) 7" "stream_page i objs \<noteq> []"
proof -
  show "0 < fit_count (drop i objs) 7" using assms by (intro fit_count_pos) (auto simp: hd_drop_conv_nth)
  then show "stream_page i objs \<noteq> []" using assms(1) by (auto simp: stream_page_def)
qed

lemma build_stream_response_closed:
  assumes "objs \<noteq> []" "\<forall>obj \<in> set objs. length (server_DeviceIdObject.value obj) \<le> 244"
    and i_def: "i = stream_start oid objs" and j_def: "j = i + length (stream_page i objs)"
  shows "build_stream_response code level oid objs
    = Ok (0x2B # ReadDeviceIdentificationResponse_payload (device_id_answer code level (j < length objs)
         (if j < length objs then server_DeviceIdObject.id (objs ! j) else 0) (stream_page i objs)))"
proof -
  let ?k = "fit_count (drop i objs) 7"
  have i: "i < length objs" unfolding i_def by (rule stream_start_less [OF assms(1)])
  have k: "?k \<le> length objs - i" "0 < ?k"
    using fit_count_le [of "drop i objs" 7] stream_page_pos(1) [OF i assms(2)] by auto
  then have j: "j = i + ?k" by (simp add: j_def stream_page_def min_def)
  have "\<not> list_ex (\<lambda>obj. length (server_DeviceIdObject.value obj) > MAX_DEVICE_ID_OBJECT_VALUE_LEN) objs"
    using assms(2) by (auto simp: list_ex_iff not_less)
  moreover have "slice_from objs i = (Ok (drop i objs) :: (ExceptionCode, _) res)"
    "slice objs i j = (Ok (stream_page i objs) :: (ExceptionCode, _) res)"
    using i k j by (auto simp: slice_from_def slice_def stream_page_def)
  ultimately show ?thesis
    unfolding build_stream_response_def stream_start_def [symmetric] i_def [symmetric]
    using k i j by (auto simp: select_objects_closed Let_def build_response_closed stream_page_def)
qed


lemma device_objects_basic: "take 3 (device_objects d) =
    [\<lparr>server_DeviceIdObject.id = 0, value = vendor_name d\<rparr>,
     \<lparr>server_DeviceIdObject.id = 1, value = product_code d\<rparr>,
     \<lparr>server_DeviceIdObject.id = 2, value = major_minor_revision d\<rparr>]"
  by (simp add: device_objects_def Let_def)

text \<open>The objects an access category serves.\<close>

definition stream_objects :: "DeviceIdCode \<Rightarrow> DeviceIdentification \<Rightarrow> server_DeviceIdObject list" where
  "stream_objects code d = (if code = BasicStream then take 3 (device_objects d) else device_objects d)"

lemma stream_objects_props:
  "stream_objects code d \<noteq> []" "distinct (map server_DeviceIdObject.id (stream_objects code d))"
  "length (stream_objects code d) \<le> 7"
  using device_objects_length [of d] device_objects_distinct [of d]
  by (auto simp: stream_objects_def take_map [symmetric] simp del: take_map)

lemma stream_request:
  "DeviceIdCode_from_raw c = Some code \<Longrightarrow> code \<noteq> Individual \<Longrightarrow>
     build_device_id_response [c, oid] d
       = build_stream_response code (server_conformity_level d) oid (stream_objects code d)"
  using device_objects_length(1) [of d]
  by (cases code)
    (simp_all add: build_device_id_response_def get_def configured_objects_then Let_def slice_def stream_objects_def)

lemma individual_request:
  "DeviceIdCode_from_raw c = Some Individual \<Longrightarrow>
     build_device_id_response [c, oid] d =
       (case find (\<lambda>obj. server_DeviceIdObject.id obj = oid) (device_objects d) of
          None \<Rightarrow> Ok (device_id_exception IllegalDataAddress)
        | Some obj \<Rightarrow>
            if length (server_DeviceIdObject.value obj) > 244 then Ok (device_id_exception ServerDeviceFailure)
            else Ok (0x2B # ReadDeviceIdentificationResponse_payload
              (device_id_answer Individual (server_conformity_level d) False 0 [obj])))"
  by (simp add: build_device_id_response_def get_def configured_objects_then Let_def build_response_closed
      split: option.split)

lemma stream_response_cases:
  assumes "objs \<noteq> []" "length objs \<le> 7" "level = 0x81 \<or> level = 0x82" "code \<noteq> Individual"
  obtains "build_stream_response code level oid objs = Ok (device_id_exception ServerDeviceFailure)"
  | r where "build_stream_response code level oid objs = Ok (0x2B # ReadDeviceIdentificationResponse_payload r)"
      "ReadDeviceIdentificationResponse_valid r" "length (ReadDeviceIdentificationResponse_payload r) \<le> 252"
proof (cases "\<forall>obj \<in> set objs. length (server_DeviceIdObject.value obj) \<le> 244")
  case True
  let ?i = "stream_start oid objs"
  let ?p = "stream_page ?i objs"
  have "length ?p \<le> 255" "\<forall>obj \<in> set ?p. length (server_DeviceIdObject.value obj) \<le> 244"
    using True assms(2) by (auto simp: stream_page_def dest!: in_set_takeD in_set_dropD)
  moreover have "7 + objects_size ?p \<le> 253"
    unfolding stream_page_def using fit_count_size [of 7 "drop ?i objs"] by simp
  ultimately show ?thesis
    using build_stream_response_closed [OF assms(1) True refl refl] assms(3,4)
    by (intro that(2)) (auto intro!: device_id_answer_valid simp: payload_size)
next
  case False
  then have "list_ex (\<lambda>obj. length (server_DeviceIdObject.value obj) > MAX_DEVICE_ID_OBJECT_VALUE_LEN) objs"
    by (auto simp: list_ex_iff not_le)
  then show ?thesis by (intro that(1)) (simp add: build_stream_response_def)
qed

lemma level_cases: "server_conformity_level d = 0x81 \<or> server_conformity_level d = 0x82"
  by (simp add: server_conformity_level_def)

text \<open>
  Every request gets an answer that fits a PDU: an exception, or a message the client's parser
  accepts.
\<close>

lemma build_device_id_response_cases:
  obtains e where "build_device_id_response mei d = Ok (device_id_exception e)"
      "e \<in> {IllegalDataValue, IllegalDataAddress, ServerDeviceFailure}"
  | r where "build_device_id_response mei d = Ok (0x2B # ReadDeviceIdentificationResponse_payload r)"
      "ReadDeviceIdentificationResponse_valid r" "length (ReadDeviceIdentificationResponse_payload r) \<le> 252"
proof (cases "\<exists>c oid code. mei = [c, oid] \<and> DeviceIdCode_from_raw c = Some code")
  case True
  then obtain c oid code where m: "mei = [c, oid]" "DeviceIdCode_from_raw c = Some code" by blast
  show ?thesis
  proof (cases "code = Individual")
    case True
    have "ReadDeviceIdentificationResponse_valid (device_id_answer Individual (server_conformity_level d) False 0 [obj])"
      if "length (server_DeviceIdObject.value obj) \<le> 244" for obj
      using that level_cases by (intro device_id_answer_valid) auto
    then show ?thesis
      using that individual_request [of c oid d] m True
      by (cases "find (\<lambda>obj. server_DeviceIdObject.id obj = oid) (device_objects d)")
        (auto simp: payload_size split: if_splits)
  next
    case False
    note eq = stream_request [OF m(2) False, of oid d, folded m(1)]
    show ?thesis
    proof (cases rule: stream_response_cases [OF stream_objects_props(1) [of code d] stream_objects_props(3)
          level_cases [of d] False, of oid])
      case 1
      then show ?thesis using eq by (intro that(1)) auto
    next
      case (2 r)
      then show ?thesis using eq by (intro that(2)) auto
    qed
  qed
next
  case False
  then have "build_device_id_response mei d = Ok (device_id_exception IllegalDataValue)"
    by (auto simp: build_device_id_response_def get_def length_Suc_conv numeral_2_eq_2
        split: list.splits option.splits)
  then show ?thesis by (intro that(1)) auto
qed

end
