(* ===== verification/Bit_Table.thy ===== *)
theory Bit_Table
  imports Store_Helpers
begin

text \<open>
  The packed bit table of the in-memory store (\<open>server/src/store/bits.rs\<close>).  A table of \<open>len\<close> bits
  is kept in \<open>len.div_ceil(8)\<close> bytes and read and written up to eight bits at a time, across byte
  boundaries.  Under the invariant \<open>BitTable_wf\<close> every operation is shown to implement the
  corresponding operation on the plain list of bits (\<open>BitTable_bits\<close>), without panicking.
\<close>

section \<open>store/bits.rs\<close>

record BitTable =
  len :: nat
  bytes :: bytes

definition BitTable_new :: "nat \<Rightarrow> BitTable" where
  "BitTable_new n = \<lparr>BitTable.len = n, BitTable.bytes = replicate (div_ceil n 8) 0\<rparr>"

definition BitTable_len :: "BitTable \<Rightarrow> nat" where
  "BitTable_len self = BitTable.len self"

definition low_bit_mask :: "nat \<Rightarrow> u8" where
  "low_bit_mask bit_count = (if bit_count \<ge> 8 then 0xFF else push_bit bit_count 1 - 1)"

definition bits_check_range :: "u16 \<Rightarrow> nat \<Rightarrow> nat \<Rightarrow> (ExceptionCode, unit) res" where
  "bits_check_range addr qty limit =
     and_then (ok_or (usize_checked_add (unat addr) qty) IllegalDataAddress) (\<lambda>stop.
     if stop > limit then Err IllegalDataAddress else Ok ())"

definition BitTable_set :: "BitTable \<Rightarrow> nat \<Rightarrow> bool \<Rightarrow> ('e, BitTable) res" where
  "BitTable_set self index v =
     (let mask = push_bit (index mod 8) 1 in
      and_then (at (BitTable.bytes self) (index div 8)) (\<lambda>byte.
      and_then (put_at (BitTable.bytes self) (index div 8)
                 (if v then byte OR mask else byte AND NOT mask)) (\<lambda>bs.
      Ok (self\<lparr>BitTable.bytes := bs\<rparr>))))"

definition read_byte_bits :: "BitTable \<Rightarrow> nat \<Rightarrow> nat \<Rightarrow> (ExceptionCode, u8) res" where
  "read_byte_bits self start bit_count =
     (if bit_count < 1 \<or> bit_count > 8 then Panic
      else let byte_index = start div 8; shift = start mod 8 in
      and_then (at (BitTable.bytes self) byte_index) (\<lambda>b.
      let byte = drop_bit shift b in
      and_then (if shift \<noteq> 0 \<and> byte_index + 1 < length (BitTable.bytes self)
                then and_then (at (BitTable.bytes self) (byte_index + 1)) (\<lambda>b2.
                       Ok (byte OR push_bit (8 - shift) b2))
                else Ok byte) (\<lambda>byte.
      Ok (byte AND low_bit_mask bit_count))))"

definition write_byte_bits :: "BitTable \<Rightarrow> nat \<Rightarrow> u8 \<Rightarrow> nat \<Rightarrow> (ExceptionCode, BitTable) res" where
  "write_byte_bits self start v bit_count =
     (if bit_count < 1 \<or> bit_count > 8 then Panic
      else let byte_index = start div 8; shift = start mod 8; mask = low_bit_mask bit_count;
               v = v AND mask in
      if shift + bit_count \<le> 8
      then let shifted_mask = push_bit shift mask in
           and_then (at (BitTable.bytes self) byte_index) (\<lambda>b.
           and_then (put_at (BitTable.bytes self) byte_index
                      ((b AND NOT shifted_mask) OR push_bit shift v)) (\<lambda>bs.
           Ok (self\<lparr>BitTable.bytes := bs\<rparr>)))
      else let low_bits = 8 - shift; low_mask = push_bit shift (low_bit_mask low_bits) in
           and_then (at (BitTable.bytes self) byte_index) (\<lambda>b.
           and_then (put_at (BitTable.bytes self) byte_index
                      ((b AND NOT low_mask) OR (push_bit shift v AND low_mask))) (\<lambda>bs.
           let high_bits = bit_count - low_bits; high_mask = low_bit_mask high_bits in
           and_then (at bs (byte_index + 1)) (\<lambda>b2.
           and_then (put_at bs (byte_index + 1)
                      ((b2 AND NOT high_mask) OR (drop_bit low_bits v AND high_mask))) (\<lambda>bs.
           Ok (self\<lparr>BitTable.bytes := bs\<rparr>))))))"

definition read_bits :: "BitTable \<Rightarrow> u16 \<Rightarrow> u16 \<Rightarrow> bool list \<Rightarrow> (ExceptionCode, nat \<times> bool list) res" where
  "read_bits self addr quantity out =
     (let start = unat addr; qty = unat quantity in
      and_then (bits_check_range addr qty (BitTable.len self)) (\<lambda>_.
      if length out < qty then Err IllegalDataValue
      else and_then (for_fold (\<lambda>byte_index out.
             let out_start = byte_index * 8 in
             and_then (usize_sub qty out_start) (\<lambda>d.
             let bit_count = min d 8 in
             and_then (read_byte_bits self (start + out_start) bit_count) (\<lambda>byte.
             unpack_byte byte out_start bit_count out))) [0..<div_ceil qty 8] out) (\<lambda>out.
      Ok (qty, out))))"

definition write_bits :: "BitTable \<Rightarrow> u16 \<Rightarrow> bool list \<Rightarrow> (ExceptionCode, BitTable) res" where
  "write_bits self addr values =
     (let start = unat addr in
      and_then (bits_check_range addr (length values) (BitTable.len self)) (\<lambda>_.
      for_fold (\<lambda>(byte_index, chunk) self.
        write_byte_bits self (start + byte_index * 8) (pack_byte chunk) (length chunk))
        (enumerate 0 (chunks 8 values)) self))"

definition read_packed :: "BitTable \<Rightarrow> u16 \<Rightarrow> u16 \<Rightarrow> bytes \<Rightarrow> (ExceptionCode, nat \<times> bytes) res" where
  "read_packed self addr quantity out =
     (let start = unat addr; qty = unat quantity in
      and_then (bits_check_range addr qty (BitTable.len self)) (\<lambda>_.
      let byte_count = div_ceil qty 8 in
      if length out < byte_count then Err IllegalDataValue
      else and_then (for_fold (\<lambda>byte_index out.
             let source_bit = start + byte_index * 8 in
             and_then (usize_sub qty (byte_index * 8)) (\<lambda>d.
             let bit_count = min d 8 in
             and_then (read_byte_bits self source_bit bit_count) (\<lambda>byte.
             put_at out byte_index byte))) [0..<byte_count] out) (\<lambda>out.
      Ok (qty, out))))"

definition write_packed :: "BitTable \<Rightarrow> u16 \<Rightarrow> nat \<Rightarrow> bytes \<Rightarrow> (ExceptionCode, BitTable) res" where
  "write_packed self addr qty packed_values =
     (let start = unat addr in
      and_then (bits_check_range addr qty (BitTable.len self)) (\<lambda>_.
      for_fold (\<lambda>(byte_index, byte) self.
        let offset = byte_index * 8 in
        and_then (usize_sub qty offset) (\<lambda>d.
        let bit_count = min d 8 in
        write_byte_bits self (start + offset) byte bit_count))
        (enumerate 0 packed_values) self))"

section \<open>The bits of a table\<close>

definition BitTable_wf :: "BitTable \<Rightarrow> bool" where
  "BitTable_wf t \<longleftrightarrow> length (BitTable.bytes t) = div_ceil (BitTable.len t) 8"

definition table_bit :: "BitTable \<Rightarrow> nat \<Rightarrow> bool" where
  "table_bit t i = bit (BitTable.bytes t ! (i div 8)) (i mod 8)"

definition BitTable_bits :: "BitTable \<Rightarrow> bool list" where
  "BitTable_bits t = map (table_bit t) [0..<BitTable.len t]"

lemma BitTable_bits_length [simp]: "length (BitTable_bits t) = BitTable.len t"
  by (simp add: BitTable_bits_def)

lemma BitTable_bits_nth [simp]: "i < BitTable.len t \<Longrightarrow> BitTable_bits t ! i = table_bit t i"
  by (simp add: BitTable_bits_def)

lemma low_bit_mask_bit: "bit (low_bit_mask c) i \<longleftrightarrow> i < c \<and> i < 8"
proof (cases "c \<ge> 8")
  case True
  then have "low_bit_mask c = mask 8" by (simp add: low_bit_mask_def mask_eq_exp_minus_1)
  then show ?thesis using True by (auto simp: bit_mask_iff)
next
  case False
  then have "low_bit_mask c = mask c" by (simp add: low_bit_mask_def mask_eq_exp_minus_1 push_bit_eq_mult)
  then show ?thesis using False by (auto simp: bit_mask_iff)
qed

lemma wf_index: "BitTable_wf t \<Longrightarrow> i < BitTable.len t \<Longrightarrow> i div 8 < length (BitTable.bytes t)"
  by (simp add: BitTable_wf_def div_ceil_8_index)

lemma bits_check_range_u16:
  "q < 2 ^ 32 \<Longrightarrow>
     bits_check_range addr q m = (if unat addr + q \<le> m then Ok () else Err IllegalDataAddress)"
proof -
  assume "q < 2 ^ 32"
  then have "unat addr + q < 65536 + 2 ^ 32" by (intro add_strict_mono) simp_all
  then have "unat addr + q < 2 ^ 64" by simp
  then show ?thesis by (simp add: bits_check_range_def usize_checked_add_def)
qed

lemma bits_check_range_unat [simp]:
  "bits_check_range addr (unat (q :: u16)) m = (if unat addr + unat q \<le> m then Ok () else Err IllegalDataAddress)"
  by (simp add: bits_check_range_def)

lemma bit_position: "s + k < 8 \<Longrightarrow> (8 * i + s + k) div 8 = i \<and> (8 * i + s + k) mod 8 = s + k"
  "8 \<le> s + k \<Longrightarrow> s < 8 \<Longrightarrow> k < 8 \<Longrightarrow> (8 * i + s + k) div 8 = Suc i \<and> (8 * i + s + k) mod 8 = s + k - 8"
  for i s k :: nat
proof -
  show "s + k < 8 \<Longrightarrow> (8 * i + s + k) div 8 = i \<and> (8 * i + s + k) mod 8 = s + k"
    by (simp add: add.assoc)
  assume "8 \<le> s + k" "s < 8" "k < 8"
  then have r: "s + k - 8 < 8" "8 * i + s + k = 8 * Suc i + (s + k - 8)" by simp_all
  show "(8 * i + s + k) div 8 = Suc i \<and> (8 * i + s + k) mod 8 = s + k - 8"
    unfolding r(2) using r(1) by (simp del: mult_Suc_right)
qed

lemma read_byte_bits_Ok:
  assumes "BitTable_wf t" "start + c \<le> BitTable.len t" "1 \<le> c" "c \<le> 8"
  obtains b where "read_byte_bits t start c = Ok b"
    "\<And>k. bit b k \<longleftrightarrow> k < c \<and> table_bit t (start + k)"
proof -
  let ?bs = "BitTable.bytes t"
  obtain i s where st: "start = 8 * i + s" "s < 8" "start div 8 = i" "start mod 8 = s"
    by (metis mult_div_mod_eq mod_less_divisor zero_less_numeral)
  have i: "i < length ?bs" using wf_index [OF assms(1), of start] assms st by simp
  define b where "b = (drop_bit s (?bs ! i) OR
      (if s \<noteq> 0 \<and> i + 1 < length ?bs then push_bit (8 - s) (?bs ! (i + 1)) else 0)) AND low_bit_mask c"
  have "bit b k \<longleftrightarrow> k < c \<and> table_bit t (start + k)" for k
  proof (cases "k < c")
    case True
    then have k: "k < 8" "start + k < BitTable.len t" using assms by simp_all
    show ?thesis
    proof (cases "s + k < 8")
      case True
      then show ?thesis
        using bit_position(1) [of s k i] k \<open>k < c\<close> st
        by (auto simp: b_def table_bit_def bit_simps low_bit_mask_bit add.commute)
    next
      case False
      then have p: "(start + k) div 8 = Suc i" "(start + k) mod 8 = s + k - 8"
        using bit_position(2) [of s k i] k st by simp_all
      then have "Suc i < length ?bs" using wf_index [OF assms(1) k(2)] by simp
      then show ?thesis
        using False p k \<open>k < c\<close> st
        by (auto simp: b_def table_bit_def bit_simps low_bit_mask_bit add.commute dest: bit_imp_le_length)
    qed
  qed (simp add: b_def bit_simps low_bit_mask_bit)
  moreover have "read_byte_bits t start c = Ok b"
    using i assms st by (simp add: read_byte_bits_def Let_def b_def)
  ultimately show ?thesis by (rule that [rotated])
qed

text \<open>The bytes \<open>write_byte_bits\<close> stores, bit by bit.\<close>

lemma insert_bits_within:
  "m < 8 \<Longrightarrow> bit ((b AND NOT (push_bit s (low_bit_mask c))) OR push_bit s (v AND low_bit_mask c)) m
     \<longleftrightarrow> (if s \<le> m \<and> m < s + c then bit v (m - s) else bit (b :: u8) m)"
  by (auto simp: bit_simps low_bit_mask_bit)

lemma insert_bits_low:
  "m < 8 \<Longrightarrow> s < 8 \<Longrightarrow> 8 - s \<le> c \<Longrightarrow>
     bit ((b AND NOT (push_bit s (low_bit_mask (8 - s))))
        OR (push_bit s (v AND low_bit_mask c) AND push_bit s (low_bit_mask (8 - s)))) m
     \<longleftrightarrow> (if s \<le> m then bit v (m - s) else bit (b :: u8) m)"
  by (auto simp: bit_simps low_bit_mask_bit)

lemma insert_bits_high:
  "m < 8 \<Longrightarrow> l < c \<Longrightarrow> c \<le> 8 \<Longrightarrow>
     bit ((b AND NOT (low_bit_mask (c - l))) OR (drop_bit l (v AND low_bit_mask c) AND low_bit_mask (c - l))) m
     \<longleftrightarrow> (if m < c - l then bit v (l + m) else bit (b :: u8) m)"
  by (auto simp: bit_simps low_bit_mask_bit)

lemma write_byte_bits_within:
  assumes "BitTable_wf t" "start + c \<le> BitTable.len t" "1 \<le> c" "start mod 8 + c \<le> 8"
  obtains t' where "write_byte_bits t start v c = Ok t'" "BitTable.len t' = BitTable.len t" "BitTable_wf t'"
    "\<And>i. i < BitTable.len t \<Longrightarrow>
       table_bit t' i \<longleftrightarrow> (if start \<le> i \<and> i < start + c then bit v (i - start) else table_bit t i)"
proof -
  let ?bs = "BitTable.bytes t"
  obtain j s where st: "start = 8 * j + s" "s < 8" "start div 8 = j" "start mod 8 = s"
    by (metis mult_div_mod_eq mod_less_divisor zero_less_numeral)
  have j: "j < length ?bs" using wf_index [OF assms(1), of start] assms st by simp
  let ?B = "(?bs ! j AND NOT (push_bit s (low_bit_mask c))) OR push_bit s (v AND low_bit_mask c)"
  let ?t = "t\<lparr>BitTable.bytes := ?bs[j := ?B]\<rparr>"
  show ?thesis
  proof (rule that [of ?t])
    show "write_byte_bits t start v c = Ok ?t"
      using j assms(3,4) st by (simp add: write_byte_bits_def Let_def)
    fix i assume "i < BitTable.len t"
    have i: "i = 8 * (i div 8) + i mod 8" "i mod 8 < 8" by simp_all
    show "table_bit ?t i \<longleftrightarrow> (if start \<le> i \<and> i < start + c then bit v (i - start) else table_bit t i)"
    proof (cases "i div 8 = j")
      case True
      then have "i = 8 * j + i mod 8" using i(1) by simp
      then have "start \<le> i \<longleftrightarrow> s \<le> i mod 8" "i < start + c \<longleftrightarrow> i mod 8 < s + c" "i - start = i mod 8 - s"
        using st(1) by linarith+
      then show ?thesis
        using True j insert_bits_within [of "i mod 8" "?bs ! j" s c v]
        by (simp add: table_bit_def)
    next
      case False
      then have "\<not> (start \<le> i \<and> i < start + c)" using i st assms(4) by linarith
      then show ?thesis using False by (auto simp: table_bit_def)
    qed
  qed (use assms(1) in \<open>simp_all add: BitTable_wf_def\<close>)
qed

lemma write_byte_bits_across:
  assumes "BitTable_wf t" "start + c \<le> BitTable.len t" "c \<le> 8" "8 < start mod 8 + c"
  obtains t' where "write_byte_bits t start v c = Ok t'" "BitTable.len t' = BitTable.len t" "BitTable_wf t'"
    "\<And>i. i < BitTable.len t \<Longrightarrow>
       table_bit t' i \<longleftrightarrow> (if start \<le> i \<and> i < start + c then bit v (i - start) else table_bit t i)"
proof -
  let ?bs = "BitTable.bytes t"
  obtain j s where st: "start = 8 * j + s" "s < 8" "start div 8 = j" "start mod 8 = s"
    by (metis mult_div_mod_eq mod_less_divisor zero_less_numeral)
  have "Suc j \<le> (start + c - 1) div 8" using st assms(4) by linarith
  then have j: "Suc j < length ?bs"
    using wf_index [OF assms(1), of "start + c - 1"] assms(2,4) st by linarith
  let ?l = "8 - s" and ?v = "v AND low_bit_mask c"
  let ?B0 = "(?bs ! j AND NOT (push_bit s (low_bit_mask ?l))) OR (push_bit s ?v AND push_bit s (low_bit_mask ?l))"
  let ?B1 = "(?bs ! Suc j AND NOT (low_bit_mask (c - ?l))) OR (drop_bit ?l ?v AND low_bit_mask (c - ?l))"
  let ?t = "t\<lparr>BitTable.bytes := ?bs[j := ?B0, Suc j := ?B1]\<rparr>"
  have l: "?l < c" "?l \<le> c" using st assms(4) by simp_all
  show ?thesis
  proof (rule that [of ?t])
    show "write_byte_bits t start v c = Ok ?t"
      using j l assms(3,4) st by (simp add: write_byte_bits_def Let_def)
    fix i assume "i < BitTable.len t"
    have i: "i = 8 * (i div 8) + i mod 8" "i mod 8 < 8" by simp_all
    consider "i div 8 = j" | "i div 8 = Suc j" | "i div 8 \<noteq> j" "i div 8 \<noteq> Suc j" by blast
    then show "table_bit ?t i \<longleftrightarrow> (if start \<le> i \<and> i < start + c then bit v (i - start) else table_bit t i)"
    proof cases
      case 1
      then have "start \<le> i \<longleftrightarrow> s \<le> i mod 8" "i < start + c" "i - start = i mod 8 - s"
        using i st(1) l by linarith+
      then show ?thesis
        using 1 j insert_bits_low [OF i(2) st(2) l(2), of "?bs ! j" v] by (simp add: table_bit_def)
    next
      case 2
      then have "start \<le> i" "i < start + c \<longleftrightarrow> i mod 8 < c - ?l" "i - start = ?l + i mod 8"
        using i st(1,2) l by linarith+
      then show ?thesis
        using 2 j insert_bits_high [OF i(2) l(1) assms(3), of "?bs ! Suc j" v] by (simp add: table_bit_def)
    next
      case 3
      then have "\<not> (start \<le> i \<and> i < start + c)" using i st assms(3) by linarith
      then show ?thesis using 3 by (auto simp: table_bit_def)
    qed
  qed (use assms(1) in \<open>simp_all add: BitTable_wf_def\<close>)
qed

lemma write_byte_bits_Ok:
  assumes "BitTable_wf t" "start + c \<le> BitTable.len t" "1 \<le> c" "c \<le> 8"
  obtains t' where "write_byte_bits t start v c = Ok t'" "BitTable.len t' = BitTable.len t" "BitTable_wf t'"
    "BitTable_bits t' = overwrite (BitTable_bits t) start (map (bit v) [0..<c])"
proof -
  obtain t' where t: "write_byte_bits t start v c = Ok t'" "BitTable.len t' = BitTable.len t" "BitTable_wf t'"
    "\<And>i. i < BitTable.len t \<Longrightarrow>
       table_bit t' i \<longleftrightarrow> (if start \<le> i \<and> i < start + c then bit v (i - start) else table_bit t i)"
    using write_byte_bits_within [OF assms(1,2,3)] write_byte_bits_across [OF assms(1,2,4)]
    by (metis not_le)
  have "BitTable_bits t' = overwrite (BitTable_bits t) start (map (bit v) [0..<c])"
    by (rule nth_equalityI) (use t(2,4) assms(2) in \<open>auto simp: overwrite_nth\<close>)
  with t show ?thesis by (intro that)
qed

section \<open>The operations on the list of bits\<close>

lemma BitTable_new_wf: "BitTable_wf (BitTable_new n)" "BitTable.len (BitTable_new n) = n"
  by (simp_all add: BitTable_new_def BitTable_wf_def)

lemma BitTable_new_bits: "BitTable_bits (BitTable_new n) = replicate n False"
  by (rule nth_equalityI)
    (auto simp: BitTable_new_def table_bit_def div_ceil_8_index)

lemma BitTable_set_Ok:
  assumes "BitTable_wf t" "i < BitTable.len t"
  shows "\<exists>t'. BitTable_set t i v = Ok t' \<and> BitTable.len t' = BitTable.len t \<and> BitTable_wf t'
    \<and> BitTable_bits t' = (BitTable_bits t)[i := v]"
proof -
  let ?bs = "BitTable.bytes t" and ?m = "push_bit (i mod 8) 1 :: u8"
  let ?B = "if v then ?bs ! (i div 8) OR ?m else ?bs ! (i div 8) AND NOT ?m"
  let ?t = "t\<lparr>BitTable.bytes := ?bs[i div 8 := ?B]\<rparr>"
  have i: "i div 8 < length ?bs" by (rule wf_index [OF assms])
  have B: "bit ?B k \<longleftrightarrow> (if k = i mod 8 then v else bit (?bs ! (i div 8)) k)" if "k < 8" for k
    using that by (auto simp: bit_simps)
  have "table_bit ?t k \<longleftrightarrow> (if k = i then v else table_bit t k)" for k
  proof (cases "k div 8 = i div 8")
    case True
    then have "k mod 8 = i mod 8 \<longleftrightarrow> k = i" by (metis mult_div_mod_eq)
    then show ?thesis using True i B [of "k mod 8"] by (simp add: table_bit_def)
  next
    case False
    then show ?thesis by (auto simp: table_bit_def)
  qed
  then have "BitTable_bits ?t = (BitTable_bits t)[i := v]"
    by (intro nth_equalityI) (auto simp: nth_list_update)
  moreover have "BitTable_set t i v = Ok ?t" using i by (simp add: BitTable_set_def Let_def)
  ultimately show ?thesis using assms(1) by (auto simp: BitTable_wf_def)
qed

text \<open>Reading up to eight bits gives the packed byte of that chunk of the range.\<close>

lemma read_chunk:
  assumes "BitTable_wf t" "a + q \<le> BitTable.len t" "8 * i < q"
  shows "read_byte_bits t (a + i * 8) (min (q - i * 8) 8)
    = Ok (pack_byte (take 8 (drop (8 * i) (take q (drop a (BitTable_bits t))))))"
proof -
  let ?c = "min (q - i * 8) 8"
  have c: "a + i * 8 + ?c \<le> BitTable.len t" "1 \<le> ?c" "?c \<le> 8" using assms(2,3) by auto
  obtain b where b: "read_byte_bits t (a + i * 8) ?c = Ok b"
    "\<And>k. bit b k \<longleftrightarrow> k < ?c \<and> table_bit t (a + i * 8 + k)"
    using read_byte_bits_Ok [OF assms(1) c] by blast
  have "b = pack_byte (take 8 (drop (8 * i) (take q (drop a (BitTable_bits t)))))"
    by (rule bit_word_eqI) (use assms(2,3) in \<open>auto simp: b(2) pack_byte_bit algebra_simps\<close>)
  then show ?thesis using b(1) by simp
qed

lemma read_packed_Ok:
  assumes "BitTable_wf t" "unat addr + unat q \<le> BitTable.len t" "div_ceil (unat q) 8 \<le> length out"
  shows "read_packed t addr q out =
    Ok (unat q, pack_bits (take (unat q) (drop (unat addr) (BitTable_bits t))) @ drop (div_ceil (unat q) 8) out)"
proof -
  let ?bs = "take (unat q) (drop (unat addr) (BitTable_bits t))" and ?n = "div_ceil (unat q) 8"
  have len: "length ?bs = unat q" using assms(2) by simp
  let ?body = "\<lambda>i acc. and_then (usize_sub (unat q) (i * 8)) (\<lambda>d.
      and_then (read_byte_bits t (unat addr + i * 8) (min d 8)) (put_at acc i))"
  have "?body i acc = put_at acc (0 + i) (pack_byte (take 8 (drop (8 * i) ?bs)))" if "i \<in> set [0..<?n]" for i acc
  proof -
    have "8 * i < unat q" using that by (simp add: div_ceil_8_index)
    then show ?thesis using read_chunk [OF assms(1,2)] by simp
  qed
  then have "for_fold ?body [0..<?n] out
      = for_fold (\<lambda>i acc. put_at acc (0 + i) (pack_byte (take 8 (drop (8 * i) ?bs)))) [0..<?n] out"
    by (intro for_fold_cong) blast
  also have "\<dots> = Ok (overwrite out 0 (pack_bits ?bs))"
    unfolding pack_bits_def len by (rule for_fold_put) (use assms(3) in simp)
  finally show ?thesis
    using assms len by (simp add: read_packed_def Let_def overwrite_0)
qed

lemma read_bits_Ok:
  assumes "BitTable_wf t" "unat addr + unat q \<le> BitTable.len t" "unat q \<le> length out"
  shows "read_bits t addr q out =
    Ok (unat q, take (unat q) (drop (unat addr) (BitTable_bits t)) @ drop (unat q) out)"
proof -
  let ?n = "div_ceil (unat q) 8"
  define bs where bs: "bs = take (unat q) (drop (unat addr) (BitTable_bits t))"
  have len: "length bs = unat q" using assms(2) by (simp add: bs)
  let ?body = "\<lambda>i acc. and_then (usize_sub (unat q) (i * 8)) (\<lambda>d.
      and_then (read_byte_bits t (unat addr + i * 8) (min d 8)) (\<lambda>byte.
      unpack_byte byte (i * 8) (min d 8) acc))"
  have "\<exists>s'. for_fold ?body [0..<?n] out = Ok s' \<and> s' = overwrite out 0 (take (8 * length [0..<?n]) bs)"
  proof (rule for_fold_invariant)
    fix i s
    assume "i < length [0..<?n]" and s: "s = overwrite out 0 (take (8 * i) bs)"
    then have i: "i < ?n" "8 * i < unat q" by (simp_all add: div_ceil_8_index)
    let ?ch = "take 8 (drop (8 * i) bs)" and ?c = "min (unat q - i * 8) 8"
    have l: "length (take (8 * i) bs) = i * 8" "length ?ch = ?c" using i len by auto
    have "map (bit (pack_byte ?ch)) [0..<?c] = ?ch"
      by (rule nth_equalityI) (use l in \<open>auto simp: pack_byte_bit\<close>)
    moreover have "i * 8 + ?c \<le> length s" using i assms(3) l by (simp add: s)
    ultimately have "unpack_byte (pack_byte ?ch) (i * 8) ?c s
        = (Ok (overwrite s (i * 8) ?ch) :: (ExceptionCode, bool list) res)"
      by (simp add: unpack_byte_overwrite)
    then have "?body ([0..<?n] ! i) s = Ok (overwrite s (i * 8) ?ch)"
      using read_chunk [OF assms(1,2) i(2)] i by (simp add: bs)
    moreover have "take (8 * Suc i) bs = take (8 * i) bs @ ?ch" using take_add [of "8 * i" 8 bs] by (simp add: add.commute)
    then have "overwrite s (i * 8) ?ch = overwrite out 0 (take (8 * Suc i) bs)"
      using overwrite_append [of 0 "take (8 * i) bs" ?ch out] l i assms(3) by (simp add: s)
    ultimately show "\<exists>s'. ?body ([0..<?n] ! i) s = Ok s' \<and> s' = overwrite out 0 (take (8 * Suc i) bs)"
      by blast
  qed simp
  moreover have "unat q \<le> 8 * ?n" using div_ceil_8_ge [of "unat q"] by simp
  ultimately have "for_fold ?body [0..<?n] out = Ok (bs @ drop (unat q) out)"
    using len assms(3) by (simp add: overwrite_0)
  then show ?thesis
    using assms by (simp add: read_bits_def Let_def bs)
qed

lemma read_Err:
  "BitTable.len t < unat addr + unat q \<Longrightarrow> read_bits t addr q out = Err IllegalDataAddress"
  "BitTable.len t < unat addr + unat q \<Longrightarrow> read_packed t addr q packed = Err IllegalDataAddress"
  "unat addr + unat q \<le> BitTable.len t \<Longrightarrow> length out < unat q \<Longrightarrow> read_bits t addr q out = Err IllegalDataValue"
  "unat addr + unat q \<le> BitTable.len t \<Longrightarrow> length packed < div_ceil (unat q) 8
     \<Longrightarrow> read_packed t addr q packed = Err IllegalDataValue"
  by (simp_all add: read_bits_def read_packed_def Let_def)

text \<open>A write loop: iteration \<open>i\<close> stores the next chunk of at most eight bits of \<open>vs\<close>.\<close>

lemma write_chunks:
  assumes wf: "BitTable_wf t" and range: "a + length vs \<le> BitTable.len t"
    and n: "length xs = div_ceil (length vs) 8"
    and body: "\<And>i s. i < length xs \<Longrightarrow> \<exists>v. f (xs ! i) s
        = write_byte_bits s (a + 8 * i) v (min (length vs - 8 * i) 8)
        \<and> (\<forall>k < min (length vs - 8 * i) 8. bit v k = vs ! (8 * i + k))"
  shows "\<exists>t'. for_fold f xs t = Ok t' \<and> BitTable.len t' = BitTable.len t \<and> BitTable_wf t'
    \<and> BitTable_bits t' = overwrite (BitTable_bits t) a vs"
proof -
  let ?P = "\<lambda>i s. BitTable.len s = BitTable.len t \<and> BitTable_wf s
      \<and> BitTable_bits s = overwrite (BitTable_bits t) a (take (8 * i) vs)"
  have "\<exists>t'. for_fold f xs t = Ok t' \<and> ?P (length xs) t'"
  proof (rule for_fold_invariant)
    fix i s
    assume i': "i < length xs" and s: "?P i s"
    then have i: "8 * i < length vs" using n by (simp add: div_ceil_8_index)
    let ?c = "min (length vs - 8 * i) 8"
    obtain v where v: "f (xs ! i) s = write_byte_bits s (a + 8 * i) v ?c"
      "\<forall>k < ?c. bit v k = vs ! (8 * i + k)" using body [OF i', of s] by blast
    have m: "map (bit v) [0..<?c] = take 8 (drop (8 * i) vs)"
      by (rule nth_equalityI) (use v(2) i in auto)
    have "BitTable_wf s" "a + 8 * i + ?c \<le> BitTable.len s" "1 \<le> ?c" "?c \<le> 8"
      using s i range by auto
    then obtain s' where s': "write_byte_bits s (a + 8 * i) v ?c = Ok s'" "BitTable.len s' = BitTable.len s"
      "BitTable_wf s'" "BitTable_bits s' = overwrite (BitTable_bits s) (a + 8 * i) (map (bit v) [0..<?c])"
      by (rule write_byte_bits_Ok)
    have "length (take (8 * i) vs) = 8 * i" using i by simp
    then have "overwrite (BitTable_bits s) (a + 8 * i) (take 8 (drop (8 * i) vs))
        = overwrite (BitTable_bits t) a (take (8 * Suc i) vs)"
      using overwrite_append [of a "take (8 * i) vs" "take 8 (drop (8 * i) vs)" "BitTable_bits t"]
        s i range take_add [of "8 * i" 8 vs] by (simp add: add.commute)
    then show "\<exists>s'. f (xs ! i) s = Ok s' \<and> ?P (Suc i) s'"
      using v(1) s s' m by auto
  qed (use wf in simp)
  moreover have "take (8 * length xs) vs = vs" using n div_ceil_8_ge [of "length vs"] by simp
  ultimately show ?thesis by simp
qed

lemma chunks_8_length: "length (chunks 8 xs) = div_ceil (length xs) 8"
proof (induction "8 :: nat" xs rule: chunks.induct)
  case (1 xs)
  show ?case
  proof (cases "xs = []")
    case False
    then have "length (chunks 8 xs) = Suc (div_ceil (length xs - 8) 8)"
      using 1 by (subst chunks.simps) simp
    also have "\<dots> = div_ceil (length xs) 8"
    proof (rule antisym)
      show "Suc (div_ceil (length xs - 8) 8) \<le> div_ceil (length xs) 8"
        using False div_ceil_8_le [of "length xs - 8"] div_ceil_8_ge [of "length xs"]
          div_ceil_8_index [of 0 "length xs"] by (cases "length xs \<le> 8") (auto simp: div_ceil_def)
      show "div_ceil (length xs) 8 \<le> Suc (div_ceil (length xs - 8) 8)"
        using div_ceil_8_le [of "length xs"] div_ceil_8_ge [of "length xs - 8"] by linarith
    qed
    finally show ?thesis .
  qed (subst chunks.simps, simp add: div_ceil_def)
qed

lemma chunks_8_nth: "8 * i < length xs \<Longrightarrow> chunks 8 xs ! i = take 8 (drop (8 * i) xs)"
proof (induction i arbitrary: xs)
  case 0
  then show ?case by (subst chunks.simps) auto
next
  case (Suc i)
  from Suc.prems have "8 * i < length (drop 8 xs)" by simp
  from Suc.IH [OF this] Suc.prems show ?case
    by (subst chunks.simps) (auto simp: add.commute)
qed

lemma write_bits_Ok:
  assumes "BitTable_wf t" "unat addr + length vs \<le> BitTable.len t" "length vs < 2 ^ 32"
  shows "\<exists>t'. write_bits t addr vs = Ok t' \<and> BitTable.len t' = BitTable.len t \<and> BitTable_wf t'
    \<and> BitTable_bits t' = overwrite (BitTable_bits t) (unat addr) vs"
proof -
  let ?f = "\<lambda>(i, chunk) s. write_byte_bits s (unat addr + i * 8) (pack_byte chunk) (length chunk)"
  have "\<exists>v. ?f (enumerate 0 (chunks 8 vs) ! i) s
        = write_byte_bits s (unat addr + 8 * i) v (min (length vs - 8 * i) 8)
        \<and> (\<forall>k < min (length vs - 8 * i) 8. bit v k = vs ! (8 * i + k))"
    if "i < length (enumerate 0 (chunks 8 vs))" for i s
  proof -
    have i: "8 * i < length vs" "i < length (chunks 8 vs)"
      using that by (simp_all add: chunks_8_length div_ceil_8_index)
    then show ?thesis
      by (intro exI [of _ "pack_byte (take 8 (drop (8 * i) vs))"])
        (auto simp: nth_enumerate_eq chunks_8_nth mult.commute min.commute pack_byte_bit)
  qed
  then have "\<exists>t'. for_fold ?f (enumerate 0 (chunks 8 vs)) t = Ok t' \<and> BitTable.len t' = BitTable.len t
      \<and> BitTable_wf t' \<and> BitTable_bits t' = overwrite (BitTable_bits t) (unat addr) vs"
    using assms by (intro write_chunks) (simp_all add: chunks_8_length)
  then show ?thesis
    using assms by (simp add: write_bits_def Let_def bits_check_range_u16)
qed

lemma write_packed_Ok:
  assumes "BitTable_wf t" "unat addr + q \<le> BitTable.len t" "length packed = div_ceil q 8" "q < 2 ^ 32"
  shows "\<exists>t'. write_packed t addr q packed = Ok t' \<and> BitTable.len t' = BitTable.len t \<and> BitTable_wf t'
    \<and> BitTable_bits t' = overwrite (BitTable_bits t) (unat addr) (take q (unpack_bits packed))"
proof -
  let ?f = "\<lambda>(i, byte) s. and_then (usize_sub q (i * 8)) (\<lambda>d.
      write_byte_bits s (unat addr + i * 8) byte (min d 8))" and ?vs = "take q (unpack_bits packed)"
  have len: "length ?vs = q" using assms(3) div_ceil_8_ge [of q] by simp
  have "\<exists>v. ?f (enumerate 0 packed ! i) s
        = write_byte_bits s (unat addr + 8 * i) v (min (length ?vs - 8 * i) 8)
        \<and> (\<forall>k < min (length ?vs - 8 * i) 8. bit v k = ?vs ! (8 * i + k))"
    if "i < length (enumerate 0 packed)" for i s
  proof -
    have i: "8 * i < q" "i < length packed" using that assms(3) by (simp_all add: div_ceil_8_index)
    then show ?thesis
      unfolding len
      by (intro exI [of _ "packed ! i"]) (auto simp: nth_enumerate_eq unpack_bits_nth mult.commute)
  qed
  then have "\<exists>t'. for_fold ?f (enumerate 0 packed) t = Ok t' \<and> BitTable.len t' = BitTable.len t
      \<and> BitTable_wf t' \<and> BitTable_bits t' = overwrite (BitTable_bits t) (unat addr) ?vs"
    using assms len by (intro write_chunks) simp_all
  then show ?thesis
    using assms by (simp add: write_packed_def Let_def bits_check_range_u16)
qed

end
