(* ===== verification/Memory_Store.thy ===== *)
theory Memory_Store
  imports Bit_Table Data_Store
begin

text \<open>
  The in-memory data store (\<open>server/src/store/memory.rs\<close>) and the file-record range check it uses
  (\<open>server/src/file_record.rs\<close>).  A lock is held for the whole of every operation, so an
  operation is one step on the state; \<open>RwLock<T>\<close> is its content and \<open>HashMap\<close> a partial map.
  The store keeps the invariant \<open>InMemoryStore_wf\<close>, never panics, leaves its state alone when it
  reports an error, and its overridden methods agree with the provided ones of the trait.
\<close>

section \<open>file\_record.rs\<close>

definition server_MIN_FILE_NUMBER :: u16 where [simp]: "server_MIN_FILE_NUMBER = 1"
definition server_MAX_RECORD_NUMBER :: u16 where [simp]: "server_MAX_RECORD_NUMBER = 0x270F"
definition server_RECORD_COUNT :: nat where [simp]: "server_RECORD_COUNT = 0x2710"

definition file_record_validate_range :: "u16 \<Rightarrow> u16 \<Rightarrow> nat \<Rightarrow> (ExceptionCode, unit) res" where
  "file_record_validate_range file_number record_number record_length =
     and_then (ok_or (usize_checked_add (unat record_number) record_length) IllegalDataAddress) (\<lambda>stop.
     if file_number < server_MIN_FILE_NUMBER \<or> record_length = 0 \<or> record_number > server_MAX_RECORD_NUMBER
        \<or> stop > server_RECORD_COUNT
     then Err IllegalDataAddress
     else Ok ())"

section \<open>store/memory.rs\<close>

definition MAX_TABLE_SIZE :: nat where [simp]: "MAX_TABLE_SIZE = 65536"

record StoreConfig =
  coil_count :: nat
  discrete_input_count :: nat
  holding_register_count :: nat
  input_register_count :: nat

definition StoreConfig_default :: StoreConfig where
  "StoreConfig_default = \<lparr>coil_count = 65536, discrete_input_count = 65536,
     holding_register_count = 65536, input_register_count = 65536\<rparr>"

datatype StoreError =
    TableTooLarge string nat nat
  | AddressOutOfRange string u16 nat
  | FileNumberOutOfRange u16 u16
  | FileRecordOutOfRange u16 u16

record InMemoryStore =
  coils :: BitTable
  discrete_inputs :: BitTable
  holding_registers :: "u16 list"
  input_registers :: "u16 list"
  files :: "u16 \<rightharpoonup> u16 list"
  fifo_queues :: "u16 \<rightharpoonup> u16 list"
  exception_status :: u8
  server_id :: bytes

definition validate_table_size :: "string \<Rightarrow> nat \<Rightarrow> (StoreError, unit) res" where
  "validate_table_size table count =
     (if count > MAX_TABLE_SIZE then Err (TableTooLarge table count MAX_TABLE_SIZE) else Ok ())"

definition StoreConfig_validate :: "StoreConfig \<Rightarrow> (StoreError, unit) res" where
  "StoreConfig_validate self =
     and_then (validate_table_size ''coils'' (coil_count self)) (\<lambda>_.
     and_then (validate_table_size ''discrete_inputs'' (discrete_input_count self)) (\<lambda>_.
     and_then (validate_table_size ''holding_registers'' (holding_register_count self)) (\<lambda>_.
     and_then (validate_table_size ''input_registers'' (input_register_count self)) (\<lambda>_.
     Ok ()))))"

definition InMemoryStore_try_new :: "StoreConfig \<Rightarrow> (StoreError, InMemoryStore) res" where
  "InMemoryStore_try_new config =
     and_then (StoreConfig_validate config) (\<lambda>_.
     Ok \<lparr>coils = BitTable_new (coil_count config),
         discrete_inputs = BitTable_new (discrete_input_count config),
         holding_registers = replicate (holding_register_count config) 0,
         input_registers = replicate (input_register_count config) 0,
         files = Map.empty, fifo_queues = Map.empty, exception_status = 0,
         server_id = [0x72, 0x75, 0x73, 0x74, 0x79, 0x2D, 0x6D, 0x6F, 0x64, 0x62, 0x75, 0x73, 0xFF]\<rparr>)"

definition InMemoryStore_new :: "StoreConfig \<Rightarrow> (StoreError, InMemoryStore) res" where
  "InMemoryStore_new config = (case InMemoryStore_try_new config of Ok s \<Rightarrow> Ok s | _ \<Rightarrow> Panic)"

subsection \<open>Setup\<close>

definition check_setup_address :: "string \<Rightarrow> u16 \<Rightarrow> nat \<Rightarrow> (StoreError, nat) res" where
  "check_setup_address table addr n =
     (let index = unat addr in
      if index \<ge> n then Err (AddressOutOfRange table addr n) else Ok index)"

definition check_setup_file_record :: "u16 \<Rightarrow> u16 \<Rightarrow> (StoreError, unit) res" where
  "check_setup_file_record file_number record_number =
     (if file_number < server_MIN_FILE_NUMBER then Err (FileNumberOutOfRange file_number server_MIN_FILE_NUMBER)
      else if unat record_number \<ge> server_RECORD_COUNT
      then Err (FileRecordOutOfRange record_number server_MAX_RECORD_NUMBER)
      else Ok ())"

text \<open>\<open>Vec::resize\<close>.\<close>

definition resize :: "'a list \<Rightarrow> nat \<Rightarrow> 'a \<Rightarrow> 'a list" where
  "resize xs n v = (if n \<le> length xs then take n xs else xs @ replicate (n - length xs) v)"

definition InMemoryStore_set_input_register
  :: "InMemoryStore \<Rightarrow> u16 \<Rightarrow> u16 \<Rightarrow> (StoreError, InMemoryStore) res" where
  "InMemoryStore_set_input_register self addr v =
     and_then (check_setup_address ''input_registers'' addr (length (input_registers self))) (\<lambda>index.
     and_then (put_at (input_registers self) index v) (\<lambda>regs.
     Ok (self\<lparr>input_registers := regs\<rparr>)))"

definition InMemoryStore_set_discrete_input
  :: "InMemoryStore \<Rightarrow> u16 \<Rightarrow> bool \<Rightarrow> (StoreError, InMemoryStore) res" where
  "InMemoryStore_set_discrete_input self addr v =
     and_then (check_setup_address ''discrete_inputs'' addr (BitTable_len (discrete_inputs self))) (\<lambda>index.
     and_then (BitTable_set (discrete_inputs self) index v) (\<lambda>t.
     Ok (self\<lparr>discrete_inputs := t\<rparr>)))"

definition InMemoryStore_set_holding_register
  :: "InMemoryStore \<Rightarrow> u16 \<Rightarrow> u16 \<Rightarrow> (StoreError, InMemoryStore) res" where
  "InMemoryStore_set_holding_register self addr v =
     and_then (check_setup_address ''holding_registers'' addr (length (holding_registers self))) (\<lambda>index.
     and_then (put_at (holding_registers self) index v) (\<lambda>regs.
     Ok (self\<lparr>holding_registers := regs\<rparr>)))"

definition InMemoryStore_set_coil
  :: "InMemoryStore \<Rightarrow> u16 \<Rightarrow> bool \<Rightarrow> (StoreError, InMemoryStore) res" where
  "InMemoryStore_set_coil self addr v =
     and_then (check_setup_address ''coils'' addr (BitTable_len (coils self))) (\<lambda>index.
     and_then (BitTable_set (coils self) index v) (\<lambda>t.
     Ok (self\<lparr>coils := t\<rparr>)))"

definition InMemoryStore_set_file_record
  :: "InMemoryStore \<Rightarrow> u16 \<Rightarrow> u16 \<Rightarrow> u16 \<Rightarrow> (StoreError, InMemoryStore) res" where
  "InMemoryStore_set_file_record self file_number record_number v =
     and_then (check_setup_file_record file_number record_number) (\<lambda>_.
     let file = (case files self file_number of Some f \<Rightarrow> f | None \<Rightarrow> []);
         idx = unat record_number;
         file = (if idx \<ge> length file then resize file (idx + 1) 0 else file) in
     and_then (put_at file idx v) (\<lambda>file.
     Ok (self\<lparr>files := (files self)(file_number \<mapsto> file)\<rparr>)))"

definition InMemoryStore_set_fifo_queue :: "InMemoryStore \<Rightarrow> u16 \<Rightarrow> u16 list \<Rightarrow> InMemoryStore" where
  "InMemoryStore_set_fifo_queue self addr values =
     self\<lparr>fifo_queues := (fifo_queues self)(addr \<mapsto> values)\<rparr>"

definition InMemoryStore_set_exception_status :: "InMemoryStore \<Rightarrow> u8 \<Rightarrow> InMemoryStore" where
  "InMemoryStore_set_exception_status self v = self\<lparr>exception_status := v\<rparr>"

definition InMemoryStore_set_server_id :: "InMemoryStore \<Rightarrow> bytes \<Rightarrow> InMemoryStore" where
  "InMemoryStore_set_server_id self d = self\<lparr>server_id := d\<rparr>"

subsection \<open>Coils and discrete inputs\<close>

definition check_range :: "u16 \<Rightarrow> nat \<Rightarrow> nat \<Rightarrow> (ExceptionCode, unit) res" where
  "check_range addr qty limit =
     and_then (ok_or (usize_checked_add (unat addr) qty) IllegalDataAddress) (\<lambda>stop.
     if stop > limit then Err IllegalDataAddress else Ok ())"

definition InMemoryStore_read_coils
  :: "InMemoryStore \<Rightarrow> u16 \<Rightarrow> u16 \<Rightarrow> bool list \<Rightarrow> (ExceptionCode, nat \<times> bool list) res" where
  "InMemoryStore_read_coils self addr qty buf = read_bits (coils self) addr qty buf"

definition InMemoryStore_read_coils_packed
  :: "InMemoryStore \<Rightarrow> u16 \<Rightarrow> u16 \<Rightarrow> bytes \<Rightarrow> (ExceptionCode, nat \<times> bytes) res" where
  "InMemoryStore_read_coils_packed self addr qty out = read_packed (coils self) addr qty out"

definition InMemoryStore_write_coil
  :: "InMemoryStore \<Rightarrow> u16 \<Rightarrow> bool \<Rightarrow> (ExceptionCode, InMemoryStore) res" where
  "InMemoryStore_write_coil self addr v =
     and_then (check_range addr 1 (BitTable_len (coils self))) (\<lambda>_.
     and_then (BitTable_set (coils self) (unat addr) v) (\<lambda>t.
     Ok (self\<lparr>coils := t\<rparr>)))"

definition InMemoryStore_write_coils
  :: "InMemoryStore \<Rightarrow> u16 \<Rightarrow> bool list \<Rightarrow> (ExceptionCode, InMemoryStore) res" where
  "InMemoryStore_write_coils self addr values =
     and_then (write_bits (coils self) addr values) (\<lambda>t. Ok (self\<lparr>coils := t\<rparr>))"

definition InMemoryStore_write_coils_packed
  :: "InMemoryStore \<Rightarrow> u16 \<Rightarrow> u16 \<Rightarrow> bytes \<Rightarrow> (ExceptionCode, InMemoryStore) res" where
  "InMemoryStore_write_coils_packed self addr qty packed_values =
     and_then (validate_packed_coils qty packed_values) (\<lambda>n.
     and_then (write_packed (coils self) addr n packed_values) (\<lambda>t.
     Ok (self\<lparr>coils := t\<rparr>)))"

definition InMemoryStore_read_discrete_inputs
  :: "InMemoryStore \<Rightarrow> u16 \<Rightarrow> u16 \<Rightarrow> bool list \<Rightarrow> (ExceptionCode, nat \<times> bool list) res" where
  "InMemoryStore_read_discrete_inputs self addr qty buf = read_bits (discrete_inputs self) addr qty buf"

definition InMemoryStore_read_discrete_inputs_packed
  :: "InMemoryStore \<Rightarrow> u16 \<Rightarrow> u16 \<Rightarrow> bytes \<Rightarrow> (ExceptionCode, nat \<times> bytes) res" where
  "InMemoryStore_read_discrete_inputs_packed self addr qty out = read_packed (discrete_inputs self) addr qty out"

subsection \<open>Registers\<close>

text \<open>\<open>buf[..qty].copy_from_slice(&regs[start..start + qty])\<close>.\<close>

definition copy_registers :: "u16 list \<Rightarrow> nat \<Rightarrow> nat \<Rightarrow> u16 list \<Rightarrow> (ExceptionCode, u16 list) res" where
  "copy_registers regs start qty buf =
     and_then (slice regs start (start + qty)) (\<lambda>src. copy_at buf 0 qty src)"

definition InMemoryStore_read_holding_registers
  :: "InMemoryStore \<Rightarrow> u16 \<Rightarrow> u16 \<Rightarrow> u16 list \<Rightarrow> (ExceptionCode, nat \<times> u16 list) res" where
  "InMemoryStore_read_holding_registers self addr quantity buf =
     (let regs = holding_registers self; start = unat addr; qty = unat quantity in
      and_then (check_range addr qty (length regs)) (\<lambda>_.
      and_then (copy_registers regs start qty buf) (\<lambda>buf. Ok (qty, buf))))"

definition InMemoryStore_read_holding_registers_be
  :: "InMemoryStore \<Rightarrow> u16 \<Rightarrow> u16 \<Rightarrow> bytes \<Rightarrow> (ExceptionCode, nat \<times> bytes) res" where
  "InMemoryStore_read_holding_registers_be self addr quantity out =
     (let regs = holding_registers self; start = unat addr; qty = unat quantity in
      and_then (check_range addr qty (length regs)) (\<lambda>_.
      and_then (slice regs start (start + qty)) (\<lambda>src.
      and_then (pack_registers_be src out) (\<lambda>out. Ok (qty, out)))))"

definition InMemoryStore_write_register
  :: "InMemoryStore \<Rightarrow> u16 \<Rightarrow> u16 \<Rightarrow> (ExceptionCode, InMemoryStore) res" where
  "InMemoryStore_write_register self addr v =
     and_then (check_range addr 1 (length (holding_registers self))) (\<lambda>_.
     and_then (put_at (holding_registers self) (unat addr) v) (\<lambda>regs.
     Ok (self\<lparr>holding_registers := regs\<rparr>)))"

definition InMemoryStore_write_registers
  :: "InMemoryStore \<Rightarrow> u16 \<Rightarrow> u16 list \<Rightarrow> (ExceptionCode, InMemoryStore) res" where
  "InMemoryStore_write_registers self addr values =
     (let regs = holding_registers self; start = unat addr in
      and_then (check_range addr (length values) (length regs)) (\<lambda>_.
      and_then (copy_at regs start (start + length values) values) (\<lambda>regs.
      Ok (self\<lparr>holding_registers := regs\<rparr>))))"

definition InMemoryStore_write_registers_be
  :: "InMemoryStore \<Rightarrow> u16 \<Rightarrow> u16 \<Rightarrow> bytes \<Rightarrow> (ExceptionCode, InMemoryStore) res" where
  "InMemoryStore_write_registers_be self addr quantity value_bytes =
     and_then (validate_register_values_be quantity value_bytes) (\<lambda>qty.
     let regs = holding_registers self; start = unat addr in
     and_then (check_range addr qty (length regs)) (\<lambda>_.
     and_then (write_regs_be regs start qty value_bytes) (\<lambda>regs.
     Ok (self\<lparr>holding_registers := regs\<rparr>))))"

definition InMemoryStore_atomic_mask_write_register
  :: "InMemoryStore \<Rightarrow> u16 \<Rightarrow> u16 \<Rightarrow> u16 \<Rightarrow> (ExceptionCode, InMemoryStore) res" where
  "InMemoryStore_atomic_mask_write_register self addr and_mask or_mask =
     (let regs = holding_registers self in
      and_then (check_range addr 1 (length regs)) (\<lambda>_.
      and_then (at regs (unat addr)) (\<lambda>current.
      and_then (put_at regs (unat addr) ((current AND and_mask) OR (or_mask AND NOT and_mask))) (\<lambda>regs.
      Ok (self\<lparr>holding_registers := regs\<rparr>)))))"

definition validate_atomic_read_write_buffers
  :: "u16 \<Rightarrow> u16 \<Rightarrow> bytes \<Rightarrow> bytes \<Rightarrow> (ExceptionCode, nat \<times> nat) res" where
  "validate_atomic_read_write_buffers read_quantity write_quantity write_values out =
     (if read_quantity = 0 \<or> read_quantity > MAX_RW_READ_REGISTERS
         \<or> write_quantity = 0 \<or> write_quantity > MAX_RW_WRITE_REGISTERS
      then Err IllegalDataValue
      else let read_count = unat read_quantity; write_count = unat write_quantity in
      if length write_values \<noteq> write_count * 2 \<or> length out < read_count * 2
      then Err IllegalDataValue
      else Ok (read_count, write_count))"

text \<open>
  The new state is returned with the result; packing after the write cannot fail, since the
  length of \<open>out\<close> has been checked.
\<close>

definition InMemoryStore_atomic_read_write_registers_be
  :: "InMemoryStore \<Rightarrow> u16 \<Rightarrow> u16 \<Rightarrow> u16 \<Rightarrow> u16 \<Rightarrow> bytes \<Rightarrow> bytes
      \<Rightarrow> (ExceptionCode, (nat \<times> bytes) \<times> InMemoryStore) res" where
  "InMemoryStore_atomic_read_write_registers_be self read_address read_quantity write_address
       write_quantity write_values out =
     and_then (validate_atomic_read_write_buffers read_quantity write_quantity write_values out)
       (\<lambda>(read_count, write_count).
     let regs = holding_registers self in
     and_then (check_range write_address write_count (length regs)) (\<lambda>_.
     and_then (check_range read_address read_count (length regs)) (\<lambda>_.
     and_then (write_regs_be regs (unat write_address) write_count write_values) (\<lambda>regs.
     let read_start = unat read_address in
     and_then (slice regs read_start (read_start + read_count)) (\<lambda>src.
     and_then (pack_registers_be src out) (\<lambda>out.
     Ok ((read_count, out), self\<lparr>holding_registers := regs\<rparr>)))))))"

definition InMemoryStore_read_input_registers
  :: "InMemoryStore \<Rightarrow> u16 \<Rightarrow> u16 \<Rightarrow> u16 list \<Rightarrow> (ExceptionCode, nat \<times> u16 list) res" where
  "InMemoryStore_read_input_registers self addr quantity buf =
     (let regs = input_registers self; start = unat addr; qty = unat quantity in
      and_then (check_range addr qty (length regs)) (\<lambda>_.
      and_then (copy_registers regs start qty buf) (\<lambda>buf. Ok (qty, buf))))"

definition InMemoryStore_read_input_registers_be
  :: "InMemoryStore \<Rightarrow> u16 \<Rightarrow> u16 \<Rightarrow> bytes \<Rightarrow> (ExceptionCode, nat \<times> bytes) res" where
  "InMemoryStore_read_input_registers_be self addr quantity out =
     (let regs = input_registers self; start = unat addr; qty = unat quantity in
      and_then (check_range addr qty (length regs)) (\<lambda>_.
      and_then (slice regs start (start + qty)) (\<lambda>src.
      and_then (pack_registers_be src out) (\<lambda>out. Ok (qty, out)))))"

subsection \<open>Files, queues and diagnostics\<close>

definition InMemoryStore_read_file_record
  :: "InMemoryStore \<Rightarrow> u16 \<Rightarrow> u16 \<Rightarrow> u16 \<Rightarrow> u16 list \<Rightarrow> (ExceptionCode, nat \<times> u16 list) res" where
  "InMemoryStore_read_file_record self file_number record_number record_length buf =
     and_then (file_record_validate_range file_number record_number (unat record_length)) (\<lambda>_.
     and_then (ok_or (files self file_number) IllegalDataAddress) (\<lambda>file.
     let start = unat record_number; n = unat record_length in
     and_then (ok_or (usize_checked_add start n) IllegalDataAddress) (\<lambda>stop.
     if stop > length file \<or> n > length buf then Err IllegalDataAddress
     else and_then (slice file start stop) (\<lambda>src.
          and_then (copy_at buf 0 n src) (\<lambda>buf. Ok (n, buf))))))"

definition InMemoryStore_read_file_record_be
  :: "InMemoryStore \<Rightarrow> u16 \<Rightarrow> u16 \<Rightarrow> u16 \<Rightarrow> bytes \<Rightarrow> (ExceptionCode, nat \<times> bytes) res" where
  "InMemoryStore_read_file_record_be self file_number record_number record_length out =
     (let n = unat record_length in
      and_then (file_record_validate_range file_number record_number n) (\<lambda>_.
      if n > MAX_FILE_RECORD_REGISTERS then Err IllegalDataAddress
      else and_then (ok_or (files self file_number) IllegalDataAddress) (\<lambda>file.
      let start = unat record_number in
      and_then (ok_or (usize_checked_add start n) IllegalDataAddress) (\<lambda>stop.
      if stop > length file then Err IllegalDataAddress
      else and_then (slice file start stop) (\<lambda>src.
           and_then (pack_registers_be src out) (\<lambda>out. Ok (n, out)))))))"

definition InMemoryStore_write_file_record
  :: "InMemoryStore \<Rightarrow> u16 \<Rightarrow> u16 \<Rightarrow> u16 list \<Rightarrow> (ExceptionCode, InMemoryStore) res" where
  "InMemoryStore_write_file_record self file_number record_number values =
     and_then (file_record_validate_range file_number record_number (length values)) (\<lambda>_.
     let file = (case files self file_number of Some f \<Rightarrow> f | None \<Rightarrow> []); start = unat record_number in
     and_then (ok_or (usize_checked_add start (length values)) IllegalDataAddress) (\<lambda>stop.
     let file = (if stop > length file then resize file stop 0 else file) in
     and_then (copy_at file start stop values) (\<lambda>file.
     Ok (self\<lparr>files := (files self)(file_number \<mapsto> file)\<rparr>))))"

definition InMemoryStore_write_file_record_be
  :: "InMemoryStore \<Rightarrow> u16 \<Rightarrow> u16 \<Rightarrow> u16 \<Rightarrow> bytes \<Rightarrow> (ExceptionCode, InMemoryStore) res" where
  "InMemoryStore_write_file_record_be self file_number record_number record_length value_bytes =
     (let n = unat record_length in
      if length value_bytes \<noteq> n * 2 then Err IllegalDataValue
      else and_then (file_record_validate_range file_number record_number n) (\<lambda>_.
      let file = (case files self file_number of Some f \<Rightarrow> f | None \<Rightarrow> []); start = unat record_number in
      and_then (ok_or (usize_checked_add start n) IllegalDataAddress) (\<lambda>stop.
      let file = (if stop > length file then resize file stop 0 else file) in
      and_then (write_regs_be file start n value_bytes) (\<lambda>file.
      Ok (self\<lparr>files := (files self)(file_number \<mapsto> file)\<rparr>)))))"

definition InMemoryStore_read_fifo_queue
  :: "InMemoryStore \<Rightarrow> u16 \<Rightarrow> (ExceptionCode, u16 list) res" where
  "InMemoryStore_read_fifo_queue self addr = ok_or (fifo_queues self addr) IllegalDataAddress"

definition InMemoryStore_read_fifo_queue_be
  :: "InMemoryStore \<Rightarrow> u16 \<Rightarrow> bytes \<Rightarrow> (ExceptionCode, nat \<times> bytes) res" where
  "InMemoryStore_read_fifo_queue_be self addr out =
     and_then (ok_or (fifo_queues self addr) IllegalDataAddress) (\<lambda>values.
     if length values > unat MAX_FIFO_VALUES then Err IllegalDataValue
     else and_then (pack_registers_be values out) (\<lambda>out. Ok (length values, out)))"

definition InMemoryStore_read_exception_status :: "InMemoryStore \<Rightarrow> (ExceptionCode, u8) res" where
  "InMemoryStore_read_exception_status self = Ok (exception_status self)"

definition InMemoryStore_report_server_id :: "InMemoryStore \<Rightarrow> (ExceptionCode, bytes) res" where
  "InMemoryStore_report_server_id self = Ok (server_id self)"

definition InMemoryStore_append_server_id
  :: "InMemoryStore \<Rightarrow> bytes \<Rightarrow> (ExceptionCode, nat \<times> bytes) res" where
  "InMemoryStore_append_server_id self out =
     (if length (server_id self) > MAX_SERVER_ID_BYTES then Err ServerDeviceFailure
      else Ok (length (server_id self), out @ server_id self))"

definition InMemoryStore_append_diagnostic_response
  :: "InMemoryStore \<Rightarrow> DiagnosticSubFunction \<Rightarrow> bytes \<Rightarrow> bytes \<Rightarrow> (ExceptionCode, nat option \<times> bytes) res" where
  "InMemoryStore_append_diagnostic_response self sub_function data out =
     (case sub_function of
        ReturnQueryData \<Rightarrow>
          if length data > MAX_DIAGNOSTIC_RESPONSE_DATA_LEN then Err ServerDeviceFailure
          else Ok (Some (length data), out @ data)
      | _ \<Rightarrow> Err IllegalFunction)"

subsection \<open>The implementation of the trait\<close>

definition reads :: "('s \<Rightarrow> (ExceptionCode, 'a) res) \<Rightarrow> 's \<Rightarrow> ('s, 'a) call" where
  "reads f self = (f self, self)"

fun writes :: "'s \<Rightarrow> (ExceptionCode, 's) res \<Rightarrow> ('s, unit) call" where
  "writes self (Ok s) = (Ok (), s)"
| "writes self (Err e) = (Err e, self)"
| "writes self Panic = (Panic, self)"

fun read_writes :: "'s \<Rightarrow> (ExceptionCode, 'a \<times> 's) res \<Rightarrow> ('s, 'a) call" where
  "read_writes self (Ok (x, s)) = (Ok x, s)"
| "read_writes self (Err e) = (Err e, self)"
| "read_writes self Panic = (Panic, self)"

definition InMemoryStore_DataStore :: "InMemoryStore DataStore" where
  "InMemoryStore_DataStore = \<lparr>
     DataStore.read_coils = (\<lambda>s a q buf. reads (\<lambda>s. InMemoryStore_read_coils s a q buf) s),
     read_coils_packed = (\<lambda>s a q out. reads (\<lambda>s. InMemoryStore_read_coils_packed s a q out) s),
     write_coil = (\<lambda>s a v. writes s (InMemoryStore_write_coil s a v)),
     write_coils = (\<lambda>s a vs. writes s (InMemoryStore_write_coils s a vs)),
     write_coils_packed = (\<lambda>s a q vs. writes s (InMemoryStore_write_coils_packed s a q vs)),
     read_discrete_inputs = (\<lambda>s a q buf. reads (\<lambda>s. InMemoryStore_read_discrete_inputs s a q buf) s),
     read_discrete_inputs_packed =
       (\<lambda>s a q out. reads (\<lambda>s. InMemoryStore_read_discrete_inputs_packed s a q out) s),
     read_holding_registers = (\<lambda>s a q buf. reads (\<lambda>s. InMemoryStore_read_holding_registers s a q buf) s),
     read_holding_registers_be =
       (\<lambda>s a q out. reads (\<lambda>s. InMemoryStore_read_holding_registers_be s a q out) s),
     write_register = (\<lambda>s a v. writes s (InMemoryStore_write_register s a v)),
     write_registers = (\<lambda>s a vs. writes s (InMemoryStore_write_registers s a vs)),
     write_registers_be = (\<lambda>s a q vs. writes s (InMemoryStore_write_registers_be s a q vs)),
     atomic_mask_write_register =
       (\<lambda>s a am om. writes s (InMemoryStore_atomic_mask_write_register s a am om)),
     atomic_read_write_registers_be = (\<lambda>s ra rq wa wq vs out.
       read_writes s (InMemoryStore_atomic_read_write_registers_be s ra rq wa wq vs out)),
     read_input_registers = (\<lambda>s a q buf. reads (\<lambda>s. InMemoryStore_read_input_registers s a q buf) s),
     read_input_registers_be = (\<lambda>s a q out. reads (\<lambda>s. InMemoryStore_read_input_registers_be s a q out) s),
     handle_custom_function = default_handle_custom_function,
     read_file_record = (\<lambda>s f r n buf. reads (\<lambda>s. InMemoryStore_read_file_record s f r n buf) s),
     read_file_record_be = (\<lambda>s f r n out. reads (\<lambda>s. InMemoryStore_read_file_record_be s f r n out) s),
     write_file_record = (\<lambda>s f r vs. writes s (InMemoryStore_write_file_record s f r vs)),
     write_file_record_be = (\<lambda>s f r n vs. writes s (InMemoryStore_write_file_record_be s f r n vs)),
     read_fifo_queue = (\<lambda>s a. reads (\<lambda>s. InMemoryStore_read_fifo_queue s a) s),
     read_fifo_queue_be = (\<lambda>s a out. reads (\<lambda>s. InMemoryStore_read_fifo_queue_be s a out) s),
     read_exception_status = reads InMemoryStore_read_exception_status,
     get_comm_event_counter = default_get_comm_event_counter,
     get_comm_event_log = default_get_comm_event_log,
     append_comm_event_log = default_append_comm_event_log default_get_comm_event_log,
     report_server_id = reads InMemoryStore_report_server_id,
     append_server_id = (\<lambda>s out. reads (\<lambda>s. InMemoryStore_append_server_id s out) s),
     diagnostic = default_diagnostic,
     append_diagnostic_response =
       (\<lambda>s sub d out. reads (\<lambda>s. InMemoryStore_append_diagnostic_response s sub d out) s)\<rparr>"

section \<open>Invariant\<close>

definition table_ok :: "BitTable \<Rightarrow> bool" where
  "table_ok t \<longleftrightarrow> BitTable_wf t \<and> BitTable.len t \<le> MAX_TABLE_SIZE"

definition file_ok :: "u16 \<Rightarrow> u16 list \<Rightarrow> bool" where
  "file_ok n f \<longleftrightarrow> n \<noteq> 0 \<and> 0 < length f \<and> length f \<le> server_RECORD_COUNT"

definition InMemoryStore_wf :: "InMemoryStore \<Rightarrow> bool" where
  "InMemoryStore_wf s \<longleftrightarrow>
     table_ok (coils s) \<and> table_ok (discrete_inputs s)
     \<and> length (holding_registers s) \<le> MAX_TABLE_SIZE \<and> length (input_registers s) \<le> MAX_TABLE_SIZE
     \<and> (\<forall>n f. files s n = Some f \<longrightarrow> file_ok n f)"

lemma range_check_closed:
  assumes "limit \<le> 65536"
  shows "bits_check_range addr n limit = (if unat addr + n \<le> limit then Ok () else Err IllegalDataAddress)"
    "check_range addr n limit = (if unat addr + n \<le> limit then Ok () else Err IllegalDataAddress)"
  using assms by (auto simp: bits_check_range_def check_range_def usize_checked_add_def)

lemma file_record_validate_range_closed:
  "file_record_validate_range file record n =
     (if file \<noteq> 0 \<and> 0 < n \<and> unat record + n \<le> 10000 then Ok () else Err IllegalDataAddress)"
proof (cases "unat record + n \<le> 10000")
  case True
  have f: "file < 1 \<longleftrightarrow> file = 0" by (simp add: word_less_nat_alt unat_eq_zero)
  have "record \<le> 9999" if "0 < n" using True that by (simp add: word_le_nat_alt)
  then show ?thesis
    using True f by (auto simp: file_record_validate_range_def usize_checked_add_def not_less)
next
  case False
  then show ?thesis by (auto simp: file_record_validate_range_def usize_checked_add_def)
qed

lemma wfD:
  assumes "InMemoryStore_wf s"
  shows "BitTable_wf (coils s)" "BitTable.len (coils s) \<le> 65536"
    "BitTable_wf (discrete_inputs s)" "BitTable.len (discrete_inputs s) \<le> 65536"
    "length (holding_registers s) \<le> 65536" "length (input_registers s) \<le> 65536"
    "files s n = Some f \<Longrightarrow> file_ok n f"
  using assms by (auto simp: InMemoryStore_wf_def table_ok_def)

lemma InMemoryStore_try_new_wf:
  assumes "InMemoryStore_try_new config = Ok s"
  shows "InMemoryStore_wf s"
  using assms
  by (auto simp: InMemoryStore_try_new_def StoreConfig_validate_def validate_table_size_def
      InMemoryStore_wf_def table_ok_def BitTable_new_wf res_simps split: if_splits)

section \<open>The operations, in closed form\<close>

subsection \<open>Reads\<close>

lemma read_coils_closed:
  assumes "InMemoryStore_wf s"
  shows "InMemoryStore_read_coils s a q buf =
    (if unat a + unat q \<le> BitTable.len (coils s)
     then if unat q \<le> length buf
          then Ok (unat q, take (unat q) (drop (unat a) (BitTable_bits (coils s))) @ drop (unat q) buf)
          else Err IllegalDataValue
     else Err IllegalDataAddress)"
  using wfD(1) [OF assms] by (auto simp: InMemoryStore_read_coils_def read_bits_Ok read_Err)

lemma read_coils_packed_closed:
  assumes "InMemoryStore_wf s"
  shows "InMemoryStore_read_coils_packed s a q out =
    (if unat a + unat q \<le> BitTable.len (coils s)
     then if div_ceil (unat q) 8 \<le> length out
          then Ok (unat q, pack_bits (take (unat q) (drop (unat a) (BitTable_bits (coils s))))
                 @ drop (div_ceil (unat q) 8) out)
          else Err IllegalDataValue
     else Err IllegalDataAddress)"
  using wfD(1) [OF assms] by (auto simp: InMemoryStore_read_coils_packed_def read_packed_Ok read_Err)

lemma read_discrete_inputs_closed:
  assumes "InMemoryStore_wf s"
  shows "InMemoryStore_read_discrete_inputs s a q buf =
    (if unat a + unat q \<le> BitTable.len (discrete_inputs s)
     then if unat q \<le> length buf
          then Ok (unat q, take (unat q) (drop (unat a) (BitTable_bits (discrete_inputs s))) @ drop (unat q) buf)
          else Err IllegalDataValue
     else Err IllegalDataAddress)"
  using wfD(3) [OF assms] by (auto simp: InMemoryStore_read_discrete_inputs_def read_bits_Ok read_Err)

lemma read_discrete_inputs_packed_closed:
  assumes "InMemoryStore_wf s"
  shows "InMemoryStore_read_discrete_inputs_packed s a q out =
    (if unat a + unat q \<le> BitTable.len (discrete_inputs s)
     then if div_ceil (unat q) 8 \<le> length out
          then Ok (unat q, pack_bits (take (unat q) (drop (unat a) (BitTable_bits (discrete_inputs s))))
                 @ drop (div_ceil (unat q) 8) out)
          else Err IllegalDataValue
     else Err IllegalDataAddress)"
  using wfD(3) [OF assms] by (auto simp: InMemoryStore_read_discrete_inputs_packed_def read_packed_Ok read_Err)

lemma pack_slice_closed:
  assumes "start + n \<le> length regs"
  shows "and_then (slice regs start (start + n)) (\<lambda>src. and_then (pack_registers_be src out) (\<lambda>out. Ok (n, out)))
    = (if 2 * n \<le> length out then Ok (n, regs_be (take n (drop start regs)) @ drop (2 * n) out)
       else Err IllegalDataValue)"
  using assms by (simp add: pack_registers_be_Ok pack_registers_be_Err)

lemma copy_registers_closed:
  assumes "start + n \<le> length regs" "n \<le> length buf"
  shows "copy_registers regs start n buf = Ok (take n (drop start regs) @ drop n buf)"
  using assms by (simp add: copy_registers_def)

lemma read_holding_registers_be_closed:
  assumes "InMemoryStore_wf s"
  shows "InMemoryStore_read_holding_registers_be s a q out =
    (if unat a + unat q \<le> length (holding_registers s)
     then if 2 * unat q \<le> length out
          then Ok (unat q, regs_be (take (unat q) (drop (unat a) (holding_registers s))) @ drop (2 * unat q) out)
          else Err IllegalDataValue
     else Err IllegalDataAddress)"
  using wfD(5) [OF assms] pack_slice_closed [of "unat a" "unat q" "holding_registers s" out]
  by (simp add: InMemoryStore_read_holding_registers_be_def range_check_closed Let_def)

lemma read_input_registers_be_closed:
  assumes "InMemoryStore_wf s"
  shows "InMemoryStore_read_input_registers_be s a q out =
    (if unat a + unat q \<le> length (input_registers s)
     then if 2 * unat q \<le> length out
          then Ok (unat q, regs_be (take (unat q) (drop (unat a) (input_registers s))) @ drop (2 * unat q) out)
          else Err IllegalDataValue
     else Err IllegalDataAddress)"
  using wfD(6) [OF assms] pack_slice_closed [of "unat a" "unat q" "input_registers s" out]
  by (simp add: InMemoryStore_read_input_registers_be_def range_check_closed Let_def)

lemma read_holding_registers_closed:
  assumes "InMemoryStore_wf s" "unat q \<le> length buf"
  shows "InMemoryStore_read_holding_registers s a q buf =
    (if unat a + unat q \<le> length (holding_registers s)
     then Ok (unat q, take (unat q) (drop (unat a) (holding_registers s)) @ drop (unat q) buf)
     else Err IllegalDataAddress)"
  using wfD(5) [OF assms(1)] assms(2)
  by (simp add: InMemoryStore_read_holding_registers_def range_check_closed Let_def copy_registers_closed)

lemma read_input_registers_closed:
  assumes "InMemoryStore_wf s" "unat q \<le> length buf"
  shows "InMemoryStore_read_input_registers s a q buf =
    (if unat a + unat q \<le> length (input_registers s)
     then Ok (unat q, take (unat q) (drop (unat a) (input_registers s)) @ drop (unat q) buf)
     else Err IllegalDataAddress)"
  using wfD(6) [OF assms(1)] assms(2)
  by (simp add: InMemoryStore_read_input_registers_def range_check_closed Let_def copy_registers_closed)

lemma read_file_record_be_closed:
  assumes "InMemoryStore_wf s"
  shows "InMemoryStore_read_file_record_be s f r n out =
    (case files s f of
       Some file \<Rightarrow>
         if 0 < unat n \<and> unat n \<le> 122 \<and> unat r + unat n \<le> length file
         then if 2 * unat n \<le> length out
              then Ok (unat n, regs_be (take (unat n) (drop (unat r) file)) @ drop (2 * unat n) out)
              else Err IllegalDataValue
         else Err IllegalDataAddress
     | None \<Rightarrow> Err IllegalDataAddress)"
proof (cases "files s f")
  case (Some fl)
  then have "f \<noteq> 0" "length fl \<le> 10000" using wfD(7) [OF assms, of f fl] by (auto simp: file_ok_def)
  then show ?thesis
    using Some pack_slice_closed [of "unat r" "unat n" fl out]
    by (auto simp: InMemoryStore_read_file_record_be_def Let_def file_record_validate_range_closed)
qed (auto simp: InMemoryStore_read_file_record_be_def Let_def file_record_validate_range_closed)

lemma read_fifo_queue_be_closed:
  "InMemoryStore_read_fifo_queue_be s a out =
    (case fifo_queues s a of
       Some vs \<Rightarrow>
         if length vs \<le> 31 \<and> 2 * length vs \<le> length out
         then Ok (length vs, regs_be vs @ drop (2 * length vs) out)
         else Err IllegalDataValue
     | None \<Rightarrow> Err IllegalDataAddress)"
  by (auto simp: InMemoryStore_read_fifo_queue_be_def pack_registers_be_Ok pack_registers_be_Err
      split: option.split)

subsection \<open>Writes\<close>

text \<open>A state with new coils: the same table size, the invariant, and the given bits.\<close>

definition coils_updated :: "InMemoryStore \<Rightarrow> bool list \<Rightarrow> InMemoryStore \<Rightarrow> bool" where
  "coils_updated s bs s' \<longleftrightarrow>
     (\<exists>t. s' = s\<lparr>coils := t\<rparr> \<and> BitTable_wf t \<and> BitTable.len t = BitTable.len (coils s) \<and> BitTable_bits t = bs)"

lemma coils_updated_wf: "InMemoryStore_wf s \<Longrightarrow> coils_updated s bs s' \<Longrightarrow> InMemoryStore_wf s'"
  by (auto simp: coils_updated_def InMemoryStore_wf_def table_ok_def)

lemma write_coil_closed:
  assumes "InMemoryStore_wf s"
  shows "unat a < BitTable.len (coils s) \<Longrightarrow> \<exists>s'. InMemoryStore_write_coil s a v = Ok s'
      \<and> coils_updated s ((BitTable_bits (coils s))[unat a := v]) s'"
    "BitTable.len (coils s) \<le> unat a \<Longrightarrow> InMemoryStore_write_coil s a v = Err IllegalDataAddress"
proof -
  note wf = wfD(1,2) [OF assms]
  show "\<exists>s'. InMemoryStore_write_coil s a v = Ok s'
      \<and> coils_updated s ((BitTable_bits (coils s))[unat a := v]) s'" if lt: "unat a < BitTable.len (coils s)"
  proof -
    obtain t' where "(BitTable_set (coils s) (unat a) v :: (ExceptionCode, BitTable) res) = Ok t'"
      "BitTable.len t' = BitTable.len (coils s)" "BitTable_wf t'"
      "BitTable_bits t' = (BitTable_bits (coils s))[unat a := v]"
      using BitTable_set_Ok [OF wf(1) lt, of v] by blast
    then show ?thesis
      using wf lt by (auto simp: InMemoryStore_write_coil_def BitTable_len_def range_check_closed coils_updated_def)
  qed
  show "BitTable.len (coils s) \<le> unat a \<Longrightarrow> InMemoryStore_write_coil s a v = Err IllegalDataAddress"
    using wf by (simp add: InMemoryStore_write_coil_def BitTable_len_def range_check_closed)
qed

lemma write_coils_closed:
  assumes "InMemoryStore_wf s"
  shows "unat a + length vs \<le> BitTable.len (coils s) \<Longrightarrow> \<exists>s'. InMemoryStore_write_coils s a vs = Ok s'
      \<and> coils_updated s (overwrite (BitTable_bits (coils s)) (unat a) vs) s'"
    "BitTable.len (coils s) < unat a + length vs \<Longrightarrow> InMemoryStore_write_coils s a vs = Err IllegalDataAddress"
proof -
  note wf = wfD(1,2) [OF assms]
  show "\<exists>s'. InMemoryStore_write_coils s a vs = Ok s'
      \<and> coils_updated s (overwrite (BitTable_bits (coils s)) (unat a) vs) s'"
    if "unat a + length vs \<le> BitTable.len (coils s)"
    using write_bits_Ok [OF wf(1) that] wf(2) that
    by (auto simp: InMemoryStore_write_coils_def coils_updated_def)
  show "BitTable.len (coils s) < unat a + length vs \<Longrightarrow> InMemoryStore_write_coils s a vs = Err IllegalDataAddress"
    using wf by (simp add: InMemoryStore_write_coils_def write_bits_def range_check_closed Let_def)
qed

lemma write_coils_packed_closed:
  assumes "InMemoryStore_wf s"
  shows "validate_packed_coils q vs = Ok n \<Longrightarrow> unat a + n \<le> BitTable.len (coils s) \<Longrightarrow>
      \<exists>s'. InMemoryStore_write_coils_packed s a q vs = Ok s'
      \<and> coils_updated s (overwrite (BitTable_bits (coils s)) (unat a) (take n (unpack_bits vs))) s'"
    "validate_packed_coils q vs = Ok n \<Longrightarrow> BitTable.len (coils s) < unat a + n
      \<Longrightarrow> InMemoryStore_write_coils_packed s a q vs = Err IllegalDataAddress"
    "validate_packed_coils q vs = Err e \<Longrightarrow> InMemoryStore_write_coils_packed s a q vs = Err e"
proof -
  note wf = wfD(1,2) [OF assms]
  show "\<exists>s'. InMemoryStore_write_coils_packed s a q vs = Ok s'
      \<and> coils_updated s (overwrite (BitTable_bits (coils s)) (unat a) (take n (unpack_bits vs))) s'"
    if v: "validate_packed_coils q vs = Ok n" "unat a + n \<le> BitTable.len (coils s)"
  proof -
    have "length vs = div_ceil n 8" "n < 2 ^ 32" using v(1) by (auto simp: validate_packed_coils_Ok_iff)
    from write_packed_Ok [OF wf(1) v(2) this] v(1) show ?thesis
      by (auto simp: InMemoryStore_write_coils_packed_def coils_updated_def)
  qed
  show "InMemoryStore_write_coils_packed s a q vs = Err IllegalDataAddress"
    if "validate_packed_coils q vs = Ok n" "BitTable.len (coils s) < unat a + n"
    using wf that by (simp add: InMemoryStore_write_coils_packed_def write_packed_def range_check_closed Let_def)
qed (simp add: InMemoryStore_write_coils_packed_def)

lemma validate_packed_coils_cases:
  "validate_packed_coils q vs = Ok (unat q) \<or> validate_packed_coils q vs = Err IllegalDataValue"
  by (auto simp: validate_packed_coils_def Let_def)

lemma write_register_closed:
  assumes "InMemoryStore_wf s"
  shows "InMemoryStore_write_register s a v =
    (if unat a < length (holding_registers s)
     then Ok (s\<lparr>holding_registers := (holding_registers s)[unat a := v]\<rparr>) else Err IllegalDataAddress)"
  using wfD(5) [OF assms] by (simp add: InMemoryStore_write_register_def range_check_closed)

lemma write_registers_closed:
  assumes "InMemoryStore_wf s"
  shows "InMemoryStore_write_registers s a vs =
    (if unat a + length vs \<le> length (holding_registers s)
     then Ok (s\<lparr>holding_registers := overwrite (holding_registers s) (unat a) vs\<rparr>)
     else Err IllegalDataAddress)"
  using wfD(5) [OF assms]
  by (simp add: InMemoryStore_write_registers_def range_check_closed Let_def copy_at_overwrite del: copy_at_Ok)

lemma validate_register_values_be_cases:
  "validate_register_values_be q vs = Ok (unat q) \<and> length vs = 2 * unat q
   \<or> validate_register_values_be q vs = Err IllegalDataValue"
  by (auto simp: validate_register_values_be_def Let_def)

lemma write_registers_be_closed:
  assumes "InMemoryStore_wf s"
  shows "InMemoryStore_write_registers_be s a q vs =
    and_then (validate_register_values_be q vs) (\<lambda>n.
      if unat a + n \<le> length (holding_registers s)
      then Ok (s\<lparr>holding_registers := overwrite (holding_registers s) (unat a) (be_regs vs)\<rparr>)
      else Err IllegalDataAddress)"
  using wfD(5) [OF assms] validate_register_values_be_cases [of q vs]
  by (auto simp: InMemoryStore_write_registers_be_def range_check_closed Let_def write_regs_be_Ok)

lemma mask_write_closed:
  assumes "InMemoryStore_wf s"
  shows "InMemoryStore_atomic_mask_write_register s a am om =
    (if unat a < length (holding_registers s)
     then Ok (s\<lparr>holding_registers := (holding_registers s)
            [unat a := (holding_registers s ! unat a AND am) OR (om AND NOT am)]\<rparr>)
     else Err IllegalDataAddress)"
  using wfD(5) [OF assms] by (simp add: InMemoryStore_atomic_mask_write_register_def range_check_closed Let_def)

lemma read_write_closed:
  assumes "InMemoryStore_wf s" "unat rq \<in> {1..125}" "unat wq \<in> {1..121}"
    "length vs = 2 * unat wq" "2 * unat rq \<le> length out"
  shows "InMemoryStore_atomic_read_write_registers_be s ra rq wa wq vs out =
    (let regs = overwrite (holding_registers s) (unat wa) (be_regs vs) in
     if unat wa + unat wq \<le> length (holding_registers s) \<and> unat ra + unat rq \<le> length (holding_registers s)
     then Ok ((unat rq, regs_be (take (unat rq) (drop (unat ra) regs)) @ drop (2 * unat rq) out),
              s\<lparr>holding_registers := regs\<rparr>)
     else Err IllegalDataAddress)"
proof -
  have "validate_atomic_read_write_buffers rq wq vs out = Ok (unat rq, unat wq)"
    using assms(2-5)
    by (auto simp: validate_atomic_read_write_buffers_def Let_def word_less_nat_alt unat_eq_zero)
  then show ?thesis
    using wfD(5) [OF assms(1)] assms(4,5)
    by (simp add: InMemoryStore_atomic_read_write_registers_be_def range_check_closed Let_def
        write_regs_be_Ok pack_registers_be_Ok)
qed

text \<open>A file written to as far as record \<open>n\<close>: created and padded with zeros as needed.\<close>

definition file_extended :: "InMemoryStore \<Rightarrow> u16 \<Rightarrow> nat \<Rightarrow> u16 list" where
  "file_extended s f n =
     (let file = (case files s f of Some file \<Rightarrow> file | None \<Rightarrow> []) in file @ replicate (n - length file) 0)"

lemma file_extended_length: "n \<le> length (file_extended s f n)"
  by (simp add: file_extended_def Let_def)

lemma file_extended_max:
  "InMemoryStore_wf s \<Longrightarrow> n \<le> 10000 \<Longrightarrow> length (file_extended s f n) \<le> 10000"
  using wfD(7) [of s f] by (auto simp: file_extended_def Let_def file_ok_def split: option.split)

lemma file_padding:
  "(let file = (case files s f of Some file \<Rightarrow> file | None \<Rightarrow> []) in
    if n > length file then resize file n 0 else file) = file_extended s f n"
  by (simp add: file_extended_def Let_def resize_def)

lemma checked_add_record:
  "unat (r :: u16) + n \<le> 10000 \<Longrightarrow> usize_checked_add (unat r) n = Some (unat r + n)"
  by (simp add: usize_checked_add_def)

lemma write_file_record_closed:
  "InMemoryStore_write_file_record s f r vs =
    (if f \<noteq> 0 \<and> vs \<noteq> [] \<and> unat r + length vs \<le> 10000
     then Ok (s\<lparr>files := (files s)(f \<mapsto>
            overwrite (file_extended s f (unat r + length vs)) (unat r) vs)\<rparr>)
     else Err IllegalDataAddress)"
  using file_padding [of s f "unat r + length vs"] file_extended_length [of "unat r + length vs" s f]
  by (simp add: InMemoryStore_write_file_record_def file_record_validate_range_closed checked_add_record
      Let_def copy_at_overwrite del: copy_at_Ok)

lemma write_file_record_be_closed:
  "InMemoryStore_write_file_record_be s f r n vs =
    (if length vs \<noteq> 2 * unat n then Err IllegalDataValue
     else if f \<noteq> 0 \<and> 0 < unat n \<and> unat r + unat n \<le> 10000
     then Ok (s\<lparr>files := (files s)(f \<mapsto>
            overwrite (file_extended s f (unat r + unat n)) (unat r) (be_regs vs))\<rparr>)
     else Err IllegalDataAddress)"
  using file_padding [of s f "unat r + unat n"] file_extended_length [of "unat r + unat n" s f]
  by (simp add: InMemoryStore_write_file_record_be_def file_record_validate_range_closed
      Let_def write_regs_be_Ok mult.commute)

lemma written_file_ok:
  assumes "InMemoryStore_wf s" "f \<noteq> 0" "0 < length vs" "a + length vs \<le> 10000"
  shows "file_ok f (overwrite (file_extended s f (a + length vs)) a vs)"
  using assms file_extended_length [of "a + length vs" s f] file_extended_max [OF assms(1,4), of f]
  by (auto simp: file_ok_def)

lemma set_file_record_closed:
  "InMemoryStore_set_file_record s f r v =
    (if f = 0 then Err (FileNumberOutOfRange f 1)
     else if 10000 \<le> unat r then Err (FileRecordOutOfRange r 9999)
     else Ok (s\<lparr>files := (files s)(f \<mapsto> (file_extended s f (unat r + 1))[unat r := v])\<rparr>))"
proof -
  have "f < 1 \<longleftrightarrow> f = 0" by (simp add: word_less_nat_alt unat_eq_zero)
  then show ?thesis
    using file_padding [of s f "unat r + 1"] file_extended_length [of "unat r + 1" s f]
    by (simp add: InMemoryStore_set_file_record_def check_setup_file_record_def Let_def less_Suc_eq_le
        put_at_def Suc_le_eq)
qed

section \<open>Reachable stores\<close>

text \<open>Every operation that changes the state of a store, setup included, when it succeeds.\<close>

inductive store_step :: "InMemoryStore \<Rightarrow> InMemoryStore \<Rightarrow> bool" where
  set_input_register: "InMemoryStore_set_input_register s a v = Ok s' \<Longrightarrow> store_step s s'"
| set_discrete_input: "InMemoryStore_set_discrete_input s a b = Ok s' \<Longrightarrow> store_step s s'"
| set_holding_register: "InMemoryStore_set_holding_register s a v = Ok s' \<Longrightarrow> store_step s s'"
| set_coil: "InMemoryStore_set_coil s a b = Ok s' \<Longrightarrow> store_step s s'"
| set_file_record: "InMemoryStore_set_file_record s f r v = Ok s' \<Longrightarrow> store_step s s'"
| set_fifo_queue: "store_step s (InMemoryStore_set_fifo_queue s a vs)"
| set_exception_status: "store_step s (InMemoryStore_set_exception_status s x)"
| set_server_id: "store_step s (InMemoryStore_set_server_id s d)"
| write_coil: "InMemoryStore_write_coil s a b = Ok s' \<Longrightarrow> store_step s s'"
| write_coils: "InMemoryStore_write_coils s a bs = Ok s' \<Longrightarrow> store_step s s'"
| write_coils_packed: "InMemoryStore_write_coils_packed s a q d = Ok s' \<Longrightarrow> store_step s s'"
| write_register: "InMemoryStore_write_register s a v = Ok s' \<Longrightarrow> store_step s s'"
| write_registers: "InMemoryStore_write_registers s a vs = Ok s' \<Longrightarrow> store_step s s'"
| write_registers_be: "InMemoryStore_write_registers_be s a q d = Ok s' \<Longrightarrow> store_step s s'"
| mask_write: "InMemoryStore_atomic_mask_write_register s a am om = Ok s' \<Longrightarrow> store_step s s'"
| read_write: "InMemoryStore_atomic_read_write_registers_be s ra rq wa wq d out = Ok (x, s') \<Longrightarrow> store_step s s'"
| write_file_record: "InMemoryStore_write_file_record s f r vs = Ok s' \<Longrightarrow> store_step s s'"
| write_file_record_be: "InMemoryStore_write_file_record_be s f r q d = Ok s' \<Longrightarrow> store_step s s'"

definition same_sizes :: "InMemoryStore \<Rightarrow> InMemoryStore \<Rightarrow> bool" where
  "same_sizes s s' \<longleftrightarrow>
     BitTable.len (coils s') = BitTable.len (coils s)
     \<and> BitTable.len (discrete_inputs s') = BitTable.len (discrete_inputs s)
     \<and> length (holding_registers s') = length (holding_registers s)
     \<and> length (input_registers s') = length (input_registers s)"

lemma coils_updated_sizes: "coils_updated s bs s' \<Longrightarrow> same_sizes s s'"
  by (auto simp: coils_updated_def same_sizes_def)

lemma validate_atomic_cases:
  obtains (Valid) "unat rq \<in> {1..125}" "unat wq \<in> {1..121}" "length vs = 2 * unat wq" "2 * unat rq \<le> length out"
  | (Invalid) "validate_atomic_read_write_buffers rq wq vs out = Err IllegalDataValue"
proof (cases "unat rq \<in> {1..125} \<and> unat wq \<in> {1..121} \<and> length vs = 2 * unat wq \<and> 2 * unat rq \<le> length out")
  case False
  then have "validate_atomic_read_write_buffers rq wq vs out = Err IllegalDataValue"
    by (auto simp: validate_atomic_read_write_buffers_def Let_def word_less_nat_alt word_unat_eq_iff not_le)
  then show ?thesis by (rule Invalid)
qed (use Valid in blast)

lemma read_write_Invalid:
  "validate_atomic_read_write_buffers rq wq vs out = Err e \<Longrightarrow>
     InMemoryStore_atomic_read_write_registers_be s ra rq wa wq vs out = Err e"
  by (simp add: InMemoryStore_atomic_read_write_registers_be_def)

lemma wf_update:
  assumes "InMemoryStore_wf s"
  shows "length regs = length (holding_registers s) \<Longrightarrow>
      InMemoryStore_wf (s\<lparr>holding_registers := regs\<rparr>) \<and> same_sizes s (s\<lparr>holding_registers := regs\<rparr>)"
    "length iregs = length (input_registers s) \<Longrightarrow>
      InMemoryStore_wf (s\<lparr>input_registers := iregs\<rparr>) \<and> same_sizes s (s\<lparr>input_registers := iregs\<rparr>)"
    "file_ok n f \<Longrightarrow> InMemoryStore_wf (s\<lparr>files := (files s)(n \<mapsto> f)\<rparr>)
      \<and> same_sizes s (s\<lparr>files := (files s)(n \<mapsto> f)\<rparr>)"
    "BitTable_wf t \<Longrightarrow> BitTable.len t = BitTable.len (discrete_inputs s) \<Longrightarrow>
      InMemoryStore_wf (s\<lparr>discrete_inputs := t\<rparr>) \<and> same_sizes s (s\<lparr>discrete_inputs := t\<rparr>)"
    "BitTable_wf t \<Longrightarrow> BitTable.len t = BitTable.len (coils s) \<Longrightarrow>
      InMemoryStore_wf (s\<lparr>coils := t\<rparr>) \<and> same_sizes s (s\<lparr>coils := t\<rparr>)"
  using assms by (auto simp: InMemoryStore_wf_def same_sizes_def table_ok_def)

lemma coil_write_preserves:
  assumes "InMemoryStore_wf s"
    and "InMemoryStore_write_coil s a b = Ok s' \<or> InMemoryStore_write_coils s a bs = Ok s'
      \<or> InMemoryStore_write_coils_packed s a q d = Ok s'"
  shows "\<exists>cs. coils_updated s cs s'"
proof -
  have "\<exists>cs. coils_updated s cs s'" if "InMemoryStore_write_coil s a b = Ok s'"
    using write_coil_closed [OF assms(1), of a b] that by (cases "unat a < BitTable.len (coils s)") auto
  moreover have "\<exists>cs. coils_updated s cs s'" if "InMemoryStore_write_coils s a bs = Ok s'"
    using write_coils_closed [OF assms(1), of a bs] that
    by (cases "unat a + length bs \<le> BitTable.len (coils s)") auto
  moreover have "\<exists>cs. coils_updated s cs s'" if "InMemoryStore_write_coils_packed s a q d = Ok s'"
    using write_coils_packed_closed [OF assms(1), where q = q and vs = d and a = a] that validate_packed_coils_cases [of q d]
    by (cases "unat a + unat q \<le> BitTable.len (coils s)") auto
  ultimately show ?thesis using assms(2) by blast
qed

lemma setup_preserves:
  assumes "InMemoryStore_wf s"
  shows "InMemoryStore_set_input_register s a v = Ok s' \<Longrightarrow> InMemoryStore_wf s' \<and> same_sizes s s'"
    "InMemoryStore_set_holding_register s a v = Ok s' \<Longrightarrow> InMemoryStore_wf s' \<and> same_sizes s s'"
    "InMemoryStore_set_discrete_input s a b = Ok s' \<Longrightarrow> InMemoryStore_wf s' \<and> same_sizes s s'"
    "InMemoryStore_set_coil s a b = Ok s' \<Longrightarrow> InMemoryStore_wf s' \<and> same_sizes s s'"
    "InMemoryStore_set_file_record s f r v = Ok s' \<Longrightarrow> InMemoryStore_wf s' \<and> same_sizes s s'"
proof -
  show "InMemoryStore_set_input_register s a v = Ok s' \<Longrightarrow> InMemoryStore_wf s' \<and> same_sizes s s'"
    using assms by (auto simp: InMemoryStore_set_input_register_def check_setup_address_def Let_def wf_update split: if_splits)
  show "InMemoryStore_set_holding_register s a v = Ok s' \<Longrightarrow> InMemoryStore_wf s' \<and> same_sizes s s'"
    using assms by (auto simp: InMemoryStore_set_holding_register_def check_setup_address_def Let_def wf_update split: if_splits)
  show "InMemoryStore_set_discrete_input s a b = Ok s' \<Longrightarrow> InMemoryStore_wf s' \<and> same_sizes s s'"
    using assms BitTable_set_Ok [OF wfD(3) [OF assms], of "unat a" b, where 'a = StoreError]
    by (auto simp: InMemoryStore_set_discrete_input_def check_setup_address_def BitTable_len_def Let_def wf_update split: if_splits)
  show "InMemoryStore_set_coil s a b = Ok s' \<Longrightarrow> InMemoryStore_wf s' \<and> same_sizes s s'"
    using assms BitTable_set_Ok [OF wfD(1) [OF assms], of "unat a" b, where 'a = StoreError]
    by (auto simp: InMemoryStore_set_coil_def check_setup_address_def BitTable_len_def Let_def wf_update split: if_splits)
  show "InMemoryStore_set_file_record s f r v = Ok s' \<Longrightarrow> InMemoryStore_wf s' \<and> same_sizes s s'"
  proof -
    assume ok: "InMemoryStore_set_file_record s f r v = Ok s'"
    then have "f \<noteq> 0" "unat r + 1 \<le> 10000" by (auto simp: set_file_record_closed split: if_splits)
    then have "file_ok f ((file_extended s f (unat r + 1))[unat r := v])"
      using file_extended_length [of "unat r + 1" s f] file_extended_max [OF assms, of "unat r + 1" f]
      unfolding file_ok_def length_list_update server_RECORD_COUNT_def by linarith
    from wf_update(3) [OF assms this] ok show "InMemoryStore_wf s' \<and> same_sizes s s'"
      by (auto simp: set_file_record_closed split: if_splits)
  qed
qed

lemma store_step_preserves:
  assumes "store_step s s'" "InMemoryStore_wf s"
  shows "InMemoryStore_wf s' \<and> same_sizes s s'"
  using assms(1)
proof cases
  case (read_write ra rq wa wq d out x)
  then show ?thesis
    using assms(2) read_write_closed [OF assms(2), of rq wq d out ra wa]
    by (cases rule: validate_atomic_cases [of rq wq d out])
      (auto simp: read_write_Invalid Let_def wf_update split: if_splits)
next
  case (write_coil a b)
  then show ?thesis using coil_write_preserves assms(2) coils_updated_wf coils_updated_sizes by blast
next
  case (write_coils a bs)
  then show ?thesis using coil_write_preserves assms(2) coils_updated_wf coils_updated_sizes by blast
next
  case (write_coils_packed a q d)
  then show ?thesis using coil_write_preserves assms(2) coils_updated_wf coils_updated_sizes by blast
next
  case (write_registers_be a q d)
  then show ?thesis
    using assms(2) validate_register_values_be_cases [of q d]
    by (auto simp: write_registers_be_closed wf_update split: if_splits)
next
  case (write_file_record_be f r q d)
  then show ?thesis
    using assms(2) written_file_ok [OF assms(2), of f "be_regs d" "unat r"]
    by (auto simp: write_file_record_be_closed wf_update split: if_splits)
next
  case (write_register a v)
  then show ?thesis using assms(2) by (auto simp: write_register_closed wf_update split: if_splits)
next
  case (write_registers a vs)
  then show ?thesis using assms(2) by (auto simp: write_registers_closed wf_update split: if_splits)
next
  case (mask_write a am om)
  then show ?thesis using assms(2) by (auto simp: mask_write_closed wf_update split: if_splits)
next
  case (write_file_record f r vs)
  then show ?thesis
    using assms(2) written_file_ok [OF assms(2), of f vs "unat r"]
    by (auto simp: write_file_record_closed wf_update split: if_splits)
qed (use assms(2) in \<open>auto simp: InMemoryStore_set_fifo_queue_def InMemoryStore_set_exception_status_def
      InMemoryStore_set_server_id_def InMemoryStore_wf_def same_sizes_def
      dest: setup_preserves [OF assms(2)]\<close>)

end
