(* ===== verification/Server_Handler.thy ===== *)
theory Server_Handler
  imports Server_Device_Id Memory_Store
begin

text \<open>
  Request processing of the server (\<open>server/src/handler.rs\<close> and \<open>server/src/response_encode.rs\<close>):
  a request PDU, a unit identifier and the data store give a response PDU or no answer, and the
  store afterwards.  An \<open>Err r\<close> inside a handler is an early \<open>return r\<close>; \<open>returned\<close> ends the
  function.  Logging is not modelled.
\<close>

section \<open>Early returns and buffers\<close>

fun map_err :: "('e \<Rightarrow> 'f) \<Rightarrow> ('e, 'a) res \<Rightarrow> ('f, 'a) res" where
  "map_err f (Ok x) = Ok x"
| "map_err f (Err e) = Err (f e)"
| "map_err f Panic = Panic"

abbreviation call_map_err :: "('e \<Rightarrow> 'f) \<Rightarrow> ('e, 'a) res \<times> 's \<Rightarrow> ('f, 'a) res \<times> 's" where
  "call_map_err f c \<equiv> (map_err f (fst c), snd c)"

fun returned :: "('a, 'a) res \<times> 's \<Rightarrow> ('s, 'a) call" where
  "returned (Ok r, s) = (Ok r, s)"
| "returned (Err r, s) = (Ok r, s)"
| "returned (Panic, s) = (Panic, s)"

text \<open>A \<open>match\<close> on the result of a call.\<close>

fun on_result
  :: "('s, 'a) call \<Rightarrow> ((ExceptionCode, 'a) res \<Rightarrow> 's \<Rightarrow> ('s, 'b) call) \<Rightarrow> ('s, 'b) call" where
  "on_result (Panic, s) f = (Panic, s)"
| "on_result (r, s) f = f r s"

text \<open>A call that is handed \<open>&mut buf[a..b]\<close>.\<close>

definition with_slice
  :: "bytes \<Rightarrow> nat \<Rightarrow> nat \<Rightarrow> (bytes \<Rightarrow> 's \<Rightarrow> ('s, nat \<times> bytes) call) \<Rightarrow> 's \<Rightarrow> ('s, nat \<times> bytes) call" where
  "with_slice buf a b f s =
     call_then (slice buf a b, s) (\<lambda>out s.
     call_then (f out s) (\<lambda>(n, out) s. (Ok (n, take a buf @ out @ drop b buf), s)))"

section \<open>response_encode.rs\<close>

definition encode_failure :: "u8 \<Rightarrow> bytes" where
  "encode_failure fc_with_flag = [fc_with_flag, ExceptionCode_code ServerDeviceFailure]"

definition encode_response
  :: "FunctionCode \<Rightarrow> ('r \<Rightarrow> nat) \<Rightarrow> ('r \<Rightarrow> bytes \<Rightarrow> (EncodeError, nat \<times> bytes) res) \<Rightarrow> 'r
      \<Rightarrow> (ExceptionCode, bytes) res" where
  "encode_response fc encoded_len encode_into resp =
     (case encode_into resp (replicate (encoded_len resp) 0) of
        Ok (written, buf) \<Rightarrow>
          if written = length buf then Ok buf
          else Ok (encode_failure (FunctionCode_exception_code fc))
      | Err _ \<Rightarrow> Ok (encode_failure (FunctionCode_exception_code fc))
      | Panic \<Rightarrow> Panic)"

section \<open>handler.rs: helpers\<close>

definition encode_exception :: "u8 \<Rightarrow> ExceptionCode \<Rightarrow> bytes" where
  "encode_exception fc_with_flag ec = [fc_with_flag, ExceptionCode_code ec]"

abbreviation exception_of :: "FunctionCode \<Rightarrow> ExceptionCode \<Rightarrow> bytes" where
  "exception_of fc \<equiv> encode_exception (FunctionCode_exception_code fc)"

definition checked_response_u8 :: "nat \<Rightarrow> FunctionCode \<Rightarrow> (bytes, u8) res" where
  "checked_response_u8 v fc =
     (if v \<le> 255 then Ok (u8_of_nat v) else Err (exception_of fc ServerDeviceFailure))"

definition checked_response_u16 :: "nat \<Rightarrow> FunctionCode \<Rightarrow> (bytes, u16) res" where
  "checked_response_u16 v fc =
     (if v \<le> 65535 then Ok (of_nat v) else Err (exception_of fc ServerDeviceFailure))"

definition validate_store_count :: "nat \<Rightarrow> u16 \<Rightarrow> nat \<Rightarrow> (ExceptionCode, nat) res" where
  "validate_store_count count requested capacity =
     (if count = unat requested \<and> count \<le> capacity then Ok count else Err ServerDeviceFailure)"

section \<open>handler.rs: reads\<close>

definition handle_read_registers
  :: "FunctionCode \<Rightarrow> Address \<Rightarrow> Quantity \<Rightarrow> 's DataStore \<Rightarrow> bool \<Rightarrow> 's \<Rightarrow> ('s, bytes) call" where
  "handle_read_registers fc addr qty store is_holding s = returned (
     call_then (map_err (exception_of fc) (validate_read_registers addr qty), s) (\<lambda>_ s.
     call_then (checked_response_u8 (unat qty * 2) fc, s) (\<lambda>byte_count s.
     let response_fc = (if is_holding then FunctionCode.ReadHoldingRegisters
                        else FunctionCode.ReadInputRegisters);
         response = replicate (2 + unat byte_count) 0 in
     call_then (put_at response 0 (FunctionCode_code response_fc), s) (\<lambda>response s.
     call_then (put_at response 1 byte_count, s) (\<lambda>response s.
     call_then (call_map_err (exception_of fc) (with_slice response 2 (length response) (\<lambda>out s.
         if is_holding then read_holding_registers_be store s addr qty out
         else read_input_registers_be store s addr qty out) s)) (\<lambda>(count, response) s.
     call_then (map_err (exception_of fc) (validate_store_count count qty (unat qty)), s) (\<lambda>_ s.
     (Ok response, s))))))))"

definition handle_read_bits
  :: "FunctionCode \<Rightarrow> Address \<Rightarrow> Quantity \<Rightarrow> 's DataStore \<Rightarrow> bool \<Rightarrow> 's \<Rightarrow> ('s, bytes) call" where
  "handle_read_bits fc addr qty store is_coils s = returned (
     call_then (map_err (exception_of fc)
       (if is_coils then validate_read_coils addr qty else validate_read_discrete_inputs addr qty), s) (\<lambda>_ s.
     call_then (checked_response_u8 (div_ceil (unat qty) 8) fc, s) (\<lambda>byte_count s.
     let response_fc = (if is_coils then FunctionCode.ReadCoils else FunctionCode.ReadDiscreteInputs);
         response = replicate (2 + unat byte_count) 0 in
     call_then (put_at response 0 (FunctionCode_code response_fc), s) (\<lambda>response s.
     call_then (put_at response 1 byte_count, s) (\<lambda>response s.
     call_then (call_map_err (exception_of fc) (with_slice response 2 (length response) (\<lambda>out s.
         if is_coils then read_coils_packed store s addr qty out
         else read_discrete_inputs_packed store s addr qty out) s)) (\<lambda>(count, response) s.
     call_then (map_err (exception_of fc) (validate_store_count count qty (unat qty)), s) (\<lambda>_ s.
     (Ok response, s))))))))"

definition handle_mask_write :: "Address \<Rightarrow> u16 \<Rightarrow> u16 \<Rightarrow> 's DataStore \<Rightarrow> 's \<Rightarrow> ('s, unit) call" where
  "handle_mask_write addr am om store s =
     call_then (validate_mask_write_address addr, s) (\<lambda>_ s. atomic_mask_write_register store s addr am om)"

definition handle_read_write_multiple
  :: "ReadWriteMultipleRegistersRequest \<Rightarrow> 's DataStore \<Rightarrow> 's \<Rightarrow> ('s, bytes) call" where
  "handle_read_write_multiple req store s = returned (
     let fc = FunctionCode.ReadWriteMultipleRegisters in
     call_then (map_err (exception_of fc) (validate_read_write_registers (read_address req)
       (read_quantity req) (write_address req) (write_quantity req) (write_byte_count req)), s) (\<lambda>_ s.
     call_then (checked_response_u8 (unat (read_quantity req) * 2) fc, s) (\<lambda>byte_count s.
     let response = replicate (2 + unat byte_count) 0 in
     call_then (put_at response 0 (FunctionCode_code fc), s) (\<lambda>response s.
     call_then (put_at response 1 byte_count, s) (\<lambda>response s.
     call_then (call_map_err (exception_of fc) (with_slice response 2 (length response) (\<lambda>out s.
         atomic_read_write_registers_be store s (read_address req) (read_quantity req)
           (write_address req) (write_quantity req) (write_register_values req) out) s)) (\<lambda>(count, response) s.
     call_then (map_err (exception_of fc)
       (validate_store_count count (read_quantity req) (unat (read_quantity req))), s) (\<lambda>_ s.
     (Ok response, s))))))))"

section \<open>handler.rs: file records and queues\<close>

text \<open>One iteration of the loop over the 7-byte sub-requests; it returns the grown response.\<close>

definition read_file_group :: "'s DataStore \<Rightarrow> bytes \<Rightarrow> bytes \<Rightarrow> 's \<Rightarrow> (bytes, bytes) res \<times> 's" where
  "read_file_group store chunk response s =
     (let fc = FunctionCode.ReadFileRecord in
     call_then (at chunk 0, s) (\<lambda>reference s.
     if reference \<noteq> 6 then (Err (exception_of fc IllegalDataAddress), s)
     else
     call_then (be16_at chunk 1, s) (\<lambda>fl s.
     call_then (be16_at chunk 3, s) (\<lambda>rec s.
     call_then (be16_at chunk 5, s) (\<lambda>n s.
     call_then (map_err (exception_of fc) (file_record_validate_range fl rec (unat n)), s) (\<lambda>_ s.
     let requested_count = unat n in
     if requested_count > MAX_FILE_RECORD_REGISTERS
     then (Err (exception_of fc IllegalDataAddress), s)
     else
     let group_start = length response;
         value_byte_count = requested_count * 2;
         response = resize response (group_start + 2 + value_byte_count) 0 in
     call_then (call_map_err (exception_of fc)
       (with_slice response (group_start + 2) (group_start + 2 + value_byte_count) (\<lambda>out s.
         DataStore.read_file_record_be store s fl rec n out) s)) (\<lambda>(count, response) s.
     call_then (map_err (exception_of fc) (validate_store_count count n requested_count), s) (\<lambda>count s.
     call_then (checked_response_u8 (1 + 2 * count) fc, s) (\<lambda>resp_len s.
     call_then (put_at response group_start resp_len, s) (\<lambda>response s.
     call_then (put_at response (group_start + 1) 0x06, s) (\<lambda>response s.
     call_then (usize_sub (length response) 2, s) (\<lambda>total_bytes s.
     if total_bytes > 250 then (Err (exception_of fc IllegalDataValue), s)
     else (Ok response, s)))))))))))))"

fun read_file_groups :: "'s DataStore \<Rightarrow> bytes list \<Rightarrow> bytes \<Rightarrow> 's \<Rightarrow> (bytes, bytes) res \<times> 's" where
  "read_file_groups store [] response s = (Ok response, s)"
| "read_file_groups store (chunk # rest) response s =
     call_then (read_file_group store chunk response s) (\<lambda>response s.
     read_file_groups store rest response s)"

definition handle_read_file_record
  :: "ReadFileRecordRequest \<Rightarrow> 's DataStore \<Rightarrow> 's \<Rightarrow> ('s, bytes) call" where
  "handle_read_file_record req store s = returned (
     let subs = ReadFileRecordRequest.sub_requests req; fc = FunctionCode.ReadFileRecord in
     if subs = [] \<or> length subs mod 7 \<noteq> 0 \<or> length subs > 0xF5
     then (Err (exception_of fc IllegalDataValue), s)
     else
     call_then (read_file_groups store (chunks_exact 7 subs) [FunctionCode_code fc, 0] s) (\<lambda>response s.
     call_then (usize_sub (length response) 2, s) (\<lambda>n s.
     call_then (checked_response_u8 n fc, s) (\<lambda>byte_count s.
     call_then (put_at response 1 byte_count, s) (\<lambda>response s.
     (Ok response, s))))))"

record WriteFileRecordGroup =
  group_file :: u16
  group_record :: u16
  group_length :: u16
  group_value_bytes :: bytes

definition MAX_WRITE_FILE_RECORD_GROUPS :: nat where [simp]: "MAX_WRITE_FILE_RECORD_GROUPS = 0xFB div 9"

text \<open>
  One iteration of the first pass: the group at the front, with the bytes after it.  \<open>group_count\<close>
  is the number of groups already in the fixed array.
\<close>

definition parse_write_group :: "bytes \<Rightarrow> nat \<Rightarrow> (ExceptionCode, WriteFileRecordGroup \<times> bytes) res" where
  "parse_write_group subs group_count =
     (if length subs < 7 then Err IllegalDataValue
      else and_then (at subs 0) (\<lambda>reference.
      if reference \<noteq> 6 then Err IllegalDataAddress
      else and_then (be16_at subs 1) (\<lambda>fl.
      and_then (be16_at subs 3) (\<lambda>rec.
      and_then (be16_at subs 5) (\<lambda>n.
      let data_end = 7 + 2 * unat n in
      if length subs < data_end then Err IllegalDataValue
      else and_then (file_record_validate_range fl rec (unat n)) (\<lambda>_.
      if group_count = MAX_WRITE_FILE_RECORD_GROUPS then Err IllegalDataValue
      else and_then (slice subs 7 data_end) (\<lambda>vs.
      and_then (slice_from subs data_end) (\<lambda>rest.
      Ok (\<lparr>group_file = fl, group_record = rec, group_length = n, group_value_bytes = vs\<rparr>, rest)))))))))"

lemma parse_write_group_shorter:
  "parse_write_group subs k = Ok (g, rest) \<Longrightarrow> length rest < length subs"
  by (auto simp: parse_write_group_def be16_at_def res_simps Let_def split: if_splits)

function parse_write_groups
  :: "bytes \<Rightarrow> WriteFileRecordGroup list \<Rightarrow> (ExceptionCode, WriteFileRecordGroup list) res" where
  "parse_write_groups subs groups =
     (if subs = [] then Ok groups
      else case parse_write_group subs (length groups) of
        Ok (g, rest) \<Rightarrow> parse_write_groups rest (groups @ [g])
      | Err e \<Rightarrow> Err e
      | Panic \<Rightarrow> Panic)"
  by auto
termination
  by (relation "measure (\<lambda>(subs, _). length subs)") (auto dest: parse_write_group_shorter)

declare parse_write_groups.simps [simp del]

fun write_groups :: "'s DataStore \<Rightarrow> WriteFileRecordGroup list \<Rightarrow> 's \<Rightarrow> ('s, unit) call" where
  "write_groups store [] s = (Ok (), s)"
| "write_groups store (g # gs) s =
     call_then (DataStore.write_file_record_be store s (group_file g) (group_record g) (group_length g)
       (group_value_bytes g)) (\<lambda>_ s. write_groups store gs s)"

definition apply_write_file_record
  :: "WriteFileRecordRequest \<Rightarrow> 's DataStore \<Rightarrow> 's \<Rightarrow> ('s, unit) call" where
  "apply_write_file_record req store s =
     (if \<not> (0x09 \<le> WriteFileRecordRequest.byte_count req \<and> WriteFileRecordRequest.byte_count req \<le> 0xFB)
      then (Err IllegalDataValue, s)
      else call_then (parse_write_groups (WriteFileRecordRequest.sub_requests req) [], s) (\<lambda>groups s.
           write_groups store groups s))"

definition handle_read_fifo_queue :: "Address \<Rightarrow> 's DataStore \<Rightarrow> 's \<Rightarrow> ('s, bytes) call" where
  "handle_read_fifo_queue addr store s = returned (
     let fc = FunctionCode.ReadFifoQueue;
         response = replicate (5 + unat MAX_FIFO_VALUES * 2) 0 in
     call_then (put_at response 0 (FunctionCode_code fc), s) (\<lambda>response s.
     call_then (call_map_err (exception_of fc) (with_slice response 5 (length response) (\<lambda>out s.
         DataStore.read_fifo_queue_be store s addr out) s)) (\<lambda>(count, response) s.
     if count > unat MAX_FIFO_VALUES then (Err (exception_of fc IllegalDataValue), s)
     else
     call_then (checked_response_u16 (2 + count * 2) fc, s) (\<lambda>byte_count s.
     call_then (checked_response_u16 count fc, s) (\<lambda>fifo_count s.
     call_then (copy_at response 1 3 (u16_to_be_bytes byte_count), s) (\<lambda>response s.
     call_then (copy_at response 3 5 (u16_to_be_bytes fifo_count), s) (\<lambda>response s.
     (Ok (take (5 + count * 2) response), s))))))))"


section \<open>handler.rs: custom functions, diagnostics and identification\<close>

definition handle_custom_request
  :: "UnitId \<Rightarrow> u8 \<Rightarrow> bytes \<Rightarrow> 's DataStore \<Rightarrow> 's \<Rightarrow> ('s, bytes) call" where
  "handle_custom_request unit fc request_data store s = returned (
     let response = replicate MAX_PDU_SIZE 0 in
     call_then (put_at response 0 fc, s) (\<lambda>response s.
     call_then (call_map_err (encode_exception (fc OR 0x80)) (with_slice response 1 (length response) (\<lambda>out s.
         handle_custom_function store s unit fc request_data out) s)) (\<lambda>(response_data_len, response) s.
     if response_data_len < MAX_PDU_SIZE
     then (Ok (take (1 + response_data_len) response), s)
     else (Err (encode_exception (fc OR 0x80) ServerDeviceFailure), s))))"

definition handle_comm_event_log :: "'s DataStore \<Rightarrow> 's \<Rightarrow> ('s, bytes) call" where
  "handle_comm_event_log store s = returned (
     let fc = FunctionCode.GetCommEventLog;
         response = [FunctionCode_code fc] @ [0] @ replicate 6 0;
         events_start = length response in
     call_then (call_map_err (exception_of fc) (append_comm_event_log store s response)) (\<lambda>(meta, response) s.
     let events_len = length response - events_start in
     if events_len > MAX_COMM_EVENT_LOG_EVENTS then (Err (exception_of fc ServerDeviceFailure), s)
     else
     call_then (checked_response_u8 (events_len + 6) fc, s) (\<lambda>byte_count s.
     call_then (put_at response 1 byte_count, s) (\<lambda>response s.
     call_then (copy_at response 2 4 (u16_to_be_bytes (CommEventLogMeta.status meta)), s) (\<lambda>response s.
     call_then (copy_at response 4 6 (u16_to_be_bytes (CommEventLogMeta.event_count meta)), s) (\<lambda>response s.
     call_then (copy_at response 6 8 (u16_to_be_bytes (CommEventLogMeta.message_count meta)), s) (\<lambda>response s.
     (Ok response, s))))))))"

definition handle_diagnostics
  :: "DiagnosticSubFunction \<Rightarrow> bytes \<Rightarrow> 's DataStore \<Rightarrow> 's \<Rightarrow> ('s, bytes option) call" where
  "handle_diagnostics sub dat store s = returned (
     let fc = FunctionCode.Diagnostics;
         response = [FunctionCode_code fc] @ u16_to_be_bytes (DiagnosticSubFunction_code sub);
         data_start = length response in
     call_then (call_map_err (\<lambda>ec. Some (exception_of fc ec))
       (append_diagnostic_response store s sub dat response)) (\<lambda>(answer, response) s.
     case answer of
       Some count \<Rightarrow>
         let actual_count = length response - data_start in
         if count \<noteq> actual_count \<or> actual_count > MAX_DIAGNOSTIC_RESPONSE_DATA_LEN
            \<or> actual_count mod 2 \<noteq> 0
         then (Err (Some (exception_of fc ServerDeviceFailure)), s)
         else (Ok (Some response), s)
     | None \<Rightarrow> (Ok None, s)))"

definition handle_report_server_id :: "'s DataStore \<Rightarrow> 's \<Rightarrow> ('s, bytes) call" where
  "handle_report_server_id store s = returned (
     let fc = FunctionCode.ReportServerId;
         response = [FunctionCode_code fc] @ [0];
         data_start = length response in
     call_then (call_map_err (exception_of fc) (append_server_id store s response)) (\<lambda>(count, response) s.
     let actual_count = length response - data_start in
     if count \<noteq> actual_count \<or> actual_count > MAX_SERVER_ID_BYTES
     then (Err (exception_of fc ServerDeviceFailure), s)
     else
     call_then (checked_response_u8 actual_count fc, s) (\<lambda>byte_count s.
     call_then (put_at response 1 byte_count, s) (\<lambda>response s.
     (Ok response, s)))))"

section \<open>handler.rs: dispatch\<close>

text \<open>The arms that run the store call first and then suppress the answer to a broadcast.\<close>

definition write_reply
  :: "bool \<Rightarrow> FunctionCode \<Rightarrow> ('s, unit) call \<Rightarrow> (ExceptionCode, bytes) res \<Rightarrow> ('s, bytes option) call" where
  "write_reply is_bc fc c resp =
     on_result c (\<lambda>result s.
       if is_bc then (Ok None, s)
       else case result of
         Ok _ \<Rightarrow> (res_map Some resp, s)
       | Err ec \<Rightarrow> (Ok (Some (exception_of fc ec)), s)
       | Panic \<Rightarrow> (Panic, s))"

text \<open>The arms that answer with a handler's response, and do nothing at all on a broadcast.\<close>

definition read_reply :: "bool \<Rightarrow> ('s \<Rightarrow> ('s, bytes) call) \<Rightarrow> 's \<Rightarrow> ('s, bytes option) call" where
  "read_reply is_bc handler s =
     (if is_bc then (Ok None, s) else call_then (handler s) (\<lambda>r s. (Ok (Some r), s)))"

fun dispatch_request
  :: "RequestPdu \<Rightarrow> bytes \<Rightarrow> UnitId \<Rightarrow> bool \<Rightarrow> 's DataStore \<Rightarrow> DeviceIdentification \<Rightarrow> 's
      \<Rightarrow> ('s, bytes option) call" where
  "dispatch_request (RequestPdu.ReadHoldingRegisters req) p unit is_bc store device_id s =
     read_reply is_bc (handle_read_registers FunctionCode.ReadHoldingRegisters
       (ReadHoldingRegistersRequest.address req) (ReadHoldingRegistersRequest.quantity req) store True) s"
| "dispatch_request (RequestPdu.ReadInputRegisters req) p unit is_bc store device_id s =
     read_reply is_bc (handle_read_registers FunctionCode.ReadInputRegisters
       (ReadInputRegistersRequest.address req) (ReadInputRegistersRequest.quantity req) store False) s"
| "dispatch_request (RequestPdu.ReadCoils req) p unit is_bc store device_id s =
     read_reply is_bc (handle_read_bits FunctionCode.ReadCoils
       (ReadCoilsRequest.address req) (ReadCoilsRequest.quantity req) store True) s"
| "dispatch_request (RequestPdu.ReadDiscreteInputs req) p unit is_bc store device_id s =
     read_reply is_bc (handle_read_bits FunctionCode.ReadDiscreteInputs
       (ReadDiscreteInputsRequest.address req) (ReadDiscreteInputsRequest.quantity req) store False) s"
| "dispatch_request (RequestPdu.WriteSingleRegister req) p unit is_bc store device_id s =
     write_reply is_bc FunctionCode.WriteSingleRegister
       (DataStore.write_register store s (WriteSingleRegisterRequest.address req)
          (WriteSingleRegisterRequest.value req))
       (encode_response FunctionCode.WriteSingleRegister WriteSingleRegisterResponse_encoded_len
          WriteSingleRegisterResponse_encode_into
          \<lparr>WriteSingleRegisterResponse.address = WriteSingleRegisterRequest.address req,
           WriteSingleRegisterResponse.value = WriteSingleRegisterRequest.value req\<rparr>)"
| "dispatch_request (RequestPdu.WriteMultipleRegisters req) p unit is_bc store device_id s =
     (case validate_write_registers (WriteMultipleRegistersRequest.address req)
             (WriteMultipleRegistersRequest.quantity req) (WriteMultipleRegistersRequest.byte_count req) of
        Err ec \<Rightarrow> if is_bc then (Ok None, s)
                  else (Ok (Some (exception_of FunctionCode.WriteMultipleRegisters ec)), s)
      | Panic \<Rightarrow> (Panic, s)
      | Ok _ \<Rightarrow>
     write_reply is_bc FunctionCode.WriteMultipleRegisters
       (DataStore.write_registers_be store s (WriteMultipleRegistersRequest.address req)
          (WriteMultipleRegistersRequest.quantity req) (WriteMultipleRegistersRequest.register_values req))
       (encode_response FunctionCode.WriteMultipleRegisters WriteMultipleRegistersResponse_encoded_len
          WriteMultipleRegistersResponse_encode_into
          \<lparr>WriteMultipleRegistersResponse.address = WriteMultipleRegistersRequest.address req,
           WriteMultipleRegistersResponse.quantity = WriteMultipleRegistersRequest.quantity req\<rparr>))"
| "dispatch_request (RequestPdu.WriteSingleCoil req) p unit is_bc store device_id s =
     write_reply is_bc FunctionCode.WriteSingleCoil
       (DataStore.write_coil store s (WriteSingleCoilRequest.address req)
          (CoilValue_as_bool (WriteSingleCoilRequest.value req)))
       (encode_response FunctionCode.WriteSingleCoil WriteSingleCoilResponse_encoded_len
          WriteSingleCoilResponse_encode_into
          \<lparr>WriteSingleCoilResponse.address = WriteSingleCoilRequest.address req,
           WriteSingleCoilResponse.value = WriteSingleCoilRequest.value req\<rparr>)"
| "dispatch_request (RequestPdu.WriteMultipleCoils req) p unit is_bc store device_id s =
     (case validate_write_coils (WriteMultipleCoilsRequest.address req)
             (WriteMultipleCoilsRequest.quantity req) (WriteMultipleCoilsRequest.byte_count req) of
        Err ec \<Rightarrow> if is_bc then (Ok None, s)
                  else (Ok (Some (exception_of FunctionCode.WriteMultipleCoils ec)), s)
      | Panic \<Rightarrow> (Panic, s)
      | Ok _ \<Rightarrow>
     write_reply is_bc FunctionCode.WriteMultipleCoils
       (DataStore.write_coils_packed store s (WriteMultipleCoilsRequest.address req)
          (WriteMultipleCoilsRequest.quantity req) (WriteMultipleCoilsRequest.coil_values req))
       (encode_response FunctionCode.WriteMultipleCoils WriteMultipleCoilsResponse_encoded_len
          WriteMultipleCoilsResponse_encode_into
          \<lparr>WriteMultipleCoilsResponse.address = WriteMultipleCoilsRequest.address req,
           WriteMultipleCoilsResponse.quantity = WriteMultipleCoilsRequest.quantity req\<rparr>))"
| "dispatch_request (RequestPdu.MaskWriteRegister req) p unit is_bc store device_id s =
     write_reply is_bc FunctionCode.MaskWriteRegister
       (handle_mask_write (MaskWriteRegisterRequest.address req) (MaskWriteRegisterRequest.and_mask req)
          (MaskWriteRegisterRequest.or_mask req) store s)
       (encode_response FunctionCode.MaskWriteRegister MaskWriteRegisterResponse_encoded_len
          MaskWriteRegisterResponse_encode_into
          \<lparr>MaskWriteRegisterResponse.address = MaskWriteRegisterRequest.address req,
           MaskWriteRegisterResponse.and_mask = MaskWriteRegisterRequest.and_mask req,
           MaskWriteRegisterResponse.or_mask = MaskWriteRegisterRequest.or_mask req\<rparr>)"
| "dispatch_request (RequestPdu.ReadWriteMultipleRegisters req) p unit is_bc store device_id s =
     read_reply is_bc (handle_read_write_multiple req store) s"
| "dispatch_request (RequestPdu.ReadFileRecord req) p unit is_bc store device_id s =
     read_reply is_bc (handle_read_file_record req store) s"
| "dispatch_request (RequestPdu.WriteFileRecord req) p unit is_bc store device_id s =
     write_reply is_bc FunctionCode.WriteFileRecord
       (apply_write_file_record req store s)
       (encode_response FunctionCode.WriteFileRecord WriteFileRecordResponse_encoded_len
          WriteFileRecordResponse_encode_into
          \<lparr>WriteFileRecordResponse.byte_count = WriteFileRecordRequest.byte_count req,
           WriteFileRecordResponse.data = WriteFileRecordRequest.sub_requests req\<rparr>)"
| "dispatch_request (RequestPdu.ReadFifoQueue req) p unit is_bc store device_id s =
     read_reply is_bc (handle_read_fifo_queue (fifo_pointer_address req) store) s"
| "dispatch_request RequestPdu.ReadExceptionStatus p unit is_bc store device_id s =
     (if is_bc then (Ok None, s)
      else on_result (read_exception_status store s) (\<lambda>result s.
        case result of
          Ok st \<Rightarrow> (res_map Some (encode_response FunctionCode.ReadExceptionStatus
             ReadExceptionStatusResponse_encoded_len ReadExceptionStatusResponse_encode_into
             \<lparr>ReadExceptionStatusResponse.status = st\<rparr>), s)
        | Err ec \<Rightarrow> (Ok (Some (exception_of FunctionCode.ReadExceptionStatus ec)), s)
        | Panic \<Rightarrow> (Panic, s)))"
| "dispatch_request (RequestPdu.Diagnostics req) p unit is_bc store device_id s =
     call_then (handle_diagnostics (DiagnosticsRequest.sub_function req) (DiagnosticsRequest.data req) store s)
       (\<lambda>result s. if is_bc then (Ok None, s) else (Ok result, s))"
| "dispatch_request RequestPdu.GetCommEventCounter p unit is_bc store device_id s =
     (if is_bc then (Ok None, s)
      else on_result (get_comm_event_counter store s) (\<lambda>result s.
        case result of
          Ok (st, ct) \<Rightarrow> (res_map Some (encode_response FunctionCode.GetCommEventCounter
             GetCommEventCounterResponse_encoded_len GetCommEventCounterResponse_encode_into
             \<lparr>GetCommEventCounterResponse.status = st, GetCommEventCounterResponse.event_count = ct\<rparr>), s)
        | Err ec \<Rightarrow> (Ok (Some (exception_of FunctionCode.GetCommEventCounter ec)), s)
        | Panic \<Rightarrow> (Panic, s)))"
| "dispatch_request RequestPdu.GetCommEventLog p unit is_bc store device_id s =
     read_reply is_bc (handle_comm_event_log store) s"
| "dispatch_request RequestPdu.ReportServerId p unit is_bc store device_id s =
     read_reply is_bc (handle_report_server_id store) s"
| "dispatch_request (RequestPdu.EncapsulatedInterface req) p unit is_bc store device_id s =
     (if is_bc then (Ok None, s)
      else if EncapsulatedInterfaceRequest.mei_type req = ReadDeviceIdentification
      then (res_map Some (build_device_id_response (EncapsulatedInterfaceRequest.data req) device_id), s)
      else let fc = (case get p 0 of Some b \<Rightarrow> b | None \<Rightarrow> 0) in
           (Ok (Some (encode_exception (fc OR 0x80) IllegalFunction)), s))"
| "dispatch_request (RequestPdu.Custom fc request_data) p unit is_bc store device_id s =
     read_reply is_bc (handle_custom_request unit fc request_data store) s"

definition decode_error_exception :: "DecodeError \<Rightarrow> ExceptionCode" where
  "decode_error_exception e =
     (case e of
        DecodeError.UnknownFunctionCode _ \<Rightarrow> IllegalFunction
      | DecodeError.UnknownDiagnosticSubFunction _ \<Rightarrow> IllegalFunction
      | DecodeError.InvalidReferenceType _ \<Rightarrow> IllegalDataAddress
      | DecodeError.FileRecordOutOfRange _ _ _ \<Rightarrow> IllegalDataAddress
      | _ \<Rightarrow> IllegalDataValue)"

definition process_request
  :: "bytes \<Rightarrow> UnitId \<Rightarrow> 's DataStore \<Rightarrow> DeviceIdentification \<Rightarrow> 's \<Rightarrow> ('s, bytes option) call" where
  "process_request p unit store device_id s =
     (let is_bc = is_broadcast unit in
      case decode_request p of
        Ok request \<Rightarrow> dispatch_request request p unit is_bc store device_id s
      | Err e \<Rightarrow>
          if is_bc then (Ok None, s)
          else let fc = (case get p 0 of Some b \<Rightarrow> b | None \<Rightarrow> 0);
                   exc = decode_error_exception e in
               (Ok (Some (encode_exception (fc OR 0x80) exc)), s)
      | Panic \<Rightarrow> (Panic, s))"

end
