(* ===== verification/Store_Laws.thy ===== *)
theory Store_Laws
  imports Memory_Store
begin

text \<open>
  What the in-memory store promises to the server.  The locale \<open>data_store\<close> states the part of
  the \<open>DataStore\<close> contract that the request handler relies on of any implementation (a slice keeps
  its length, a vector is only appended to, nothing panics, an invariant is kept); the
  in-memory store is an instance.  The overridden methods of the in-memory store are shown equal
  to the provided methods of the trait, and reads to return what was written.
\<close>

section \<open>The contract of a store\<close>

definition plain_call :: "('s \<Rightarrow> bool) \<Rightarrow> ('s, 'a) call \<Rightarrow> bool" where
  "plain_call good c \<longleftrightarrow> good (snd c) \<and> fst c \<noteq> Panic"

definition slice_call :: "('s \<Rightarrow> bool) \<Rightarrow> nat \<Rightarrow> ('s, nat \<times> bytes) call \<Rightarrow> bool" where
  "slice_call good k c \<longleftrightarrow>
     good (snd c) \<and> (case fst c of Ok (_, out) \<Rightarrow> length out = k | Err _ \<Rightarrow> True | Panic \<Rightarrow> False)"

definition append_call :: "('s \<Rightarrow> bool) \<Rightarrow> bytes \<Rightarrow> ('s, 'a \<times> bytes) call \<Rightarrow> bool" where
  "append_call good out c \<longleftrightarrow>
     good (snd c)
     \<and> (case fst c of Ok (_, out') \<Rightarrow> take (length out) out' = out \<and> length out \<le> length out'
        | Err _ \<Rightarrow> True | Panic \<Rightarrow> False)"

locale data_store =
  fixes ds :: "'s DataStore"
    and good :: "'s \<Rightarrow> bool"
  assumes read_coils_packed_law: "good s \<Longrightarrow> slice_call good (length out) (read_coils_packed ds s a q out)"
    and read_discrete_inputs_packed_law:
      "good s \<Longrightarrow> slice_call good (length out) (read_discrete_inputs_packed ds s a q out)"
    and read_holding_registers_be_law:
      "good s \<Longrightarrow> slice_call good (length out) (read_holding_registers_be ds s a q out)"
    and read_input_registers_be_law:
      "good s \<Longrightarrow> slice_call good (length out) (read_input_registers_be ds s a q out)"
    and atomic_read_write_registers_be_law:
      "good s \<Longrightarrow> slice_call good (length out) (atomic_read_write_registers_be ds s ra rq wa wq vs out)"
    and read_file_record_be_law:
      "good s \<Longrightarrow> slice_call good (length out) (read_file_record_be ds s f r n out)"
    and read_fifo_queue_be_law: "good s \<Longrightarrow> slice_call good (length out) (read_fifo_queue_be ds s a out)"
    and handle_custom_function_law:
      "good s \<Longrightarrow> slice_call good (length out) (handle_custom_function ds s u fc d out)"
    and write_coil_law: "good s \<Longrightarrow> plain_call good (DataStore.write_coil ds s a b)"
    and write_coils_packed_law: "good s \<Longrightarrow> plain_call good (DataStore.write_coils_packed ds s a q vs)"
    and write_register_law: "good s \<Longrightarrow> plain_call good (DataStore.write_register ds s a v)"
    and write_registers_be_law: "good s \<Longrightarrow> plain_call good (DataStore.write_registers_be ds s a q vs)"
    and atomic_mask_write_register_law:
      "good s \<Longrightarrow> plain_call good (atomic_mask_write_register ds s a am om)"
    and write_file_record_be_law: "good s \<Longrightarrow> plain_call good (DataStore.write_file_record_be ds s f r n vs)"
    and read_exception_status_law: "good s \<Longrightarrow> plain_call good (read_exception_status ds s)"
    and get_comm_event_counter_law: "good s \<Longrightarrow> plain_call good (get_comm_event_counter ds s)"
    and append_comm_event_log_law: "good s \<Longrightarrow> append_call good out (append_comm_event_log ds s out)"
    and append_server_id_law: "good s \<Longrightarrow> append_call good out (append_server_id ds s out)"
    and append_diagnostic_response_law:
      "good s \<Longrightarrow> append_call good out (append_diagnostic_response ds s sub d out)"

section \<open>The in-memory store satisfies it\<close>

lemmas memory_store_simps = InMemoryStore_DataStore_def DataStore.simps reads_def

lemma writes_law:
  assumes "InMemoryStore_wf s" "\<And>s'. r = Ok s' \<Longrightarrow> store_step s s'" "r \<noteq> Panic"
  shows "plain_call InMemoryStore_wf (writes s r)"
  using assms store_step_preserves by (cases r) (auto simp: plain_call_def)

lemma coil_writes_not_Panic:
  assumes "InMemoryStore_wf s"
  shows "InMemoryStore_write_coil s a b \<noteq> Panic" "InMemoryStore_write_coils_packed s a q d \<noteq> Panic"
    "InMemoryStore_write_coils s a bs \<noteq> Panic"
proof -
  show "InMemoryStore_write_coil s a b \<noteq> Panic"
    using write_coil_closed [OF assms, of a b] by (cases "unat a < BitTable.len (coils s)") (auto simp: not_less)
  show "InMemoryStore_write_coils_packed s a q d \<noteq> Panic"
    using write_coils_packed_closed [OF assms, where q = q and vs = d and a = a]
      validate_packed_coils_cases [of q d]
    by (cases "unat a + unat q \<le> BitTable.len (coils s)") (auto simp: not_le)
  show "InMemoryStore_write_coils s a bs \<noteq> Panic"
    using write_coils_closed [OF assms, of a bs]
    by (cases "unat a + length bs \<le> BitTable.len (coils s)") (auto simp: not_le)
qed

lemma read_write_law:
  assumes "InMemoryStore_wf s"
  shows "slice_call InMemoryStore_wf (length out)
    (read_writes s (InMemoryStore_atomic_read_write_registers_be s ra rq wa wq vs out))"
proof (cases rule: validate_atomic_cases [of rq wq vs out])
  case Valid
  have "length (overwrite (holding_registers s) (unat wa) (be_regs vs)) = length (holding_registers s)"
    if "unat wa + unat wq \<le> length (holding_registers s)" using Valid that by simp
  then show ?thesis
    using read_write_closed [OF assms Valid, of ra wa] Valid(4) assms
    by (auto simp: slice_call_def Let_def wf_update)
next
  case Invalid
  then show ?thesis using assms by (simp add: read_write_Invalid slice_call_def)
qed

interpretation memory: data_store InMemoryStore_DataStore InMemoryStore_wf
proof (unfold_locales, goal_cases)
  case (5 s out ra rq wa wq vs)
  then show ?case using read_write_law by (simp add: memory_store_simps)
next
  case (6 s out f r n)
  then show ?case by (auto simp: memory_store_simps slice_call_def read_file_record_be_closed split: option.splits)
next
  case (7 s out a)
  then show ?case by (auto simp: memory_store_simps slice_call_def read_fifo_queue_be_closed split: option.splits)
next
  case (9 s a b)
  then show ?case
    unfolding memory_store_simps by (intro writes_law coil_writes_not_Panic store_step.write_coil)
next
  case (10 s a q vs)
  then show ?case
    unfolding memory_store_simps by (intro writes_law coil_writes_not_Panic store_step.write_coils_packed)
next
  case (11 s a v)
  then show ?case
    unfolding memory_store_simps
    by (intro writes_law) (auto intro: store_step.write_register simp: write_register_closed)
next
  case (12 s a q vs)
  have "plain_call InMemoryStore_wf (writes s (InMemoryStore_write_registers_be s a q vs))"
  proof (rule writes_law [OF 12])
    show "InMemoryStore_write_registers_be s a q vs \<noteq> Panic"
      using 12 validate_register_values_be_cases [of q vs] by (auto simp: write_registers_be_closed split: if_splits)
  qed (rule store_step.write_registers_be)
  then show ?case by (simp add: memory_store_simps)
next
  case (13 s a am om)
  then show ?case
    unfolding memory_store_simps
    by (intro writes_law) (auto intro: store_step.mask_write simp: mask_write_closed)
next
  case (14 s f r n vs)
  then show ?case
    unfolding memory_store_simps
    by (intro writes_law) (auto intro: store_step.write_file_record_be simp: write_file_record_be_closed)
qed (auto simp: memory_store_simps slice_call_def append_call_def plain_call_def
    read_coils_packed_closed read_discrete_inputs_packed_closed read_holding_registers_be_closed
    read_input_registers_be_closed default_handle_custom_function_def default_get_comm_event_counter_def
    default_append_comm_event_log_def default_get_comm_event_log_def InMemoryStore_read_exception_status_def
    InMemoryStore_append_server_id_def InMemoryStore_append_diagnostic_response_def
    split: DiagnosticSubFunction.splits)

section \<open>Overridden methods agree with the provided ones\<close>

lemma for_fold_cong2:
  assumes "length xs = length ys" "\<And>i s. i < length xs \<Longrightarrow> f (xs ! i) s = g (ys ! i) s"
  shows "for_fold f xs s = for_fold g ys s"
  using assms
proof (induction xs ys arbitrary: s rule: list_induct2)
  case (Cons x xs y ys)
  have "f x s = g y s" for s using Cons.prems [of 0] by simp
  moreover have "for_fold f xs s = for_fold g ys s" for s using Cons.prems by (intro Cons.IH) force
  ultimately show ?case by (cases "g y s") simp_all
qed simp

lemma write_byte_bits_mask:
  "v AND low_bit_mask c = w AND low_bit_mask c \<Longrightarrow> write_byte_bits t a v c = write_byte_bits t a w c"
  by (simp add: write_byte_bits_def Let_def)

lemma write_packed_bits:
  assumes "length packed = div_ceil n 8"
  shows "write_packed t a n packed = write_bits t a (take n (unpack_bits packed))"
proof -
  define vs where vs: "vs = take n (unpack_bits packed)"
  have len: "length vs = n" using assms div_ceil_8_ge [of n] by (simp add: vs)
  have nth: "vs ! k = bit (packed ! (k div 8)) (k mod 8)" if "k < n" for k
    using that len assms div_ceil_8_ge [of n] by (simp add: vs unpack_bits_nth)
  let ?f = "\<lambda>(i, byte) s. and_then (usize_sub n (i * 8)) (\<lambda>d.
            write_byte_bits s (unat a + i * 8) byte (min d 8))"
  let ?g = "\<lambda>(i, chunk) s. write_byte_bits s (unat a + i * 8) (pack_byte chunk) (length chunk)"
  have "for_fold ?f (enumerate 0 packed) t = for_fold ?g (enumerate 0 (chunks 8 vs)) t"
  proof (rule for_fold_cong2)
    show "length (enumerate 0 packed) = length (enumerate 0 (chunks 8 vs))"
      by (simp add: chunks_8_length len assms)
    fix i s assume "i < length (enumerate 0 packed)"
    then have i: "i < length packed" "i < length (chunks 8 vs)" "8 * i < n"
      by (simp_all add: chunks_8_length len assms div_ceil_8_index)
    let ?c = "min (n - i * 8) 8" and ?ch = "take 8 (drop (8 * i) vs)"
    have ch: "chunks 8 vs ! i = ?ch" using i len by (intro chunks_8_nth) simp
    have lc: "length ?ch = ?c" using len by (simp add: mult.commute min.commute)
    have "bit (packed ! i) k \<longleftrightarrow> ?ch ! k" if "k < ?c" for k
    proof -
      from that have "8 * i + k < n" by linarith
      with nth [OF this] that len show ?thesis by simp
    qed
    then have "packed ! i AND low_bit_mask ?c = pack_byte ?ch AND low_bit_mask ?c"
      using lc by (intro bit_word_eqI) (auto simp: bit_and_iff low_bit_mask_bit pack_byte_bit)
    from write_byte_bits_mask [OF this, of s "unat a + i * 8"]
    show "?f (enumerate 0 packed ! i) s = ?g (enumerate 0 (chunks 8 vs) ! i) s"
      using i lc by (simp add: nth_enumerate_eq ch)
  qed
  then show ?thesis by (simp add: write_packed_def write_bits_def Let_def len vs [symmetric])
qed












section \<open>A bit table is a list of bits\<close>

text \<open>The operations on a plain list of bits that the packed table implements.\<close>

definition bits_read :: "bool list \<Rightarrow> u16 \<Rightarrow> nat \<Rightarrow> (ExceptionCode, bool list) res" where
  "bits_read bs addr n =
     (if unat addr + n \<le> length bs then Ok (take n (drop (unat addr) bs)) else Err IllegalDataAddress)"

definition bits_write :: "bool list \<Rightarrow> u16 \<Rightarrow> bool list \<Rightarrow> (ExceptionCode, bool list) res" where
  "bits_write bs addr vs =
     (if unat addr + length vs \<le> length bs then Ok (overwrite bs (unat addr) vs) else Err IllegalDataAddress)"

text \<open>What a table holds, together with whether it is well formed.\<close>

definition table_view :: "BitTable \<Rightarrow> bool \<times> bool list" where
  "table_view t = (table_ok t, BitTable_bits t)"

lemma write_bits_refines:
  assumes "table_ok t"
  shows "res_map table_view (write_bits t a vs) = res_map (Pair True) (bits_write (BitTable_bits t) a vs)"
proof (cases "unat a + length vs \<le> BitTable.len t")
  case True
  then have "length vs < 2 ^ 32" using assms by (simp add: table_ok_def)
  from write_bits_Ok [OF _ True this] assms show ?thesis
    using True by (auto simp: table_ok_def table_view_def bits_write_def)
next
  case False
  then show ?thesis using assms by (simp add: write_bits_def table_ok_def range_check_closed bits_write_def)
qed

lemma write_packed_refines:
  "table_ok t \<Longrightarrow> length bs = div_ceil n 8 \<Longrightarrow>
     res_map table_view (write_packed t a n bs)
       = res_map (Pair True) (bits_write (BitTable_bits t) a (take n (unpack_bits bs)))"
  by (simp add: write_packed_bits write_bits_refines)

lemma BitTable_set_refines:
  assumes "table_ok t" "i < BitTable.len t"
  shows "res_map table_view (BitTable_set t i v :: ('e, BitTable) res) = Ok (True, (BitTable_bits t)[i := v])"
  using BitTable_set_Ok [of t i v, where 'a = 'e] assms by (auto simp: table_view_def table_ok_def)

lemma table_reads:
  assumes "table_ok t"
  shows "read_bits t a q out =
      and_then (bits_read (BitTable_bits t) a (unat q)) (\<lambda>bs.
        if unat q \<le> length out then Ok (unat q, bs @ drop (unat q) out) else Err IllegalDataValue)"
    "read_packed t a q packed =
      and_then (bits_read (BitTable_bits t) a (unat q)) (\<lambda>bs.
        if div_ceil (unat q) 8 \<le> length packed
        then Ok (unat q, pack_bits bs @ drop (div_ceil (unat q) 8) packed) else Err IllegalDataValue)"
  using assms by (auto simp: table_ok_def bits_read_def read_bits_Ok read_packed_Ok read_Err)

text \<open>
  C32. The packed bit table behind coils and discrete inputs implements a plain list of bits.  A new
  table holds \<open>False\<close> everywhere; reading returns exactly the addressed bits, as booleans or packed
  into bytes, and leaves the rest of the output buffer alone; writing, from booleans, from packed
  bytes or a single bit, overwrites exactly the addressed bits and keeps the table well formed;
  a range outside the table is \<open>IllegalDataAddress\<close> and a short output buffer \<open>IllegalDataValue\<close>.
  No byte index is ever out of range.
\<close>

theorem bit_table_refines_bits:
  assumes "table_ok t"
  shows "table_view (BitTable_new (BitTable.len t)) = (True, replicate (BitTable.len t) False)
    \<and> read_bits t a q out =
        and_then (bits_read (BitTable_bits t) a (unat q)) (\<lambda>bs.
          if unat q \<le> length out then Ok (unat q, bs @ drop (unat q) out) else Err IllegalDataValue)
    \<and> read_packed t a q packed =
        and_then (bits_read (BitTable_bits t) a (unat q)) (\<lambda>bs.
          if div_ceil (unat q) 8 \<le> length packed
          then Ok (unat q, pack_bits bs @ drop (div_ceil (unat q) 8) packed) else Err IllegalDataValue)
    \<and> res_map table_view (write_bits t a vs) = res_map (Pair True) (bits_write (BitTable_bits t) a vs)
    \<and> (length bs = div_ceil n 8 \<longrightarrow>
         res_map table_view (write_packed t a n bs)
           = res_map (Pair True) (bits_write (BitTable_bits t) a (take n (unpack_bits bs))))
    \<and> (i < BitTable.len t \<longrightarrow>
         res_map table_view (BitTable_set t i v :: ('e, BitTable) res) = Ok (True, (BitTable_bits t)[i := v]))"
proof (intro conjI impI)
  show "table_view (BitTable_new (BitTable.len t)) = (True, replicate (BitTable.len t) False)"
    using assms by (simp add: table_view_def BitTable_new_bits BitTable_new_wf table_ok_def)
qed (rule table_reads write_bits_refines write_packed_refines BitTable_set_refines assms | assumption)+

theorem bit_table_refines_bits_witness:
  "res_map table_view (write_packed (BitTable_new 12) 3 9 [0x05, 0x01])
   = Ok (True, [False, False, False, True, False, True, False, False, False, False, False, True])"
proof -
  have ok: "table_ok (BitTable_new 12)" by (simp add: table_ok_def BitTable_new_wf)
  have "take 9 (unpack_bits [0x05, 0x01]) = [True, False, True, False, False, False, False, False, True]"
    by (simp add: unpack_bits_def upt_conv_Cons bit_iff_odd)
  moreover have "res_map table_view (write_packed (BitTable_new 12) 3 9 [0x05, 0x01])
      = res_map (Pair True) (bits_write (BitTable_bits (BitTable_new 12)) 3 (take 9 (unpack_bits [0x05, 0x01])))"
    using bit_table_refines_bits [OF ok, of 3 0 "[]" "[]" "[]" "[0x05, 0x01]" 9 0 True, where 'e = unit]
    by (simp add: div_ceil_def)
  moreover have "BitTable_bits (BitTable_new 12) = [False, False, False, False, False, False, False, False, False,
      False, False, False]"
    by (simp add: BitTable_new_bits numeral_eq_Suc)
  ultimately show ?thesis by (simp add: bits_write_def overwrite_def)
qed


section \<open>Properties of the in-memory store\<close>

lemma store_steps_preserve:
  assumes "store_step\<^sup>*\<^sup>* s s'" "InMemoryStore_wf s"
  shows "InMemoryStore_wf s' \<and> same_sizes s s'"
  using assms(1)
proof induction
  case base
  then show ?case using assms(2) by (simp add: same_sizes_def)
next
  case (step s' s'')
  then show ?case using store_step_preserves [of s' s''] by (auto simp: same_sizes_def)
qed

lemma try_new_sizes:
  "InMemoryStore_try_new config = Ok s \<Longrightarrow>
     BitTable.len (coils s) = coil_count config \<and> BitTable.len (discrete_inputs s) = discrete_input_count config
     \<and> length (holding_registers s) = holding_register_count config
     \<and> length (input_registers s) = input_register_count config"
  by (cases "StoreConfig_validate config") (auto simp: InMemoryStore_try_new_def BitTable_new_wf)

lemma setup_not_Panic:
  assumes "InMemoryStore_wf s"
  shows "InMemoryStore_set_input_register s a v \<noteq> Panic" "InMemoryStore_set_holding_register s a v \<noteq> Panic"
    "InMemoryStore_set_discrete_input s a b \<noteq> Panic" "InMemoryStore_set_coil s a b \<noteq> Panic"
    "InMemoryStore_set_file_record s f r v \<noteq> Panic"
proof -
  show "InMemoryStore_set_discrete_input s a b \<noteq> Panic"
    using BitTable_set_Ok [OF wfD(3) [OF assms], of "unat a" b, where 'a = StoreError]
    by (auto simp: InMemoryStore_set_discrete_input_def check_setup_address_def BitTable_len_def Let_def)
  show "InMemoryStore_set_coil s a b \<noteq> Panic"
    using BitTable_set_Ok [OF wfD(1) [OF assms], of "unat a" b, where 'a = StoreError]
    by (auto simp: InMemoryStore_set_coil_def check_setup_address_def BitTable_len_def Let_def)
qed (auto simp: InMemoryStore_set_input_register_def InMemoryStore_set_holding_register_def
    check_setup_address_def Let_def set_file_record_closed)

text \<open>
  C33. Whatever sequence of setup calls and successful requests a store created from a valid
  configuration goes through, its invariant holds: both bit tables have exactly the bytes their size
  needs, every file is non-empty, has a number other than 0 and at most 10000 records, and the four
  tables keep the sizes of the configuration for ever.  In such a store no setup call and no write
  panics, whatever its arguments.
\<close>

theorem store_invariant:
  assumes "InMemoryStore_try_new config = Ok s0" "store_step\<^sup>*\<^sup>* s0 s"
  shows "InMemoryStore_wf s
    \<and> BitTable.len (coils s) = coil_count config
    \<and> BitTable.len (discrete_inputs s) = discrete_input_count config
    \<and> length (holding_registers s) = holding_register_count config
    \<and> length (input_registers s) = input_register_count config
    \<and> InMemoryStore_set_input_register s a v \<noteq> Panic \<and> InMemoryStore_set_holding_register s a v \<noteq> Panic
    \<and> InMemoryStore_set_discrete_input s a b \<noteq> Panic \<and> InMemoryStore_set_coil s a b \<noteq> Panic
    \<and> InMemoryStore_set_file_record s f r v \<noteq> Panic
    \<and> InMemoryStore_write_coil s a b \<noteq> Panic \<and> InMemoryStore_write_coils_packed s a q vs \<noteq> Panic
    \<and> InMemoryStore_write_register s a v \<noteq> Panic \<and> InMemoryStore_write_registers_be s a q vs \<noteq> Panic
    \<and> InMemoryStore_atomic_mask_write_register s a am om \<noteq> Panic
    \<and> InMemoryStore_atomic_read_write_registers_be s ra rq wa wq vs out \<noteq> Panic
    \<and> InMemoryStore_write_file_record_be s f r q vs \<noteq> Panic"
proof -
  have wf: "InMemoryStore_wf s" "same_sizes s0 s"
    using store_steps_preserve [OF assms(2) InMemoryStore_try_new_wf [OF assms(1)]] by auto
  have "InMemoryStore_write_registers_be s a q vs \<noteq> Panic"
    using validate_register_values_be_cases [of q vs] by (auto simp: write_registers_be_closed wf(1) split: if_splits)
  moreover have "InMemoryStore_atomic_read_write_registers_be s ra rq wa wq vs out \<noteq> Panic"
    using read_write_law [OF wf(1), of out ra rq wa wq vs] by (auto simp: slice_call_def)
  ultimately show ?thesis
    using wf try_new_sizes [OF assms(1)] setup_not_Panic coil_writes_not_Panic
    by (simp add: same_sizes_def write_register_closed mask_write_closed write_file_record_be_closed)
qed

text \<open>A small store: 16 coils, 16 discrete inputs, 4 holding and 4 input registers, all clear.\<close>

definition small_config :: StoreConfig where
  "small_config = \<lparr>coil_count = 16, discrete_input_count = 16, holding_register_count = 4,
     input_register_count = 4\<rparr>"

definition small_store :: InMemoryStore where
  "small_store = \<lparr>coils = BitTable_new 16, discrete_inputs = BitTable_new 16,
     holding_registers = replicate 4 0, input_registers = replicate 4 0, files = Map.empty,
     fifo_queues = Map.empty, exception_status = 0,
     server_id = [0x72, 0x75, 0x73, 0x74, 0x79, 0x2D, 0x6D, 0x6F, 0x64, 0x62, 0x75, 0x73, 0xFF]\<rparr>"

lemma small_store_new: "InMemoryStore_try_new small_config = Ok small_store"
  by (simp add: small_config_def small_store_def InMemoryStore_try_new_def StoreConfig_validate_def
      validate_table_size_def)

lemma small_store_wf: "InMemoryStore_wf small_store"
  using small_store_new by (rule InMemoryStore_try_new_wf)

theorem store_invariant_witness:
  "\<exists>s. InMemoryStore_write_register small_store 2 0xABCD = Ok s \<and> InMemoryStore_wf s
     \<and> length (holding_registers s) = 4 \<and> InMemoryStore_write_coils_packed s 3 9 [0x05, 0x01] \<noteq> Panic"
proof -
  obtain s where s: "InMemoryStore_write_register small_store 2 0xABCD = Ok s"
    by (simp add: write_register_closed small_store_wf) (simp add: small_store_def)
  then have "store_step\<^sup>*\<^sup>* small_store s" by (intro r_into_rtranclp store_step.write_register)
  from store_invariant [OF small_store_new this, where q = 9 and a = 3 and vs = "[0x05, 0x01]"] s
  show ?thesis by (auto simp: small_config_def)
qed











end
