(* ===== verification/Handler_Laws.thy ===== *)
theory Handler_Laws
  imports Server_Handler Store_Laws Codec_Roundtrip
begin

text \<open>
  Request processing over any store that keeps the \<open>data_store\<close> contract.  \<open>yields E P c\<close> says of the
  outcome of a step that it is no panic, that a result satisfies \<open>P\<close> and an early return \<open>E\<close>, both
  together with the state; the rules below follow the sequential composition of the handlers.
\<close>

section \<open>Outcomes of steps\<close>

definition yields
  :: "('e \<Rightarrow> 's \<Rightarrow> bool) \<Rightarrow> ('a \<Rightarrow> 's \<Rightarrow> bool) \<Rightarrow> ('e, 'a) res \<times> 's \<Rightarrow> bool" where
  "yields E P c \<longleftrightarrow> (case fst c of Ok x \<Rightarrow> P x (snd c) | Err e \<Rightarrow> E e (snd c) | Panic \<Rightarrow> False)"

lemma yields_simps [simp]:
  "yields E P (Ok x, s) \<longleftrightarrow> P x s" "yields E P (Err e, s) \<longleftrightarrow> E e s" "\<not> yields E P (Panic, s)"
  by (simp_all add: yields_def)

lemma yields_then:
  "yields E Q c \<Longrightarrow> (\<And>x s. Q x s \<Longrightarrow> yields E P (f x s)) \<Longrightarrow> yields E P (call_then c f)"
  by (cases c; cases "fst c") (auto simp: yields_def)

lemma yields_returned: "yields P P c \<Longrightarrow> yields (\<lambda>_ _. False) P (returned c)"
  by (cases c; cases "fst c") auto

lemma plain_call_yields: "plain_call good c \<longleftrightarrow> yields (\<lambda>_. good) (\<lambda>_. good) c"
  by (cases c; cases "fst c") (auto simp: plain_call_def)

section \<open>Answers\<close>

text \<open>
  An answer to function code \<open>fc\<close>: it repeats the function code and fits a PDU, or it is an
  exception for that code.
\<close>

definition response_ok :: "u8 \<Rightarrow> bytes \<Rightarrow> bool" where
  "response_ok fc r \<longleftrightarrow> (\<exists>d. r = fc # d \<and> length r \<le> MAX_PDU_SIZE) \<or> (\<exists>e. r = [fc OR 0x80, ExceptionCode_code e])"

lemma response_ok_exception [simp]:
  "response_ok (FunctionCode_code fc) (exception_of fc e)" "response_ok b (encode_exception (b OR 0x80) e)"
  "response_ok (FunctionCode_code fc) (encode_failure (FunctionCode_exception_code fc))"
proof -
  show *: "response_ok b (encode_exception (b OR 0x80) e)" for b e by (auto simp: response_ok_def encode_exception_def)
  show "response_ok (FunctionCode_code fc) (exception_of fc e)"
    using * by (simp add: FunctionCode_exception_code_def)
  show "response_ok (FunctionCode_code fc) (encode_failure (FunctionCode_exception_code fc))"
    using * [of _ ServerDeviceFailure] by (simp add: FunctionCode_exception_code_def encode_failure_def encode_exception_def)
qed

lemma response_okI: "length d < 253 \<Longrightarrow> response_ok fc (fc # d)"
  by (simp add: response_ok_def)

abbreviation answers :: "('s \<Rightarrow> bool) \<Rightarrow> u8 \<Rightarrow> ('s, bytes) call \<Rightarrow> bool" where
  "answers good fc \<equiv> yields (\<lambda>_ _. False) (\<lambda>r s. good s \<and> response_ok fc r)"

lemma encode_response_wire:
  assumes "encodable enc n ok wire"
  shows "encode_response fc n enc r =
    Ok (if ok r then wire r else encode_failure (FunctionCode_exception_code fc))"
proof (cases "ok r")
  case True
  then show ?thesis
    using encodable.encode_ok [OF assms True, of "replicate (n r) 0"] encodable.wire_length [OF assms True]
    by (simp add: encode_response_def)
next
  case False
  then show ?thesis
    using encodable.encode_invalid [OF assms False, of "replicate (n r) 0"] by (auto simp: encode_response_def)
qed

lemma encode_response_ok:
  assumes "pdu_codec enc n ok code payload valid dec" "code = FunctionCode_code fc"
  shows "\<exists>b. encode_response fc n enc r = Ok b \<and> response_ok code b"
proof -
  note e = pdu_codec.axioms(1) [OF assms(1)]
  have "response_ok code (code # payload r)" if "ok r"
    using encodable.wire_length [OF e that] encodable.encoded_len_max [OF e that] by (intro response_okI) simp
  then show ?thesis unfolding encode_response_wire [OF e] assms(2) by simp
qed

lemma validators_not_Panic [simp]:
  "validate_read_registers a q \<noteq> Panic" "validate_read_coils a q \<noteq> Panic"
  "validate_read_discrete_inputs a q \<noteq> Panic" "validate_mask_write_address a \<noteq> Panic"
  "validate_write_registers a q b \<noteq> Panic" "validate_write_coils a q b \<noteq> Panic"
  "validate_read_write_registers ra rq wa wq b \<noteq> Panic"
  by (simp_all add: validate_read_registers_def validate_read_coils_def validate_read_discrete_inputs_def
      validate_mask_write_address_def validate_write_registers_def validate_write_coils_def
      validate_read_write_registers_def validate_address_range_def u16_mul_def res_simps Let_def
      word_less_nat_alt)

lemma validate_read_registers_bound: "validate_read_registers a q = Ok () \<Longrightarrow> unat q \<le> 125"
  by (auto simp: validate_read_registers_def word_less_nat_alt split: if_splits)


section \<open>The reading handlers in closed form\<close>

text \<open>What a reading handler makes of the store's answer for \<open>n\<close> bytes of data.\<close>

definition read_answer :: "FunctionCode \<Rightarrow> nat \<Rightarrow> u16 \<Rightarrow> ('s, nat \<times> bytes) call \<Rightarrow> ('s, bytes) call" where
  "read_answer fc n q c =
     (case fst c of
        Ok (count, out) \<Rightarrow>
          Ok (if count = unat q then FunctionCode_code fc # u8_of_nat n # out
              else exception_of fc ServerDeviceFailure)
      | Err e \<Rightarrow> Ok (exception_of fc e)
      | Panic \<Rightarrow> Panic, snd c)"

lemma with_header_slice:
  "with_slice (x # y # replicate n 0) 2 (Suc (Suc n)) f s =
     call_then (f (replicate n 0) s) (\<lambda>(m, out) s. (Ok (m, x # y # out), s))"
  by (simp add: with_slice_def)

lemma read_steps_closed:
  assumes "n \<le> 255"
  shows "returned (
     call_then (checked_response_u8 n fc, s) (\<lambda>byte_count s.
     let response_fc = fc; response = replicate (2 + unat byte_count) 0 in
     call_then (put_at response 0 (FunctionCode_code response_fc), s) (\<lambda>response s.
     call_then (put_at response 1 byte_count, s) (\<lambda>response s.
     call_then (call_map_err (exception_of fc) (with_slice response 2 (length response) f s)) (\<lambda>(count, response) s.
     call_then (map_err (exception_of fc) (validate_store_count count q (unat q)), s) (\<lambda>_ s.
     (Ok response, s)))))))
   = read_answer fc n q (f (replicate n 0) s)"
proof -
  obtain r s' where c: "f (replicate n 0) s = (r, s')" by (cases "f (replicate n 0) s")
  show ?thesis
    using assms
    by (cases r) (auto simp: checked_response_u8_def with_header_slice c read_answer_def
        validate_store_count_def split: if_splits)
qed

lemma handle_read_registers_closed:
  assumes "fc = (if h then FunctionCode.ReadHoldingRegisters else FunctionCode.ReadInputRegisters)"
  shows "handle_read_registers fc a q store h s =
    (case validate_read_registers a q of
       Ok _ \<Rightarrow> read_answer fc (unat q * 2) q
         ((if h then read_holding_registers_be store s a q else read_input_registers_be store s a q)
            (replicate (unat q * 2) 0))
     | Err e \<Rightarrow> (Ok (exception_of fc e), s) | Panic \<Rightarrow> (Panic, s))"
proof (cases "validate_read_registers a q")
  case (Ok u)
  then have "unat q * 2 \<le> 255" using validate_read_registers_bound [of a q] by simp
  from read_steps_closed [OF this, of fc s _ q] Ok show ?thesis
    by (cases h) (simp_all add: handle_read_registers_def assms)
qed (simp_all add: handle_read_registers_def)


lemma validate_read_bits_bound:
  "validate_read_coils a q = Ok () \<Longrightarrow> unat q \<le> 2000" "validate_read_discrete_inputs a q = Ok () \<Longrightarrow> unat q \<le> 2000"
  by (auto simp: validate_read_coils_def validate_read_discrete_inputs_def word_less_nat_alt split: if_splits)

lemma packed_bytes_bound: "n \<le> 2000 \<Longrightarrow> div_ceil n 8 \<le> 250"
  using div_ceil_8_le [of n] by linarith

abbreviation validate_read_bits :: "bool \<Rightarrow> u16 \<Rightarrow> u16 \<Rightarrow> (ExceptionCode, unit) res" where
  "validate_read_bits is_coils a q \<equiv>
     (if is_coils then validate_read_coils a q else validate_read_discrete_inputs a q)"

lemma handle_read_bits_closed:
  assumes "fc = (if is_coils then FunctionCode.ReadCoils else FunctionCode.ReadDiscreteInputs)"
  shows "handle_read_bits fc a q store is_coils s =
    (case validate_read_bits is_coils a q of
       Ok _ \<Rightarrow> read_answer fc (div_ceil (unat q) 8) q
         ((if is_coils then read_coils_packed store s a q else read_discrete_inputs_packed store s a q)
            (replicate (div_ceil (unat q) 8) 0))
     | Err e \<Rightarrow> (Ok (exception_of fc e), s) | Panic \<Rightarrow> (Panic, s))"
proof (cases "validate_read_bits is_coils a q")
  case (Ok u)
  then have "unat q \<le> 2000" using validate_read_bits_bound [of a q] by (cases is_coils) simp_all
  from packed_bytes_bound [OF this] have "div_ceil (unat q) 8 \<le> 255" by simp
  from read_steps_closed [OF this, of fc s _ q] Ok show ?thesis
    by (cases is_coils) (simp_all add: handle_read_bits_def assms)
qed (simp_all add: handle_read_bits_def)

lemma validate_read_write_bound:
  "validate_read_write_registers ra rq wa wq b = Ok () \<Longrightarrow>
     unat rq \<in> {1..125} \<and> unat wq \<in> {1..121} \<and> unat b = 2 * unat wq
     \<and> unat ra + unat rq \<le> 65536 \<and> unat wa + unat wq \<le> 65536"
  by (auto simp: validate_read_write_registers_def validate_address_range_eq in_address_space_def u16_mul_def
      word_less_nat_alt ucast_u8_u16_eq_iff word_le_nat_alt unat_eq_zero Suc_le_eq unat_gt_0 split: if_splits)

lemma handle_read_write_multiple_closed:
  "handle_read_write_multiple req store s =
    (case validate_read_write_registers (read_address req) (read_quantity req) (write_address req)
            (write_quantity req) (write_byte_count req) of
       Ok _ \<Rightarrow> read_answer FunctionCode.ReadWriteMultipleRegisters (unat (read_quantity req) * 2) (read_quantity req)
         (atomic_read_write_registers_be store s (read_address req) (read_quantity req) (write_address req)
            (write_quantity req) (write_register_values req) (replicate (unat (read_quantity req) * 2) 0))
     | Err e \<Rightarrow> (Ok (exception_of FunctionCode.ReadWriteMultipleRegisters e), s) | Panic \<Rightarrow> (Panic, s))"
proof (cases "validate_read_write_registers (read_address req) (read_quantity req) (write_address req)
    (write_quantity req) (write_byte_count req)")
  case (Ok u)
  then have "unat (read_quantity req) * 2 \<le> 255" by (auto dest: validate_read_write_bound)
  from read_steps_closed [OF this, of FunctionCode.ReadWriteMultipleRegisters s _ "read_quantity req"] Ok
  show ?thesis by (simp add: handle_read_write_multiple_def)
qed (simp_all add: handle_read_write_multiple_def)

section \<open>The other handlers in closed form\<close>

lemma handle_custom_request_closed:
  "handle_custom_request u fc d store s =
    (let c = handle_custom_function store s u fc d (replicate 252 0) in
     (case fst c of
        Ok (n, out) \<Rightarrow> Ok (if n < 253 then fc # take n out else encode_exception (fc OR 0x80) ServerDeviceFailure)
      | Err e \<Rightarrow> Ok (encode_exception (fc OR 0x80) e)
      | Panic \<Rightarrow> Panic, snd c))"
proof -
  obtain r s' where c: "handle_custom_function store s u fc d (replicate 252 0) = (r, s')"
    by (cases "handle_custom_function store s u fc d (replicate 252 0)")
  have "replicate 253 0 = (0 :: u8) # replicate 252 0" by (simp add: numeral_eq_Suc)
  then show ?thesis
    by (cases r) (auto simp: handle_custom_request_def with_slice_def c)
qed

text \<open>Handlers that let the store append to the response: the answer when it appended \<open>ext\<close>.\<close>

lemma handle_report_server_id_Ok:
  "append_server_id store s [0x11, 0] = (Ok (n, [0x11, 0] @ ext), s') \<Longrightarrow>
     handle_report_server_id store s =
       (Ok (if n = length ext \<and> n \<le> 251 then 0x11 # u8_of_nat n # ext
            else exception_of FunctionCode.ReportServerId ServerDeviceFailure), s')"
  by (simp add: handle_report_server_id_def checked_response_u8_def Let_def)

lemma replicate_6: "replicate 6 x = [x, x, x, x, x, x]"
  by (simp add: numeral_eq_Suc)

lemma handle_comm_event_log_Ok:
  "append_comm_event_log store s [0x0C, 0, 0, 0, 0, 0, 0, 0] = (Ok (m, [0x0C, 0, 0, 0, 0, 0, 0, 0] @ ext), s') \<Longrightarrow>
     handle_comm_event_log store s =
       (Ok (if length ext \<le> 64
            then 0x0C # u8_of_nat (length ext + 6) # u16_to_be_bytes (CommEventLogMeta.status m)
              @ u16_to_be_bytes (CommEventLogMeta.event_count m)
              @ u16_to_be_bytes (CommEventLogMeta.message_count m) @ ext
            else exception_of FunctionCode.GetCommEventLog ServerDeviceFailure), s')"
  by (simp add: handle_comm_event_log_def checked_response_u8_def Let_def replicate_6 u16_to_be_bytes_def
      copy_at_def)

lemma handle_diagnostics_Ok:
  "append_diagnostic_response store s sub d (0x08 # u16_to_be_bytes (DiagnosticSubFunction_code sub))
     = (Ok (a, 0x08 # u16_to_be_bytes (DiagnosticSubFunction_code sub) @ ext), s') \<Longrightarrow>
     handle_diagnostics sub d store s =
       (Ok (case a of
          Some n \<Rightarrow> Some (if n = length ext \<and> n \<le> 250 \<and> even n
                      then 0x08 # u16_to_be_bytes (DiagnosticSubFunction_code sub) @ ext
                      else exception_of FunctionCode.Diagnostics ServerDeviceFailure)
        | None \<Rightarrow> None), s')"
  by (auto simp: handle_diagnostics_def Let_def even_iff_mod_2_eq_zero split: option.split)

lemma append_handlers_Err:
  "append_server_id store s [0x11, 0] = (Err e, s') \<Longrightarrow>
     handle_report_server_id store s = (Ok (exception_of FunctionCode.ReportServerId e), s')"
  "append_comm_event_log store s [0x0C, 0, 0, 0, 0, 0, 0, 0] = (Err e, s') \<Longrightarrow>
     handle_comm_event_log store s = (Ok (exception_of FunctionCode.GetCommEventLog e), s')"
  "append_diagnostic_response store s sub d (0x08 # u16_to_be_bytes (DiagnosticSubFunction_code sub)) = (Err e, s') \<Longrightarrow>
     handle_diagnostics sub d store s = (Ok (Some (exception_of FunctionCode.Diagnostics e)), s')"
  by (simp_all add: handle_report_server_id_def handle_comm_event_log_def handle_diagnostics_def Let_def replicate_6)

lemma handle_read_fifo_queue_closed:
  assumes "slice_call good 62 (read_fifo_queue_be store s a (replicate 62 0))"
  shows "handle_read_fifo_queue a store s =
    (let c = read_fifo_queue_be store s a (replicate 62 0); fc = FunctionCode.ReadFifoQueue in
     (case fst c of
        Ok (n, out) \<Rightarrow>
          Ok (if n \<le> 31 then 0x18 # u16_to_be_bytes (of_nat (2 + n * 2)) @ u16_to_be_bytes (of_nat n) @ take (n * 2) out
              else exception_of fc IllegalDataValue)
      | Err e \<Rightarrow> Ok (exception_of fc e)
      | Panic \<Rightarrow> Panic, snd c))"
proof -
  obtain r s' where c: "read_fifo_queue_be store s a (replicate 62 0) = (r, s')"
    by (cases "read_fifo_queue_be store s a (replicate 62 0)")
  have "replicate 67 0 = [0, 0, 0, 0, 0 :: u8] @ replicate 62 0" by (simp add: numeral_eq_Suc)
  moreover have "take (5 + k) (v # w # x # y # z # xs) = v # w # x # y # z # take k xs" for k v w x y and z :: u8 and xs
    by (simp add: numeral_eq_Suc)
  ultimately show ?thesis
    using assms c
    by (cases r) (auto simp: handle_read_fifo_queue_def with_slice_def slice_call_def checked_response_u16_def
        copy_at_def u16_to_be_bytes_def)
qed


text \<open>One sub-request of a file record read, by its fields.\<close>

lemma read_file_group_closed:
  assumes "slice_call good (unat n * 2) (read_file_record_be ds s fl rec n (replicate (unat n * 2) 0))"
    "2 \<le> length response"
    and f: "fl = u16_from_be_bytes f1 f0" "rec = u16_from_be_bytes r1 r0" "n = u16_from_be_bytes n1 n0"
  shows "read_file_group ds [x, f1, f0, r1, r0, n1, n0] response s =
    (let fc = FunctionCode.ReadFileRecord;
         c = read_file_record_be ds s fl rec n (replicate (unat n * 2) 0) in
     if x \<noteq> 6 \<or> \<not> (fl \<noteq> 0 \<and> 0 < unat n \<and> unat rec + unat n \<le> 10000) \<or> 122 < unat n
     then (Err (exception_of fc IllegalDataAddress), s)
     else (case fst c of
         Ok (k, out) \<Rightarrow>
           if k \<noteq> unat n then Err (exception_of fc ServerDeviceFailure)
           else if 250 < length response + 2 * unat n then Err (exception_of fc IllegalDataValue)
           else Ok (response @ [u8_of_nat (1 + 2 * unat n), 6] @ out)
       | Err e \<Rightarrow> Err (exception_of fc e) | Panic \<Rightarrow> Panic, snd c))"
proof (cases "x \<noteq> 6 \<or> \<not> (fl \<noteq> 0 \<and> 0 < unat n \<and> unat rec + unat n \<le> 10000) \<or> 122 < unat n")
  case True
  then show ?thesis
    by (auto simp: read_file_group_def be16_at_def f [symmetric] file_record_validate_range_closed Let_def)
next
  case False
  let ?z = "replicate (unat n * 2) (0 :: u8)"
  obtain r s' where c: "read_file_record_be ds s fl rec n ?z = (r, s')"
    by (cases "read_file_record_be ds s fl rec n ?z")
  have "resize response (length response + 2 + unat n * 2) 0 = (response @ [0, 0]) @ ?z"
    by (simp add: resize_def replicate_add [symmetric] mult.commute)
  then show ?thesis
    using False assms(1,2) c
    by (cases r) (auto simp: read_file_group_def be16_at_def f [symmetric] file_record_validate_range_closed
        with_slice_def slice_call_def validate_store_count_def checked_response_u8_def usize_sub_def Let_def
        list_update_append nth_append)
qed


section \<open>The handlers over any store\<close>

lemma length_eq_7: "length xs = 7 \<longleftrightarrow> (\<exists>a b c d e f g. xs = [a, b, c, d, e, f, g])"
  by (auto simp: numeral_eq_Suc length_Suc_conv)

section \<open>Replies\<close>

text \<open>
  The outcome of a request with function code \<open>fc\<close>: no answer to a broadcast, otherwise an answer
  (a diagnostic request may go without).
\<close>

definition reply_ok :: "('s \<Rightarrow> bool) \<Rightarrow> bool \<Rightarrow> u8 \<Rightarrow> ('s, bytes option) call \<Rightarrow> bool" where
  "reply_ok good bc fc = yields (\<lambda>_ _. False)
     (\<lambda>r s. good s \<and> (bc \<longrightarrow> r = None) \<and> (r = None \<longrightarrow> bc \<or> fc = 0x08) \<and> (\<forall>b. r = Some b \<longrightarrow> response_ok fc b))"

lemma read_reply_ok:
  assumes "answers good fc (h s)" "good s"
  shows "reply_ok good bc fc (read_reply bc h s)"
proof (cases bc)
  case False
  then show ?thesis
    unfolding reply_ok_def read_reply_def using yields_then [OF assms(1)] by (simp add: yields_then [OF assms(1)])
qed (use assms(2) in \<open>simp add: reply_ok_def read_reply_def\<close>)

lemma write_reply_ok:
  assumes "\<exists>b. resp = Ok b \<and> response_ok code b" "code = FunctionCode_code fc" "plain_call good c"
  shows "reply_ok good bc code (write_reply bc fc c resp)"
  using assms by (cases c; cases "fst c") (auto simp: plain_call_def reply_ok_def write_reply_def res_map_def)

lemma encoded_reply_ok:
  "\<exists>b. resp = Ok b \<and> response_ok code b \<Longrightarrow> good s \<Longrightarrow> reply_ok good False code (res_map Some resp, s)"
  by (auto simp: reply_ok_def res_map_def)

lemma exception_reply_ok:
  "response_ok code (exception_of fc e) \<Longrightarrow> good s \<Longrightarrow> reply_ok good False code (Ok (Some (exception_of fc e)), s)"
  by (simp add: reply_ok_def)

lemma no_reply_ok: "good s \<Longrightarrow> reply_ok good True code (Ok None, s)"
  by (simp add: reply_ok_def)

lemma encoded_responses:
  "\<exists>b. encode_response FunctionCode.WriteSingleCoil WriteSingleCoilResponse_encoded_len
       WriteSingleCoilResponse_encode_into r0 = Ok b \<and> response_ok 0x05 b"
  "\<exists>b. encode_response FunctionCode.WriteSingleRegister WriteSingleRegisterResponse_encoded_len
       WriteSingleRegisterResponse_encode_into r1 = Ok b \<and> response_ok 0x06 b"
  "\<exists>b. encode_response FunctionCode.WriteMultipleCoils WriteMultipleCoilsResponse_encoded_len
       WriteMultipleCoilsResponse_encode_into r2 = Ok b \<and> response_ok 0x0F b"
  "\<exists>b. encode_response FunctionCode.WriteMultipleRegisters WriteMultipleRegistersResponse_encoded_len
       WriteMultipleRegistersResponse_encode_into r3 = Ok b \<and> response_ok 0x10 b"
  "\<exists>b. encode_response FunctionCode.MaskWriteRegister MaskWriteRegisterResponse_encoded_len
       MaskWriteRegisterResponse_encode_into r4 = Ok b \<and> response_ok 0x16 b"
  "\<exists>b. encode_response FunctionCode.WriteFileRecord WriteFileRecordResponse_encoded_len
       WriteFileRecordResponse_encode_into r5 = Ok b \<and> response_ok 0x15 b"
  "\<exists>b. encode_response FunctionCode.ReadExceptionStatus ReadExceptionStatusResponse_encoded_len
       ReadExceptionStatusResponse_encode_into r6 = Ok b \<and> response_ok 0x07 b"
  "\<exists>b. encode_response FunctionCode.GetCommEventCounter GetCommEventCounterResponse_encoded_len
       GetCommEventCounterResponse_encode_into r7 = Ok b \<and> response_ok 0x0B b"
  by (rule encode_response_ok,
    rule write_single_coil_rs.pdu_codec_axioms
      write_single_register_rs.pdu_codec_axioms
      write_multiple_coils_rs.pdu_codec_axioms
      write_multiple_registers_rs.pdu_codec_axioms
      mask_write_register_rs.pdu_codec_axioms
      write_file_record_rs.pdu_codec_axioms
      read_exception_status_rs.pdu_codec_axioms
      get_comm_event_counter_rs.pdu_codec_axioms, simp)+

context data_store
begin

lemma read_answer_answers:
  assumes "slice_call good n c" "n \<le> 251"
  shows "answers good (FunctionCode_code fc) (read_answer fc n q c)"
proof -
  have "response_ok (FunctionCode_code fc) (FunctionCode_code fc # b # out)" if "length out \<le> 251" for b out
    using that by (simp add: response_ok_def)
  then show ?thesis
    using assms by (cases c; cases "fst c") (auto simp: read_answer_def slice_call_def)
qed

lemma read_registers_answers:
  assumes "good s" "fc = (if h then FunctionCode.ReadHoldingRegisters else FunctionCode.ReadInputRegisters)"
  shows "answers good (FunctionCode_code fc) (handle_read_registers fc a q ds h s)"
proof (cases "validate_read_registers a q")
  case (Ok u)
  then have "unat q * 2 \<le> 251" using validate_read_registers_bound [of a q] by simp
  then show ?thesis
    using Ok read_holding_registers_be_law [OF assms(1), of "replicate (unat q * 2) 0" a q]
      read_input_registers_be_law [OF assms(1), of "replicate (unat q * 2) 0" a q]
    by (auto simp: handle_read_registers_closed [OF assms(2)] intro!: read_answer_answers)
qed (simp_all add: handle_read_registers_closed [OF assms(2)] assms(1))

lemma read_bits_answers:
  assumes "good s" "fc = (if c then FunctionCode.ReadCoils else FunctionCode.ReadDiscreteInputs)"
  shows "answers good (FunctionCode_code fc) (handle_read_bits fc a q ds c s)"
proof (cases "validate_read_bits c a q")
  case (Ok u)
  then have "unat q \<le> 2000" using validate_read_bits_bound [of a q] by (cases c) simp_all
  from packed_bytes_bound [OF this] have "div_ceil (unat q) 8 \<le> 251" by simp
  then show ?thesis
    using Ok read_coils_packed_law [OF assms(1), of "replicate (div_ceil (unat q) 8) 0" a q]
      read_discrete_inputs_packed_law [OF assms(1), of "replicate (div_ceil (unat q) 8) 0" a q]
    by (auto simp: handle_read_bits_closed [OF assms(2)] intro!: read_answer_answers)
next
  case (Err e)
  then show ?thesis using assms(1) by (simp add: handle_read_bits_closed [OF assms(2)])
next
  case Panic
  then show ?thesis by (cases c) simp_all
qed

lemma read_write_answers:
  assumes "good s"
  shows "answers good 0x17 (handle_read_write_multiple req ds s)"
proof (cases "validate_read_write_registers (read_address req) (read_quantity req) (write_address req)
    (write_quantity req) (write_byte_count req)")
  case (Ok u)
  then have "unat (read_quantity req) * 2 \<le> 251" by (auto dest: validate_read_write_bound)
  then show ?thesis
    using Ok read_answer_answers [of "unat (read_quantity req) * 2" _ FunctionCode.ReadWriteMultipleRegisters]
      atomic_read_write_registers_be_law [OF assms, of "replicate (unat (read_quantity req) * 2) 0"]
    by (auto simp: handle_read_write_multiple_closed)
qed (use response_ok_exception(1) [of FunctionCode.ReadWriteMultipleRegisters] assms in
    \<open>simp_all add: handle_read_write_multiple_closed\<close>)

lemma read_file_group_yields:
  assumes "good s" "length chunk = 7" "response = 0x14 # 0 # rest"
  shows "yields (\<lambda>r s. good s \<and> response_ok 0x14 r)
    (\<lambda>r s. good s \<and> length r \<le> 252 \<and> (\<exists>rest. r = 0x14 # 0 # rest)) (read_file_group ds chunk response s)"
proof -
  obtain x f1 f0 r1 r0 n1 n0 where c: "chunk = [x, f1, f0, r1, r0, n1, n0]"
    using assms(2) unfolding length_eq_7 by blast
  let ?n = "u16_from_be_bytes n1 n0"
  have law: "slice_call good (unat ?n * 2) (read_file_record_be ds s (u16_from_be_bytes f1 f0)
      (u16_from_be_bytes r1 r0) ?n (replicate (unat ?n * 2) 0))"
    using read_file_record_be_law [OF assms(1), of "replicate (unat ?n * 2) 0"] by simp
  have exc: "response_ok 0x14 (exception_of FunctionCode.ReadFileRecord e)" for e
    using response_ok_exception(1) [of FunctionCode.ReadFileRecord e] by simp
  have "2 \<le> length response" using assms(3) by simp
  from law assms(1,3) show ?thesis
    unfolding c read_file_group_closed [OF law \<open>2 \<le> length response\<close> refl refl refl] Let_def
    by (auto simp: yields_def slice_call_def exc split: res.splits)
qed

lemma read_file_groups_yields:
  assumes "good s" "\<forall>c \<in> set cs. length c = 7" "response = 0x14 # 0 # rest" "length response \<le> 252"
  shows "yields (\<lambda>r s. good s \<and> response_ok 0x14 r)
    (\<lambda>r s. good s \<and> length r \<le> 252 \<and> (\<exists>rest. r = 0x14 # 0 # rest)) (read_file_groups ds cs response s)"
  using assms
proof (induction cs arbitrary: response rest s)
  case (Cons c cs)
  have "length c = 7" using Cons.prems(2) by simp
  from read_file_group_yields [OF Cons.prems(1) this Cons.prems(3)] show ?case
    unfolding read_file_groups.simps
  proof (rule yields_then)
    fix r :: bytes and s assume "good s \<and> length r \<le> 252 \<and> (\<exists>rest. r = 0x14 # 0 # rest)"
    then show "yields (\<lambda>r s. good s \<and> response_ok 0x14 r)
        (\<lambda>r s. good s \<and> length r \<le> 252 \<and> (\<exists>rest. r = 0x14 # 0 # rest)) (read_file_groups ds cs r s)"
      using Cons.IH [of s r] Cons.prems(2) by auto
  qed
qed simp

lemma read_file_record_answers:
  assumes "good s"
  shows "answers good 0x14 (handle_read_file_record req ds s)"
proof -
  have exc: "response_ok 0x14 (exception_of FunctionCode.ReadFileRecord e)" for e
    using response_ok_exception(1) [of FunctionCode.ReadFileRecord e] by simp
  have groups: "yields (\<lambda>r s. good s \<and> response_ok 0x14 r)
      (\<lambda>r s. good s \<and> length r \<le> 252 \<and> (\<exists>rest. r = 0x14 # 0 # rest))
      (read_file_groups ds (chunks_exact 7 (ReadFileRecordRequest.sub_requests req)) [0x14, 0] s)"
    using assms chunks_exact_length by (intro read_file_groups_yields) auto
  show ?thesis
  proof (cases "ReadFileRecordRequest.sub_requests req = [] \<or> length (ReadFileRecordRequest.sub_requests req) mod 7 \<noteq> 0
      \<or> length (ReadFileRecordRequest.sub_requests req) > 0xF5")
    case True
    then show ?thesis using assms exc by (auto simp: handle_read_file_record_def Let_def)
  next
    case False
    show ?thesis
      unfolding handle_read_file_record_def Let_def if_not_P [OF False] FunctionCode_code.simps
      by (intro yields_returned yields_then [OF groups])
        (auto simp: usize_sub_def checked_response_u8_def response_ok_def)
  qed
qed

lemma write_groups_plain: "good s \<Longrightarrow> plain_call good (write_groups ds gs s)"
  unfolding plain_call_yields
proof (induction gs arbitrary: s)
  case (Cons g gs)
  note law = write_file_record_be_law [OF Cons.prems, unfolded plain_call_yields]
  show ?case unfolding write_groups.simps by (rule yields_then [OF law]) (rule Cons.IH)
qed simp

lemma parse_write_group_not_Panic: "parse_write_group subs k \<noteq> Panic"
  by (auto simp: parse_write_group_def be16_at_def res_simps Let_def file_record_validate_range_closed
      split: if_splits)

lemma parse_write_groups_not_Panic: "parse_write_groups subs gs \<noteq> Panic"
proof (induction subs gs rule: parse_write_groups.induct)
  case (1 subs gs)
  then show ?case
    using parse_write_group_not_Panic [of subs "length gs"]
    by (subst parse_write_groups.simps) (auto split: res.split)
qed

lemma apply_write_file_record_plain: "good s \<Longrightarrow> plain_call good (apply_write_file_record req ds s)"
  using write_groups_plain parse_write_groups_not_Panic [of "WriteFileRecordRequest.sub_requests req" "[]"]
  by (cases "parse_write_groups (WriteFileRecordRequest.sub_requests req) []")
    (auto simp: apply_write_file_record_def plain_call_def)

lemma mask_write_plain: "good s \<Longrightarrow> plain_call good (handle_mask_write a am om ds s)"
  using atomic_mask_write_register_law [of s a am om] validators_not_Panic(4) [of a]
  by (cases "validate_mask_write_address a") (auto simp: handle_mask_write_def plain_call_def)

lemma read_fifo_answers:
  assumes "good s"
  shows "answers good 0x18 (handle_read_fifo_queue a ds s)"
proof -
  have law: "slice_call good 62 (read_fifo_queue_be ds s a (replicate 62 0))"
    using read_fifo_queue_be_law [OF assms, of "replicate 62 0"] by simp
  have exc: "response_ok 0x18 (exception_of FunctionCode.ReadFifoQueue e)" for e
    using response_ok_exception(1) [of FunctionCode.ReadFifoQueue e] by simp
  have "response_ok 0x18 (0x18 # u16_to_be_bytes x @ u16_to_be_bytes y @ take (n * 2) out)"
    if "length out = 62" for x y n and out :: bytes
    using that by (simp add: response_ok_def u16_to_be_bytes_def)
  with law show ?thesis
    by (cases "fst (read_fifo_queue_be ds s a (replicate 62 0))")
      (auto simp: handle_read_fifo_queue_closed [OF law] Let_def slice_call_def exc)
qed

lemma custom_answers:
  assumes "good s"
  shows "answers good fc (handle_custom_request u fc d ds s)"
proof -
  let ?c = "handle_custom_function ds s u fc d (replicate 252 0)"
  have law: "slice_call good 252 ?c"
    using handle_custom_function_law [OF assms, of "replicate 252 0"] by simp
  have "response_ok fc (fc # take n out)" if "length out = 252" for n out
    using that by (simp add: response_ok_def)
  with law show ?thesis
    by (cases "fst ?c") (auto simp: handle_custom_request_closed Let_def slice_call_def)
qed

lemma append_call_cases [consumes 1]:
  assumes "append_call good out c"
  obtains (Ok) x ext s' where "c = (Ok (x, out @ ext), s')" "good s'"
  | (Err) e s' where "c = (Err e, s')" "good s'"
proof (cases "fst c")
  case (Ok z)
  then have "good (snd c)" "take (length out) (snd z) = out"
    using assms by (auto simp: append_call_def split: prod.splits)
  then have "c = (Ok (fst z, out @ drop (length out) (snd z)), snd c)"
    using Ok append_take_drop_id [of "length out" "snd z"] by (metis prod.collapse)
  from this \<open>good (snd c)\<close> show ?thesis by (rule that(1))
next
  case (Err e)
  then show ?thesis using assms that(2) [of e "snd c"] by (auto simp: append_call_def prod_eq_iff)
qed (use assms in \<open>simp add: append_call_def\<close>)

lemma server_id_answers:
  assumes "good s"
  shows "answers good 0x11 (handle_report_server_id ds s)"
  using append_server_id_law [OF assms, of "[0x11, 0]"]
proof (cases rule: append_call_cases)
  case (Ok n ext s')
  then show ?thesis
    using response_ok_exception(1) [of FunctionCode.ReportServerId]
    by (auto simp: handle_report_server_id_Ok intro: response_okI)
next
  case (Err e s')
  then show ?thesis
    using response_ok_exception(1) [of FunctionCode.ReportServerId] by (simp add: append_handlers_Err(1))
qed

lemma event_log_answers:
  assumes "good s"
  shows "answers good 0x0C (handle_comm_event_log ds s)"
  using append_comm_event_log_law [OF assms, of "[0x0C, 0, 0, 0, 0, 0, 0, 0]"]
proof (cases rule: append_call_cases)
  case (Ok m ext s')
  then show ?thesis
    using response_ok_exception(1) [of FunctionCode.GetCommEventLog]
    by (auto simp: handle_comm_event_log_Ok u16_to_be_bytes_def intro: response_okI)
next
  case (Err e s')
  then show ?thesis
    using response_ok_exception(1) [of FunctionCode.GetCommEventLog] by (simp add: append_handlers_Err(2))
qed

lemma diagnostics_answers:
  assumes "good s"
  shows "yields (\<lambda>_ _. False) (\<lambda>r s. good s \<and> (\<forall>b. r = Some b \<longrightarrow> response_ok 0x08 b))
    (handle_diagnostics sub d ds s)"
  using append_diagnostic_response_law
      [OF assms, of "0x08 # u16_to_be_bytes (DiagnosticSubFunction_code sub)" sub d]
proof (cases rule: append_call_cases)
  case (Ok a ext s')
  then show ?thesis
    using response_ok_exception(1) [of FunctionCode.Diagnostics]
    by (auto simp: handle_diagnostics_Ok u16_to_be_bytes_def intro: response_okI split: option.splits)
next
  case (Err e s')
  then show ?thesis
    using response_ok_exception(1) [of FunctionCode.Diagnostics] by (simp add: append_handlers_Err(3))
qed

lemma dispatch_reply_ok:
  assumes "good s" "p = request_wire r"
  shows "reply_ok good bc (hd p) (dispatch_request r p u bc ds did s)"
proof (cases r)
  case (EncapsulatedInterface e)
  have "response_ok 0x2B (device_id_exception x)" for x
    using response_ok_exception(1) [of EncapsulatedInterfaceTransport x]
    by (simp add: device_id_exception_def encode_exception_def)
  then have "\<exists>b. build_device_id_response (EncapsulatedInterfaceRequest.data e) did = Ok b \<and> response_ok 0x2B b"
    by (cases rule: build_device_id_response_cases [of "EncapsulatedInterfaceRequest.data e" did])
      (auto intro: response_okI)
  then show ?thesis
    using assms EncapsulatedInterface response_ok_exception(2) [where b = "0x2B" and e = IllegalFunction]
    by (auto simp: reply_ok_def get_def res_map_def)
next
  case (Diagnostics e)
  then show ?thesis
    using yields_then [OF diagnostics_answers [OF assms(1)]] assms
    by (simp add: reply_ok_def yields_then [OF diagnostics_answers [OF assms(1)]])
next
  case ReadExceptionStatus
  then show ?thesis
    using assms read_exception_status_law [OF assms(1)] response_ok_exception(1) [of FunctionCode.ReadExceptionStatus]
    by (cases bc; cases "fst (read_exception_status ds s)"; cases "read_exception_status ds s")
      (simp_all add: plain_call_def encoded_reply_ok encoded_responses(7) exception_reply_ok no_reply_ok)
next
  case GetCommEventCounter
  then show ?thesis
    using assms get_comm_event_counter_law [OF assms(1)] response_ok_exception(1) [of FunctionCode.GetCommEventCounter]
    by (cases bc; cases "fst (get_comm_event_counter ds s)"; cases "get_comm_event_counter ds s")
      (simp_all add: plain_call_def encoded_reply_ok encoded_responses(8) exception_reply_ok no_reply_ok split: prod.split)
next
  case (WriteMultipleRegisters e)
  then show ?thesis
    using assms response_ok_exception(1) [of FunctionCode.WriteMultipleRegisters]
    by (cases bc) (auto simp: write_reply_ok [OF encoded_responses(4)] write_registers_be_law exception_reply_ok
        no_reply_ok split: res.split)
next
  case (WriteMultipleCoils e)
  then show ?thesis
    using assms response_ok_exception(1) [of FunctionCode.WriteMultipleCoils]
    by (cases bc) (auto simp: write_reply_ok [OF encoded_responses(3)] write_coils_packed_law exception_reply_ok
        no_reply_ok split: res.split)
next
  case (ReadHoldingRegisters e)
  then show ?thesis using assms read_registers_answers [OF assms(1), of _ True] by (simp add: read_reply_ok)
next
  case (ReadInputRegisters e)
  then show ?thesis using assms read_registers_answers [OF assms(1), of _ False] by (simp add: read_reply_ok)
next
  case (ReadCoils e)
  then show ?thesis using assms read_bits_answers [OF assms(1), of _ True] by (simp add: read_reply_ok)
next
  case (ReadDiscreteInputs e)
  then show ?thesis using assms read_bits_answers [OF assms(1), of _ False] by (simp add: read_reply_ok)
qed (use assms in \<open>simp_all add: read_reply_ok write_reply_ok encoded_responses write_coil_law write_register_law
      mask_write_plain apply_write_file_record_plain read_write_answers read_file_record_answers read_fifo_answers
      event_log_answers server_id_answers custom_answers\<close>)

end

end
