(* ===== verification/Device_Spec.thy ===== *)
theory Device_Spec
  imports Handler_Laws
begin

text \<open>
  What a Modbus device is, over plain lists and typed messages: the state of the data tables, and the
  response and new state for each request.  The server with the in-memory store is shown to
  implement it at the level of bytes.
\<close>

section \<open>The device\<close>

record device =
  dev_coils :: "bool list"
  dev_inputs :: "bool list"
  dev_holding :: "u16 list"
  dev_registers :: "u16 list"
  dev_files :: "u16 \<rightharpoonup> u16 list"
  dev_fifos :: "u16 \<rightharpoonup> u16 list"
  dev_status :: u8
  dev_server_id :: bytes

definition device_of :: "InMemoryStore \<Rightarrow> device" where
  "device_of s =
     \<lparr>dev_coils = BitTable_bits (coils s), dev_inputs = BitTable_bits (discrete_inputs s),
      dev_holding = holding_registers s, dev_registers = input_registers s,
      dev_files = files s, dev_fifos = fifo_queues s, dev_status = exception_status s,
      dev_server_id = server_id s\<rparr>"

text \<open>The addressed part of a table, and a table with that part replaced.\<close>

definition window :: "'a list \<Rightarrow> u16 \<Rightarrow> u16 \<Rightarrow> (ExceptionCode, 'a list) res" where
  "window xs a q =
     (if unat a + unat q \<le> length xs then Ok (take (unat q) (drop (unat a) xs)) else Err IllegalDataAddress)"

definition update :: "'a list \<Rightarrow> u16 \<Rightarrow> 'a list \<Rightarrow> (ExceptionCode, 'a list) res" where
  "update xs a vs =
     (if unat a + length vs \<le> length xs then Ok (overwrite xs (unat a) vs) else Err IllegalDataAddress)"

text \<open>A change of state with a response that does not depend on it; an error changes nothing.\<close>

fun changed :: "(ExceptionCode, 'a) res \<Rightarrow> ('a \<Rightarrow> device) \<Rightarrow> ResponsePdu \<Rightarrow> device
    \<Rightarrow> (ExceptionCode, ResponsePdu) res \<times> device" where
  "changed (Ok x) f resp d = (Ok resp, f x)"
| "changed (Err e) f resp d = (Err e, d)"
| "changed Panic f resp d = (Panic, d)"

text \<open>The file, record and length of a 7-byte sub-request.\<close>

definition sub_fields :: "bytes \<Rightarrow> u16 \<times> u16 \<times> u16" where
  "sub_fields c = (u16_from_be_bytes (c ! 1) (c ! 2), u16_from_be_bytes (c ! 3) (c ! 4),
     u16_from_be_bytes (c ! 5) (c ! 6))"

text \<open>The sub-responses of a file record read, after \<open>used\<close> bytes of earlier ones.\<close>

fun read_files :: "(u16 \<rightharpoonup> u16 list) \<Rightarrow> (u16 \<times> u16 \<times> u16) list \<Rightarrow> nat \<Rightarrow> (ExceptionCode, bytes) res" where
  "read_files fs [] used = Ok []"
| "read_files fs ((f, r, n) # rest) used =
     (if 122 < unat n then Err IllegalDataAddress
      else case fs f of
        None \<Rightarrow> Err IllegalDataAddress
      | Some fl \<Rightarrow> and_then (window fl r n) (\<lambda>regs.
          if 250 < used + 2 + 2 * unat n then Err IllegalDataValue
          else and_then (read_files fs rest (used + 2 + 2 * unat n)) (\<lambda>out.
          Ok (u8_of_nat (1 + 2 * unat n) # 6 # regs_be regs @ out))))"

text \<open>The groups of a file record write, and a file with records written, padded with zeros.\<close>

function file_groups :: "bytes \<Rightarrow> (u16 \<times> u16 \<times> u16 list) list" where
  "file_groups subs =
     (if length subs < 7 then []
      else let (f, r, n) = sub_fields subs in
           (f, r, be_regs (take (2 * unat n) (drop 7 subs))) # file_groups (drop (7 + 2 * unat n) subs))"
  by auto
termination by (relation "measure length") auto

declare file_groups.simps [simp del]

definition write_file :: "(u16 \<rightharpoonup> u16 list) \<Rightarrow> u16 \<times> u16 \<times> u16 list \<Rightarrow> (u16 \<rightharpoonup> u16 list)" where
  "write_file fs g =
     (case g of (f, r, vs) \<Rightarrow>
      let old = (case fs f of Some fl \<Rightarrow> fl | None \<Rightarrow> []);
          padded = old @ replicate (unat r + length vs - length old) 0 in
      fs(f \<mapsto> overwrite padded (unat r) vs))"

text \<open>Device identification: one object, or the page of a stream that starts at an object.\<close>

definition identify :: "DeviceIdentification \<Rightarrow> DeviceIdCode \<Rightarrow> u8
    \<Rightarrow> (ExceptionCode, ReadDeviceIdentificationResponse) res" where
  "identify did code oid =
     (let level = server_conformity_level did;
          objs = stream_objects code did;
          i = stream_start oid objs;
          page = stream_page i objs;
          j = i + length page in
      if code = Individual
      then case find (\<lambda>obj. server_DeviceIdObject.id obj = oid) (device_objects did) of
             None \<Rightarrow> Err IllegalDataAddress
           | Some obj \<Rightarrow>
               if 244 < length (server_DeviceIdObject.value obj) then Err ServerDeviceFailure
               else Ok (device_id_answer Individual level False 0 [obj])
      else if \<exists>obj \<in> set objs. 244 < length (server_DeviceIdObject.value obj) then Err ServerDeviceFailure
      else Ok (device_id_answer code level (j < length objs)
             (if j < length objs then server_DeviceIdObject.id (objs ! j) else 0) page))"

text \<open>The response and the state after a request.\<close>

fun device_step :: "DeviceIdentification \<Rightarrow> RequestPdu \<Rightarrow> device \<Rightarrow> (ExceptionCode, ResponsePdu) res \<times> device" where
  "device_step did (RequestPdu.ReadCoils r) d =
     (res_map (\<lambda>bs. ResponsePdu.ReadCoils \<lparr>ReadCoilsResponse.byte_count = u8_of_nat (div_ceil (length bs) 8),
        coil_status = pack_bits bs\<rparr>)
        (window (dev_coils d) (ReadCoilsRequest.address r) (ReadCoilsRequest.quantity r)), d)"
| "device_step did (RequestPdu.ReadDiscreteInputs r) d =
     (res_map (\<lambda>bs. ResponsePdu.ReadDiscreteInputs
        \<lparr>ReadDiscreteInputsResponse.byte_count = u8_of_nat (div_ceil (length bs) 8), coil_status = pack_bits bs\<rparr>)
        (window (dev_inputs d) (ReadDiscreteInputsRequest.address r) (ReadDiscreteInputsRequest.quantity r)), d)"
| "device_step did (RequestPdu.ReadHoldingRegisters r) d =
     (res_map (\<lambda>rs. ResponsePdu.ReadHoldingRegisters
        \<lparr>ReadHoldingRegistersResponse.byte_count = u8_of_nat (2 * length rs), register_data = regs_be rs\<rparr>)
        (window (dev_holding d) (ReadHoldingRegistersRequest.address r) (ReadHoldingRegistersRequest.quantity r)), d)"
| "device_step did (RequestPdu.ReadInputRegisters r) d =
     (res_map (\<lambda>rs. ResponsePdu.ReadInputRegisters
        \<lparr>ReadInputRegistersResponse.byte_count = u8_of_nat (2 * length rs), register_data = regs_be rs\<rparr>)
        (window (dev_registers d) (ReadInputRegistersRequest.address r) (ReadInputRegistersRequest.quantity r)), d)"
| "device_step did (RequestPdu.WriteSingleCoil r) d =
     changed (update (dev_coils d) (WriteSingleCoilRequest.address r) [CoilValue_as_bool (WriteSingleCoilRequest.value r)])
       (\<lambda>x. d\<lparr>dev_coils := x\<rparr>)
       (ResponsePdu.WriteSingleCoil \<lparr>WriteSingleCoilResponse.address = WriteSingleCoilRequest.address r,
          value = WriteSingleCoilRequest.value r\<rparr>) d"
| "device_step did (RequestPdu.WriteSingleRegister r) d =
     changed (update (dev_holding d) (WriteSingleRegisterRequest.address r) [WriteSingleRegisterRequest.value r])
       (\<lambda>x. d\<lparr>dev_holding := x\<rparr>)
       (ResponsePdu.WriteSingleRegister \<lparr>WriteSingleRegisterResponse.address = WriteSingleRegisterRequest.address r,
          value = WriteSingleRegisterRequest.value r\<rparr>) d"
| "device_step did RequestPdu.ReadExceptionStatus d =
     (Ok (ResponsePdu.ReadExceptionStatus \<lparr>ReadExceptionStatusResponse.status = dev_status d\<rparr>), d)"
| "device_step did (RequestPdu.Diagnostics r) d =
     (if DiagnosticsRequest.sub_function r = ReturnQueryData
      then Ok (ResponsePdu.Diagnostics \<lparr>DiagnosticsResponse.sub_function = ReturnQueryData,
             data = DiagnosticsRequest.data r\<rparr>)
      else Err IllegalFunction, d)"
| "device_step did RequestPdu.GetCommEventCounter d = (Err IllegalFunction, d)"
| "device_step did RequestPdu.GetCommEventLog d = (Err IllegalFunction, d)"
| "device_step did (RequestPdu.WriteMultipleCoils r) d =
     changed (update (dev_coils d) (WriteMultipleCoilsRequest.address r)
          (take (unat (WriteMultipleCoilsRequest.quantity r)) (unpack_bits (WriteMultipleCoilsRequest.coil_values r))))
       (\<lambda>x. d\<lparr>dev_coils := x\<rparr>)
       (ResponsePdu.WriteMultipleCoils \<lparr>WriteMultipleCoilsResponse.address = WriteMultipleCoilsRequest.address r,
          quantity = WriteMultipleCoilsRequest.quantity r\<rparr>) d"
| "device_step did (RequestPdu.WriteMultipleRegisters r) d =
     changed (update (dev_holding d) (WriteMultipleRegistersRequest.address r)
          (be_regs (WriteMultipleRegistersRequest.register_values r)))
       (\<lambda>x. d\<lparr>dev_holding := x\<rparr>)
       (ResponsePdu.WriteMultipleRegisters
          \<lparr>WriteMultipleRegistersResponse.address = WriteMultipleRegistersRequest.address r,
           quantity = WriteMultipleRegistersRequest.quantity r\<rparr>) d"
| "device_step did RequestPdu.ReportServerId d =
     (if length (dev_server_id d) \<le> 251
      then Ok (ResponsePdu.ReportServerId
             \<lparr>ReportServerIdResponse.byte_count = u8_of_nat (length (dev_server_id d)), data = dev_server_id d\<rparr>)
      else Err ServerDeviceFailure, d)"
| "device_step did (RequestPdu.ReadFileRecord r) d =
     (res_map (\<lambda>out. ResponsePdu.ReadFileRecord
        \<lparr>ReadFileRecordResponse.byte_count = u8_of_nat (length out), data = out\<rparr>)
        (read_files (dev_files d) (map sub_fields (chunks_exact 7 (ReadFileRecordRequest.sub_requests r))) 0), d)"
| "device_step did (RequestPdu.WriteFileRecord r) d =
     (Ok (ResponsePdu.WriteFileRecord \<lparr>WriteFileRecordResponse.byte_count = WriteFileRecordRequest.byte_count r,
        data = WriteFileRecordRequest.sub_requests r\<rparr>),
      d\<lparr>dev_files := foldl write_file (dev_files d) (file_groups (WriteFileRecordRequest.sub_requests r))\<rparr>)"
| "device_step did (RequestPdu.MaskWriteRegister r) d =
     changed (and_then (window (dev_holding d) (MaskWriteRegisterRequest.address r) 1) (\<lambda>old.
          update (dev_holding d) (MaskWriteRegisterRequest.address r)
            [(hd old AND MaskWriteRegisterRequest.and_mask r)
              OR (MaskWriteRegisterRequest.or_mask r AND NOT (MaskWriteRegisterRequest.and_mask r))]))
       (\<lambda>x. d\<lparr>dev_holding := x\<rparr>)
       (ResponsePdu.MaskWriteRegister \<lparr>MaskWriteRegisterResponse.address = MaskWriteRegisterRequest.address r,
          and_mask = MaskWriteRegisterRequest.and_mask r, or_mask = MaskWriteRegisterRequest.or_mask r\<rparr>) d"
| "device_step did (RequestPdu.ReadWriteMultipleRegisters r) d =
     (case update (dev_holding d) (write_address r) (be_regs (write_register_values r)) of
        Ok regs \<Rightarrow>
          (case window regs (read_address r) (read_quantity r) of
             Ok rs \<Rightarrow> (Ok (ResponsePdu.ReadWriteMultipleRegisters
                 \<lparr>ReadWriteMultipleRegistersResponse.byte_count = u8_of_nat (2 * length rs),
                  register_data = regs_be rs\<rparr>), d\<lparr>dev_holding := regs\<rparr>)
           | Err e \<Rightarrow> (Err e, d) | Panic \<Rightarrow> (Panic, d))
      | Err e \<Rightarrow> (Err e, d) | Panic \<Rightarrow> (Panic, d))"
| "device_step did (RequestPdu.ReadFifoQueue r) d =
     (case dev_fifos d (fifo_pointer_address r) of
        None \<Rightarrow> Err IllegalDataAddress
      | Some vs \<Rightarrow>
          if 31 < length vs then Err IllegalDataValue
          else Ok (ResponsePdu.ReadFifoQueue \<lparr>ReadFifoQueueResponse.byte_count = of_nat (2 + 2 * length vs),
                 fifo_count = of_nat (length vs), fifo_values = regs_be vs\<rparr>), d)"
| "device_step did (RequestPdu.EncapsulatedInterface r) d =
     (if EncapsulatedInterfaceRequest.mei_type r \<noteq> ReadDeviceIdentification then Err IllegalFunction
      else case DeviceIdCode_from_raw (EncapsulatedInterfaceRequest.data r ! 0) of
        None \<Rightarrow> Err IllegalDataValue
      | Some code \<Rightarrow> res_map (\<lambda>a. ResponsePdu.EncapsulatedInterface
          \<lparr>EncapsulatedInterfaceResponse.mei_type = ReadDeviceIdentification,
           data = tl (ReadDeviceIdentificationResponse_payload a)\<rparr>)
          (identify did code (EncapsulatedInterfaceRequest.data r ! 1)), d)"
| "device_step did (RequestPdu.Custom fc dat) d = (Err IllegalFunction, d)"

text \<open>The bytes of an answer.\<close>

fun reply_bytes :: "u8 \<Rightarrow> (ExceptionCode, ResponsePdu) res \<Rightarrow> bytes" where
  "reply_bytes fc (Ok r) = response_wire r"
| "reply_bytes fc (Err e) = [fc OR 0x80, ExceptionCode_code e]"
| "reply_bytes fc Panic = []"


section \<open>The server implements the device\<close>

text \<open>
  The outcome \<open>c\<close> of request \<open>r\<close> in store \<open>s\<close> is what the device does: the same answer, in bytes a
  client can decode, the same state; and a refused request leaves the store as it was.
\<close>

definition implements :: "DeviceIdentification \<Rightarrow> RequestPdu \<Rightarrow> InMemoryStore \<Rightarrow> (InMemoryStore, bytes option) call \<Rightarrow> bool" where
  "implements did r s c \<longleftrightarrow>
     (case device_step did r (device_of s) of (a, d) \<Rightarrow>
        a \<noteq> Panic \<and> (\<forall>resp. a = Ok resp \<longrightarrow> response_valid resp)
        \<and> (\<exists>s'. c = (Ok (Some (reply_bytes (hd (request_wire r)) a)), s')
             \<and> InMemoryStore_wf s' \<and> device_of s' = d \<and> (\<forall>e. a = Err e \<longrightarrow> s' = s)))"

lemma implementsI:
  assumes "device_step did r (device_of s) = (Ok resp, d)" "response_valid resp"
    "c = (Ok (Some (response_wire resp)), s')" "InMemoryStore_wf s'" "device_of s' = d"
  shows "implements did r s c"
  using assms by (simp add: implements_def)

lemma implements_error:
  assumes "device_step did r (device_of s) = (Err e, device_of s)" "InMemoryStore_wf s"
    "c = (Ok (Some [hd (request_wire r) OR 0x80, ExceptionCode_code e]), s)"
  shows "implements did r s c"
  using assms by (simp add: implements_def)

lemma exception_of_bytes: "exception_of fc e = [FunctionCode_code fc OR 0x80, ExceptionCode_code e]"
  by (simp add: encode_exception_def FunctionCode_exception_code_def)

lemma device_of_simps [simp]:
  "dev_coils (device_of s) = BitTable_bits (coils s)" "dev_inputs (device_of s) = BitTable_bits (discrete_inputs s)"
  "dev_holding (device_of s) = holding_registers s" "dev_registers (device_of s) = input_registers s"
  "dev_files (device_of s) = files s" "dev_fifos (device_of s) = fifo_queues s"
  "dev_status (device_of s) = exception_status s" "dev_server_id (device_of s) = server_id s"
  by (simp_all add: device_of_def)

lemma device_of_update [simp]:
  "device_of (s\<lparr>holding_registers := x\<rparr>) = (device_of s)\<lparr>dev_holding := x\<rparr>"
  "device_of (s\<lparr>files := y\<rparr>) = (device_of s)\<lparr>dev_files := y\<rparr>"
  by (simp_all add: device_of_def)

lemma coils_updated_device: "coils_updated s bs s' \<Longrightarrow> device_of s' = (device_of s)\<lparr>dev_coils := bs\<rparr>"
  by (auto simp: coils_updated_def device_of_def)

lemma overwrite_single: "i < length xs \<Longrightarrow> overwrite xs i [v] = xs[i := v]"
  by (simp add: overwrite_def upd_conv_take_nth_drop)

text \<open>The validators refuse only ranges outside the address space, which no table reaches.\<close>

lemma validated_range:
  assumes "in_address_space a q \<Longrightarrow> v = Ok ()" "\<not> in_address_space a q \<Longrightarrow> v = Err IllegalDataAddress"
    "n \<le> 65536"
  shows "v = Ok () \<or> v = Err IllegalDataAddress \<and> n < unat a + unat q"
  using assms by (cases "in_address_space a q") (auto simp: in_address_space_def)

lemmas in_range_defs = validate_defs validate_address_range_eq ReadCoilsRequest_wf_def
  ReadDiscreteInputsRequest_wf_def ReadHoldingRegistersRequest_wf_def ReadInputRegistersRequest_wf_def
  WriteMultipleCoilsRequest_wf_def WriteMultipleRegistersRequest_wf_def not_less word_le_nat_alt

subsection \<open>Reads\<close>

lemma memory_select:
  "read_coils_packed InMemoryStore_DataStore s a q out = (InMemoryStore_read_coils_packed s a q out, s)"
  "read_discrete_inputs_packed InMemoryStore_DataStore s a q out = (InMemoryStore_read_discrete_inputs_packed s a q out, s)"
  "read_holding_registers_be InMemoryStore_DataStore s a q out = (InMemoryStore_read_holding_registers_be s a q out, s)"
  "read_input_registers_be InMemoryStore_DataStore s a q out = (InMemoryStore_read_input_registers_be s a q out, s)"
  "DataStore.read_file_record_be InMemoryStore_DataStore s f r n out = (InMemoryStore_read_file_record_be s f r n out, s)"
  "DataStore.read_fifo_queue_be InMemoryStore_DataStore s a out = (InMemoryStore_read_fifo_queue_be s a out, s)"
  "DataStore.write_coil InMemoryStore_DataStore s a b = writes s (InMemoryStore_write_coil s a b)"
  "DataStore.write_coils_packed InMemoryStore_DataStore s a q vs = writes s (InMemoryStore_write_coils_packed s a q vs)"
  "DataStore.write_register InMemoryStore_DataStore s a v = writes s (InMemoryStore_write_register s a v)"
  "DataStore.write_registers_be InMemoryStore_DataStore s a q vs = writes s (InMemoryStore_write_registers_be s a q vs)"
  "atomic_mask_write_register InMemoryStore_DataStore s a am om = writes s (InMemoryStore_atomic_mask_write_register s a am om)"
  "DataStore.write_file_record_be InMemoryStore_DataStore s f r n vs = writes s (InMemoryStore_write_file_record_be s f r n vs)"
  "append_server_id InMemoryStore_DataStore s out = (InMemoryStore_append_server_id s out, s)"
  "append_diagnostic_response InMemoryStore_DataStore s sub d out = (InMemoryStore_append_diagnostic_response s sub d out, s)"
  "read_exception_status InMemoryStore_DataStore s = (InMemoryStore_read_exception_status s, s)"
  "get_comm_event_counter InMemoryStore_DataStore s = (Err IllegalFunction, s)"
  "append_comm_event_log InMemoryStore_DataStore s out = (Err IllegalFunction, s)"
  "handle_custom_function InMemoryStore_DataStore s u fc d out = (Err IllegalFunction, s)"
  by (simp_all add: memory_store_simps default_get_comm_event_counter_def default_append_comm_event_log_def
      default_get_comm_event_log_def default_handle_custom_function_def)

text \<open>A reading handler whose store call returns the addressed part of table \<open>xs\<close>.\<close>

lemma read_implements:
  assumes "InMemoryStore_wf s"
    and step: "device_step did r (device_of s) = (res_map resp (window xs a q), device_of s)"
    and disp: "dispatch_request r p u False InMemoryStore_DataStore did s = call_then
        (case v of Ok _ \<Rightarrow> read_answer fc n q c | Err e \<Rightarrow> (Ok (exception_of fc e), s) | Panic \<Rightarrow> (Panic, s))
        (\<lambda>r s. (Ok (Some r), s))"
    and code: "hd (request_wire r) = FunctionCode_code fc"
    and v: "v = Ok () \<or> v = Err IllegalDataAddress \<and> length xs < unat a + unat q"
    and found: "\<And>w. window xs a q = Ok w \<Longrightarrow> c = (Ok (unat q, img w), s) \<and> response_valid (resp w)
        \<and> response_wire (resp w) = FunctionCode_code fc # u8_of_nat n # img w"
    and missing: "\<And>e. window xs a q = Err e \<Longrightarrow> c = (Err e, s)"
  shows "implements did r s (dispatch_request r p u False InMemoryStore_DataStore did s)"
proof (cases "window xs a q")
  case (Ok w)
  moreover from Ok v have "v = Ok ()" by (auto simp: window_def split: if_splits)
  ultimately show ?thesis
    using found [OF Ok] assms(1) unfolding disp
    by (intro implementsI) (auto simp: step res_map_def read_reply_def read_answer_def)
next
  case (Err e)
  then show ?thesis
    using missing [OF Err] v assms(1) unfolding disp
    by (intro implements_error)
      (auto simp: step res_map_def read_reply_def read_answer_def code exception_of_bytes window_def split: if_splits)
qed (simp add: window_def split: if_splits)

lemma read_coils_implements:
  assumes "InMemoryStore_wf s" "ReadCoilsRequest_wf x"
  shows "implements did (RequestPdu.ReadCoils x) s
    (dispatch_request (RequestPdu.ReadCoils x) p u False InMemoryStore_DataStore did s)"
proof -
  let ?a = "ReadCoilsRequest.address x" and ?q = "ReadCoilsRequest.quantity x"
  have q: "unat ?q \<le> 2000" using assms(2) by (simp add: in_range_defs)
  have "validate_read_coils ?a ?q = Ok ()
      \<or> validate_read_coils ?a ?q = Err IllegalDataAddress \<and> length (BitTable_bits (coils s)) < unat ?a + unat ?q"
    using assms(2) wfD(2) [OF assms(1)] by (intro validated_range) (auto simp: in_range_defs)
  then show ?thesis
    using assms(1) q packed_bytes_bound [OF q]
    by (intro read_implements [where img = pack_bits and q = ?q and a = ?a and fc = FunctionCode.ReadCoils and n = "div_ceil (unat ?q) 8"
        and c = "read_coils_packed InMemoryStore_DataStore s ?a ?q (replicate (div_ceil (unat ?q) 8) 0)"
        and v = "validate_read_coils ?a ?q", OF assms(1) device_step.simps(1)])
      (auto simp: handle_read_bits_closed memory_select read_reply_def read_coils_packed_closed window_def
        ReadCoilsResponse_wf_def ReadCoilsResponse_payload_def split: if_splits)
qed

lemma read_discrete_inputs_implements:
  assumes "InMemoryStore_wf s" "ReadDiscreteInputsRequest_wf x"
  shows "implements did (RequestPdu.ReadDiscreteInputs x) s
    (dispatch_request (RequestPdu.ReadDiscreteInputs x) p u False InMemoryStore_DataStore did s)"
proof -
  let ?a = "ReadDiscreteInputsRequest.address x" and ?q = "ReadDiscreteInputsRequest.quantity x"
  have q: "unat ?q \<le> 2000" using assms(2) by (simp add: in_range_defs)
  have "validate_read_discrete_inputs ?a ?q = Ok () \<or> validate_read_discrete_inputs ?a ?q = Err IllegalDataAddress
      \<and> length (BitTable_bits (discrete_inputs s)) < unat ?a + unat ?q"
    using assms(2) wfD(4) [OF assms(1)] by (intro validated_range) (auto simp: in_range_defs)
  then show ?thesis
    using assms(1) q packed_bytes_bound [OF q]
    by (intro read_implements [where img = pack_bits and q = ?q and a = ?a and fc = FunctionCode.ReadDiscreteInputs and n = "div_ceil (unat ?q) 8"
        and c = "read_discrete_inputs_packed InMemoryStore_DataStore s ?a ?q (replicate (div_ceil (unat ?q) 8) 0)"
        and v = "validate_read_discrete_inputs ?a ?q", OF assms(1) device_step.simps(2)])
      (auto simp: handle_read_bits_closed memory_select read_reply_def read_discrete_inputs_packed_closed window_def
        ReadDiscreteInputsResponse_wf_def ReadDiscreteInputsResponse_payload_def split: if_splits)
qed

lemma unat_doubled: "unat q \<le> 125 \<Longrightarrow> unat (2 * ucast (q :: u16) :: u8) = 2 * unat q"
proof -
  assume "unat q \<le> 125"
  moreover have "(2 * ucast q :: u8) = of_nat (2 * unat q)" by simp
  ultimately show ?thesis by (simp only: unat_of_nat) (simp add: take_bit_nat_eq_self)
qed

lemma read_holding_registers_implements:
  assumes "InMemoryStore_wf s" "ReadHoldingRegistersRequest_wf x"
  shows "implements did (RequestPdu.ReadHoldingRegisters x) s
    (dispatch_request (RequestPdu.ReadHoldingRegisters x) p u False InMemoryStore_DataStore did s)"
proof -
  let ?a = "ReadHoldingRegistersRequest.address x" and ?q = "ReadHoldingRegistersRequest.quantity x"
  have q: "unat ?q \<le> 125" using assms(2) by (simp add: in_range_defs)
  have "validate_read_registers ?a ?q = Ok () \<or> validate_read_registers ?a ?q = Err IllegalDataAddress
      \<and> length (holding_registers s) < unat ?a + unat ?q"
    using assms(2) wfD(5) [OF assms(1)] by (intro validated_range) (auto simp: in_range_defs)
  then show ?thesis
    using assms(1) q
    by (intro read_implements [where img = regs_be and q = ?q and a = ?a and fc = FunctionCode.ReadHoldingRegisters and n = "unat ?q * 2"
        and c = "read_holding_registers_be InMemoryStore_DataStore s ?a ?q (replicate (unat ?q * 2) 0)"
        and v = "validate_read_registers ?a ?q", OF assms(1) device_step.simps(3)])
      (auto simp: handle_read_registers_closed memory_select read_reply_def read_holding_registers_be_closed window_def
        ReadHoldingRegistersResponse_wf_def ReadHoldingRegistersResponse_payload_def unat_doubled mult.commute split: if_splits)
qed

lemma read_input_registers_implements:
  assumes "InMemoryStore_wf s" "ReadInputRegistersRequest_wf x"
  shows "implements did (RequestPdu.ReadInputRegisters x) s
    (dispatch_request (RequestPdu.ReadInputRegisters x) p u False InMemoryStore_DataStore did s)"
proof -
  let ?a = "ReadInputRegistersRequest.address x" and ?q = "ReadInputRegistersRequest.quantity x"
  have q: "unat ?q \<le> 125" using assms(2) by (simp add: in_range_defs)
  have "validate_read_registers ?a ?q = Ok () \<or> validate_read_registers ?a ?q = Err IllegalDataAddress
      \<and> length (input_registers s) < unat ?a + unat ?q"
    using assms(2) wfD(6) [OF assms(1)] by (intro validated_range) (auto simp: in_range_defs)
  then show ?thesis
    using assms(1) q
    by (intro read_implements [where img = regs_be and q = ?q and a = ?a and fc = FunctionCode.ReadInputRegisters and n = "unat ?q * 2"
        and c = "read_input_registers_be InMemoryStore_DataStore s ?a ?q (replicate (unat ?q * 2) 0)"
        and v = "validate_read_registers ?a ?q", OF assms(1) device_step.simps(4)])
      (auto simp: handle_read_registers_closed memory_select read_reply_def read_input_registers_be_closed window_def
        ReadInputRegistersResponse_wf_def ReadInputRegistersResponse_payload_def unat_doubled mult.commute split: if_splits)
qed

subsection \<open>Writes\<close>

text \<open>The bytes of the responses that the handler builds with \<open>encode_response\<close>.\<close>

lemmas encoded_with = encode_response_wire [OF pdu_codec.axioms(1)]

lemma encoded_wires:
  "encode_response FunctionCode.WriteSingleCoil WriteSingleCoilResponse_encoded_len
     WriteSingleCoilResponse_encode_into r0 = Ok (response_wire (ResponsePdu.WriteSingleCoil r0))"
  "encode_response FunctionCode.WriteSingleRegister WriteSingleRegisterResponse_encoded_len
     WriteSingleRegisterResponse_encode_into r1 = Ok (response_wire (ResponsePdu.WriteSingleRegister r1))"
  "WriteMultipleCoilsResponse_wf r2 \<Longrightarrow>
   encode_response FunctionCode.WriteMultipleCoils WriteMultipleCoilsResponse_encoded_len
     WriteMultipleCoilsResponse_encode_into r2 = Ok (response_wire (ResponsePdu.WriteMultipleCoils r2))"
  "WriteMultipleRegistersResponse_wf r3 \<Longrightarrow>
   encode_response FunctionCode.WriteMultipleRegisters WriteMultipleRegistersResponse_encoded_len
     WriteMultipleRegistersResponse_encode_into r3 = Ok (response_wire (ResponsePdu.WriteMultipleRegisters r3))"
  "encode_response FunctionCode.MaskWriteRegister MaskWriteRegisterResponse_encoded_len
     MaskWriteRegisterResponse_encode_into r4 = Ok (response_wire (ResponsePdu.MaskWriteRegister r4))"
  "WriteFileRecordResponse_wf r5 \<Longrightarrow>
   encode_response FunctionCode.WriteFileRecord WriteFileRecordResponse_encoded_len
     WriteFileRecordResponse_encode_into r5 = Ok (response_wire (ResponsePdu.WriteFileRecord r5))"
  "encode_response FunctionCode.ReadExceptionStatus ReadExceptionStatusResponse_encoded_len
     ReadExceptionStatusResponse_encode_into r6 = Ok (response_wire (ResponsePdu.ReadExceptionStatus r6))"
  by (simp_all add: encoded_with [OF write_single_coil_rs.pdu_codec_axioms]
      encoded_with [OF write_single_register_rs.pdu_codec_axioms] encoded_with [OF write_multiple_coils_rs.pdu_codec_axioms]
      encoded_with [OF write_multiple_registers_rs.pdu_codec_axioms] encoded_with [OF mask_write_register_rs.pdu_codec_axioms]
      encoded_with [OF write_file_record_rs.pdu_codec_axioms] encoded_with [OF read_exception_status_rs.pdu_codec_axioms]
      WriteSingleCoilResponse_wf_def WriteSingleRegisterResponse_wf_def MaskWriteRegisterResponse_wf_def
      ReadExceptionStatusResponse_wf_def)

text \<open>A writing handler whose store call replaces part of the state by \<open>upd\<close>.\<close>

lemma write_implements:
  assumes "InMemoryStore_wf s"
    and step: "device_step did r (device_of s) = changed upd f resp (device_of s)" "upd \<noteq> Panic"
    and resp: "response_valid resp" "enc = Ok (response_wire resp)"
    and code: "hd (request_wire r) = FunctionCode_code fc"
    and written: "\<And>x. upd = Ok x \<Longrightarrow> \<exists>s'. c = (Ok (), s') \<and> InMemoryStore_wf s' \<and> device_of s' = f x"
    and refused: "\<And>e. upd = Err e \<Longrightarrow> c = (Err e, s)"
  shows "implements did r s (write_reply False fc c enc)"
proof (cases upd)
  case (Ok x)
  from written [OF this] obtain s' where "c = (Ok (), s')" "InMemoryStore_wf s'" "device_of s' = f x" by blast
  then show ?thesis using Ok step resp by (intro implementsI) (auto simp: write_reply_def res_map_def)
next
  case (Err e)
  then show ?thesis
    using refused [OF Err] step assms(1)
    by (intro implements_error) (auto simp: write_reply_def code exception_of_bytes)
qed (use step in simp)

lemma write_single_coil_implements:
  assumes "InMemoryStore_wf s"
  shows "implements did (RequestPdu.WriteSingleCoil x) s
    (dispatch_request (RequestPdu.WriteSingleCoil x) p u False InMemoryStore_DataStore did s)"
  unfolding dispatch_request.simps memory_select
  using write_coil_closed [OF assms] wfD(1) [OF assms] coils_updated_wf [OF assms]
  by (intro write_implements [OF assms device_step.simps(5)])
    (fastforce simp: update_def encoded_wires WriteSingleCoilResponse_wf_def coils_updated_device
      overwrite_single Suc_le_eq split: if_splits)+

lemma write_single_register_implements:
  assumes "InMemoryStore_wf s"
  shows "implements did (RequestPdu.WriteSingleRegister x) s
    (dispatch_request (RequestPdu.WriteSingleRegister x) p u False InMemoryStore_DataStore did s)"
  unfolding dispatch_request.simps memory_select
  by (intro write_implements [OF assms device_step.simps(6)])
    (auto simp: update_def encoded_wires WriteSingleRegisterResponse_wf_def write_register_closed [OF assms]
      wf_update [OF assms] overwrite_single Suc_le_eq split: if_splits)

lemma mask_write_implements:
  assumes "InMemoryStore_wf s"
  shows "implements did (RequestPdu.MaskWriteRegister x) s
    (dispatch_request (RequestPdu.MaskWriteRegister x) p u False InMemoryStore_DataStore did s)"
  unfolding dispatch_request.simps memory_select handle_mask_write_def
  by (intro write_implements [OF assms device_step.simps(16)])
    (auto simp: update_def window_def encoded_wires MaskWriteRegisterResponse_wf_def mask_write_closed [OF assms]
      wf_update [OF assms] overwrite_single Suc_le_eq hd_drop_conv_nth take_Suc memory_select
      validate_mask_write_address_def validate_address_range_eq split: if_splits)

lemma validated_write_implements:
  assumes "InMemoryStore_wf s"
    and step: "device_step did r (device_of s) = changed upd f resp (device_of s)"
    and code: "hd (request_wire r) = FunctionCode_code fc"
    and v: "v = Ok () \<or> v = Err IllegalDataAddress \<and> upd = Err IllegalDataAddress"
    and "implements did r s (write_reply False fc c enc)"
  shows "implements did r s
    (case v of Err ec \<Rightarrow> if False then (Ok None, s) else (Ok (Some (exception_of fc ec)), s)
     | Panic \<Rightarrow> (Panic, s) | Ok _ \<Rightarrow> write_reply False fc c enc)"
  using v
proof
  assume "v = Err IllegalDataAddress \<and> upd = Err IllegalDataAddress"
  then show ?thesis using step assms(1) by (intro implements_error) (auto simp: code exception_of_bytes)
qed (use assms(5) in simp)

lemma write_multiple_coils_implements:
  assumes "InMemoryStore_wf s" "WriteMultipleCoilsRequest_wf x"
  shows "implements did (RequestPdu.WriteMultipleCoils x) s
    (dispatch_request (RequestPdu.WriteMultipleCoils x) p u False InMemoryStore_DataStore did s)"
proof -
  let ?a = "WriteMultipleCoilsRequest.address x" and ?q = "WriteMultipleCoilsRequest.quantity x"
    and ?b = "WriteMultipleCoilsRequest.byte_count x" and ?vs = "WriteMultipleCoilsRequest.coil_values x"
  have q: "unat ?q \<le> 8 * length ?vs" "validate_packed_coils ?q ?vs = Ok (unat ?q)"
    using assms(2) by (auto simp: in_range_defs div_ceil_def validate_packed_coils_def Let_def)
  have "validate_write_coils ?a ?q ?b = Ok () \<or> validate_write_coils ?a ?q ?b = Err IllegalDataAddress
      \<and> BitTable.len (coils s) < unat ?a + unat ?q"
    using validate_request_valid [of "RequestPdu.WriteMultipleCoils x"] assms(2) wfD(2) [OF assms(1)]
    by (auto simp: in_address_space_def split: if_splits)
  note v = this
  show ?thesis
    unfolding dispatch_request.simps memory_select
  proof (intro validated_write_implements [OF assms(1) device_step.simps(11)] write_implements [OF assms(1) device_step.simps(11)], goal_cases)
    case 2
    then show ?case using v q wfD(1) [OF assms(1)] by (auto simp: update_def)
  next
    case (7 y)
    then show ?case
      using q write_coils_packed_closed(1) [OF assms(1) q(2), of ?a] coils_updated_wf [OF assms(1)] wfD(1) [OF assms(1)]
      by (auto simp: update_def coils_updated_device split: if_splits)
  next
    case (8 e)
    then show ?case
      using q write_coils_packed_closed(2) [OF assms(1) q(2), of ?a] wfD(1) [OF assms(1)]
      by (auto simp: update_def split: if_splits)
  qed (use assms(2) in \<open>auto simp: update_def encoded_wires WriteMultipleCoilsRequest_wf_def WriteMultipleCoilsResponse_wf_def
    WriteMultipleCoilsResponse_valid_def\<close>)
qed

lemma write_multiple_registers_implements:
  assumes "InMemoryStore_wf s" "WriteMultipleRegistersRequest_wf x"
  shows "implements did (RequestPdu.WriteMultipleRegisters x) s
    (dispatch_request (RequestPdu.WriteMultipleRegisters x) p u False InMemoryStore_DataStore did s)"
proof -
  let ?a = "WriteMultipleRegistersRequest.address x" and ?q = "WriteMultipleRegistersRequest.quantity x"
    and ?b = "WriteMultipleRegistersRequest.byte_count x" and ?vs = "WriteMultipleRegistersRequest.register_values x"
  have q: "length (be_regs ?vs) = unat ?q" "validate_register_values_be ?q ?vs = Ok (unat ?q)"
    using assms(2) by (auto simp: in_range_defs validate_register_values_be_def Let_def)
  have "validate_write_registers ?a ?q ?b = Ok () \<or> validate_write_registers ?a ?q ?b = Err IllegalDataAddress
      \<and> length (holding_registers s) < unat ?a + unat ?q"
    using validate_request_valid [of "RequestPdu.WriteMultipleRegisters x"] assms(2) wfD(5) [OF assms(1)]
    by (auto simp: in_address_space_def split: if_splits)
  note v = this
  show ?thesis
    unfolding dispatch_request.simps memory_select
  proof (intro validated_write_implements [OF assms(1) device_step.simps(12)] write_implements [OF assms(1) device_step.simps(12)], goal_cases)
    case 2
    then show ?case using v q by (auto simp: update_def)
  next
    case (7 y)
    then show ?case
      using q by (auto simp: update_def write_registers_be_closed [OF assms(1)] wf_update [OF assms(1)] split: if_splits)
  next
    case (8 e)
    then show ?case
      using q by (auto simp: update_def write_registers_be_closed [OF assms(1)] split: if_splits)
  qed (use assms(2) in \<open>auto simp: update_def encoded_wires WriteMultipleRegistersRequest_wf_def WriteMultipleRegistersResponse_wf_def
    WriteMultipleRegistersResponse_valid_def\<close>)
qed

lemma read_write_multiple_implements:
  assumes "InMemoryStore_wf s" "ReadWriteMultipleRegistersRequest_wf x"
  shows "implements did (RequestPdu.ReadWriteMultipleRegisters x) s
    (dispatch_request (RequestPdu.ReadWriteMultipleRegisters x) p u False InMemoryStore_DataStore did s)"
proof -
  let ?ra = "read_address x" and ?rq = "read_quantity x" and ?wa = "write_address x" and ?wq = "write_quantity x"
    and ?vs = "write_register_values x" and ?b = "write_byte_count x" and ?n = "length (holding_registers s)"
  have x: "unat ?rq \<in> {1..125}" "unat ?wq \<in> {1..121}" "length ?vs = 2 * unat ?wq"
    using assms(2) by (auto simp: ReadWriteMultipleRegistersRequest_wf_def word_le_nat_alt unat_gt_0 Suc_le_eq)
  have v: "validate_read_write_registers ?ra ?rq ?wa ?wq ?b
      = (if unat ?ra + unat ?rq \<le> 65536 \<and> unat ?wa + unat ?wq \<le> 65536 then Ok () else Err IllegalDataAddress)"
    using validate_request_valid [of "RequestPdu.ReadWriteMultipleRegisters x"] assms(2)
    by (auto simp: in_address_space_def)
  have n: "?n \<le> 65536" by (rule wfD(5) [OF assms(1)])
  have store: "atomic_read_write_registers_be InMemoryStore_DataStore s ?ra ?rq ?wa ?wq ?vs (replicate (unat ?rq * 2) 0)
    = read_writes s (let regs = overwrite (holding_registers s) (unat ?wa) (be_regs ?vs) in
     if unat ?wa + unat ?wq \<le> ?n \<and> unat ?ra + unat ?rq \<le> ?n
     then Ok ((unat ?rq, regs_be (take (unat ?rq) (drop (unat ?ra) regs))), s\<lparr>holding_registers := regs\<rparr>)
     else Err IllegalDataAddress)"
    using read_write_closed [OF assms(1) x, of "replicate (unat ?rq * 2) 0" ?ra ?wa]
    by (simp add: memory_store_simps Let_def)
  have b: "unat (2 * ucast ?rq :: u8) = 2 * unat ?rq" using x(1) by (intro unat_doubled) simp
  show ?thesis
  proof (cases "unat ?wa + unat ?wq \<le> ?n \<and> unat ?ra + unat ?rq \<le> ?n")
    case True
    then have "min (?n - unat ?ra) (unat ?rq) = unat ?rq" by (intro min_absorb2) linarith
    with True n x b wf_update(1) [OF assms(1)] show ?thesis
      by (simp add: implements_def read_reply_def handle_read_write_multiple_closed v store read_answer_def Let_def
          update_def window_def ReadWriteMultipleRegistersResponse_wf_def ReadWriteMultipleRegistersResponse_payload_def)
  next
    case False
    with n x assms(1) show ?thesis
      by (auto simp: implements_def read_reply_def handle_read_write_multiple_closed v store read_answer_def Let_def
          update_def window_def exception_of_bytes)
  qed
qed

subsection \<open>Status, identification and custom requests\<close>

lemma status_implements:
  assumes "InMemoryStore_wf s"
  shows "implements did RequestPdu.ReadExceptionStatus s
      (dispatch_request RequestPdu.ReadExceptionStatus p u False InMemoryStore_DataStore did s)"
    "implements did RequestPdu.GetCommEventCounter s
      (dispatch_request RequestPdu.GetCommEventCounter p u False InMemoryStore_DataStore did s)"
    "implements did RequestPdu.GetCommEventLog s
      (dispatch_request RequestPdu.GetCommEventLog p u False InMemoryStore_DataStore did s)"
    "implements did (RequestPdu.Custom fc d) s
      (dispatch_request (RequestPdu.Custom fc d) p u False InMemoryStore_DataStore did s)"
  using assms
  by (auto simp: implements_def memory_select encoded_wires res_map_def InMemoryStore_read_exception_status_def
      exception_of_bytes read_reply_def append_handlers_Err(2) handle_custom_request_closed encode_exception_def
      FunctionCode_exception_code_def ReadExceptionStatusResponse_wf_def)

lemma diagnostics_implements:
  assumes "InMemoryStore_wf s" "DiagnosticsRequest_wf x"
  shows "implements did (RequestPdu.Diagnostics x) s
    (dispatch_request (RequestPdu.Diagnostics x) p u False InMemoryStore_DataStore did s)"
proof (cases "DiagnosticsRequest.sub_function x = ReturnQueryData")
  case True
  have "append_diagnostic_response InMemoryStore_DataStore s ReturnQueryData (DiagnosticsRequest.data x)
      (0x08 # u16_to_be_bytes (DiagnosticSubFunction_code ReturnQueryData))
    = (Ok (Some (length (DiagnosticsRequest.data x)),
        0x08 # u16_to_be_bytes (DiagnosticSubFunction_code ReturnQueryData) @ DiagnosticsRequest.data x), s)"
    using assms(2) by (simp add: memory_select InMemoryStore_append_diagnostic_response_def DiagnosticsRequest_wf_def)
  from handle_diagnostics_Ok [OF this] True assms show ?thesis
    by (intro implementsI) (auto simp: DiagnosticsRequest_wf_def DiagnosticsResponse_wf_def
        DiagnosticsResponse_payload_def even_iff_mod_2_eq_zero)
next
  case False
  have "append_diagnostic_response InMemoryStore_DataStore s (DiagnosticsRequest.sub_function x) (DiagnosticsRequest.data x)
      (0x08 # u16_to_be_bytes (DiagnosticSubFunction_code (DiagnosticsRequest.sub_function x))) = (Err IllegalFunction, s)"
    using False by (simp add: memory_select InMemoryStore_append_diagnostic_response_def split: DiagnosticSubFunction.split)
  from append_handlers_Err(3) [OF this] False assms show ?thesis
    by (intro implements_error) (auto simp: exception_of_bytes)
qed

lemma report_server_id_implements:
  assumes "InMemoryStore_wf s"
  shows "implements did RequestPdu.ReportServerId s
    (dispatch_request RequestPdu.ReportServerId p u False InMemoryStore_DataStore did s)"
proof (cases "length (server_id s) \<le> 251")
  case True
  then have "append_server_id InMemoryStore_DataStore s [0x11, 0] = (Ok (length (server_id s), [0x11, 0] @ server_id s), s)"
    by (simp add: memory_select InMemoryStore_append_server_id_def)
  from handle_report_server_id_Ok [OF this] True assms show ?thesis
    by (intro implementsI) (auto simp: read_reply_def ReportServerIdResponse_wf_def
        ReportServerIdResponse_payload_def take_bit_nat_eq_self unat_of_nat)
next
  case False
  then have "append_server_id InMemoryStore_DataStore s [0x11, 0] = (Err ServerDeviceFailure, s)"
    by (simp add: memory_select InMemoryStore_append_server_id_def)
  from append_handlers_Err(1) [OF this] False assms show ?thesis
    by (intro implements_error) (auto simp: read_reply_def exception_of_bytes)
qed

lemma read_fifo_queue_implements:
  assumes "InMemoryStore_wf s"
  shows "implements did (RequestPdu.ReadFifoQueue x) s
    (dispatch_request (RequestPdu.ReadFifoQueue x) p u False InMemoryStore_DataStore did s)"
proof -
  let ?a = "fifo_pointer_address x"
  have "slice_call InMemoryStore_wf 62 (read_fifo_queue_be InMemoryStore_DataStore s ?a (replicate 62 0))"
    using memory.read_fifo_queue_be_law [OF assms, of "replicate 62 0" ?a] by simp
  note closed = handle_read_fifo_queue_closed [OF this]
  show ?thesis
  proof (cases "\<exists>vs. fifo_queues s ?a = Some vs \<and> length vs \<le> 31")
    case True
    then obtain vs where vs: "fifo_queues s ?a = Some vs" "length vs \<le> 31" by blast
    have "unat (of_nat (2 + 2 * length vs) :: u16) = 2 + 2 * length vs" "unat (of_nat (length vs) :: u16) = length vs"
      using vs(2) by (simp_all only: unat_of_nat) (simp_all add: take_bit_nat_eq_self)
    with vs assms show ?thesis
      by (simp add: implements_def closed read_reply_def memory_select read_fifo_queue_be_closed Let_def
          ReadFifoQueueResponse_wf_def ReadFifoQueueResponse_payload_def mult.commute)
  next
    case False
    then show ?thesis
      using assms by (auto simp: implements_def closed read_reply_def memory_select read_fifo_queue_be_closed
          Let_def exception_of_bytes split: option.splits)
  qed
qed

lemma identify_bytes:
  assumes "DeviceIdCode_from_raw c = Some code"
  shows "identify did code oid \<noteq> Panic"
    "build_device_id_response [c, oid] did =
      Ok (case identify did code oid of
            Ok a \<Rightarrow> 0x2B # ReadDeviceIdentificationResponse_payload a | Err e \<Rightarrow> device_id_exception e)"
proof -
  let ?objs = "stream_objects code did"
  show "identify did code oid \<noteq> Panic" by (auto simp: identify_def Let_def split: option.split)
  have "build_stream_response code (server_conformity_level did) oid ?objs = Ok (device_id_exception ServerDeviceFailure)"
    if "\<exists>obj \<in> set ?objs. 244 < length (server_DeviceIdObject.value obj)"
    using that by (simp add: build_stream_response_def list_ex_iff)
  then show "build_device_id_response [c, oid] did =
      Ok (case identify did code oid of
            Ok a \<Rightarrow> 0x2B # ReadDeviceIdentificationResponse_payload a | Err e \<Rightarrow> device_id_exception e)"
    using build_stream_response_closed [OF stream_objects_props(1) [of code did] _ refl refl,
        where code = code and level = "server_conformity_level did" and oid = oid]
      individual_request [of c oid did] stream_request [OF assms, of oid did] assms
    by (cases "code = Individual") (auto simp: identify_def Let_def not_less split: option.split)
qed

lemma encapsulated_implements:
  assumes "InMemoryStore_wf s" "EncapsulatedInterfaceRequest_valid x" "p = request_wire (RequestPdu.EncapsulatedInterface x)"
  shows "implements did (RequestPdu.EncapsulatedInterface x) s
    (dispatch_request (RequestPdu.EncapsulatedInterface x) p u False InMemoryStore_DataStore did s)"
proof (cases "EncapsulatedInterfaceRequest.mei_type x = ReadDeviceIdentification")
  case False
  then show ?thesis
    using assms(1,3) by (intro implements_error) (auto simp: get_def encode_exception_def Let_def)
next
  case True
  with assms(2) obtain c oid code where x: "EncapsulatedInterfaceRequest.data x = [c, oid]"
    "DeviceIdCode_from_raw c = Some code"
    by (auto simp: EncapsulatedInterfaceRequest_valid_def length_Suc_conv numeral_2_eq_2)
  note b = identify_bytes [OF x(2), where did = did and oid = oid]
  show ?thesis
  proof (cases "identify did code oid")
    case (Ok a)
    have "is_ok (ReadDeviceIdentificationResponse_decode (ReadDeviceIdentificationResponse_payload a))
        \<and> length (ReadDeviceIdentificationResponse_payload a) \<le> 252"
    proof (cases rule: build_device_id_response_cases [of "[c, oid]" did])
      case (2 r)
      then show ?thesis using b(2) Ok by (auto simp: ReadDeviceIdentificationResponse_decode_payload)
    qed (use b(2) Ok in \<open>auto simp: device_id_exception_def FunctionCode_exception_code_def\<close>)
    then show ?thesis
      using b True x Ok assms(1)
      by (intro implementsI) (auto simp: res_map_def EncapsulatedInterfaceResponse_valid_alt EncapsulatedInterfaceResponse_wf_def
          EncapsulatedInterfaceResponse_payload_def ReadDeviceIdentificationResponse_payload_def)
  next
    case (Err e)
    then show ?thesis
      using b True x assms(1)
      by (intro implements_error) (auto simp: res_map_def device_id_exception_def FunctionCode_exception_code_def)
  qed (use b in simp)
qed

end
