(* ===== verification/Device_Files.thy ===== *)
theory Device_Files
  imports Device_Spec
begin

text \<open>
  The file record requests of the server against the device: the sub-requests of a read and the groups
  of a write, byte by byte, against the list of fields the device works on.
\<close>

section \<open>Sub-requests\<close>

definition sub_request :: "bytes \<Rightarrow> u16 \<Rightarrow> u16 \<Rightarrow> u16 \<Rightarrow> bool" where
  "sub_request c f r n \<longleftrightarrow>
     c = 6 # u16_to_be_bytes f @ u16_to_be_bytes r @ u16_to_be_bytes n
     \<and> f \<noteq> 0 \<and> 0 < unat n \<and> unat r + unat n \<le> 10000"

lemma sub_request_fields: "sub_request c f r n \<Longrightarrow> sub_fields (c @ xs) = (f, r, n)"
  by (simp add: sub_request_def sub_fields_def u16_to_be_bytes_def)

lemma decoded_sub_request:
  "FileSubRequest_decode c = Ok x \<Longrightarrow>
     sub_request c (FileSubRequest.file_number x) (FileSubRequest.record_number x) (FileSubRequest.record_length x)"
  unfolding FileSubRequest_decode_Ok_iff sub_request_def by (auto simp: file_sub_ok_def unat_gt_0)

lemma valid_sub_requests:
  assumes "validate_read_file_sub_requests subs = Ok ()"
  shows "length subs mod 7 = 0" "\<forall>c \<in> set (chunks_exact 7 subs). \<exists>f r n. sub_request c f r n"
  using assms decoded_sub_request
  by (auto simp: validate_read_file_sub_requests_def for_each_Ok_iff and_then_eq_Ok split: if_splits) blast+

section \<open>Reads\<close>

lemma read_file_group_memory:
  assumes "InMemoryStore_wf s" "sub_request c f r n" "response = 0x14 # 0 # pre"
  shows "read_file_group InMemoryStore_DataStore c response s =
    (case read_files (files s) [(f, r, n)] (length pre) of
       Ok out \<Rightarrow> Ok (response @ out) | Err e \<Rightarrow> Err (exception_of FunctionCode.ReadFileRecord e) | Panic \<Rightarrow> Panic, s)"
proof -
  have c: "c = [6, u16_hi f, u16_lo f, u16_hi r, u16_lo r, u16_hi n, u16_lo n]"
    "f = u16_from_be_bytes (u16_hi f) (u16_lo f)" "r = u16_from_be_bytes (u16_hi r) (u16_lo r)"
    "n = u16_from_be_bytes (u16_hi n) (u16_lo n)"
    and ok: "f \<noteq> 0" "0 < unat n" "unat r + unat n \<le> 10000"
    using assms(2) by (simp_all add: sub_request_def u16_to_be_bytes_def)
  have "slice_call InMemoryStore_wf (unat n * 2)
      (read_file_record_be InMemoryStore_DataStore s f r n (replicate (unat n * 2) 0))"
    using memory.read_file_record_be_law [OF assms(1), of "replicate (unat n * 2) 0"] by simp
  note closed = read_file_group_closed [OF this _ c(2-4), of "0x14 # 0 # pre" 6]
  show ?thesis
    using ok closed unfolding assms(3) c(1)
    by (auto simp: memory_select read_file_record_be_closed [OF assms(1)] window_def Let_def split: option.split)
qed

lemma read_files_Cons:
  "read_files fs (g # gs) used =
     and_then (read_files fs [g] used) (\<lambda>x. and_then (read_files fs gs (used + length x)) (\<lambda>out. Ok (x @ out)))"
  by (cases g; cases "fs (fst g)") (auto simp: window_def)

lemma read_files_not_Panic [simp]: "read_files fs gs used \<noteq> Panic"
  by (induction fs gs used rule: read_files.induct) (auto simp: window_def res_simps split: option.split)

lemma read_file_groups_memory:
  assumes "InMemoryStore_wf s" "\<forall>c \<in> set cs. \<exists>f r n. sub_request c f r n"
  shows "read_file_groups InMemoryStore_DataStore cs (0x14 # 0 # pre) s =
    (case read_files (files s) (map sub_fields cs) (length pre) of
       Ok out \<Rightarrow> Ok (0x14 # 0 # pre @ out) | Err e \<Rightarrow> Err (exception_of FunctionCode.ReadFileRecord e) | Panic \<Rightarrow> Panic, s)"
  using assms(2)
proof (induction cs arbitrary: pre)
  case (Cons c cs)
  then obtain f r n where c: "sub_request c f r n" by auto
  note fields = sub_request_fields [OF c, of "[]", simplified]
  note group = read_file_group_memory [OF assms(1) c refl, of pre]
  show ?case
  proof (cases "read_files (files s) [(f, r, n)] (length pre)")
    case (Ok x)
    then show ?thesis
      using Cons group fields
      by (auto simp: read_files_Cons [of _ "(f, r, n)" "map sub_fields cs"] simp del: read_files.simps(2) split: res.split)
  next
    case (Err e)
    then show ?thesis
      using group fields
      by (auto simp: read_files_Cons [of _ "(f, r, n)" "map sub_fields cs"] simp del: read_files.simps(2) split: res.split)
  qed (simp del: read_files.simps(2))
qed simp

text \<open>What the device reads is a payload the client accepts.\<close>

lemma read_files_payload:
  assumes "read_files fs gs used = Ok out" "\<forall>(f, r, n) \<in> set gs. 0 < unat n" "used \<le> 250"
  shows "used + length out \<le> 250" "4 * length gs \<le> length out" "validate_read_file_response_payload out = Ok ()"
proof -
  have "used + length out \<le> 250 \<and> 4 * length gs \<le> length out \<and> validate_read_file_response_payload out = Ok ()"
    using assms
  proof (induction fs gs used arbitrary: out rule: read_files.induct)
    case (1 fs used)
    then show ?case by (simp add: validate_read_file_response_payload.simps)
  next
    case (2 fs f r n rest used)
    then obtain fl regs rst where o: "unat n \<le> 122" "fs f = Some fl" "window fl r n = Ok regs"
      "used + 2 + 2 * unat n \<le> 250" "read_files fs rest (used + 2 + 2 * unat n) = Ok rst"
      "out = u8_of_nat (1 + 2 * unat n) # 6 # regs_be regs @ rst"
      by (auto simp: and_then_eq_Ok split: if_splits option.splits)
    have len: "length (regs_be regs) = 2 * unat n" using o(3) by (auto simp: window_def split: if_splits)
    have u: "unat (u8_of_nat (1 + 2 * unat n)) = 1 + 2 * unat n"
      using o(1) by (simp only: unat_of_nat) (simp add: take_bit_nat_eq_self)
    note IH = "2.IH" [OF _ o(2) _ o(5)]
    have "validate_read_file_response_payload (w # 6 # regs_be regs @ rst) = validate_read_file_response_payload rst"
      if "unat w = 1 + 2 * unat n" for w :: u8
      using "2.prems"(2) len that by (subst validate_read_file_response_payload.simps) (simp add: Let_def)
    from this [OF u] have "validate_read_file_response_payload out = validate_read_file_response_payload rst"
      by (simp only: o(6))
    then show ?case using IH o "2.prems" len by simp
  qed
  then show "used + length out \<le> 250" "4 * length gs \<le> length out" "validate_read_file_response_payload out = Ok ()"
    by simp_all
qed

lemma read_file_record_implements:
  assumes "InMemoryStore_wf s" "ReadFileRecordRequest_wf x"
  shows "implements did (RequestPdu.ReadFileRecord x) s
    (dispatch_request (RequestPdu.ReadFileRecord x) p u False InMemoryStore_DataStore did s)"
proof -
  let ?subs = "ReadFileRecordRequest.sub_requests x"
  let ?cs = "chunks_exact 7 ?subs" and ?gs = "map sub_fields (chunks_exact 7 (ReadFileRecordRequest.sub_requests x))"
  have subs: "?subs \<noteq> []" "length ?subs mod 7 = 0" "\<not> 0xF5 < length ?subs" "?cs \<noteq> []"
    "\<forall>c \<in> set ?cs. \<exists>f r n. sub_request c f r n"
    using assms(2) valid_sub_requests [of ?subs]
    by (auto simp: ReadFileRecordRequest_wf_def) (subst (asm) chunks_exact.simps, simp split: if_splits)
  note groups = read_file_groups_memory [OF assms(1) subs(5), of "[]", simplified]
  show ?thesis
  proof (cases "read_files (files s) ?gs 0")
    case (Ok out)
    have "\<forall>(f, r, n) \<in> set ?gs. 0 < unat n"
      using subs(5) sub_request_fields [of _ _ _ _ "[]"] by (force simp: sub_request_def)
    note out = read_files_payload [OF Ok this]
    have "4 \<le> length out" using out(2) subs(4) by (cases ?cs) simp_all
    moreover have "unat (u8_of_nat (length out)) = length out"
      using out(1) by (simp add: unat_of_nat take_bit_nat_eq_self)
    ultimately show ?thesis
      using Ok out(1,3) subs(1-3) groups assms(1)
      by (intro implementsI) (auto simp: res_map_def read_reply_def handle_read_file_record_def Let_def usize_sub_def
          checked_response_u8_def ReadFileRecordResponse_wf_alt ReadFileRecordResponse_payload_def)
  next
    case (Err e)
    then show ?thesis
      using subs(1-3) groups assms(1)
      by (intro implements_error) (auto simp: res_map_def read_reply_def handle_read_file_record_def Let_def exception_of_bytes)
  qed simp
qed

section \<open>Writes\<close>

text \<open>The groups of a valid write, as the handler's first pass collects them.\<close>

definition group_of :: "u16 \<times> u16 \<times> u16 list \<Rightarrow> WriteFileRecordGroup" where
  "group_of g = (case g of (f, r, vs) \<Rightarrow>
     \<lparr>group_file = f, group_record = r, group_length = of_nat (length vs), group_value_bytes = regs_be vs\<rparr>)"

definition group_ok :: "u16 \<times> u16 \<times> u16 list \<Rightarrow> bool" where
  "group_ok g \<longleftrightarrow> (case g of (f, r, vs) \<Rightarrow> f \<noteq> 0 \<and> vs \<noteq> [] \<and> unat r + length vs \<le> 10000)"

lemma valid_group:
  assumes "validate_write_file_sub_requests subs = Ok ()" "subs \<noteq> []"
  obtains f r n vs rest where "sub_request (take 7 subs) f r n" "length vs = unat n"
    "subs = take 7 subs @ regs_be vs @ rest" "validate_write_file_sub_requests rest = Ok ()"
    "file_groups subs = (f, r, vs) # file_groups rest"
proof -
  obtain x where x: "7 \<le> length subs" "FileSubRequest_decode (take 7 subs) = Ok x"
    "7 + unat (FileSubRequest.record_length x) * 2 \<le> length subs"
    "validate_write_file_sub_requests (drop (7 + unat (FileSubRequest.record_length x) * 2) subs) = Ok ()"
    using assms by (subst (asm) validate_write_file_sub_requests.simps)
      (auto simp: res_simps Let_def slice_def split: if_splits)
  let ?n = "FileSubRequest.record_length x"
  note sr = decoded_sub_request [OF x(2)]
  let ?raw = "take (2 * unat ?n) (drop 7 subs)"
  have raw: "length ?raw = 2 * unat ?n" using x(1,3) by simp
  have "sub_fields subs = (FileSubRequest.file_number x, FileSubRequest.record_number x, ?n)"
    using sub_request_fields [OF sr, of "drop 7 subs"] by simp
  then have "file_groups subs = (FileSubRequest.file_number x, FileSubRequest.record_number x, be_regs ?raw)
      # file_groups (drop (7 + unat ?n * 2) subs)"
    using x(1) by (subst file_groups.simps) (simp add: mult.commute)
  moreover have "regs_be (be_regs ?raw) = ?raw" "length (be_regs ?raw) = unat ?n"
    using raw by (simp_all add: regs_be_be_regs)
  moreover have "subs = take 7 subs @ ?raw @ drop (7 + unat ?n * 2) subs"
    by (metis append_take_drop_id drop_drop add.commute mult.commute)
  ultimately show ?thesis using that [OF sr] x(4) by metis
qed

lemma sub_request_cons:
  "sub_request c f r n \<Longrightarrow> c = [6, u16_hi f, u16_lo f, u16_hi r, u16_lo r, u16_hi n, u16_lo n]"
  by (simp add: sub_request_def u16_to_be_bytes_def)

lemma valid_groups_induct [consumes 1, case_names Nil Group]:
  assumes "validate_write_file_sub_requests subs = Ok ()"
    and "P []"
    and step: "\<And>f r n vs rest. sub_request [6, u16_hi f, u16_lo f, u16_hi r, u16_lo r, u16_hi n, u16_lo n] f r n \<Longrightarrow>
      length vs = unat n \<Longrightarrow> validate_write_file_sub_requests rest = Ok () \<Longrightarrow> P rest \<Longrightarrow>
      file_groups ([6, u16_hi f, u16_lo f, u16_hi r, u16_lo r, u16_hi n, u16_lo n] @ regs_be vs @ rest)
        = (f, r, vs) # file_groups rest \<Longrightarrow>
      P ([6, u16_hi f, u16_lo f, u16_hi r, u16_lo r, u16_hi n, u16_lo n] @ regs_be vs @ rest)"
  shows "P subs"
  using assms(1)
proof (induction "length subs" arbitrary: subs rule: less_induct)
  case less
  show ?case
  proof (cases "subs = []")
    case False
    from valid_group [OF less.prems False] obtain f r n vs rest where g: "sub_request (take 7 subs) f r n"
      "length vs = unat n" "subs = take 7 subs @ regs_be vs @ rest" "validate_write_file_sub_requests rest = Ok ()"
      "file_groups subs = (f, r, vs) # file_groups rest" by metis
    note c = sub_request_cons [OF g(1)]
    have "length subs = 7 + length (regs_be vs @ rest)" by (subst g(3)) (simp add: c)
    then have "P rest" by (intro less.hyps g(4)) simp
    from step [OF g(1) [unfolded c] g(2,4) this] g(3,5) show ?thesis unfolding c by metis
  qed (use assms(2) in simp)
qed

lemma parse_write_groups_valid:
  assumes "validate_write_file_sub_requests subs = Ok ()" "length subs + 9 * length gs \<le> 251"
  shows "parse_write_groups subs gs = Ok (gs @ map group_of (file_groups subs)) \<and> (\<forall>g \<in> set (file_groups subs). group_ok g)"
  using assms
proof (induction subs arbitrary: gs rule: valid_groups_induct)
  case Nil
  then show ?case by (simp add: parse_write_groups.simps file_groups.simps)
next
  case (Group f r n vs rest)
  let ?h = "[6, u16_hi f, u16_lo f, u16_hi r, u16_lo r, u16_hi n, u16_lo n]"
  have n: "0 < unat n" "f \<noteq> 0" "unat r + unat n \<le> 10000" using Group(1) by (auto simp: sub_request_def)
  then have len: "length gs < 27" "length (regs_be vs) = 2 * unat n" using Group.hyps(2) Group.prems by auto
  have "n = of_nat (length vs)" using Group(2) by simp
  then have "parse_write_group (?h @ regs_be vs @ rest) (length gs) = Ok (group_of (f, r, vs), rest)"
    using n len
    by (auto simp: parse_write_group_def be16_at_def slice_def slice_from_def file_record_validate_range_closed
        group_of_def Let_def)
  moreover have "parse_write_groups rest (gs @ [group_of (f, r, vs)])
      = Ok ((gs @ [group_of (f, r, vs)]) @ map group_of (file_groups rest)) \<and> (\<forall>g \<in> set (file_groups rest). group_ok g)"
    using Group.hyps(2) Group.prems n len by (intro Group.IH) simp
  moreover have "group_ok (f, r, vs)" using n Group(2) by (auto simp: group_ok_def)
  ultimately show ?case unfolding Group.hyps(4) by (subst parse_write_groups.simps) simp
qed

lemma write_groups_memory:
  "InMemoryStore_wf s \<Longrightarrow> \<forall>g \<in> set gs. group_ok g \<Longrightarrow>
     write_groups InMemoryStore_DataStore (map group_of gs) s = (Ok (), s\<lparr>files := foldl write_file (files s) gs\<rparr>)
     \<and> InMemoryStore_wf (s\<lparr>files := foldl write_file (files s) gs\<rparr>)"
proof (induction gs arbitrary: s)
  case (Cons g gs)
  obtain f r vs where g: "g = (f, r, vs)" by (cases g)
  have ok: "f \<noteq> 0" "0 < length vs" "unat r + length vs \<le> 10000" using Cons.prems(2) g by (auto simp: group_ok_def)
  have n: "unat (of_nat (length vs) :: u16) = length vs" using ok(3) by (simp add: unat_of_nat take_bit_nat_eq_self)
  let ?s = "s\<lparr>files := write_file (files s) g\<rparr>"
  have eq: "write_file (files s) g
      = (files s)(f \<mapsto> overwrite (file_extended s f (unat r + length vs)) (unat r) vs)"
    by (simp add: write_file_def g file_extended_def Let_def)
  have "InMemoryStore_wf ?s"
    unfolding eq using wf_update(3) [OF Cons.prems(1) written_file_ok [OF Cons.prems(1) ok(1-3)]] by simp
  moreover have "DataStore.write_file_record_be InMemoryStore_DataStore s f r (of_nat (length vs)) (regs_be vs) = (Ok (), ?s)"
    using ok n unfolding eq by (simp add: memory_select write_file_record_be_closed)
  ultimately show ?case using Cons.IH [of ?s] Cons.prems(2) by (simp add: group_of_def g)
qed simp

lemma write_payload_valid:
  "validate_write_file_sub_requests subs = Ok () \<Longrightarrow> validate_write_file_payload subs = Ok ()"
proof (induction subs rule: valid_groups_induct)
  case Nil
  then show ?case by (simp add: validate_write_file_payload.simps)
next
  case (Group f r n vs rest)
  have "f \<noteq> 0" "0 < unat n" "unat r + unat n \<le> 10000" using Group(1) by (auto simp: sub_request_def)
  then show ?case
    using Group.hyps(2) Group.IH
    by (subst validate_write_file_payload.simps)
      (auto simp: be16_at_def rsp_check_file_record_range_def Let_def word_less_nat_alt unat_eq_zero
        usize_checked_add_def)
qed

lemma write_file_record_implements:
  assumes "InMemoryStore_wf s" "WriteFileRecordRequest_wf x"
  shows "implements did (RequestPdu.WriteFileRecord x) s
    (dispatch_request (RequestPdu.WriteFileRecord x) p u False InMemoryStore_DataStore did s)"
proof -
  let ?subs = "WriteFileRecordRequest.sub_requests x"
  have x: "9 \<le> unat (WriteFileRecordRequest.byte_count x)" "unat (WriteFileRecordRequest.byte_count x) \<le> 251"
    "length ?subs = unat (WriteFileRecordRequest.byte_count x)" "validate_write_file_sub_requests ?subs = Ok ()"
    using assms(2) by (auto simp: WriteFileRecordRequest_wf_def)
  then have "parse_write_groups ?subs [] = Ok (map group_of (file_groups ?subs)) \<and> (\<forall>g \<in> set (file_groups ?subs). group_ok g)"
    using parse_write_groups_valid [of ?subs "[]"] by simp
  then have "apply_write_file_record x InMemoryStore_DataStore s
      = (Ok (), s\<lparr>files := foldl write_file (files s) (file_groups ?subs)\<rparr>)
      \<and> InMemoryStore_wf (s\<lparr>files := foldl write_file (files s) (file_groups ?subs)\<rparr>)"
    using x(1,2) write_groups_memory [OF assms(1)] by (simp add: apply_write_file_record_def word_le_nat_alt)
  then show ?thesis
    using x write_payload_valid [OF x(4)]
    by (intro implementsI)
      (auto simp: write_reply_def res_map_def WriteFileRecordResponse_wf_alt encoded_wires)
qed

end
