(* ===== verification/Server_Properties.thy ===== *)
theory Server_Properties
  imports Device_Files
begin

text \<open>
  The properties of the server's request handler: over any data store that keeps the store contract,
  and over the in-memory store against the device.
\<close>

section \<open>Lemmas\<close>

lemma dispatch_implements:
  assumes "InMemoryStore_wf s" "request_valid r" "p = request_wire r"
  shows "implements did r s (dispatch_request r p u False InMemoryStore_DataStore did s)"
  using assms
  by (cases r)
    (simp_all add: read_coils_implements read_discrete_inputs_implements read_holding_registers_implements
      read_input_registers_implements write_single_coil_implements write_single_register_implements
      mask_write_implements write_multiple_coils_implements write_multiple_registers_implements
      read_write_multiple_implements status_implements diagnostics_implements report_server_id_implements
      read_fifo_queue_implements encapsulated_implements read_file_record_implements write_file_record_implements
      del: dispatch_request.simps)

lemma read_files_errors: "read_files fs gs used = Err e \<Longrightarrow> e \<in> {IllegalDataAddress, IllegalDataValue}"
  by (induction fs gs used rule: read_files.induct)
    (auto simp: window_def and_then_eq_Err split: if_splits option.splits)

lemma device_step_errors:
  assumes "device_step did r d = (Err e, d')"
  shows "e \<in> {IllegalFunction, IllegalDataAddress, IllegalDataValue, ServerDeviceFailure}"
  using assms
proof (cases r)
  case (ReadFileRecord x)
  then show ?thesis using assms by (auto simp: res_map_def and_then_eq_Err dest: read_files_errors)
qed (auto simp: res_map_def window_def update_def identify_def Let_def split: if_splits res.splits option.splits)

text \<open>What a client reads in an answer to function code \<open>fc\<close>.\<close>

fun answer_of :: "u8 \<Rightarrow> (ExceptionCode, ResponsePdu) res \<Rightarrow> ResponsePdu option" where
  "answer_of fc (Ok resp) = Some resp"
| "answer_of fc (Err e) = Some (ResponsePdu.Exception
     \<lparr>ExceptionResponse.function_code = FunctionCode_from_byte fc, exception_code = e\<rparr>)"
| "answer_of fc Panic = None"

lemma exception_decodes:
  assumes "FunctionCode_from_raw fc = Some f"
    "e \<in> {IllegalFunction, IllegalDataAddress, IllegalDataValue, ServerDeviceFailure}"
  shows "decode_response [fc OR 0x80, ExceptionCode_code e] = Ok (ResponsePdu.Exception
     \<lparr>ExceptionResponse.function_code = FunctionCode_from_byte fc, exception_code = e\<rparr>)"
proof -
  let ?r = "\<lparr>ExceptionResponse.function_code = FunctionCode_from_byte fc, exception_code = e\<rparr>"
  have "ExceptionResponse_valid ?r"
    using assms by (auto simp: ExceptionResponse_valid_def FunctionCode_from_raw_iff ExceptionCode_from_raw_def)
  with decode_response_complete [of "ResponsePdu.Exception ?r"] show ?thesis
    by (simp add: ExceptionResponse_wire_def FunctionCode_exception_code_def)
qed

lemma process_request_Ok:
  "decode_request p = Ok r \<Longrightarrow> process_request p u ds did s = dispatch_request r p u (is_broadcast u) ds did s"
  by (simp add: process_request_def)

text \<open>The requests whose arm calls the store on a broadcast too: the writes and Diagnostics.\<close>

fun acts_on_broadcast :: "RequestPdu \<Rightarrow> bool" where
  "acts_on_broadcast (RequestPdu.WriteSingleCoil _) = True"
| "acts_on_broadcast (RequestPdu.WriteSingleRegister _) = True"
| "acts_on_broadcast (RequestPdu.WriteMultipleCoils _) = True"
| "acts_on_broadcast (RequestPdu.WriteMultipleRegisters _) = True"
| "acts_on_broadcast (RequestPdu.MaskWriteRegister _) = True"
| "acts_on_broadcast (RequestPdu.WriteFileRecord _) = True"
| "acts_on_broadcast (RequestPdu.Diagnostics _) = True"
| "acts_on_broadcast _ = False"

lemma acts_on_broadcast_code:
  "request_valid r \<Longrightarrow>
     acts_on_broadcast r \<longleftrightarrow> request_wire r \<noteq> [] \<and> hd (request_wire r) \<in> {0x05, 0x06, 0x08, 0x0F, 0x10, 0x15, 0x16}"
  by (cases r) (auto simp: FunctionCode_from_raw_def FunctionCode_from_byte_def split: if_splits)

lemma write_reply_state: "snd (write_reply bc fc c resp) = snd c"
  by (cases c; cases "fst c") (auto simp: write_reply_def)

lemma dispatch_broadcast_state:
  "snd (dispatch_request r p b True ds did s) =
     (if acts_on_broadcast r then snd (dispatch_request r p u False ds did s) else s)"
proof (cases r)
  case (Diagnostics x)
  let ?c = "handle_diagnostics (DiagnosticsRequest.sub_function x) (DiagnosticsRequest.data x) ds s"
  show ?thesis unfolding Diagnostics by (cases ?c; cases "fst ?c") auto
qed (auto simp: write_reply_state read_reply_def split: res.split)

lemma process_request_implements:
  assumes "InMemoryStore_wf s" "decode_request p = Ok r" "\<not> is_broadcast u"
  shows "\<exists>a d s'. device_step did r (device_of s) = (a, d)
    \<and> process_request p u InMemoryStore_DataStore did s = (Ok (Some (reply_bytes (hd p) a)), s')
    \<and> decode_response (reply_bytes (hd p) a) = Ok (the (answer_of (hd p) a))
    \<and> device_of s' = d \<and> InMemoryStore_wf s' \<and> (is_ok a \<or> s' = s)"
proof -
  note r = decode_request_sound [OF assms(2)]
  obtain a d where ad: "device_step did r (device_of s) = (a, d)" by (cases "device_step did r (device_of s)")
  from dispatch_implements [OF assms(1), of r p did u] r ad obtain s' where
    s': "dispatch_request r p u False InMemoryStore_DataStore did s = (Ok (Some (reply_bytes (hd p) a)), s')"
    "InMemoryStore_wf s'" "device_of s' = d" "\<forall>e. a = Err e \<longrightarrow> s' = s" "a \<noteq> Panic" "\<forall>x. a = Ok x \<longrightarrow> response_valid x"
    by (auto simp: implements_def)
  obtain f where f: "FunctionCode_from_raw (hd p) = Some f" using assms(2) by (auto elim: decode_request_Cons)
  have "decode_response (reply_bytes (hd p) a) = Ok (the (answer_of (hd p) a))"
    using s'(5,6) exception_decodes [OF f] device_step_errors [of did r "device_of s"] ad
    by (cases a) (auto simp: decode_response_complete)
  with s' ad assms(2,3) show ?thesis by (cases a) (auto simp: process_request_Ok)
qed

lemma process_request_answers:
  assumes "data_store ds good" "good s"
  shows "\<exists>r s'. process_request p u ds did s = (Ok r, s') \<and> good s'
    \<and> (is_broadcast u \<longrightarrow> r = None) \<and> (r = None \<longrightarrow> is_broadcast u \<or> hd p = 0x08)
    \<and> (\<forall>b. r = Some b \<longrightarrow> (\<exists>fc. fc = (if p = [] then 0 else hd p)
        \<and> (hd b = fc \<and> 1 \<le> length b \<and> length b \<le> 253 \<or> (\<exists>e. b = [fc OR 0x80, ExceptionCode_code e]))))"
proof (cases "decode_request p")
  case (Ok r)
  have p: "p = request_wire r" "p \<noteq> []" using decode_request_sound [OF Ok] by (auto elim: request_wire.elims)
  have "reply_ok good (is_broadcast u) (hd p) (process_request p u ds did s)"
    unfolding process_request_Ok [OF Ok] by (rule data_store.dispatch_reply_ok [OF assms p(1)])
  then show ?thesis
    using p(2) by (cases "process_request p u ds did s"; cases "fst (process_request p u ds did s)")
      (auto simp: reply_ok_def yields_def response_ok_def)
next
  case (Err e)
  then show ?thesis
    using assms(2) by (cases p) (auto simp: process_request_def Let_def encode_exception_def get_def)
qed (simp add: decode_request_not_Panic)

section \<open>Properties\<close>

text \<open>
  C1.  Over the in-memory store, the server answers every request in the wire format the way the
  device does: the reply is the bytes of the device's answer, a client decodes exactly that answer
  from them, the store afterwards is the device's new state, its invariant still holds, and a
  refused request has changed nothing.
\<close>

theorem server_implements_device:
  assumes "InMemoryStore_wf s" "decode_request p = Ok r" "\<not> is_broadcast u"
  shows "\<exists>a d s'. device_step did r (device_of s) = (a, d)
    \<and> process_request p u InMemoryStore_DataStore did s = (Ok (Some (reply_bytes (hd p) a)), s')
    \<and> decode_response (reply_bytes (hd p) a) = Ok (the (answer_of (hd p) a))
    \<and> device_of s' = d \<and> InMemoryStore_wf s' \<and> (is_ok a \<or> s' = s)"
  by (rule process_request_implements [OF assms])

definition sample_identity :: DeviceIdentification where
  "sample_identity = \<lparr>vendor_name = [0x41], product_code = [0x42], major_minor_revision = [0x31], vendor_url = Some [0x75],
     product_name = None, model_name = None, user_application_name = None\<rparr>"

definition sample_write :: RequestPdu where
  "sample_write = RequestPdu.WriteSingleRegister
     \<lparr>WriteSingleRegisterRequest.address = 2, WriteSingleRegisterRequest.value = 0xABCD\<rparr>"

lemma sample_write_decodes: "decode_request (request_wire sample_write) = Ok sample_write"
  by (rule decode_request_complete) (simp add: sample_write_def WriteSingleRegisterRequest_wf_def)

theorem server_implements_device_witness:
  "\<exists>s'. process_request (request_wire sample_write) (UnitId 1) InMemoryStore_DataStore sample_identity small_store
      = (Ok (Some [0x06, 0, 2, 0xAB, 0xCD]), s') \<and> holding_registers s' = [0, 0, 0xABCD, 0]"
proof -
  have "holding_registers small_store = [0, 0, 0, 0]"
    by (simp add: small_store_def numeral_eq_Suc)
  moreover have "update [0, 0, 0, 0] 2 [0xABCD] = Ok [0, 0, 0xABCD :: u16, 0]"
    by (simp add: update_def overwrite_def)
  ultimately have "device_step sample_identity sample_write (device_of small_store)
      = (Ok (ResponsePdu.WriteSingleRegister
            \<lparr>WriteSingleRegisterResponse.address = 2, WriteSingleRegisterResponse.value = 0xABCD\<rparr>),
         (device_of small_store)\<lparr>dev_holding := [0, 0, 0xABCD, 0]\<rparr>)"
    by (simp add: sample_write_def)
  from server_implements_device [OF small_store_wf sample_write_decodes, of "UnitId 1" sample_identity] this
  obtain s' where s': "process_request (request_wire sample_write) (UnitId 1) InMemoryStore_DataStore sample_identity small_store
      = (Ok (Some (response_wire (ResponsePdu.WriteSingleRegister
            \<lparr>WriteSingleRegisterResponse.address = 2, WriteSingleRegisterResponse.value = 0xABCD\<rparr>))), s')"
    "device_of s' = (device_of small_store)\<lparr>dev_holding := [0, 0, 0xABCD, 0]\<rparr>"
    by (auto simp del: device_step.simps response_wire.simps)
  from s'(2) have "dev_holding (device_of s') = [0, 0, 0xABCD, 0]" by (simp del: device_of_simps)
  with s'(1) show ?thesis
    by (simp add: WriteSingleRegisterResponse_payload_def u16_to_be_bytes_def u16_hi_def u16_lo_def)
qed

text \<open>
  C35.  Whatever bytes arrive, over any store that keeps the store contract, the handler neither
  panics nor fails and keeps the store's invariant.  A broadcast is never answered; only a
  diagnostic request may otherwise go unanswered; and every answer is either a PDU of at most
  253 bytes that starts with the request's function code, or a two-byte exception for it.
\<close>

theorem server_always_answers:
  assumes "data_store ds good" "good s"
  shows "\<exists>r s'. process_request p u ds did s = (Ok r, s') \<and> good s'
    \<and> (is_broadcast u \<longrightarrow> r = None) \<and> (r = None \<longrightarrow> is_broadcast u \<or> hd p = 0x08)
    \<and> (\<forall>b. r = Some b \<longrightarrow> (\<exists>fc. fc = (if p = [] then 0 else hd p)
        \<and> (hd b = fc \<and> 1 \<le> length b \<and> length b \<le> 253 \<or> (\<exists>e. b = [fc OR 0x80, ExceptionCode_code e]))))"
  by (rule process_request_answers [OF assms])

theorem server_always_answers_witness:
  "\<exists>r s'. process_request [0x2B, 0xFF] (UnitId 1) InMemoryStore_DataStore sample_identity small_store = (Ok r, s')
     \<and> InMemoryStore_wf s' \<and> r \<noteq> None"
  using server_always_answers [OF memory.data_store_axioms small_store_wf, of "[0x2B, 0xFF]" "UnitId 1" sample_identity]
  by auto

text \<open>
  C36.  Bytes that are not the wire format of any valid request never reach the store.  Unless they
  are a broadcast they are answered by an exception with code 1, 2 or 3, which a client decodes
  as an exception to the function code that was sent.
\<close>

theorem malformed_requests_refused:
  assumes "\<forall>r. request_valid r \<longrightarrow> p \<noteq> request_wire r" "\<not> is_broadcast u"
  shows "\<exists>e. e \<in> {IllegalFunction, IllegalDataAddress, IllegalDataValue}
    \<and> process_request p u ds did s = (Ok (Some [(if p = [] then 0 else hd p) OR 0x80, ExceptionCode_code e]), s)
    \<and> (\<forall>f. p \<noteq> [] \<and> FunctionCode_from_raw (hd p) = Some f \<longrightarrow>
         decode_response [hd p OR 0x80, ExceptionCode_code e] = Ok (ResponsePdu.Exception
           \<lparr>ExceptionResponse.function_code = f, exception_code = e\<rparr>))"
proof -
  obtain x where x: "decode_request p = Err x"
    using assms(1) decode_request_sound [of p] decode_request_not_Panic [of p] by (cases "decode_request p") auto
  let ?e = "decode_error_exception x"
  have e: "?e \<in> {IllegalFunction, IllegalDataAddress, IllegalDataValue}"
    by (cases x) (simp_all add: decode_error_exception_def)
  have "decode_response [hd p OR 0x80, ExceptionCode_code ?e] = Ok (ResponsePdu.Exception
      \<lparr>ExceptionResponse.function_code = f, exception_code = ?e\<rparr>)" if "FunctionCode_from_raw (hd p) = Some f" for f
    using exception_decodes [OF that, of ?e] e that by (auto simp: FunctionCode_from_raw_iff)
  moreover have "process_request p u ds did s = (Ok (Some [(if p = [] then 0 else hd p) OR 0x80, ExceptionCode_code ?e]), s)"
    using x assms(2) by (simp add: process_request_def Let_def encode_exception_def get_def hd_conv_nth)
  ultimately show ?thesis using e by (intro exI [of _ ?e]) simp
qed

theorem malformed_requests_refused_witness:
  "\<exists>e. process_request [0x03, 0, 0, 0, 0] (UnitId 1) InMemoryStore_DataStore sample_identity small_store
     = (Ok (Some [0x83, ExceptionCode_code e]), small_store)"
proof -
  have "\<not> is_ok (decode_request [0x03, 0, 0, 0, 0])" by code_simp
  then have "\<forall>r. request_valid r \<longrightarrow> [0x03, 0, 0, 0, 0] \<noteq> request_wire r"
    using decode_request_complete by (metis is_ok.simps(1))
  from malformed_requests_refused [OF this, of "UnitId 1" InMemoryStore_DataStore sample_identity small_store]
  show ?thesis by auto
qed

text \<open>
  C37.  No broadcast is answered, whatever its bytes.  Those with the function code of a write (05, 06, 0F,
  10, 15, 16) or of Diagnostics (08) change the store exactly as the same bytes addressed to the
  server would; every other broadcast, and every broadcast that is not the wire format of a valid request,
  leaves the store untouched.
\<close>

theorem broadcast_acts_as_unicast:
  assumes "data_store ds good" "good s" "is_broadcast b" "\<not> is_broadcast u"
  shows "process_request p b ds did s
      = (Ok None, if p \<noteq> [] \<and> hd p \<in> {0x05, 0x06, 0x08, 0x0F, 0x10, 0x15, 0x16}
                  then snd (process_request p u ds did s) else s)
    \<and> ((\<forall>r. request_valid r \<longrightarrow> p \<noteq> request_wire r) \<longrightarrow> process_request p b ds did s = (Ok None, s))"
proof (cases "decode_request p")
  case (Ok r)
  then have r: "request_valid r" "p = request_wire r" using decode_request_sound by auto
  have "reply_ok good True (hd p) (dispatch_request r p b True ds did s)"
    by (rule data_store.dispatch_reply_ok [OF assms(1,2) r(2)])
  then have "fst (dispatch_request r p b True ds did s) = Ok None"
    by (cases "dispatch_request r p b True ds did s"; cases "fst (dispatch_request r p b True ds did s)")
      (auto simp: reply_ok_def yields_def)
  then have "process_request p b ds did s = (Ok None, if acts_on_broadcast r then snd (process_request p u ds did s) else s)"
    using dispatch_broadcast_state [of r p b ds did s u] Ok assms(3,4) by (simp add: process_request_Ok prod_eq_iff)
  then show ?thesis using acts_on_broadcast_code [OF r(1)] r by auto
next
  case (Err e)
  then show ?thesis using assms(3,4) by (auto simp: process_request_def Let_def)
qed (simp add: decode_request_not_Panic)

theorem broadcast_acts_as_unicast_witness:
  "process_request (request_wire sample_write) (UnitId 0) InMemoryStore_DataStore sample_identity small_store
    = (Ok None, snd (process_request (request_wire sample_write) (UnitId 1) InMemoryStore_DataStore sample_identity small_store))
   \<and> process_request [0x03, 0] (UnitId 0) InMemoryStore_DataStore sample_identity small_store = (Ok None, small_store)"
proof -
  have bc: "is_broadcast (UnitId 0)" "\<not> is_broadcast (UnitId 1)" by simp_all
  note b = broadcast_acts_as_unicast [OF memory.data_store_axioms small_store_wf bc, of _ sample_identity]
  show ?thesis using b [of "request_wire sample_write"] b [of "[0x03, 0]"] by (simp add: sample_write_def)
qed

end
