(* ===== verification/Server_Connection.thy ===== *)
theory Server_Connection
  imports Server_Properties Frame "HOL-Library.Sublist"
begin

text \<open>
  A connection of the server (\<open>server/src/server.rs\<close>): which frames are handled, the frame of a reply,
  and the loop of a connection task.  What a pass of the loop observes (the shutdown state, the frame
  that was received, whether the request was admitted, whether the reply could be sent) is an
  argument; the accept loop and the sockets are not modelled.
\<close>

section \<open>Replies\<close>

definition bounded_response_pdu :: "bytes \<Rightarrow> bytes option" where
  "bounded_response_pdu response_pdu =
     (case get response_pdu 0 of
        None \<Rightarrow> None
      | Some fc \<Rightarrow>
          if length response_pdu \<le> MAX_PDU_SIZE then Some response_pdu
          else Some [fc OR 0x80, ExceptionCode_code ServerDeviceFailure])"

definition response_frame :: "u16 \<Rightarrow> UnitId \<Rightarrow> bytes \<Rightarrow> ('e, Frame option) res" where
  "response_frame txn unit response_pdu =
     (case bounded_response_pdu response_pdu of
        None \<Rightarrow> Ok None
      | Some p \<Rightarrow>
          and_then (expect (u16_try_from (length p))) (\<lambda>pdu_len.
          and_then (MbapHeader_new txn (case unit of UnitId u \<Rightarrow> u) pdu_len) (\<lambda>hdr.
          Ok (Some \<lparr>Frame.header = Mbap hdr, Frame.pdu = p\<rparr>))))"

section \<open>The loop of a connection\<close>

datatype frame_outcome = Skip | Reply Frame | Close

definition handle_frame
  :: "UnitId \<Rightarrow> 's DataStore \<Rightarrow> DeviceIdentification \<Rightarrow> Frame \<Rightarrow> 's \<Rightarrow> ('s, frame_outcome) call" where
  "handle_frame unit store device_id frame s =
     (let request_unit_id = UnitId (Frame_unit_id frame) in
      if request_unit_id \<noteq> unit \<and> \<not> is_broadcast request_unit_id \<and> \<not> is_tcp_device request_unit_id
      then (Ok Skip, s)
      else let txn = (case Frame.header frame of Mbap h \<Rightarrow> MbapHeader.transaction_id h | Rtu _ \<Rightarrow> 0) in
      call_then (process_request (Frame.pdu frame) request_unit_id store device_id s) (\<lambda>response s.
      case response of
        None \<Rightarrow> (Ok Skip, s)
      | Some response_pdu \<Rightarrow>
          call_then (response_frame txn request_unit_id response_pdu, s) (\<lambda>f s.
          case f of None \<Rightarrow> (Ok Close, s) | Some f \<Rightarrow> (Ok (Reply f), s))))"

record connection_event =
  shutdown_seen :: bool
  received :: "Frame option"
  admitted :: bool
  send_ok :: bool

text \<open>The replies that were handed to the sink, and the store after the connection closed.\<close>

fun handle_connection
  :: "UnitId \<Rightarrow> 's DataStore \<Rightarrow> DeviceIdentification \<Rightarrow> connection_event list \<Rightarrow> 's \<Rightarrow> ('s, Frame list) call" where
  "handle_connection unit store device_id [] s = (Ok [], s)"
| "handle_connection unit store device_id (e # es) s =
     (if shutdown_seen e then (Ok [], s)
      else case received e of
        None \<Rightarrow> (Ok [], s)
      | Some frame \<Rightarrow>
          if \<not> admitted e then (Ok [], s)
          else call_then (handle_frame unit store device_id frame s) (\<lambda>r s.
            case r of
              Skip \<Rightarrow> handle_connection unit store device_id es s
            | Close \<Rightarrow> (Ok [], s)
            | Reply f \<Rightarrow>
                if send_ok e
                then call_then (handle_connection unit store device_id es s) (\<lambda>fs s. (Ok (f # fs), s))
                else (Ok [f], s)))"

section \<open>Backoff of the accept loop\<close>

text \<open>Durations in nanoseconds; doubling a delay of at most a second cannot overflow.\<close>

definition ACCEPT_BACKOFF_INITIAL :: nat where "ACCEPT_BACKOFF_INITIAL = 10 * 1000000"
definition ACCEPT_BACKOFF_MAXIMUM :: nat where "ACCEPT_BACKOFF_MAXIMUM = 1000000000"

record AcceptBackoff =
  next_delay :: nat

definition AcceptBackoff_new :: AcceptBackoff where
  "AcceptBackoff_new = \<lparr>next_delay = ACCEPT_BACKOFF_INITIAL\<rparr>"

definition AcceptBackoff_failure_delay :: "AcceptBackoff \<Rightarrow> nat \<times> AcceptBackoff" where
  "AcceptBackoff_failure_delay self =
     (next_delay self, self\<lparr>next_delay := min (next_delay self * 2) ACCEPT_BACKOFF_MAXIMUM\<rparr>)"

definition AcceptBackoff_reset :: "AcceptBackoff \<Rightarrow> AcceptBackoff" where
  "AcceptBackoff_reset self = self\<lparr>next_delay := ACCEPT_BACKOFF_INITIAL\<rparr>"

section \<open>Lemmas\<close>

lemma unit_raw: "UnitId (case unit of UnitId u \<Rightarrow> u) = unit"
  by (cases unit) simp

lemma response_frame_eq:
  assumes "1 \<le> length p" "length p \<le> 253"
  shows "response_frame txn (UnitId u) p = Ok (Some
    \<lparr>Frame.header = Mbap \<lparr>transaction_id = txn, protocol_id = 0, length_field = word_of_nat (length p) + 1, unit_id = u\<rparr>,
     Frame.pdu = p\<rparr>)"
proof -
  have "unat (word_of_nat (length p) :: u16) = length p" using assms by (simp add: unat_of_nat)
  then show ?thesis
    using assms by (cases p) (simp_all add: response_frame_def bounded_response_pdu_def get_def u16_try_from_def
        MbapHeader_new_def MbapHeader_try_new_eq)
qed

text \<open>A reply belongs to a frame: same transaction, same unit, an answer to its function.\<close>

definition replies_to :: "Frame \<Rightarrow> Frame \<Rightarrow> bool" where
  "replies_to frame f \<longleftrightarrow> (\<exists>h. Frame.header f = Mbap h \<and> protocol_id h = 0 \<and> MbapHeader.unit_id h = Frame_unit_id frame
     \<and> MbapHeader.transaction_id h = (case Frame.header frame of Mbap h \<Rightarrow> MbapHeader.transaction_id h | Rtu _ \<Rightarrow> 0)
     \<and> unat (length_field h) = length (Frame.pdu f) + 1 \<and> 1 \<le> length (Frame.pdu f) \<and> length (Frame.pdu f) \<le> 253
     \<and> (\<forall>fc p. Frame.pdu frame = fc # p \<longrightarrow> hd (Frame.pdu f) = fc \<or> hd (Frame.pdu f) = fc OR 0x80))"

text \<open>The frames a server with this unit identifier handles.\<close>

definition addressed :: "UnitId \<Rightarrow> Frame \<Rightarrow> bool" where
  "addressed unit frame \<longleftrightarrow> (let u = UnitId (Frame_unit_id frame) in u = unit \<or> is_broadcast u \<or> is_tcp_device u)"

text \<open>
  The frames it must answer (a Diagnostics request may put the device into listen-only mode, which has
  no answer), and a pass of the loop that nothing disturbs.
\<close>

definition must_answer :: "UnitId \<Rightarrow> Frame \<Rightarrow> bool" where
  "must_answer unit frame \<longleftrightarrow> addressed unit frame \<and> \<not> is_broadcast (UnitId (Frame_unit_id frame))
     \<and> (case Frame.pdu frame of [] \<Rightarrow> False | fc # _ \<Rightarrow> fc \<noteq> 0x08)"

definition undisturbed :: "connection_event \<Rightarrow> bool" where
  "undisturbed e \<longleftrightarrow> \<not> shutdown_seen e \<and> received e \<noteq> None \<and> admitted e \<and> send_ok e"

lemma handle_frame_law:
  assumes "data_store ds good" "good s"
  obtains out s' where "handle_frame unit ds did frame s = (Ok out, s')" "good s'" "out \<noteq> Close"
    "\<And>f. out = Reply f \<Longrightarrow> replies_to frame f \<and> addressed unit frame \<and> \<not> is_broadcast (UnitId (Frame_unit_id frame))"
    "out = Skip \<Longrightarrow> \<not> must_answer unit frame"
proof (cases "addressed unit frame")
  case False
  then have "handle_frame unit ds did frame s = (Ok Skip, s)" by (simp add: handle_frame_def addressed_def Let_def)
  then show ?thesis using assms(2) by (rule that) (simp_all add: False must_answer_def)
next
  case True
  let ?u = "UnitId (Frame_unit_id frame)" and ?txn = "case Frame.header frame of Mbap h \<Rightarrow> MbapHeader.transaction_id h | Rtu _ \<Rightarrow> 0"
  obtain r s' where p: "process_request (Frame.pdu frame) ?u ds did s = (Ok r, s')" "good s'" "is_broadcast ?u \<longrightarrow> r = None"
      "r = None \<longrightarrow> is_broadcast ?u \<or> hd (Frame.pdu frame) = 0x08"
    and form: "\<forall>b. r = Some b \<longrightarrow> (\<exists>fc. fc = (if Frame.pdu frame = [] then 0 else hd (Frame.pdu frame))
      \<and> (hd b = fc \<and> 1 \<le> length b \<and> length b \<le> 253 \<or> (\<exists>e. b = [fc OR 0x80, ExceptionCode_code e])))"
    using process_request_answers [OF assms, of "Frame.pdu frame" ?u did] by (elim exE conjE)
  have len: "1 \<le> length b \<and> length b \<le> 253" if "r = Some b" for b
    using form [rule_format, OF that] by (elim exE conjE disjE) simp_all
  show ?thesis
  proof (cases r)
    case None
    then have "handle_frame unit ds did frame s = (Ok Skip, s')"
      using True p(1) by (auto simp: handle_frame_def addressed_def Let_def)
    moreover have "\<not> must_answer unit frame" using None p(4) by (auto simp: must_answer_def split: list.splits)
    ultimately show ?thesis using p(2) by (intro that [of Skip s']) simp_all
  next
    case (Some b)
    let ?f = "\<lparr>Frame.header = Mbap \<lparr>transaction_id = ?txn, protocol_id = 0, length_field = word_of_nat (length b) + 1,
       unit_id = Frame_unit_id frame\<rparr>, Frame.pdu = b\<rparr>"
    have reply: "handle_frame unit ds did frame s = (Ok (Reply ?f), s')"
      using True p(1) Some len [OF Some] by (auto simp: handle_frame_def addressed_def Let_def response_frame_eq)
    have "unat (word_of_nat (length b) + 1 :: u16) = length b + 1"
    proof -
      have "(word_of_nat (length b) + 1 :: u16) = word_of_nat (length b + 1)" by simp
      moreover have "length b + 1 < 65536" using len [OF Some] by simp
      ultimately show ?thesis by (simp only: unat_u16_of_nat)
    qed
    moreover have "hd b = fc \<or> hd b = fc OR 0x80" if "Frame.pdu frame = fc # q" for fc q
      using form [rule_format, OF Some] that by auto
    ultimately have "replies_to frame ?f" using len [OF Some] by (simp add: replies_to_def)
    moreover have "\<not> is_broadcast ?u" using p(3) Some by blast
    ultimately show ?thesis using reply p(2) True by (intro that [of "Reply ?f" s']) simp_all
  qed
qed

text \<open>What a connection that sees \<open>es\<close> may return: the replies, each with the received frame it answers.\<close>

definition connection_ok
  :: "UnitId \<Rightarrow> ('s \<Rightarrow> bool) \<Rightarrow> connection_event list \<Rightarrow> ('s, Frame list) call \<Rightarrow> bool" where
  "connection_ok unit good es r \<longleftrightarrow> (\<exists>fs s' gs. r = (Ok fs, s') \<and> good s'
    \<and> subseq gs (List.map_filter received es) \<and> list_all2 replies_to gs fs
    \<and> (\<forall>g \<in> set gs. addressed unit g \<and> \<not> is_broadcast (UnitId (Frame_unit_id g)))
    \<and> (list_all undisturbed es \<longrightarrow> filter (must_answer unit) gs = filter (must_answer unit) (List.map_filter received es)))"

lemma connection_ok_stop:
  assumes "good s" "\<not> list_all undisturbed es"
  shows "connection_ok unit good es (Ok [], s)"
  unfolding connection_ok_def using assms by (auto intro: exI [of _ "[]"])

lemma connection_ok_skip:
  assumes "connection_ok unit good es r" "received e = Some frame" "\<not> must_answer unit frame"
  shows "connection_ok unit good (e # es) r"
proof -
  obtain fs s' gs where r: "r = (Ok fs, s')" "good s'" "subseq gs (List.map_filter received es)" "list_all2 replies_to gs fs"
    "\<forall>g \<in> set gs. addressed unit g \<and> \<not> is_broadcast (UnitId (Frame_unit_id g))"
    "list_all undisturbed es \<longrightarrow> filter (must_answer unit) gs = filter (must_answer unit) (List.map_filter received es)"
    using assms(1) by (auto simp: connection_ok_def)
  have mf: "List.map_filter received (e # es) = frame # List.map_filter received es"
    using assms(2) by (simp add: List.map_filter_simps)
  show ?thesis
    unfolding connection_ok_def mf
    by (intro exI [of _ fs] exI [of _ s'] exI [of _ gs]) (use r assms(3) in \<open>auto intro: list_emb_Cons\<close>)
qed

lemma connection_ok_reply:
  assumes "connection_ok unit good es r" "received e = Some frame" "replies_to frame f"
    "addressed unit frame" "\<not> is_broadcast (UnitId (Frame_unit_id frame))"
  shows "connection_ok unit good (e # es) (call_then r (\<lambda>fs s. (Ok (f # fs), s)))"
proof -
  obtain fs s' gs where r: "r = (Ok fs, s')" "good s'" "subseq gs (List.map_filter received es)" "list_all2 replies_to gs fs"
    "\<forall>g \<in> set gs. addressed unit g \<and> \<not> is_broadcast (UnitId (Frame_unit_id g))"
    "list_all undisturbed es \<longrightarrow> filter (must_answer unit) gs = filter (must_answer unit) (List.map_filter received es)"
    using assms(1) by (auto simp: connection_ok_def)
  have mf: "List.map_filter received (e # es) = frame # List.map_filter received es"
    using assms(2) by (simp add: List.map_filter_simps)
  show ?thesis
    unfolding connection_ok_def mf
    by (intro exI [of _ "f # fs"] exI [of _ s'] exI [of _ "frame # gs"]) (use r assms(3-5) in auto)
qed

lemma connection_ok_last:
  assumes "good s" "\<not> send_ok e" "received e = Some frame" "replies_to frame f"
    "addressed unit frame" "\<not> is_broadcast (UnitId (Frame_unit_id frame))"
  shows "connection_ok unit good (e # es) (Ok [f], s)"
  unfolding connection_ok_def
  by (intro exI [of _ "[f]"] exI [of _ s] exI [of _ "[frame]"])
    (use assms in \<open>auto simp: List.map_filter_simps undisturbed_def\<close>)

lemma connection_law:
  assumes "data_store ds good" "good s"
  shows "connection_ok unit good es (handle_connection unit ds did es s)"
  using assms(2)
proof (induction es arbitrary: s)
  case Nil
  then show ?case by (auto simp: connection_ok_def List.map_filter_simps)
next
  case (Cons e es)
  show ?case
  proof (cases "shutdown_seen e \<or> received e = None \<or> \<not> admitted e")
    case True
    then have "handle_connection unit ds did (e # es) s = (Ok [], s)" by (auto split: option.split)
    then show ?thesis using True Cons.prems by (auto intro!: connection_ok_stop simp: undisturbed_def)
  next
    case False
    then obtain frame where frame: "received e = Some frame" by auto
    obtain out s1 where h: "handle_frame unit ds did frame s = (Ok out, s1)" "good s1" "out \<noteq> Close"
      "\<And>f. out = Reply f \<Longrightarrow> replies_to frame f \<and> addressed unit frame \<and> \<not> is_broadcast (UnitId (Frame_unit_id frame))"
      "out = Skip \<Longrightarrow> \<not> must_answer unit frame"
      using handle_frame_law [OF assms(1) Cons.prems] by metis
    note rest = Cons.IH [OF h(2)]
    show ?thesis
    proof (cases out)
      case Skip
      then show ?thesis using False frame h(1) connection_ok_skip [OF rest frame h(5) [OF Skip]] by simp
    next
      case (Reply f)
      note f = h(4) [OF Reply]
      show ?thesis
      proof (cases "send_ok e")
        case True
        then show ?thesis using False frame h(1) Reply connection_ok_reply [OF rest frame, of f] f by simp
      next
        case unsent: False
        then show ?thesis using False frame h(1,2) Reply connection_ok_last [of good s1 e frame f unit es] f by simp
      qed
    qed (use h(3) in simp)
  qed
qed

section \<open>Properties\<close>

text \<open>
  C6.  Whatever arrives on a connection, and whenever it is shut down, the connection task does not
  panic and keeps the store's invariant, and its replies answer some of the received frames in the
  order they came, one reply at most for each: with the transaction and unit identifier of that frame,
  a length field that matches and a PDU of at most 253 bytes; broadcasts and frames for other units
  are not answered.  When nothing disturbs the connection every received frame that is addressed to the server,
  not a broadcast, non-empty and no Diagnostics request is among the answered ones.
\<close>

theorem connection_replies:
  assumes "data_store ds good" "good s"
  shows "\<exists>fs s' gs. handle_connection unit ds did es s = (Ok fs, s') \<and> good s'
    \<and> subseq gs (List.map_filter received es) \<and> list_all2 replies_to gs fs
    \<and> (\<forall>g \<in> set gs. addressed unit g \<and> \<not> is_broadcast (UnitId (Frame_unit_id g)))
    \<and> (list_all undisturbed es \<longrightarrow> filter (must_answer unit) gs = filter (must_answer unit) (List.map_filter received es))"
  by (rule connection_law [OF assms, unfolded connection_ok_def])

theorem connection_replies_witness:
  "\<exists>f s'. handle_connection (UnitId 1) InMemoryStore_DataStore sample_identity
     [\<lparr>shutdown_seen = False, received = Some \<lparr>Frame.header = Rtu 1, Frame.pdu = [7]\<rparr>, admitted = True, send_ok = True\<rparr>]
     small_store = (Ok [f], s') \<and> InMemoryStore_wf s'"
proof -
  let ?g = "\<lparr>Frame.header = Rtu 1, Frame.pdu = [7]\<rparr>"
  let ?es = "[\<lparr>shutdown_seen = False, received = Some ?g, admitted = True, send_ok = True\<rparr>]"
  obtain fs s' gs where c: "handle_connection (UnitId 1) InMemoryStore_DataStore sample_identity ?es small_store = (Ok fs, s')"
    "InMemoryStore_wf s'" "subseq gs (List.map_filter received ?es)" "list_all2 replies_to gs fs"
    "list_all undisturbed ?es \<longrightarrow> filter (must_answer (UnitId 1)) gs = filter (must_answer (UnitId 1)) (List.map_filter received ?es)"
    using connection_replies [OF memory.data_store_axioms small_store_wf, of "UnitId 1" sample_identity ?es] by blast
  have "must_answer (UnitId 1) ?g" by (simp add: must_answer_def addressed_def Frame_unit_id_def)
  then have "filter (must_answer (UnitId 1)) gs = [?g]" using c(5) by (simp add: undisturbed_def List.map_filter_simps)
  moreover have "length gs \<le> 1" using list_emb_length [OF c(3)] by (simp add: List.map_filter_simps)
  ultimately have "length gs = 1" by (cases gs) auto
  then obtain f where "fs = [f]" using list_all2_lengthD [OF c(4)] by (cases fs) auto
  then show ?thesis using c(1,2) by blast
qed

end
