(* ===== verification/Client_Server.thy ===== *)
theory Client_Server
  imports Client_Laws Client_Methods Server_Connection
begin

text \<open>
  A client and a server end to end.  The client's transport is a link that carries the frame of a
  request to the server's connection handler and its reply to the client's reader; the
  link is a \<open>Runtime\<close>, so all of the client's request engine runs on it: admission, registration,
  framing, correlation, retries and the checks of the typed methods.
\<close>

section \<open>The link\<close>

record link =
  link_store :: InMemoryStore
  link_wire :: "Frame option"

text \<open>The server takes the frame that was sent and handles it; the reader gets the reply.\<close>

definition serve :: "DeviceIdentification \<Rightarrow> UnitId \<Rightarrow> link ModbusClient \<Rightarrow> link ModbusClient" where
  "serve did unit c =
     (case link_wire (sink c) of
        None \<Rightarrow> c
      | Some frame \<Rightarrow>
          (case handle_frame unit InMemoryStore_DataStore did frame (link_store (sink c)) of
             (Ok (Reply f), s) \<Rightarrow>
               c\<lparr>sink := \<lparr>link_store = s, link_wire = None\<rparr>,
                 lifecycle := snd (reader_step (\<lambda>_. '''') (Ok f) 0 (lifecycle c))\<rparr>
           | (_, s) \<Rightarrow> c\<lparr>sink := \<lparr>link_store = s, link_wire = None\<rparr>\<rparr>))"

definition link_runtime :: "DeviceIdentification \<Rightarrow> UnitId \<Rightarrow> link Runtime" where
  "link_runtime did unit =
     \<lparr>instant_limit = DURATION_MAX,
      read_clock = (\<lambda>c. (0, c)),
      acquire_permit = (\<lambda>c. case acquire_owned (lifecycle c) of
          Some (Ok _, l) \<Rightarrow> (True, c\<lparr>lifecycle := l\<rparr>) | _ \<Rightarrow> (False, c)),
      poll_sink = (\<lambda>_ c. (Ready (), c)),
      poll_send = (\<lambda>_ frame c. (Ready (Ok ()), c\<lparr>sink := (sink c)\<lparr>link_wire := Some frame\<rparr>\<rparr>)),
      poll_reply = (\<lambda>_ c. serve did unit c),
      poll_backoff = (\<lambda>_ c. (False, c))\<rparr>"

lemma serve_config [simp]: "config (serve did unit c) = config c"
  by (auto simp: serve_def split: option.split prod.split res.split frame_outcome.split)

interpretation link: runtime "link_runtime did unit" for did unit
  by unfold_locales (auto simp: link_runtime_def split: option.split prod.split res.split)

text \<open>A client that may send a request over the link.\<close>

definition ready :: "link ModbusClient \<Rightarrow> bool" where
  "ready c \<longleftrightarrow> connected (lifecycle c) \<and> phase (lifecycle c) = Running \<and> \<not> semaphore_closed (lifecycle c)
     \<and> 0 < permits (lifecycle c) \<and> \<not> cancellation (lifecycle c) \<and> mgr_inv (client_mgr c, [])
     \<and> None \<in> set (slots (client_mgr c)) \<and> config_ok (config c) \<and> 0 < timeout (config c)
     \<and> InMemoryStore_wf (link_store (sink c))"

section \<open>One exchange\<close>

text \<open>The reply the server sends for a request, and what the client decodes from it.\<close>

lemma served_reply:
  assumes "InMemoryStore_wf s" "decode_request p = Ok r" "\<not> is_broadcast (UnitId u)" "UnitId u = unit \<or> is_tcp_device (UnitId u)"
    and frame: "frame = \<lparr>Frame.header = Mbap \<lparr>MbapHeader.transaction_id = tid, protocol_id = 0, length_field = n, MbapHeader.unit_id = u\<rparr>, Frame.pdu = p\<rparr>"
    and dev: "device_step did r (device_of s) = (a, d)"
  obtains h b s' where "handle_frame unit InMemoryStore_DataStore did frame s = (Ok (Reply \<lparr>Frame.header = Mbap h, Frame.pdu = b\<rparr>), s')"
    "MbapHeader.transaction_id h = tid" "MbapHeader.unit_id h = u"
    "OwnedResponsePdu_from_pdu b = Ok (owned (the (answer_of (hd p) a)))"
    "OwnedResponsePdu_function_code (owned (the (answer_of (hd p) a))) \<in> {hd p, hd p OR 0x80}"
    "device_of s' = d" "InMemoryStore_wf s'" "length b \<le> 253"
proof -
  obtain s' where pr: "process_request p (UnitId u) InMemoryStore_DataStore did s = (Ok (Some (reply_bytes (hd p) a)), s')"
    "decode_response (reply_bytes (hd p) a) = Ok (the (answer_of (hd p) a))" "device_of s' = d" "InMemoryStore_wf s'"
    using process_request_implements [OF assms(1-3), of did] dev by auto
  let ?b = "reply_bytes (hd p) a"
  have p: "p \<noteq> []" "hd p \<noteq> 0" using assms(2) by (auto elim!: decode_request_Cons simp: FunctionCode_from_raw_def)
  obtain fc where "fc = hd p" "hd ?b = fc \<and> 1 \<le> length ?b \<and> length ?b \<le> 253 \<or> (\<exists>e. ?b = [fc OR 0x80, ExceptionCode_code e])"
    using process_request_answers [OF memory.data_store_axioms assms(1), of p "UnitId u" did] pr(1) p(1) by auto
  then have b: "hd ?b \<in> {hd p, hd p OR 0x80}" "1 \<le> length ?b" "length ?b \<le> 253" by auto
  have "bit (hd p OR 0x80) 7" by (simp add: bit_or_iff)
  then have nz: "hd p OR 0x80 \<noteq> 0" by auto
  note resp = decode_response_sound [OF pr(2)]
  have "OwnedResponsePdu_from_pdu ?b = Ok (owned (the (answer_of (hd p) a)))"
    using from_pdu_agrees [of ?b] b p(2) nz pr(2) by (cases ?b) (auto simp: res_map_def)
  moreover have "OwnedResponsePdu_function_code (owned (the (answer_of (hd p) a))) \<in> {hd p, hd p OR 0x80}"
    using owned_function_code [of "the (answer_of (hd p) a)"] resp b(1) by simp
  moreover have "Frame_unit_id frame = u" by (simp add: frame Frame_unit_id_def)
  ultimately show ?thesis
    using that [of "\<lparr>MbapHeader.transaction_id = tid, protocol_id = 0, length_field = word_of_nat (length ?b) + 1, MbapHeader.unit_id = u\<rparr>" ?b s']
      assms(3,4) pr b
    by (auto simp: handle_frame_def frame Let_def response_frame_eq)
qed

text \<open>The manager around an exchange: the request is registered, answered and gone.\<close>

definition registration :: "TransactionId \<Rightarrow> nat \<Rightarrow> UnitId \<Rightarrow> FunctionCode \<Rightarrow> Instant \<Rightarrow> TransactionManager \<Rightarrow> TransactionManager \<Rightarrow> bool" where
  "registration tid ch u fc dl m m1 \<longleftrightarrow> mgr_step\<^sup>*\<^sup>* (m, []) (m1, []) \<and> slots m ! (unat tid mod 16) = None
     \<and> reuse_safety m1 = reuse_safety m \<and> slots m1 = (slots m)[unat tid mod 16 := Some
         \<lparr>txn_id = tid, sender = ch, sent_at = 0, deadline = dl, expected = \<lparr>ExpectedResponse.unit_id = u, function_code = fc\<rparr>\<rparr>]"

lemma register_free:
  assumes inv: "mgr_inv (m, [])" and free: "None \<in> set (slots m)"
  obtains tid ch m1 where "register_guarded u fc dl 0 m = Some (Ok (\<lparr>registration_id = tid\<rparr>, ch), m1)"
    "registration tid ch u fc dl m m1"
proof -
  have len: "length (slots m) = 16" using inv by (simp add: slots_ok_def)
  obtain r m1 where reg: "register u fc dl 0 m = Some (r, m1)" "registered u fc dl 0 m r m1" "mgr_step\<^sup>*\<^sup>* (m, []) (m1, [])"
    using register_law [OF len] by metis
  obtain i where i: "i < 16" "slots m ! i = None" using free len by (auto simp: in_set_conv_nth)
  then obtain tid ch where r: "r = Ok (tid, ch)" using reg(2) by (cases r) (auto simp: registered_def)
  have "register_guarded u fc dl 0 m = Some (Ok (\<lparr>registration_id = tid\<rparr>, ch), m1)"
    using reg(1) r by (simp add: register_guarded_def)
  moreover have "registration tid ch u fc dl m m1" using reg(2,3) r by (simp add: registered_def registration_def)
  ultimately show ?thesis by (rule that)
qed

lemma complete_registered:
  assumes reg: "registration tid ch u fc dl m m1" and inv: "mgr_inv (m, [])" and dl: "0 < dl"
    and resp: "OwnedResponsePdu_from_pdu b = Ok resp"
      "OwnedResponsePdu_function_code resp \<in> {FunctionCode_code fc, FunctionCode_code fc OR 0x80}"
  obtains m2 where "complete_response tid u b 0 m1 = (Ok Delivered, m2)" "inbox m2 ch = Some (Ok resp)"
    "TransactionRegistration_drop \<lparr>registration_id = tid\<rparr> m2 = m2"
    "mgr_inv (m2, [])" "slots m2 = slots m" "reuse_safety m2 = reuse_safety m"
proof -
  let ?i = "unat tid mod 16"
  let ?m2 = "send_reply ch (Ok resp) (notify_one (set_slot ?i None m1))"
  have len: "length (slots m) = 16" using inv by (simp add: slots_ok_def)
  have complete: "complete_response tid u b 0 m1 = (Ok Delivered, ?m2)"
    using reg len dl resp by (auto simp: registration_def complete_response_unfold finish_response_def deliver_response_def Let_def)
  have "mgr_step\<^sup>*\<^sup>* (m, []) (?m2, [])"
    using reg complete_response_run [of m1 "[]" tid u b 0] complete by (auto simp: registration_def)
  then have inv2: "mgr_inv (?m2, [])" using steps_inv inv by blast
  have "slots ?m2 = (slots m)[?i := slots m ! ?i]" using reg by (simp add: registration_def)
  then have same: "slots ?m2 = slots m" by simp
  have "TransactionRegistration_drop \<lparr>registration_id = tid\<rparr> ?m2 = ?m2"
    using same reg by (simp add: registration_def TransactionRegistration_drop_def remove_unfold Let_def del: manager_ops_simps)
  moreover have "reuse_safety ?m2 = reuse_safety m"
    using reg by (simp add: registration_def send_reply_def notify_one_def set_slot_def)
  moreover have "inbox ?m2 ch = Some (Ok resp)" by simp
  ultimately show ?thesis using that [of ?m2] complete inv2 same by blast
qed

lemma link_send_request:
  assumes conn: "connected (lifecycle c)" and inv: "mgr_inv (client_mgr c, [])" and free: "None \<in> set (slots (client_mgr c))"
    and wf: "InMemoryStore_wf (link_store (sink c))" and dl: "0 < dl"
    and req: "decode_request p = Ok r" "FunctionCode_code fc = hd p" "\<not> is_broadcast (UnitId u)" "UnitId u = unit \<or> is_tcp_device (UnitId u)"
    and len: "unat pdu_len \<le> 253" and dev: "device_step did r (device_of (link_store (sink c))) = (a, d)"
  obtains s' m2 where "send_request (link_runtime did unit) (UnitId u) fc p pdu_len dl c =
      (Ok (owned (the (answer_of (hd p) a))), c\<lparr>sink := \<lparr>link_store = s', link_wire = None\<rparr>, lifecycle := (lifecycle c)\<lparr>txn_mgr := m2\<rparr>\<rparr>)"
    "device_of s' = d" "InMemoryStore_wf s'" "mgr_inv (m2, [])" "slots m2 = slots (client_mgr c)"
    "reuse_safety m2 = reuse_safety (client_mgr c)"
proof -
  let ?resp = "owned (the (answer_of (hd p) a))"
  obtain tid ch m1 where reg: "register_guarded (UnitId u) fc dl 0 (client_mgr c) = Some (Ok (\<lparr>registration_id = tid\<rparr>, ch), m1)"
    "registration tid ch (UnitId u) fc dl (client_mgr c) m1" by (rule register_free [OF inv free])
  let ?frame = "\<lparr>Frame.header = Mbap \<lparr>MbapHeader.transaction_id = tid, protocol_id = 0, length_field = pdu_len + 1, MbapHeader.unit_id = u\<rparr>, Frame.pdu = p\<rparr>"
  obtain h b s' where reply: "handle_frame unit InMemoryStore_DataStore did ?frame (link_store (sink c))
        = (Ok (Reply \<lparr>Frame.header = Mbap h, Frame.pdu = b\<rparr>), s')"
      "MbapHeader.transaction_id h = tid" "MbapHeader.unit_id h = u" "OwnedResponsePdu_from_pdu b = Ok ?resp"
      "OwnedResponsePdu_function_code ?resp \<in> {FunctionCode_code fc, FunctionCode_code fc OR 0x80}"
      "device_of s' = d" "InMemoryStore_wf s'"
    using served_reply [OF wf req(1,3,4) refl dev, of tid "pdu_len + 1"] req(2) by metis
  obtain m2 where m2: "complete_response tid (UnitId u) b 0 m1 = (Ok Delivered, m2)" "inbox m2 ch = Some (Ok ?resp)"
    "TransactionRegistration_drop \<lparr>registration_id = tid\<rparr> m2 = m2"
    "mgr_inv (m2, [])" "slots m2 = slots (client_mgr c)" "reuse_safety m2 = reuse_safety (client_mgr c)"
    by (rule complete_registered [OF reg(2) inv dl reply(4,5)])
  have hdr: "MbapHeader_new tid u pdu_len = (Ok \<lparr>MbapHeader.transaction_id = tid, protocol_id = 0, length_field = pdu_len + 1, MbapHeader.unit_id = u\<rparr> :: (ClientError, MbapHeader) res)"
    using len by (simp add: MbapHeader_new_def MbapHeader_try_new_eq)
  have "send_request (link_runtime did unit) (UnitId u) fc p pdu_len dl c =
      (Ok ?resp, c\<lparr>sink := \<lparr>link_store = s', link_wire = None\<rparr>, lifecycle := (lifecycle c)\<lparr>txn_mgr := m2\<rparr>\<rparr>)"
    using conn reg(1) hdr reply(1-3) m2
    by (simp add: send_request_def link_runtime_def dispatch_request_frame_def Let_def serve_def on_mgr_def client_mgr_def
        transaction_id_def reader_step_def drop_guards_def DispatchGuard_armed_def DispatchGuard_disarm_def DispatchGuard_drop_def)
  then show ?thesis using reply(6,7) m2(4-6) by (rule that)
qed

lemma link_simps [simp]:
  "instant_limit (link_runtime did unit) = DURATION_MAX" "read_clock (link_runtime did unit) c = (0, c)"
  by (simp_all add: link_runtime_def)

lemma changed_Ok: "changed x f resp d = (Ok r, d') \<Longrightarrow> r = resp"
  by (cases x) auto

lemma device_step_not_Panic:
  assumes "InMemoryStore_wf s" "decode_request p = Ok r" "device_step did r (device_of s) = (a, d)"
  shows "a \<noteq> Panic"
  using dispatch_implements [OF assms(1), of r p did] decode_request_sound [OF assms(2)] assms(3)
  by (simp add: implements_def)

lemma answer_not_busy:
  assumes "device_step did r d = (a, d')" "a \<noteq> Panic"
  shows "\<not> may_replay cfg req_kind (Ok (owned (the (answer_of fc a))))"
proof (cases a)
  case (Ok resp)
  have "exception_code e \<noteq> ServerDeviceBusy" if "resp = ResponsePdu.Exception e" for e
    using assms(1) Ok that by (cases r) (auto simp: res_map_def and_then_eq_Ok dest: changed_Ok split: res.splits option.splits if_splits)
  then show ?thesis using Ok by (cases resp) (auto simp: may_replay_def busy_def)
next
  case (Err e)
  then show ?thesis using device_step_errors [of did r d e d'] assms(1) by (auto simp: may_replay_def busy_def)
qed (use assms(2) in simp)

lemma decode_request_bound: "decode_request p = Ok r \<Longrightarrow> p \<noteq> [] \<and> length p \<le> 253"
  by (elim decode_request_Cons) auto

text \<open>The loop of attempts of an admitted client: one attempt, answered by the device.\<close>

lemma link_retry_loop:
  assumes c: "connected (lifecycle c)" "\<not> cancellation (lifecycle c)" "mgr_inv (client_mgr c, [])" "None \<in> set (slots (client_mgr c))"
      "InMemoryStore_wf (link_store (sink c))" "config_ok (config c)" "0 < timeout (config c)"
    and req: "decode_request p = Ok r" "FunctionCode_code fc = hd p" "\<not> is_broadcast (UnitId u)" "UnitId u = unit \<or> is_tcp_device (UnitId u)"
    and dev: "device_step did r (device_of (link_store (sink c))) = (a, d)" and od: "0 < od"
  obtains as s' m2 where "retry_loop (link_runtime did unit) (UnitId u) fc p (word_of_nat (length p)) req_kind od 0 None c =
      (Ok (owned (the (answer_of (hd p) a))), as, c\<lparr>sink := \<lparr>link_store = s', link_wire = None\<rparr>, lifecycle := (lifecycle c)\<lparr>txn_mgr := m2\<rparr>\<rparr>)"
    "device_of s' = d" "InMemoryStore_wf s'" "mgr_inv (m2, [])" "slots m2 = slots (client_mgr c)"
    "reuse_safety m2 = reuse_safety (client_mgr c)"
proof -
  let ?R = "link_runtime did unit" and ?cfg = "config c" and ?resp = "owned (the (answer_of (hd p) a))"
  have len: "unat (word_of_nat (length p) :: u16) \<le> 253" using decode_request_bound [OF req(1)] by (simp add: unat_u16_of_nat)
  define dl where "dl = min (min (timeout ?cfg) DURATION_MAX) od"
  have dl: "saturating_instant_add DURATION_MAX 0 (timeout ?cfg) = Some (min (timeout ?cfg) DURATION_MAX)" "0 < dl"
    using saturating_instant_add_eq [of 0 DURATION_MAX "timeout ?cfg"] c od by (auto simp: dl_def config_ok_def DURATION_MAX_def)
  obtain s' m2 where sr: "send_request ?R (UnitId u) fc p (word_of_nat (length p)) dl c =
      (Ok ?resp, c\<lparr>sink := \<lparr>link_store = s', link_wire = None\<rparr>, lifecycle := (lifecycle c)\<lparr>txn_mgr := m2\<rparr>\<rparr>)"
    "device_of s' = d" "InMemoryStore_wf s'" "mgr_inv (m2, [])" "slots m2 = slots (client_mgr c)"
    "reuse_safety m2 = reuse_safety (client_mgr c)"
    by (rule link_send_request [OF c(1,3-5) dl(2) req len dev])
  define c2 where "c2 = c\<lparr>sink := \<lparr>link_store = s', link_wire = None\<rparr>, lifecycle := (lifecycle c)\<lparr>txn_mgr := m2\<rparr>\<rparr>"
  have "a \<noteq> Panic" by (rule device_step_not_Panic [OF c(5) req(1) dev])
  then have "\<not> may_replay (retry ?cfg) req_kind (Ok ?resp)" by (rule answer_not_busy [OF dev])
  then have cl: "classify_attempt (retry ?cfg) req_kind (Ok ?resp) = Complete (Ok ?resp)"
    using classify_attempt_cases [of "retry ?cfg" req_kind "Ok ?resp"] by blast
  let ?a = "\<lparr>attempt_deadline = dl, outcome = Ok ?resp\<rparr>"
  have "after_attempt ?R req_kind od 1 ?a c2 = Finished (Ok ?resp) [?a] c2"
    using cl by (simp add: after_attempt_def c2_def)
  then have "retry_iteration ?R (UnitId u) fc p (word_of_nat (length p)) req_kind od 0 None c = Finished (Ok ?resp) [?a] c2"
    using sr(1) c(2) od dl(1) by (simp add: retry_iteration_def OperationGuard_is_cancelled_def dl_def [symmetric] c2_def Let_def)
  then have "retry_loop ?R (UnitId u) fc p (word_of_nat (length p)) req_kind od 0 None c = (Ok ?resp, [?a], c2)"
    by (simp add: retry_loop.simps [of ?R])
  then show ?thesis using sr(2-6) unfolding c2_def by (rule that)
qed

text \<open>A whole call of \<open>send_with_retry\<close>: one attempt, the device's answer, and a client that is ready again.\<close>

lemma link_send:
  assumes rdy: "ready c"
    and req: "decode_request p = Ok r" "FunctionCode_code fc = hd p" "\<not> is_broadcast (UnitId u)" "UnitId u = unit \<or> is_tcp_device (UnitId u)"
    and dev: "device_step did r (device_of (link_store (sink c))) = (a, d)"
  obtains c' where "send (link_runtime did unit) (UnitId u) fc p req_kind c = (Ok (owned (the (answer_of (hd p) a))), c')"
    "ready c'" "device_of (link_store (sink c')) = d" "reuse_safety (client_mgr c') = reuse_safety (client_mgr c)"
proof -
  let ?R = "link_runtime did unit" and ?cfg = "config c" and ?l = "lifecycle c" and ?resp = "owned (the (answer_of (hd p) a))"
  let ?c1 = "c\<lparr>lifecycle := ?l\<lparr>permits := permits ?l - 1, active := active ?l + 1\<rparr>\<rparr>"
  note r = rdy [unfolded ready_def]
  have pl: "checked_pdu_length (length p) = Ok (word_of_nat (length p))"
    using decode_request_bound [OF req(1)] by (simp add: checked_pdu_length_def u16_try_from_def)
  have ad: "admit_operation ?R c = (Ok (), ?c1)"
    using r by (simp add: admit_operation_def admit_check_def link_runtime_def acquire_owned_def admit_enter_def)
  define od where "od = min (operation_budget (timeout ?cfg) (retry_delay (retry ?cfg)) (max_retries (retry ?cfg))) DURATION_MAX"
  have od: "saturating_instant_add DURATION_MAX 0 (operation_budget (timeout ?cfg) (retry_delay (retry ?cfg)) (max_retries (retry ?cfg))) = Some od"
    using saturating_instant_add_eq [OF _ operation_budget_bound, of 0 DURATION_MAX] by (simp add: od_def)
  have pos: "0 < od" using r by (auto simp: od_def operation_budget_def Duration_saturating_add_def DURATION_MAX_def)
  have same: "client_mgr ?c1 = client_mgr c" "sink ?c1 = sink c" by (simp_all add: client_mgr_def)
  have c1: "connected (lifecycle ?c1)" "\<not> cancellation (lifecycle ?c1)" "mgr_inv (client_mgr ?c1, [])" "None \<in> set (slots (client_mgr ?c1))"
    "InMemoryStore_wf (link_store (sink ?c1))" "config_ok (config ?c1)" "0 < timeout (config ?c1)"
    "device_step did r (device_of (link_store (sink ?c1))) = (a, d)"
    using r dev by (simp_all only: same) simp_all
  obtain as s' m2 where loop: "retry_loop ?R (UnitId u) fc p (word_of_nat (length p)) req_kind od 0 None ?c1 =
      (Ok ?resp, as, ?c1\<lparr>sink := \<lparr>link_store = s', link_wire = None\<rparr>, lifecycle := (lifecycle ?c1)\<lparr>txn_mgr := m2\<rparr>\<rparr>)"
    "device_of s' = d" "InMemoryStore_wf s'" "mgr_inv (m2, [])" "slots m2 = slots (client_mgr ?c1)"
    "reuse_safety m2 = reuse_safety (client_mgr ?c1)"
    by (rule link_retry_loop [OF c1(1-7) req c1(8) pos])
  define c2 where "c2 = ?c1\<lparr>sink := \<lparr>link_store = s', link_wire = None\<rparr>, lifecycle := (lifecycle ?c1)\<lparr>txn_mgr := m2\<rparr>\<rparr>"
  have "send ?R (UnitId u) fc p req_kind c = (Ok ?resp, end_operation c2)"
    using r pl ad od loop(1) by (simp add: send_def send_with_retry_def Let_def c2_def)
  moreover have "ready (end_operation c2)"
    using r loop(3-5) by (auto simp: ready_def c2_def end_operation_def OperationGuard_drop_def client_mgr_def Let_def)
  moreover have "device_of (link_store (sink (end_operation c2))) = d" "reuse_safety (client_mgr (end_operation c2)) = reuse_safety (client_mgr c)"
    using loop(2,6) by (simp_all add: c2_def end_operation_def OperationGuard_drop_def client_mgr_def Let_def)
  ultimately show ?thesis by (rule that)
qed

section \<open>The typed methods over the link\<close>

text \<open>What a method returns when the device answers with \<open>r\<close>.\<close>

fun client_result :: "FunctionCode \<Rightarrow> (ExceptionCode, 'a) res \<Rightarrow> (ClientError, 'a) res" where
  "client_result fc (Ok x) = Ok x"
| "client_result fc (Err e) = Err (ClientError.Exception \<lparr>ExceptionResponse.function_code = fc, exception_code = e\<rparr>)"
| "client_result fc Panic = Panic"

abbreviation client_device :: "link ModbusClient \<Rightarrow> device" where
  "client_device c \<equiv> device_of (link_store (sink c))"

text \<open>The units a server answers on this link.\<close>

definition served :: "UnitId \<Rightarrow> UnitId \<Rightarrow> bool" where
  "served unit u \<longleftrightarrow> \<not> is_broadcast u \<and> (u = unit \<or> is_tcp_device u)"

text \<open>A method call whose result is \<open>r\<close>, that leaves the device in state \<open>d\<close> and the client ready.\<close>

definition performs :: "(ClientError, 'a) res \<times> link ModbusClient \<Rightarrow> (ClientError, 'a) res \<Rightarrow> device \<Rightarrow> bool" where
  "performs call r d \<longleftrightarrow> fst call = r \<and> ready (snd call) \<and> client_device (snd call) = d"

lemma request_bytes_Ok:
  assumes "encodable enc elen ok img" "ok r" "elen r \<le> length buf"
  shows "request_bytes (enc r buf) = Ok (img r)"
  using encodable.encode_ok [OF assms] encodable.wire_length [OF assms(1,2)]
  by (simp add: request_bytes_def encode_request_def slice_def)

lemma link_call:
  assumes "ready c" "served unit u" "request_valid r" "FunctionCode_code fc = hd (request_wire r)"
    "device_step did r (client_device c) = (a, d)"
  obtains c' where "send (link_runtime did unit) u fc (request_wire r) req_kind c = (Ok (owned (the (answer_of (FunctionCode_code fc) a))), c')"
    "ready c'" "client_device c' = d"
proof -
  obtain n where u: "u = UnitId n" by (cases u)
  then have "\<not> is_broadcast (UnitId n)" "UnitId n = unit \<or> is_tcp_device (UnitId n)" using assms(2) by (simp_all add: served_def)
  from link_send [OF assms(1) decode_request_complete [OF assms(3)] assms(4) this assms(5)]
  show ?thesis unfolding u assms(4) using that [unfolded u assms(4)] by metis
qed

lemma window_length: "window xs a q = Ok ys \<Longrightarrow> length ys = unat q"
  by (auto simp: window_def split: if_splits)

lemma window_not_Panic: "window xs a q \<noteq> Panic"
  by (simp add: window_def)

lemma finish_Ok [simp]: "finish_typed_response (Ok x) c = (Ok x, c)"
  by (simp add: finish_typed_response_def)

lemma finish_Exception [simp]: "finish_typed_response (Err (ClientError.Exception e)) c = (Err (ClientError.Exception e), c)"
  by (simp add: finish_typed_response_def)

lemma registers_of_bytes [simp]: "map (\<lambda>c. u16_from_be_bytes (c ! 0) (c ! Suc 0)) (chunks_exact 2 (regs_be rs)) = rs"
  using be_regs_chunks [of "regs_be rs"] by simp

lemma collect_values_Ok: "(\<And>i. i \<in> set is \<Longrightarrow> f i = Ok (g i)) \<Longrightarrow> collect_values f is = Ok (map g is)"
  by (induction "is") auto

lemma packed_shape:
  assumes "length bs = unat q"
  shows "validate_bit_response_shape fc q (pack_bits bs) = Ok ()"
proof (cases "unat q mod 8 = 0")
  case True
  then show ?thesis by (simp add: validate_bit_response_shape_def validate_response_length_def assms Let_def)
next
  case False
  let ?k = "unat q mod 8" and ?i = "div_ceil (unat q) 8 - 1"
  have i: "?i < div_ceil (length bs) 8" "?i = unat q div 8" "div_ceil (unat q) 8 = Suc ?i" "unat q = 8 * ?i + ?k"
    using False assms by (simp_all add: div_ceil_def)
  have "pack_bits bs ! ?i AND push_bit ?k 0xFF = 0"
  proof (rule bit_word_eqI)
    fix n assume "n < LENGTH(8)"
    then have "bit (pack_bits bs ! ?i) n \<longleftrightarrow> 8 * ?i + n < unat q \<and> bs ! (8 * ?i + n)"
      using pack_bits_bit [OF i(1), of n] assms by simp
    moreover have "\<not> 8 * ?i + n < unat q" if "?k \<le> n" using i(4) that by linarith
    ultimately show "bit (pack_bits bs ! ?i AND push_bit ?k 0xFF) n = bit (0 :: u8) n" by (auto simp: bit_and_iff bit_push_bit_iff)
  qed
  then show ?thesis
    using False i assms by (simp add: validate_bit_response_shape_def validate_response_length_def Let_def usize_sub_def at_def)
qed

lemma collect_packed:
  assumes "length bs = n" "\<And>i. i < n \<Longrightarrow> f i = Ok (bit (pack_bits bs ! (i div 8)) (i mod 8))"
  shows "collect_values f [0..<n] = Ok bs"
proof -
  have "f i = Ok (bs ! i)" if "i \<in> set [0..<n]" for i
    using assms(2) [of i] that pack_bits_bit [of "i div 8" bs "i mod 8"] assms(1) by (auto simp: div_ceil_8_index)
  then have "collect_values f [0..<n] = Ok (map (nth bs) [0..<n])" by (rule collect_values_Ok)
  then show ?thesis using map_nth [of bs] assms(1) by simp
qed

lemma read_holding_registers_link:
  assumes "ready c" "served unit u" "q \<noteq> 0" "q \<le> 125"
  shows "performs (read_holding_registers (link_runtime did unit) u addr q c)
    (client_result FunctionCode.ReadHoldingRegisters (window (dev_holding (client_device c)) addr q)) (client_device c)"
proof -
  let ?q = "\<lparr>ReadHoldingRegistersRequest.address = addr, quantity = q\<rparr>"
  let ?r = "RequestPdu.ReadHoldingRegisters ?q"
  have v: "request_valid ?r" using assms(3,4) by (simp add: ReadHoldingRegistersRequest_wf_def)
  have raw: "request_bytes (ReadHoldingRegistersRequest_encode_into ?q (replicate 5 0)) = Ok (request_wire ?r)"
    using request_bytes_Ok [OF read_holding_registers_rq.encodable_axioms, of ?q "replicate 5 0"] v
    by (simp add: ReadHoldingRegistersRequest_encoded_len_def)
  obtain a where dev: "device_step did ?r (client_device c) = (a, client_device c)" by simp
  obtain c' where c': "send (link_runtime did unit) u FunctionCode.ReadHoldingRegisters (request_wire ?r) ReplaySafe c
      = (Ok (owned (the (answer_of 3 a))), c')" "ready c'" "client_device c' = client_device c"
    using link_call [OF assms(1,2) v _ dev, of FunctionCode.ReadHoldingRegisters ReplaySafe] by auto
  have "\<not> is_broadcast u" using assms(2) by (simp add: served_def)
  then show ?thesis
    using c' dev raw
    by (cases "window (dev_holding (client_device c)) addr q")
      (auto simp: performs_def read_holding_registers_def window_not_Panic FunctionCode_from_byte_def
        validate_register_response_shape_def validate_response_length_def OwnedReadHoldingRegistersResponse_registers_def
        dest!: window_length simp del: request_wire.simps)
qed

lemma read_input_registers_link:
  assumes "ready c" "served unit u" "q \<noteq> 0" "q \<le> 125"
  shows "performs (read_input_registers (link_runtime did unit) u addr q c)
    (client_result FunctionCode.ReadInputRegisters (window (dev_registers (client_device c)) addr q)) (client_device c)"
proof -
  let ?q = "\<lparr>ReadInputRegistersRequest.address = addr, quantity = q\<rparr>"
  let ?r = "RequestPdu.ReadInputRegisters ?q"
  have v: "request_valid ?r" using assms(3,4) by (simp add: ReadInputRegistersRequest_wf_def)
  have raw: "request_bytes (ReadInputRegistersRequest_encode_into ?q (replicate 5 0)) = Ok (request_wire ?r)"
    using request_bytes_Ok [OF read_input_registers_rq.encodable_axioms, of ?q "replicate 5 0"] v
    by (simp add: ReadInputRegistersRequest_encoded_len_def)
  obtain a where dev: "device_step did ?r (client_device c) = (a, client_device c)" by simp
  obtain c' where c': "send (link_runtime did unit) u FunctionCode.ReadInputRegisters (request_wire ?r) ReplaySafe c
      = (Ok (owned (the (answer_of 4 a))), c')" "ready c'" "client_device c' = client_device c"
    using link_call [OF assms(1,2) v _ dev, of FunctionCode.ReadInputRegisters ReplaySafe] by auto
  have "\<not> is_broadcast u" using assms(2) by (simp add: served_def)
  then show ?thesis
    using c' dev raw
    by (cases "window (dev_registers (client_device c)) addr q")
      (auto simp: performs_def read_input_registers_def window_not_Panic FunctionCode_from_byte_def
        validate_register_response_shape_def validate_response_length_def OwnedReadInputRegistersResponse_registers_def
        dest!: window_length simp del: request_wire.simps)
qed

lemma read_coils_link:
  assumes "ready c" "served unit u" "q \<noteq> 0" "q \<le> 2000"
  shows "performs (read_coils (link_runtime did unit) u addr q c)
    (client_result FunctionCode.ReadCoils (window (dev_coils (client_device c)) addr q)) (client_device c)"
proof -
  let ?q = "\<lparr>ReadCoilsRequest.address = addr, quantity = q\<rparr>"
  let ?r = "RequestPdu.ReadCoils ?q"
  have v: "request_valid ?r" using assms(3,4) by (simp add: ReadCoilsRequest_wf_def)
  have raw: "request_bytes (ReadCoilsRequest_encode_into ?q (replicate 5 0)) = Ok (request_wire ?r)"
    using request_bytes_Ok [OF read_coils_rq.encodable_axioms, of ?q "replicate 5 0"] v
    by (simp add: ReadCoilsRequest_encoded_len_def)
  obtain a where dev: "device_step did ?r (client_device c) = (a, client_device c)" by simp
  obtain c' where c': "send (link_runtime did unit) u FunctionCode.ReadCoils (request_wire ?r) ReplaySafe c
      = (Ok (owned (the (answer_of 1 a))), c')" "ready c'" "client_device c' = client_device c"
    using link_call [OF assms(1,2) v _ dev, of FunctionCode.ReadCoils ReplaySafe] by auto
  have "\<not> is_broadcast u" using assms(2) by (simp add: served_def)
  then show ?thesis
    using c' dev raw
    by (cases "window (dev_coils (client_device c)) addr q")
      (auto simp: performs_def read_coils_def window_not_Panic FunctionCode_from_byte_def
        packed_shape collect_packed OwnedReadCoilsResponse_coil_def at_def low_bit_test div_ceil_8_index
        dest!: window_length simp del: request_wire.simps)
qed

lemma read_discrete_inputs_link:
  assumes "ready c" "served unit u" "q \<noteq> 0" "q \<le> 2000"
  shows "performs (read_discrete_inputs (link_runtime did unit) u addr q c)
    (client_result FunctionCode.ReadDiscreteInputs (window (dev_inputs (client_device c)) addr q)) (client_device c)"
proof -
  let ?q = "\<lparr>ReadDiscreteInputsRequest.address = addr, quantity = q\<rparr>"
  let ?r = "RequestPdu.ReadDiscreteInputs ?q"
  have v: "request_valid ?r" using assms(3,4) by (simp add: ReadDiscreteInputsRequest_wf_def)
  have raw: "request_bytes (ReadDiscreteInputsRequest_encode_into ?q (replicate 5 0)) = Ok (request_wire ?r)"
    using request_bytes_Ok [OF read_discrete_inputs_rq.encodable_axioms, of ?q "replicate 5 0"] v
    by (simp add: ReadDiscreteInputsRequest_encoded_len_def)
  obtain a where dev: "device_step did ?r (client_device c) = (a, client_device c)" by simp
  obtain c' where c': "send (link_runtime did unit) u FunctionCode.ReadDiscreteInputs (request_wire ?r) ReplaySafe c
      = (Ok (owned (the (answer_of 2 a))), c')" "ready c'" "client_device c' = client_device c"
    using link_call [OF assms(1,2) v _ dev, of FunctionCode.ReadDiscreteInputs ReplaySafe] by auto
  have "\<not> is_broadcast u" using assms(2) by (simp add: served_def)
  then show ?thesis
    using c' dev raw
    by (cases "window (dev_inputs (client_device c)) addr q")
      (auto simp: performs_def read_discrete_inputs_def window_not_Panic FunctionCode_from_byte_def
        packed_shape collect_packed OwnedReadDiscreteInputsResponse_coil_def at_def low_bit_test div_ceil_8_index
        dest!: window_length simp del: request_wire.simps)
qed

end
