(* ===== verification/Client_Device.thy ===== *)
theory Client_Device
  imports Client_Server
begin

text \<open>
  The writes of the client over the link: the bytes the client packs are those the device unpacks, a
  write replaces the addressed entries of the device's table, and a refused one comes back as
  the device's exception and changes nothing.  At the end, a client connected to a small store.
\<close>

section \<open>The bytes of a write\<close>

lemma register_value_bytes_Ok: "register_value_bytes vs = Ok (regs_be vs)"
proof -
  let ?P = "\<lambda>i s. s = regs_be (take i vs) @ replicate (2 * (length vs - i)) 0"
  let ?f = "\<lambda>(i, v) out. copy_at out (i * 2) (i * 2 + 2) (u16_to_be_bytes v)"
  have "\<exists>s'. for_fold ?f (enumerate 0 vs) (replicate (length vs * 2) 0) = Ok s' \<and> ?P (length (enumerate 0 vs)) s'"
  proof (rule for_fold_invariant)
    fix i s assume i: "i < length (enumerate 0 vs)" and s: "?P i s"
    then have "2 * (length vs - i) = Suc (Suc (2 * (length vs - Suc i)))" by simp
    moreover have "regs_be (take (Suc i) vs) = regs_be (take i vs) @ u16_to_be_bytes (vs ! i)"
      using i by (simp add: regs_be_def take_Suc_conv_app_nth)
    ultimately show "\<exists>s'. ?f (enumerate 0 vs ! i) s = Ok s' \<and> ?P (Suc i) s'"
      using i s by (simp add: nth_enumerate_eq)
  qed (simp add: regs_be_def mult.commute)
  then show ?thesis by (simp add: register_value_bytes_def)
qed

lemma pack_coil_values_Ok: "pack_coil_values vs (replicate (div_ceil (length vs) 8) 0) = (Ok (pack_bits vs) :: ('e, bytes) res)"
proof -
  let ?n = "div_ceil (length vs) 8"
  let ?P = "\<lambda>i s. length s = ?n \<and> (\<forall>j < ?n. \<forall>k < 8. bit (s ! j :: u8) k \<longleftrightarrow> 8 * j + k < i \<and> vs ! (8 * j + k))"
  let ?f = "\<lambda>(i, v) out. if v then and_then (at out (i div 8)) (\<lambda>b. put_at out (i div 8) (b OR push_bit (i mod 8) 1)) else (Ok out :: ('e, bytes) res)"
  have "\<exists>s'. for_fold ?f (enumerate 0 vs) (replicate ?n 0) = Ok s' \<and> ?P (length (enumerate 0 vs)) s'"
  proof (rule for_fold_invariant)
    fix i s assume i: "i < length (enumerate 0 vs)" and s: "?P i s"
    then have d: "i div 8 < ?n" by (simp add: div_ceil_8_index)
    have k: "8 * j + k < Suc i \<longleftrightarrow> 8 * j + k < i \<or> j = i div 8 \<and> k = i mod 8" if "k < 8" for j k :: nat
    proof -
      have "i = 8 * j + k \<Longrightarrow> j = i div 8 \<and> k = i mod 8" using that by simp
      moreover have "8 * (i div 8) + i mod 8 = i" by (rule mult_div_mod_eq)
      ultimately show ?thesis by (metis less_Suc_eq)
    qed
    show "\<exists>s'. ?f (enumerate 0 vs ! i) s = Ok s' \<and> ?P (Suc i) s'"
    proof (cases "vs ! i")
      case True
      let ?s = "s[i div 8 := s ! (i div 8) OR push_bit (i mod 8) 1]"
      have "bit (?s ! j) k \<longleftrightarrow> 8 * j + k < Suc i \<and> vs ! (8 * j + k)" if "j < ?n" "k < 8" for j k
        using s that d True k [OF that(2), of j]
        by (cases "j = i div 8") (auto simp: bit_simps)
      then show ?thesis using i s d True by (auto simp: nth_enumerate_eq)
    next
      case False
      then show ?thesis using i s k by (auto simp: nth_enumerate_eq)
    qed
  qed simp
  then obtain s where s: "for_fold ?f (enumerate 0 vs) (replicate ?n 0) = Ok s" "?P (length vs) s" by auto
  have "s = pack_bits vs"
    by (rule pack_bits_eqI) (use s(2) in \<open>auto simp: div_ceil_8_index\<close>)
  then show ?thesis using s(1) by (simp add: pack_coil_values_def)
qed

section \<open>Writes over the link\<close>

text \<open>The device after a change that may be refused.\<close>

definition changed_device :: "(ExceptionCode, 'a) res \<Rightarrow> ('a \<Rightarrow> device) \<Rightarrow> device \<Rightarrow> device" where
  "changed_device x f d = (case x of Ok y \<Rightarrow> f y | _ \<Rightarrow> d)"

lemma changed_pair: "changed x f resp d = (res_map (\<lambda>_. resp) x, changed_device x f d)"
  by (cases x) (simp_all add: changed_device_def res_map_def)

lemma update_not_Panic: "update xs a vs \<noteq> Panic"
  by (simp add: update_def)

text \<open>A register with the bits of a mask kept and the others taken from a second mask.\<close>

definition masked_update :: "u16 list \<Rightarrow> u16 \<Rightarrow> u16 \<Rightarrow> u16 \<Rightarrow> (ExceptionCode, u16 list) res" where
  "masked_update xs a am om = and_then (window xs a 1) (\<lambda>old. update xs a [(hd old AND am) OR (om AND NOT am)])"

lemma masked_update_not_Panic: "masked_update xs a am om \<noteq> Panic"
  by (auto simp: masked_update_def window_def update_def)

lemma write_single_register_link:
  assumes "ready c" "served unit u"
  shows "performs (write_single_register (link_runtime did unit) u addr v c)
    (client_result FunctionCode.WriteSingleRegister (res_map (\<lambda>_. ()) (update (dev_holding (client_device c)) addr [v])))
    (changed_device (update (dev_holding (client_device c)) addr [v]) (\<lambda>x. (client_device c)\<lparr>dev_holding := x\<rparr>) (client_device c))"
proof -
  let ?q = "\<lparr>WriteSingleRegisterRequest.address = addr, value = v\<rparr>"
  let ?r = "RequestPdu.WriteSingleRegister ?q" and ?upd = "update (dev_holding (client_device c)) addr [v]"
  have v: "request_valid ?r" by (simp add: WriteSingleRegisterRequest_wf_def)
  have raw: "request_bytes (WriteSingleRegisterRequest_encode_into ?q (replicate 5 0)) = Ok (request_wire ?r)"
    using request_bytes_Ok [OF write_single_register_rq.encodable_axioms, of ?q "replicate 5 0"] v
    by (simp add: WriteSingleRegisterRequest_encoded_len_def)
  obtain a where dev: "device_step did ?r (client_device c) = (a, changed_device ?upd (\<lambda>x. (client_device c)\<lparr>dev_holding := x\<rparr>) (client_device c))"
    "a = res_map (\<lambda>_. ResponsePdu.WriteSingleRegister \<lparr>WriteSingleRegisterResponse.address = addr, value = v\<rparr>) ?upd"
    by (simp add: changed_pair)
  obtain c' where c': "send (link_runtime did unit) u FunctionCode.WriteSingleRegister (request_wire ?r) Mutating c
      = (Ok (owned (the (answer_of 6 a))), c')" "ready c'"
      "client_device c' = changed_device ?upd (\<lambda>x. (client_device c)\<lparr>dev_holding := x\<rparr>) (client_device c)"
    using link_call [OF assms(1,2) v _ dev(1), of FunctionCode.WriteSingleRegister Mutating] by auto
  have "\<not> is_broadcast u" using assms(2) by (simp add: served_def)
  then show ?thesis
    using c' dev(2) raw
    by (cases ?upd) (auto simp: performs_def write_single_register_def FunctionCode_from_byte_def expect_echo_def Let_def res_map_def
        update_not_Panic simp del: request_wire.simps)
qed

lemma write_single_coil_link:
  assumes "ready c" "served unit u"
  shows "performs (write_single_coil (link_runtime did unit) u addr v c)
    (client_result FunctionCode.WriteSingleCoil (res_map (\<lambda>_. ()) (update (dev_coils (client_device c)) addr [v])))
    (changed_device (update (dev_coils (client_device c)) addr [v]) (\<lambda>x. (client_device c)\<lparr>dev_coils := x\<rparr>) (client_device c))"
proof -
  let ?q = "\<lparr>WriteSingleCoilRequest.address = addr, value = CoilValue_from_bool v\<rparr>"
  let ?r = "RequestPdu.WriteSingleCoil ?q" and ?upd = "update (dev_coils (client_device c)) addr [v]"
  have v: "request_valid ?r" by (simp add: WriteSingleCoilRequest_wf_def)
  have raw: "request_bytes (WriteSingleCoilRequest_encode_into ?q (replicate 5 0)) = Ok (request_wire ?r)"
    using request_bytes_Ok [OF write_single_coil_rq.encodable_axioms, of ?q "replicate 5 0"] v
    by (simp add: WriteSingleCoilRequest_encoded_len_def)
  obtain a where dev: "device_step did ?r (client_device c) = (a, changed_device ?upd (\<lambda>x. (client_device c)\<lparr>dev_coils := x\<rparr>) (client_device c))"
    "a = res_map (\<lambda>_. ResponsePdu.WriteSingleCoil \<lparr>WriteSingleCoilResponse.address = addr, value = CoilValue_from_bool v\<rparr>) ?upd"
    by (simp add: changed_pair)
  obtain c' where c': "send (link_runtime did unit) u FunctionCode.WriteSingleCoil (request_wire ?r) Mutating c
      = (Ok (owned (the (answer_of 5 a))), c')" "ready c'"
      "client_device c' = changed_device ?upd (\<lambda>x. (client_device c)\<lparr>dev_coils := x\<rparr>) (client_device c)"
    using link_call [OF assms(1,2) v _ dev(1), of FunctionCode.WriteSingleCoil Mutating] by auto
  have "\<not> is_broadcast u" using assms(2) by (simp add: served_def)
  then show ?thesis
    using c' dev(2) raw
    by (cases ?upd) (auto simp: performs_def write_single_coil_def FunctionCode_from_byte_def expect_echo_def Let_def res_map_def
        update_not_Panic simp del: request_wire.simps)
qed

lemma mask_write_register_link:
  assumes "ready c" "served unit u"
  shows "performs (mask_write_register (link_runtime did unit) u addr am om c)
    (client_result FunctionCode.MaskWriteRegister (res_map (\<lambda>_. ()) (masked_update (dev_holding (client_device c)) addr am om)))
    (changed_device (masked_update (dev_holding (client_device c)) addr am om) (\<lambda>x. (client_device c)\<lparr>dev_holding := x\<rparr>) (client_device c))"
proof -
  let ?q = "\<lparr>MaskWriteRegisterRequest.address = addr, and_mask = am, or_mask = om\<rparr>"
  let ?r = "RequestPdu.MaskWriteRegister ?q" and ?upd = "masked_update (dev_holding (client_device c)) addr am om"
  have v: "request_valid ?r" by (simp add: MaskWriteRegisterRequest_wf_def)
  have raw: "request_bytes (MaskWriteRegisterRequest_encode_into ?q (replicate 7 0)) = Ok (request_wire ?r)"
    using request_bytes_Ok [OF mask_write_register_rq.encodable_axioms, of ?q "replicate 7 0"] v
    by (simp add: MaskWriteRegisterRequest_encoded_len_def)
  obtain a where dev: "device_step did ?r (client_device c) = (a, changed_device ?upd (\<lambda>x. (client_device c)\<lparr>dev_holding := x\<rparr>) (client_device c))"
    "a = res_map (\<lambda>_. ResponsePdu.MaskWriteRegister \<lparr>MaskWriteRegisterResponse.address = addr, and_mask = am, or_mask = om\<rparr>) ?upd"
    by (simp add: changed_pair masked_update_def)
  obtain c' where c': "send (link_runtime did unit) u FunctionCode.MaskWriteRegister (request_wire ?r) Mutating c
      = (Ok (owned (the (answer_of 22 a))), c')" "ready c'"
      "client_device c' = changed_device ?upd (\<lambda>x. (client_device c)\<lparr>dev_holding := x\<rparr>) (client_device c)"
    using link_call [OF assms(1,2) v _ dev(1), of FunctionCode.MaskWriteRegister Mutating] by auto
  have "\<not> is_broadcast u" using assms(2) by (simp add: served_def)
  then show ?thesis
    using c' dev(2) raw
    by (cases ?upd) (auto simp: performs_def mask_write_register_def FunctionCode_from_byte_def expect_echo_def Let_def res_map_def
        masked_update_not_Panic simp del: request_wire.simps)
qed

lemma write_multiple_registers_link:
  assumes "ready c" "served unit u" "vs \<noteq> []" "length vs \<le> 123"
  shows "performs (write_multiple_registers (link_runtime did unit) u addr vs c)
    (client_result FunctionCode.WriteMultipleRegisters (res_map (\<lambda>_. ()) (update (dev_holding (client_device c)) addr vs)))
    (changed_device (update (dev_holding (client_device c)) addr vs) (\<lambda>x. (client_device c)\<lparr>dev_holding := x\<rparr>) (client_device c))"
proof -
  let ?q = "\<lparr>WriteMultipleRegistersRequest.address = addr, quantity = word_of_nat (length vs), byte_count = word_of_nat (length vs * 2), register_values = regs_be vs\<rparr>"
  let ?r = "RequestPdu.WriteMultipleRegisters ?q" and ?upd = "update (dev_holding (client_device c)) addr vs"
  have n: "unat (word_of_nat (length vs) :: u16) = length vs" "unat (word_of_nat (length vs * 2) :: u8) = length vs * 2"
    using assms(4) unat_u8_of_nat [of "length vs * 2"] by (simp_all add: unat_u16_of_nat)
  have len: "checked_quantity_len (length vs) MAX_WRITE_MULTIPLE_REGISTERS = Ok (word_of_nat (length vs))"
    "checked_byte_count_len (length vs * 2) = Ok (word_of_nat (length vs * 2))"
    using assms(3,4) by (simp_all add: checked_quantity_len_def checked_byte_count_len_def checked_byte_count_value_def
        u16_try_from_def MAX_WRITE_MULTIPLE_REGISTERS_def Let_def)
  have v: "request_valid ?r" using assms(3,4) n by (simp add: WriteMultipleRegistersRequest_wf_def word_le_nat_alt unat_eq_0 [symmetric])
  have raw: "request_bytes (WriteMultipleRegistersRequest_encode_into ?q (replicate 256 0)) = Ok (request_wire ?r)"
    using request_bytes_Ok [OF write_multiple_registers_rq.encodable_axioms, of ?q "replicate 256 0"] v assms(4)
    by (simp add: WriteMultipleRegistersRequest_encoded_len_def)
  obtain a where dev: "device_step did ?r (client_device c) = (a, changed_device ?upd (\<lambda>x. (client_device c)\<lparr>dev_holding := x\<rparr>) (client_device c))"
    "a = res_map (\<lambda>_. ResponsePdu.WriteMultipleRegisters \<lparr>WriteMultipleRegistersResponse.address = addr, quantity = word_of_nat (length vs)\<rparr>) ?upd"
    by (simp add: changed_pair)
  obtain c' where c': "send (link_runtime did unit) u FunctionCode.WriteMultipleRegisters (request_wire ?r) Mutating c
      = (Ok (owned (the (answer_of 16 a))), c')" "ready c'"
      "client_device c' = changed_device ?upd (\<lambda>x. (client_device c)\<lparr>dev_holding := x\<rparr>) (client_device c)"
    using link_call [OF assms(1,2) v _ dev(1), of FunctionCode.WriteMultipleRegisters Mutating] by auto
  have "\<not> is_broadcast u" using assms(2) by (simp add: served_def)
  then show ?thesis
    using c' dev(2) raw len
    by (cases ?upd) (auto simp: performs_def write_multiple_registers_def FunctionCode_from_byte_def expect_echo_def Let_def res_map_def register_value_bytes_Ok
        update_not_Panic simp del: request_wire.simps)
qed

lemma write_multiple_coils_link:
  assumes "ready c" "served unit u" "vs \<noteq> []" "length vs \<le> 1968"
  shows "performs (write_multiple_coils (link_runtime did unit) u addr vs c)
    (client_result FunctionCode.WriteMultipleCoils (res_map (\<lambda>_. ()) (update (dev_coils (client_device c)) addr vs)))
    (changed_device (update (dev_coils (client_device c)) addr vs) (\<lambda>x. (client_device c)\<lparr>dev_coils := x\<rparr>) (client_device c))"
proof -
  let ?q = "\<lparr>WriteMultipleCoilsRequest.address = addr, quantity = word_of_nat (length vs), byte_count = word_of_nat (div_ceil (length vs) 8), coil_values = pack_bits vs\<rparr>"
  let ?r = "RequestPdu.WriteMultipleCoils ?q" and ?upd = "update (dev_coils (client_device c)) addr vs"
  have d: "div_ceil (length vs) 8 \<le> 246" using div_ceil_8_index [of 246 "length vs"] assms(4) by linarith
  then have n: "unat (word_of_nat (length vs) :: u16) = length vs" "unat (word_of_nat (div_ceil (length vs) 8) :: u8) = div_ceil (length vs) 8"
    using assms(4) by (simp_all add: unat_u16_of_nat unat_u8_of_nat)
  have len: "checked_quantity_len (length vs) MAX_WRITE_MULTIPLE_COILS = Ok (word_of_nat (length vs))"
    "checked_byte_count_len (div_ceil (length vs) 8) = Ok (word_of_nat (div_ceil (length vs) 8))"
    using assms(3,4) d by (simp_all add: checked_quantity_len_def checked_byte_count_len_def checked_byte_count_value_def
        u16_try_from_def MAX_WRITE_MULTIPLE_COILS_def Let_def)
  have v: "request_valid ?r" using assms(3,4) n by (simp add: WriteMultipleCoilsRequest_wf_def word_le_nat_alt unat_eq_0 [symmetric])
  have raw: "request_bytes (WriteMultipleCoilsRequest_encode_into ?q (replicate 256 0)) = Ok (request_wire ?r)"
    using request_bytes_Ok [OF write_multiple_coils_rq.encodable_axioms, of ?q "replicate 256 0"] v d
    by (simp add: WriteMultipleCoilsRequest_encoded_len_def)
  obtain a where dev: "device_step did ?r (client_device c) = (a, changed_device ?upd (\<lambda>x. (client_device c)\<lparr>dev_coils := x\<rparr>) (client_device c))"
    "a = res_map (\<lambda>_. ResponsePdu.WriteMultipleCoils \<lparr>WriteMultipleCoilsResponse.address = addr, quantity = word_of_nat (length vs)\<rparr>) ?upd"
    by (simp add: changed_pair unpack_pack_bits n)
  obtain c' where c': "send (link_runtime did unit) u FunctionCode.WriteMultipleCoils (request_wire ?r) Mutating c
      = (Ok (owned (the (answer_of 15 a))), c')" "ready c'"
      "client_device c' = changed_device ?upd (\<lambda>x. (client_device c)\<lparr>dev_coils := x\<rparr>) (client_device c)"
    using link_call [OF assms(1,2) v _ dev(1), of FunctionCode.WriteMultipleCoils Mutating] by auto
  have "\<not> is_broadcast u" using assms(2) by (simp add: served_def)
  then show ?thesis
    using c' dev(2) raw len n
    by (cases ?upd) (auto simp: performs_def write_multiple_coils_def FunctionCode_from_byte_def expect_echo_def Let_def res_map_def pack_coil_values_Ok
        update_not_Panic simp del: request_wire.simps)
qed

section \<open>A client of a small store\<close>

definition sample_client :: "link ModbusClient" where
  "sample_client = from_transport \<lparr>link_store = small_store, link_wire = None\<rparr> ClientConfig_default"

lemma sample_client_ready: "ready sample_client"
  using new_inv small_store_wf
  by (simp add: ready_def sample_client_def from_transport_def client_mgr_def install_tasks_def ClientLifecycle_new_def
      ClientConfig_default_def RetryConfig_default_def config_ok_def TransactionManager_new_def DURATION_MAX_def
      Duration_from_secs_def Duration_from_millis_def)

lemma sample_served: "served (UnitId 1) (UnitId 1)"
  by (simp add: served_def)

lemma sample_registers: "holding_registers (link_store (sink sample_client)) = [0, 0, 0, 0]"
  by (simp add: sample_client_def from_transport_def small_store_def numeral_eq_Suc)

theorem retry_policy_witness:
  "\<exists>r as c'. send_with_retry (link_runtime sample_identity (UnitId 1)) (UnitId 1) FunctionCode.ReadCoils [1, 0, 0, 0, 1] ReplaySafe sample_client
     = (r, as, c') \<and> length as \<le> 4"
proof -
  obtain r as c' where s: "send_with_retry (link_runtime sample_identity (UnitId 1)) (UnitId 1) FunctionCode.ReadCoils [1, 0, 0, 0, 1] ReplaySafe sample_client
     = (r, as, c')" by (rule prod_cases3)
  have "config_ok (config sample_client)" using sample_client_ready by (simp add: ready_def)
  from retry_policy [OF link.runtime_axioms this s] s show ?thesis
    by (auto simp: sample_client_def from_transport_def ClientConfig_default_def RetryConfig_default_def)
qed

end
