(* ===== verification/Spec2Isabelle.thy ===== *)
theory Spec2Isabelle
  imports Codec_Roundtrip Validate Crc Frame_Stream Transaction_Tasks Client_Device
begin

text \<open>
  A verification development for \<open>rusty-modbus\<close>, a Modbus stack in Rust.  A client call travels
  through these parts of the program, each modelled by a group of theories: a typed method builds a
  request, the request engine admits it and retries it, the transaction manager gives it an
  identifier, the codec turns it into a PDU, the frame layer puts the PDU on a byte stream, the server's
  connection loop hands the PDU to the request handler, the handler works on the data store, and the response
  goes the same way back.  All paths below are under \<open>src/crates/\<close>.

  \<^bold>\<open>Vocabulary.\<close>  \<open>Prelude\<close>: the outcome \<open>Ok\<close>, \<open>Err\<close> or \<open>Panic\<close> of Rust code (every index, slice, \<open>expect\<close> and
  checked conversion that can panic has a \<open>Panic\<close> branch), slices as lists, words for the machine
  integers, byte order, loops with early return and their invariant rule.  \<open>Modbus_Types\<close>:
  \<open>rusty-modbus-types\<close>, the protocol constants, codes and the MBAP header.

  \<^bold>\<open>Codec\<close> (\<open>rusty-modbus-codec\<close>).  \<open>Codec_Error\<close> has the errors, the guards and the locales \<open>encodable\<close>, \<open>pdu_codec\<close> and
  \<open>exact_codec\<close> for the contract of a message struct; \<open>Request_Bits\<close>, \<open>Request_Regs\<close>, \<open>Request_Misc\<close>
  and \<open>Response_Data\<close>, \<open>Response_Echo\<close>, \<open>Response_Misc\<close>, \<open>Response_File\<close>, \<open>Response_Device_Id\<close> model the structs of
  \<open>request/\<close> and \<open>response/\<close> with \<open>decode\<close> and \<open>encode_into\<close> and interpret the locales on them;
  \<open>Codec_Decode\<close> is \<open>pdu.rs\<close> and \<open>decode.rs\<close>, \<open>Validate\<close> is \<open>validate.rs\<close>.  Shown: each dispatcher accepts exactly the wire
  images of the valid messages, whose validity is stated by the field ranges and layouts of the protocol,
  and is the inverse of encoding (for exception responses, stated for the exception codes the
  protocol defines); nothing panics on any input; the iterator over device-identification objects
  ends with the objects of the response.  What the validators check is a lemma of \<open>Validate\<close>; the doc comments of
  \<open>validate.rs\<close> give another bound.

  \<^bold>\<open>Frames\<close> (\<open>rusty-modbus-frame\<close>).  \<open>Crc\<close> is \<open>crc.rs\<close>; \<open>Frame\<close> is \<open>frame.rs\<close>, \<open>mbap.rs\<close> and \<open>rtu.rs\<close>; \<open>Rtu_Tcp\<close> is
  \<open>rtu_tcp.rs\<close> with its strict and its compatibility framing; \<open>Owned_Response\<close> is \<open>owned.rs\<close>.  Shown: the table-driven
  CRC is the bit-serial one and detects bursts within two bytes, frames round-trip, the strict
  framing agrees with the codec on the length of every message, the scanner finds the first valid
  prefix, and, from the locale \<open>stream_decoder\<close> of \<open>Frame_Stream\<close>, what a reader decodes does not depend on
  how the stream was cut.  The byte layout of the MBAP header is code of the \<open>zerocopy\<close> crate: a
  parameter with the contract \<open>mbap_layout\<close>, interpreted on the packed big-endian layout.

  \<^bold>\<open>Server\<close> (\<open>rusty-modbus-server\<close>).  \<open>Store_Helpers\<close>, \<open>Data_Store\<close>, \<open>Bit_Table\<close> and \<open>Memory_Store\<close> model
  \<open>store/\<close>: the trait as a record of operations over a state, its provided methods, the packed bit table and the
  in-memory store; \<open>Store_Laws\<close> has the contract \<open>data_store\<close>, interpreted on that store, and
  the refinement of bit tables to lists of bits.  \<open>Server_Device_Id\<close> and \<open>Server_Handler\<close> are \<open>device_id.rs\<close> and
  \<open>handler.rs\<close>; \<open>Handler_Laws\<close> shows that over any store with the contract a request is answered without a panic.
  \<open>Device_Spec\<close> says what a Modbus device is over plain lists, and with \<open>Device_Files\<close> and \<open>Server_Properties\<close> shows
  that the handler over the in-memory store implements it.  \<open>Server_Connection\<close> is the
  connection loop of \<open>server.rs\<close>: each request is answered at most once, in order, and the ones that must be answered are.

  \<^bold>\<open>Client\<close> (\<open>rusty-modbus-client\<close>).  \<open>Client_Session\<close> is \<open>error.rs\<close> and \<open>session.rs\<close>; \<open>Transaction\<close> is
  \<open>transaction.rs\<close>, its operations composed of the sections that run under the lock of one slot; \<open>Transaction_Laws\<close>
  shows of each operation that registering ends, that a response reaches only its request and that deadlines are
  enforced.  \<open>Transaction_Tasks\<close> interleaves the sections of any number of senders, readers, schedulers and
  shutdowns as an inductive step relation with a log of what happened: in every reachable state each reply is
  explained by an event after its request was registered, no request is lost, and no reply is replaced.  \<open>Client_Lifecycle\<close> is \<open>lifecycle.rs\<close>, \<open>Client_Engine\<close> is \<open>client.rs\<close>, \<open>config.rs\<close> and
  \<open>reader.rs\<close>, \<open>Client_Methods\<close> is \<open>methods/\<close>.  Clock, semaphore wait, sink lock, send, reply and
  backoff are the fields of the argument \<open>Runtime\<close>: what such a wait returns, and what the other
  tasks did to the client meanwhile.  \<open>Client_Laws\<close> proves the retry policy for every runtime that keeps
  the configuration (locale \<open>runtime\<close>).

  \<^bold>\<open>End to end.\<close>  \<open>Client_Server\<close> connects the client to a server of the in-memory store: its runtime \<open>link_runtime\<close>
  sends a frame to \<open>handle_frame\<close> and gives the reply to the reader, with no loss and no
  delay (an interpretation of \<open>runtime\<close>).  With \<open>Client_Device\<close> it shows for each typed read and write what the
  caller gets and what becomes of the device; the theorems below collect that.

  \<^bold>\<open>Termination, bounds and fuel.\<close>  Loops over data are structural or have a measure.  The two unbounded searches (the free slot in
  \<open>register\<close>, the bisection in \<open>saturating_instant_add\<close>) are partial functions that are
  shown to return.  The retry loop ends because its counter is a saturating \<open>u32\<close> compared with its maximum.  The
  iterator over device identification objects ends because each object takes bytes off its data.  The
  reader of a byte stream in \<open>Frame_Stream\<close> is run for one frame more than there are bytes, which is
  enough since a frame takes at least one.  \<open>usize\<close> and \<open>Duration\<close> are \<open>nat\<close>, a duration with its saturation written out.

  \<^bold>\<open>Not modelled.\<close>  Sockets, serial lines and their timing, and TLS (\<open>rusty-modbus-tcp\<close>, \<open>rusty-modbus-rtu\<close>,
  \<open>rusty-modbus-tls\<close>): input and output of the operating system and of libraries.  The accept loop and the lifecycle of the
  server, the connection pool and the gateway: management of tasks and connections over
  those.  The simulator, the command line, the Python bindings and the benchmarks: user interfaces over the modelled
  crates.  Logging and \<open>Display\<close> output.  Of the client's lifecycle the operations are modelled, but no
  theorem is stated about their interleavings.
\<close>

section \<open>The device through the client\<close>

text \<open>
  C3.  Reading through the client.  Over a connection to a server of an in-memory store, a client that
  is ready (connected and running, with a free permit and a free transaction slot) and reads a legal number of
  coils, discrete inputs, holding registers or input registers of a unit the server answers for gets
  exactly the addressed entries of the server's table, or, where the range leaves the table, the
  device's exception \<open>IllegalDataAddress\<close> for the function called; the device is unchanged and the
  client is ready again.
\<close>

theorem client_reads_device:
  assumes "ready c" "served unit u" "q \<noteq> 0"
  shows "(q \<le> 2000 \<longrightarrow>
        performs (read_coils (link_runtime did unit) u addr q c)
          (client_result FunctionCode.ReadCoils (window (dev_coils (client_device c)) addr q)) (client_device c)
      \<and> performs (read_discrete_inputs (link_runtime did unit) u addr q c)
          (client_result FunctionCode.ReadDiscreteInputs (window (dev_inputs (client_device c)) addr q)) (client_device c))
    \<and> (q \<le> 125 \<longrightarrow>
        performs (read_holding_registers (link_runtime did unit) u addr q c)
          (client_result FunctionCode.ReadHoldingRegisters (window (dev_holding (client_device c)) addr q)) (client_device c)
      \<and> performs (read_input_registers (link_runtime did unit) u addr q c)
          (client_result FunctionCode.ReadInputRegisters (window (dev_registers (client_device c)) addr q)) (client_device c))"
  by (intro conjI impI read_coils_link read_discrete_inputs_link read_holding_registers_link
      read_input_registers_link assms)

theorem client_reads_device_witness:
  "fst (read_holding_registers (link_runtime sample_identity (UnitId 1)) (UnitId 1) 1 3 sample_client) = Ok [0, 0, 0]"
  using client_reads_device [OF sample_client_ready sample_served, of 3 sample_identity 1]
  by (simp add: performs_def sample_registers window_def)

text \<open>
  C5.  Writing through the client.  Over the same connection a single or multiple write of coils or registers and
  a masked write succeed exactly when the range lies in the server's table, and then the
  addressed entries of the device are the values passed to the client and nothing else of it
  has changed; else the client gets the device's exception for the function called and the device is
  unchanged.  The client is ready again in both cases.
\<close>

theorem client_writes_device:
  assumes "ready c" "served unit u"
  shows "performs (write_single_coil (link_runtime did unit) u addr b c)
          (client_result FunctionCode.WriteSingleCoil (res_map (\<lambda>_. ()) (update (dev_coils (client_device c)) addr [b])))
          (changed_device (update (dev_coils (client_device c)) addr [b]) (\<lambda>x. (client_device c)\<lparr>dev_coils := x\<rparr>) (client_device c))
    \<and> performs (write_single_register (link_runtime did unit) u addr v c)
          (client_result FunctionCode.WriteSingleRegister (res_map (\<lambda>_. ()) (update (dev_holding (client_device c)) addr [v])))
          (changed_device (update (dev_holding (client_device c)) addr [v]) (\<lambda>x. (client_device c)\<lparr>dev_holding := x\<rparr>) (client_device c))
    \<and> performs (mask_write_register (link_runtime did unit) u addr am om c)
          (client_result FunctionCode.MaskWriteRegister (res_map (\<lambda>_. ()) (masked_update (dev_holding (client_device c)) addr am om)))
          (changed_device (masked_update (dev_holding (client_device c)) addr am om) (\<lambda>x. (client_device c)\<lparr>dev_holding := x\<rparr>) (client_device c))
    \<and> (bs \<noteq> [] \<and> length bs \<le> 1968 \<longrightarrow> performs (write_multiple_coils (link_runtime did unit) u addr bs c)
          (client_result FunctionCode.WriteMultipleCoils (res_map (\<lambda>_. ()) (update (dev_coils (client_device c)) addr bs)))
          (changed_device (update (dev_coils (client_device c)) addr bs) (\<lambda>x. (client_device c)\<lparr>dev_coils := x\<rparr>) (client_device c)))
    \<and> (vs \<noteq> [] \<and> length vs \<le> 123 \<longrightarrow> performs (write_multiple_registers (link_runtime did unit) u addr vs c)
          (client_result FunctionCode.WriteMultipleRegisters (res_map (\<lambda>_. ()) (update (dev_holding (client_device c)) addr vs)))
          (changed_device (update (dev_holding (client_device c)) addr vs) (\<lambda>x. (client_device c)\<lparr>dev_holding := x\<rparr>) (client_device c)))"
  using write_single_coil_link [OF assms] write_single_register_link [OF assms] mask_write_register_link [OF assms]
    write_multiple_coils_link [OF assms] write_multiple_registers_link [OF assms] by blast

theorem client_writes_device_witness:
  "fst (write_multiple_registers (link_runtime sample_identity (UnitId 1)) (UnitId 1) 2 [7, 8] sample_client) = Ok ()
   \<and> dev_holding (client_device (snd (write_multiple_registers (link_runtime sample_identity (UnitId 1)) (UnitId 1) 2 [7, 8] sample_client)))
       = [0, 0, 7, 8]"
  using client_writes_device [OF sample_client_ready sample_served, of sample_identity 2 True 0 0 0 "[True]" "[7, 8]"]
  by (simp add: performs_def sample_registers update_def changed_device_def overwrite_def res_map_def)

end
